(* ===== verification/Prelude.thy ===== *)
theory Prelude
  imports Main "HOL-Library.Word" "HOL-Library.AList" "HOL-Library.Sublist"
begin

text \<open>
  What every component shares: the outcome of a Rust function (a value, an error value of its
  \<open>Result\<close>, or a panic of an \<open>assert!\<close>, \<open>expect\<close> or \<open>unreachable!\<close>), programs as state
  transformers that end in such an outcome, the early return of the \<open>?\<close> operator, and the
  rules by which the component theories reason about them: elimination rules for runs that
  succeed, and a triple \<open>keeps\<close> for what every run preserves, failing runs included.
  Standard-library containers: a \<open>HashMap\<close> is an association list with distinct keys, read by
  \<open>hm_get\<close> and written by \<open>hm_insert\<close>.
\<close>

section \<open>Outcomes\<close>

datatype ('e, 'a) outcome = Ok (ok_val: 'a) | Err (err_val: 'e) | Panic (panic_msg: string)

abbreviation is_ok :: "('e, 'a) outcome \<Rightarrow> bool" where
  "is_ok r \<equiv> (\<exists>x. r = Ok x)"

fun map_outcome :: "('a \<Rightarrow> 'b) \<Rightarrow> ('e, 'a) outcome \<Rightarrow> ('e, 'b) outcome" where
  "map_outcome f (Ok x) = Ok (f x)"
| "map_outcome f (Err e) = Err e"
| "map_outcome f (Panic p) = Panic p"

section \<open>Programs\<close>

named_theorems prog_defs \<open>the combinators, unfolded\<close>
named_theorems keeps_rules \<open>introduction rules for keeps\<close>

type_synonym ('w, 'e, 'a) prog = "'w \<Rightarrow> ('e, 'a) outcome \<times> 'w"

definition ret :: "'a \<Rightarrow> ('w, 'e, 'a) prog" where
  [prog_defs]: "ret x w = (Ok x, w)"

definition throw :: "'e \<Rightarrow> ('w, 'e, 'a) prog" where
  [prog_defs]: "throw e w = (Err e, w)"

definition panic :: "string \<Rightarrow> ('w, 'e, 'a) prog" where
  [prog_defs]: "panic p w = (Panic p, w)"

definition and_then :: "('w, 'e, 'a) prog \<Rightarrow> ('a \<Rightarrow> ('w, 'f, 'b) prog) \<Rightarrow> ('e \<Rightarrow> ('w, 'f, 'b) prog) \<Rightarrow> ('w, 'f, 'b) prog" where
  [prog_defs]: "and_then m f h w = (case m w of
       (Ok x, w') \<Rightarrow> f x w' | (Err e, w') \<Rightarrow> h e w' | (Panic p, w') \<Rightarrow> (Panic p, w'))"

text \<open>
  \<open>bindq m f\<close> is \<open>let x = m?; f(x)\<close>; \<open>and_then m f h\<close> is \<open>match m { Ok(x) => f(x),
  Err(e) => h(e) }\<close>. A panic is never caught by either.
\<close>

definition bindq :: "('w, 'e, 'a) prog \<Rightarrow> ('a \<Rightarrow> ('w, 'e, 'b) prog) \<Rightarrow> ('w, 'e, 'b) prog" where
  [prog_defs]: "bindq m f = and_then m f throw"

definition seqq :: "('w, 'e, unit) prog \<Rightarrow> ('w, 'e, 'b) prog \<Rightarrow> ('w, 'e, 'b) prog" where
  [prog_defs]: "seqq m k = bindq m (\<lambda>_. k)"

definition assert_that :: "bool \<Rightarrow> string \<Rightarrow> ('w, 'e, unit) prog" where
  [prog_defs]: "assert_that b msg = (if b then ret () else panic msg)"

definition from_outcome :: "('e, 'a) outcome \<Rightarrow> ('w, 'e, 'a) prog" where
  [prog_defs]: "from_outcome r w = (r, w)"

definition reads :: "('w \<Rightarrow> 'a) \<Rightarrow> ('w, 'e, 'a) prog" where
  [prog_defs]: "reads f w = (Ok (f w), w)"

definition writes :: "('w \<Rightarrow> 'w) \<Rightarrow> ('w, 'e, unit) prog" where
  [prog_defs]: "writes f w = (Ok (), f w)"

subsection \<open>Running a program\<close>

lemma ret_run [simp]: "ret x w = (Ok x, w)"
  by (simp add: ret_def)

lemma throw_run [simp]: "throw e w = (Err e, w)"
  by (simp add: throw_def)

lemma panic_run [simp]: "panic p w = (Panic p, w)"
  by (simp add: panic_def)

lemma from_outcome_run [simp]: "from_outcome r w = (r, w)"
  by (simp add: from_outcome_def)

lemma reads_run [simp]: "reads f w = (Ok (f w), w)"
  by (simp add: reads_def)

lemma writes_run [simp]: "writes f w = (Ok (), f w)"
  by (simp add: writes_def)

lemma assert_that_run [simp]:
  "assert_that b msg w = (if b then Ok () else Panic msg, w)"
  by (simp add: assert_that_def)

lemma and_then_run [simp]:
  "m w = (Ok x, w') \<Longrightarrow> and_then m f h w = f x w'"
  "m w = (Err e, w') \<Longrightarrow> and_then m f h w = h e w'"
  "m w = (Panic p, w') \<Longrightarrow> and_then m f h w = (Panic p, w')"
  by (simp_all add: and_then_def)

lemma bindq_run [simp]:
  "m w = (Ok x, w') \<Longrightarrow> bindq m f w = f x w'"
  "m w = (Err e, w') \<Longrightarrow> bindq m f w = (Err e, w')"
  "m w = (Panic p, w') \<Longrightarrow> bindq m f w = (Panic p, w')"
  by (simp_all add: bindq_def)

lemma seqq_run [simp]:
  "m w = (Ok (), w') \<Longrightarrow> seqq m k w = k w'"
  "m w = (Err e, w') \<Longrightarrow> seqq m k w = (Err e, w')"
  "m w = (Panic p, w') \<Longrightarrow> seqq m k w = (Panic p, w')"
  by (simp_all add: seqq_def)

lemma seqq_assert_True [simp]: "seqq (assert_that True msg) k = k"
  by (rule ext) simp

lemma seqq_assert: "seqq (assert_that b msg) k w = (if b then k w else (Panic msg, w))"
  by simp

lemma bindq_if: "bindq (if b then m else n) f = (if b then bindq m f else bindq n f)"
  by simp

lemma and_then_cases:
  assumes "and_then m f h w = (r, w'')"
  obtains (ok) x w' where "m w = (Ok x, w')" "f x w' = (r, w'')"
    | (err) e w' where "m w = (Err e, w')" "h e w' = (r, w'')"
    | (panic) p where "m w = (Panic p, w'')" "r = Panic p"
  using assms by (auto simp: and_then_def split: prod.splits outcome.splits)

lemma bindq_cases:
  assumes "bindq m f w = (r, w'')"
  obtains (ok) x w' where "m w = (Ok x, w')" "f x w' = (r, w'')"
    | (err) e where "m w = (Err e, w'')" "r = Err e"
    | (panic) p where "m w = (Panic p, w'')" "r = Panic p"
  using assms by (auto simp: bindq_def and_then_def split: prod.splits outcome.splits)

lemma bindq_okE:
  assumes "bindq m f w = (Ok y, w'')"
  obtains x w' where "m w = (Ok x, w')" "f x w' = (Ok y, w'')"
  using assms by (cases rule: bindq_cases) auto

lemma seqq_okE:
  assumes "seqq m k w = (Ok y, w'')"
  obtains w' where "m w = (Ok (), w')" "k w' = (Ok y, w'')"
  using assms by (auto simp: seqq_def elim: bindq_okE)

lemma assert_okE:
  assumes "assert_that b msg w = (Ok u, w')"
  obtains "b" "w' = w"
  using assms by (auto split: if_splits)

lemma bindq_assoc: "bindq (bindq m f) g = bindq m (\<lambda>x. bindq (f x) g)"
  by (rule ext) (auto simp: bindq_def and_then_def split: prod.splits outcome.splits)

subsection \<open>What every run keeps\<close>

text \<open>
  \<open>keeps R m\<close>: whatever \<open>m\<close> does from \<open>w\<close>, a value, an error or a panic, the state it leaves is
  related to \<open>w\<close> by \<open>R\<close>. With \<open>R = (\<lambda>w w'. I w \<longrightarrow> I w')\<close> it is the preservation of an invariant,
  with an equality of fields a frame condition. \<open>R\<close> is a preorder in every use.
\<close>

definition keeps :: "('w \<Rightarrow> 'w \<Rightarrow> bool) \<Rightarrow> ('w, 'e, 'a) prog \<Rightarrow> bool" where
  "keeps R m \<longleftrightarrow> (\<forall>w. R w (snd (m w)))"

definition preorderp :: "('w \<Rightarrow> 'w \<Rightarrow> bool) \<Rightarrow> bool" where
  "preorderp R \<longleftrightarrow> (\<forall>w. R w w) \<and> (\<forall>u v w. R u v \<longrightarrow> R v w \<longrightarrow> R u w)"

lemma preorderpI [intro?]:
  "(\<And>w. R w w) \<Longrightarrow> (\<And>u v w. R u v \<Longrightarrow> R v w \<Longrightarrow> R u w) \<Longrightarrow> preorderp R"
  by (auto simp: preorderp_def)

lemma keepsI: "(\<And>w r w'. m w = (r, w') \<Longrightarrow> R w w') \<Longrightarrow> keeps R m"
  by (metis keeps_def prod.collapse)

lemma keepsD: "keeps R m \<Longrightarrow> m w = (r, w') \<Longrightarrow> R w w'"
  by (metis keeps_def snd_conv)

lemma keeps_pure [keeps_rules]:
  assumes "preorderp R"
  shows "keeps R (ret x)" "keeps R (throw e)" "keeps R (panic p)" "keeps R (from_outcome r)"
    "keeps R (reads f)" "keeps R (assert_that b msg)"
  using assms by (simp_all add: keeps_def preorderp_def)

lemma keeps_and_then [keeps_rules]:
  assumes "preorderp R" "keeps R m" "\<And>x. keeps R (f x)" "\<And>e. keeps R (h e)"
  shows "keeps R (and_then m f h)"
proof (rule keepsI)
  fix w r w'' assume "and_then m f h w = (r, w'')"
  then show "R w w''"
    using assms by (cases rule: and_then_cases) (meson keepsD preorderp_def)+
qed

lemma keeps_bindq [keeps_rules]:
  assumes "preorderp R" "keeps R m" "\<And>x. keeps R (f x)"
  shows "keeps R (bindq m f)"
  unfolding bindq_def using assms by (intro keeps_and_then keeps_pure)

lemma keeps_seqq [keeps_rules]:
  assumes "preorderp R" "keeps R m" "keeps R k"
  shows "keeps R (seqq m k)"
  unfolding seqq_def using assms by (intro keeps_bindq)

lemma keeps_if [keeps_rules]:
  "(b \<Longrightarrow> keeps R m) \<Longrightarrow> (\<not> b \<Longrightarrow> keeps R k) \<Longrightarrow> keeps R (if b then m else k)"
  by simp

lemma keeps_option [keeps_rules]:
  "(x = None \<Longrightarrow> keeps R m) \<Longrightarrow> (\<And>y. x = Some y \<Longrightarrow> keeps R (k y)) \<Longrightarrow>
     keeps R (case x of None \<Rightarrow> m | Some y \<Rightarrow> k y)"
  by (cases x) auto

lemma keeps_let [keeps_rules]: "keeps R (f x) \<Longrightarrow> keeps R (Let x f)"
  by simp

section \<open>Hash maps\<close>

type_synonym 'v hashmap = "(string \<times> 'v) list"

definition hm_get :: "'v hashmap \<Rightarrow> string \<Rightarrow> 'v option" where
  "hm_get m k = map_of m k"

definition hm_insert :: "string \<Rightarrow> 'v \<Rightarrow> 'v hashmap \<Rightarrow> 'v hashmap" where
  "hm_insert k v m = AList.update k v m"

definition hm_keys :: "'v hashmap \<Rightarrow> string list" where
  "hm_keys m = map fst m"

lemma hm_get_empty [simp]: "hm_get [] k = None"
  by (simp add: hm_get_def)

lemma hm_get_insert [simp]: "hm_get (hm_insert k v m) k' = (if k' = k then Some v else hm_get m k')"
  by (simp add: hm_get_def hm_insert_def update_conv')

lemma hm_keys_insert [simp]: "set (hm_keys (hm_insert k v m)) = insert k (set (hm_keys m))"
  by (induction m) (auto simp: hm_keys_def hm_insert_def)

lemma distinct_hm_insert: "distinct (hm_keys m) \<Longrightarrow> distinct (hm_keys (hm_insert k v m))"
  by (simp add: hm_keys_def hm_insert_def distinct_update)

lemma hm_get_None_iff: "hm_get m k = None \<longleftrightarrow> k \<notin> set (hm_keys m)"
  by (simp add: hm_get_def hm_keys_def map_of_eq_None_iff)

section \<open>Machine integers\<close>

type_synonym u8 = "8 word"
type_synonym u32 = "32 word"
type_synonym u64 = "64 word"

text \<open>\<open>u64::saturating_add\<close>.\<close>

definition saturating_add_u64 :: "u64 \<Rightarrow> u64 \<Rightarrow> u64" where
  "saturating_add_u64 a b = (if uint a + uint b < 2 ^ 64 then a + b else - 1)"

text \<open>\<open>u64::checked_mul\<close>.\<close>

definition checked_mul_u64 :: "u64 \<Rightarrow> u64 \<Rightarrow> u64 option" where
  "checked_mul_u64 a b = (if uint a * uint b < 2 ^ 64 then Some (a * b) else None)"

text \<open>The cast \<open>x as i64\<close> of a \<open>u64\<close>, read as an integer.\<close>

definition as_i64 :: "u64 \<Rightarrow> int" where
  "as_i64 x = sint x"

text \<open>The range of \<open>i64\<close>, and the wrap-around of \<open>i64\<close> arithmetic in a release build.\<close>

definition i64_min :: int where "i64_min = - (2 ^ 63)"
definition i64_max :: int where "i64_max = 2 ^ 63 - 1"

definition wrap_i64 :: "int \<Rightarrow> int" where
  "wrap_i64 x = (x + 2 ^ 63) mod 2 ^ 64 - 2 ^ 63"

lemma uint_saturating_add_u64:
  "uint (saturating_add_u64 a b) = min (uint a + uint b) (2 ^ 64 - 1)"
proof (cases "uint a + uint b < 2 ^ 64")
  case True
  then show ?thesis by (simp add: saturating_add_u64_def uint_word_ariths)
next
  case False
  then show ?thesis by (simp add: saturating_add_u64_def unsigned_minus_1_eq_mask mask_eq_exp_minus_1)
qed

lemma checked_mul_u64_Some:
  "checked_mul_u64 a b = Some c \<longleftrightarrow> uint c = uint a * uint b"
proof
  assume "checked_mul_u64 a b = Some c"
  then show "uint c = uint a * uint b"
    by (auto simp: checked_mul_u64_def uint_word_ariths split: if_splits)
next
  assume c: "uint c = uint a * uint b"
  have "uint c < 2 ^ 64" using unsigned_less [of c] by simp
  moreover from this c have "uint c = uint (a * b)" by (simp add: uint_word_ariths)
  then have "c = a * b" by (rule unsigned_word_eqI)
  ultimately show "checked_mul_u64 a b = Some c" using c by (simp add: checked_mul_u64_def)
qed

lemma checked_mul_u64_None:
  "checked_mul_u64 a b = None \<longleftrightarrow> 2 ^ 64 \<le> uint a * uint b"
  by (simp add: checked_mul_u64_def not_less)

lemma wrap_i64_id: "i64_min \<le> x \<Longrightarrow> x \<le> i64_max \<Longrightarrow> wrap_i64 x = x"
  by (simp add: wrap_i64_def i64_min_def i64_max_def)

lemma wrap_i64_range: "i64_min \<le> wrap_i64 x \<and> wrap_i64 x \<le> i64_max"
  by (simp add: wrap_i64_def i64_min_def i64_max_def)

end
