(* ===== verification/Rust_Strings.thy ===== *)
theory Rust_Strings
  imports Prelude
begin

text \<open>
  Rust's \<open>String\<close> and \<open>&str\<close> as the list of their UTF-8 bytes: \<open>len()\<close> is the number of bytes,
  \<open>chars()\<close> splits at the lead bytes, and the Unicode predicates the code uses (\<open>char::is_control\<close>,
  \<open>char::is_whitespace\<close>) are read off a character's encoding. A Rust string is always valid UTF-8;
  \<open>valid_utf8\<close> states the part of that which the splitting relies on.
\<close>

section \<open>Characters of a string\<close>

definition byte :: "char \<Rightarrow> int" where
  "byte c = of_char c"

text \<open>The number of bytes of the character a lead byte opens.\<close>

definition utf8_len :: "char \<Rightarrow> nat" where
  "utf8_len c = (if byte c < 192 then 1 else if byte c < 224 then 2 else if byte c < 240 then 3 else 4)"

function utf8_chars :: "string \<Rightarrow> string list" where
  "utf8_chars [] = []"
| "utf8_chars (c # cs) = (c # take (utf8_len c - 1) cs) # utf8_chars (drop (utf8_len c - 1) cs)"
  by pat_completeness auto
termination by (relation "measure length") auto

fun wf_char :: "string \<Rightarrow> bool" where
  "wf_char [] = False"
| "wf_char (c # cs) = (length cs = utf8_len c - 1)"

definition valid_utf8 :: "string \<Rightarrow> bool" where
  "valid_utf8 s = list_all wf_char (utf8_chars s)"

text \<open>\<open>char::is_control\<close> (general category Cc) and \<open>char::is_whitespace\<close> (White\_Space).\<close>

fun is_control :: "string \<Rightarrow> bool" where
  "is_control [b] = (byte b < 32 \<or> byte b = 127)"
| "is_control [b1, b2] = (byte b1 = 194 \<and> 128 \<le> byte b2 \<and> byte b2 \<le> 159)"
| "is_control _ = False"

fun is_whitespace :: "string \<Rightarrow> bool" where
  "is_whitespace [b] = (9 \<le> byte b \<and> byte b \<le> 13 \<or> byte b = 32)"
| "is_whitespace [b1, b2] = (byte b1 = 194 \<and> (byte b2 = 133 \<or> byte b2 = 160))"
| "is_whitespace [b1, b2, b3] =
     (byte b1 = 225 \<and> byte b2 = 154 \<and> byte b3 = 128
      \<or> byte b1 = 226 \<and> byte b2 = 128 \<and> (128 \<le> byte b3 \<and> byte b3 \<le> 138 \<or> byte b3 = 168 \<or> byte b3 = 169 \<or> byte b3 = 175)
      \<or> byte b1 = 226 \<and> byte b2 = 129 \<and> byte b3 = 159
      \<or> byte b1 = 227 \<and> byte b2 = 128 \<and> byte b3 = 128)"
| "is_whitespace _ = False"

definition trim_chars :: "string list \<Rightarrow> string list" where
  "trim_chars cs = rev (dropWhile is_whitespace (rev (dropWhile is_whitespace cs)))"

definition trim :: "string \<Rightarrow> string" where
  "trim s = concat (trim_chars (utf8_chars s))"

section \<open>ASCII\<close>

definition is_ascii_digit :: "char \<Rightarrow> bool" where
  "is_ascii_digit c = (48 \<le> byte c \<and> byte c \<le> 57)"

definition is_ascii_hexdigit :: "char \<Rightarrow> bool" where
  "is_ascii_hexdigit c = (is_ascii_digit c \<or> 65 \<le> byte c \<and> byte c \<le> 70 \<or> 97 \<le> byte c \<and> byte c \<le> 102)"

definition ascii_lower_char :: "char \<Rightarrow> char" where
  "ascii_lower_char c = (if 65 \<le> byte c \<and> byte c \<le> 90 then char_of (byte c + 32) else c)"

definition to_ascii_lowercase :: "string \<Rightarrow> string" where
  "to_ascii_lowercase s = map ascii_lower_char s"

definition eq_ignore_ascii_case :: "string \<Rightarrow> string \<Rightarrow> bool" where
  "eq_ignore_ascii_case a b = (to_ascii_lowercase a = to_ascii_lowercase b)"

section \<open>Prefixes and numerals\<close>

definition strip_prefix :: "string \<Rightarrow> string \<Rightarrow> string option" where
  "strip_prefix p s = (if prefix p s then Some (drop (length p) s) else None)"

text \<open>The decimal rendering of a natural number (\<open>Display\<close> of the unsigned integers).\<close>

function show_nat :: "nat \<Rightarrow> string" where
  "show_nat n = (if n < 10 then [char_of (48 + int n)] else show_nat (n div 10) @ [char_of (48 + int (n mod 10))])"
  by pat_completeness auto
termination by (relation "measure id") auto
declare show_nat.simps [simp del]

section \<open>Lemmas\<close>

lemma utf8_len_pos [simp]: "0 < utf8_len c"
  by (simp add: utf8_len_def)

lemma concat_utf8_chars [simp]: "concat (utf8_chars s) = s"
  by (induction s rule: utf8_chars.induct) simp_all

lemma utf8_chars_concat:
  "list_all wf_char cs \<Longrightarrow> utf8_chars (concat cs) = cs"
proof (induction cs)
  case (Cons c cs)
  then show ?case by (cases c) auto
qed simp

lemma valid_utf8_concat: "list_all wf_char cs \<Longrightarrow> valid_utf8 (concat cs)"
  by (simp add: valid_utf8_def utf8_chars_concat)

lemma trim_chars_infix: "\<exists>as bs. cs = as @ trim_chars cs @ bs"
proof -
  obtain as where as: "cs = as @ dropWhile is_whitespace cs"
    by (metis takeWhile_dropWhile_id)
  define ds where "ds = dropWhile is_whitespace cs"
  have "rev ds = takeWhile is_whitespace (rev ds) @ dropWhile is_whitespace (rev ds)" by simp
  then have "ds = rev (dropWhile is_whitespace (rev ds)) @ rev (takeWhile is_whitespace (rev ds))"
    by (metis rev_append rev_rev_ident)
  with as show ?thesis unfolding trim_chars_def ds_def [symmetric] by metis
qed

lemma set_trim_chars: "set (trim_chars cs) \<subseteq> set cs"
  using trim_chars_infix [of cs] by (metis Un_iff set_append subsetI)

lemma length_trim_chars: "length (trim_chars cs) \<le> length cs"
  by (metis length_dropWhile_le length_rev order_trans trim_chars_def)

lemma trim_chars_ends:
  assumes "trim_chars cs \<noteq> []"
  shows "\<not> is_whitespace (hd (trim_chars cs))" "\<not> is_whitespace (last (trim_chars cs))"
proof -
  let ?ds = "dropWhile is_whitespace cs"
  have ne: "dropWhile is_whitespace (rev ?ds) \<noteq> []" using assms by (simp add: trim_chars_def)
  then show "\<not> is_whitespace (last (trim_chars cs))"
    by (simp add: trim_chars_def last_rev hd_dropWhile)
  have d: "rev ?ds = takeWhile is_whitespace (rev ?ds) @ dropWhile is_whitespace (rev ?ds)" by simp
  have "?ds = rev (dropWhile is_whitespace (rev ?ds)) @ rev (takeWhile is_whitespace (rev ?ds))"
    by (metis d rev_append rev_rev_ident)
  then have "hd ?ds = hd (trim_chars cs)"
    using ne by (metis hd_append2 rev_is_Nil_conv trim_chars_def)
  moreover have "?ds \<noteq> []" using ne by (metis dropWhile.simps(1) rev.simps(1))
  ultimately show "\<not> is_whitespace (hd (trim_chars cs))" by (metis hd_dropWhile)
qed

lemma strip_prefix_Some [simp]: "strip_prefix p s = Some r \<longleftrightarrow> s = p @ r"
  by (auto simp: strip_prefix_def prefix_def)

lemma strip_prefix_None: "strip_prefix p s = None \<longleftrightarrow> \<not> prefix p s"
  by (simp add: strip_prefix_def)

lemma strip_prefix_append [simp]: "strip_prefix p (p @ r) = Some r"
  by (simp add: strip_prefix_def)

lemma show_nat_nonempty [simp]: "show_nat n \<noteq> []"
  by (subst show_nat.simps) simp

lemma byte_less [simp]: "byte c < 256"
  by (cases c) (simp add: byte_def of_char_def)

lemma byte_nonneg [simp]: "0 \<le> byte c"
  by (cases c) (simp add: byte_def of_char_def)

lemma byte_char_of [simp]: "0 \<le> n \<Longrightarrow> n < 256 \<Longrightarrow> byte (char_of n) = n"
  by (simp add: byte_def take_bit_int_eq_self)

lemma length_to_ascii_lowercase [simp]: "length (to_ascii_lowercase s) = length s"
  by (simp add: to_ascii_lowercase_def)

lemma to_ascii_lowercase_idem [simp]: "to_ascii_lowercase (to_ascii_lowercase s) = to_ascii_lowercase s"
  by (auto simp: to_ascii_lowercase_def ascii_lower_char_def)

lemma eq_ignore_ascii_case_refl [simp]: "eq_ignore_ascii_case s s"
  by (simp add: eq_ignore_ascii_case_def)

lemma byte_inj: "byte a = byte b \<longleftrightarrow> a = b"
  by (simp add: byte_def)

lemma show_nat_digits: "list_all is_ascii_digit (show_nat n)"
proof (induction n rule: show_nat.induct)
  case (1 n)
  have "n mod 10 < 10" by simp
  then have "is_ascii_digit (char_of (48 + int (n mod 10)))" by (simp add: is_ascii_digit_def)
  moreover have "n < 10 \<Longrightarrow> is_ascii_digit (char_of (48 + int n))" by (simp add: is_ascii_digit_def)
  ultimately show ?case using 1 by (subst show_nat.simps) simp
qed

end
