(* ===== verification/Domain_Error.thy ===== *)
theory Domain_Error
  imports Rust_Strings
begin

text \<open>
  The error vocabulary of the core crate (\<open>crates/core/src/error.rs\<close>): every variant of \<open>Error\<close>
  with its payload, and the fixed client-facing description of each.
\<close>

datatype error =
    InvalidGrant (err_reason: string)
  | InvalidToken (err_reason: string)
  | InvalidRequest (err_reason: string)
  | UnknownProvider (err_provider: string)
  | AccessDenied (err_reason: string)
  | UserSuspended (err_user_id: string)
  | Unauthorized (err_reason: string)
  | Conflict (err_detail: string)
  | NotFound (err_detail: string)
  | TooManyRequests (retry_after_secs: u64)
  | ProviderError (err_provider: string) (err_detail: string)
  | ProviderTimeout (err_provider: string)
  | StoreError (err_detail: string)
  | KeyError (err_detail: string)
  | AuditError (err_detail: string)
  | SecurityAuditDurability (err_detail: string)
  | SyncError (err_detail: string)
  | ConfigError (err_detail: string)

type_synonym 'a result = "(error, 'a) outcome"

fun client_description :: "error \<Rightarrow> string" where
  "client_description (InvalidGrant _) = ''the provided grant could not be validated''"
| "client_description (InvalidToken _) = ''the provided token could not be validated''"
| "client_description (InvalidRequest _) = ''the request is missing a required parameter or is otherwise malformed''"
| "client_description (UnknownProvider _) = ''no identity provider matched the requested name''"
| "client_description (AccessDenied _) = ''access was denied for this account or request''"
| "client_description (UserSuspended _) = ''user account is suspended''"
| "client_description (Unauthorized _) = ''the request could not be authenticated''"
| "client_description (Conflict _) = ''the request conflicts with an existing resource''"
| "client_description (NotFound _) = ''the requested resource was not found''"
| "client_description (TooManyRequests _) = ''too many authentication attempts''"
| "client_description (ProviderError _ _) = ''upstream provider error''"
| "client_description (ProviderTimeout _) = ''upstream provider timeout''"
| "client_description (StoreError _) = ''internal server error''"
| "client_description (KeyError _) = ''internal server error''"
| "client_description (AuditError _) = ''internal server error''"
| "client_description (SecurityAuditDurability _) = ''internal server error''"
| "client_description (SyncError _) = ''internal server error''"
| "client_description (ConfigError _) = ''internal server error''"

text \<open>\<open>Display\<close> of an error, as \<open>thiserror\<close> renders the attribute of each variant.\<close>

fun display_error :: "error \<Rightarrow> string" where
  "display_error (InvalidGrant r) = ''invalid grant: '' @ r"
| "display_error (InvalidToken r) = ''invalid token: '' @ r"
| "display_error (InvalidRequest r) = ''invalid request: '' @ r"
| "display_error (UnknownProvider p) = ''unknown provider: '' @ p"
| "display_error (AccessDenied r) = ''access denied: '' @ r"
| "display_error (UserSuspended u) = ''user suspended: '' @ u"
| "display_error (Unauthorized r) = ''unauthorized: '' @ r"
| "display_error (Conflict d) = ''conflict: '' @ d"
| "display_error (NotFound d) = ''not found: '' @ d"
| "display_error (TooManyRequests n) = ''too many requests; retry after '' @ show_nat (unat n) @ '' seconds''"
| "display_error (ProviderError p d) = ''provider error ('' @ p @ ''): '' @ d"
| "display_error (ProviderTimeout p) = ''provider timeout: '' @ p"
| "display_error (StoreError d) = ''store error: '' @ d"
| "display_error (KeyError d) = ''key error: '' @ d"
| "display_error (AuditError d) = ''audit error: '' @ d"
| "display_error (SecurityAuditDurability d) = ''mandatory security audit could not be persisted: '' @ d"
| "display_error (SyncError d) = ''sync error: '' @ d"
| "display_error (ConfigError d) = ''config error: '' @ d"

end
