(* ===== verification/Third_Party.thy ===== *)
theory Third_Party
  imports Domain_Error Complex_Main
begin

text \<open>
  The third-party crates the core calls, as a record of functions that every definition using
  them takes as an argument, and JSON values as \<open>serde_json\<close> has them. What a theorem relies on
  is a named predicate on the record: \<open>chrono_ok\<close> (adding seconds to a \<open>DateTime\<close> either panics
  or is exact) \<open>b64_ok\<close> (base64 decoding inverts encoding),
  \<open>ct_ok\<close> (the constant-time comparison decides equality).
\<close>

section \<open>JSON values\<close>

datatype json =
    JNull
  | JBool bool
  | JInt int
  | JFloat rat
  | JString string
  | JArray "json list"
  | JObject "(string \<times> json) list"

section \<open>The crates\<close>

text \<open>
  Instants are nanoseconds since the epoch. \<open>dt_add t s\<close> is \<open>t + chrono::Duration::seconds(s)\<close>
  for an \<open>i64\<close> number of seconds; \<open>None\<close> is the panic of an out-of-range result.
  \<open>dt_from_timestamp s\<close> is \<open>DateTime::from_timestamp(s, 0)\<close>. \<open>uc_lower\<close> is the lower-case
  mapping of the Unicode character database for one non-ASCII character, and \<open>debug_str\<close> the
  \<open>Debug\<close> rendering of a string, whose escapes depend on the same tables.
\<close>

type_synonym instant = int

record lib =
  sha256 :: "string \<Rightarrow> string"
  sha384 :: "string \<Rightarrow> string"
  sha512 :: "string \<Rightarrow> string"
  hex_encode :: "string \<Rightarrow> string"
  b64url_encode :: "string \<Rightarrow> string"
  b64url_decode :: "string \<Rightarrow> string option"
  dt_add :: "instant \<Rightarrow> int \<Rightarrow> instant option"
  dt_from_timestamp :: "int \<Rightarrow> instant option"
  uc_lower :: "string \<Rightarrow> string"
  ct_eq :: "string \<Rightarrow> string \<Rightarrow> bool"
  debug_str :: "string \<Rightarrow> string"

definition nanos :: int where
  "nanos = 1000000000"

text \<open>\<open>DateTime::timestamp\<close>: whole seconds, rounded down.\<close>

definition timestamp :: "instant \<Rightarrow> int" where
  "timestamp t = t div nanos"

text \<open>
  A \<open>DateTime\<close> lies within about 262000 years of the epoch, so its timestamp is far inside \<open>i64\<close>;
  \<open>chrono_secs\<close> is a round bound of it.
\<close>

definition chrono_secs :: int where
  "chrono_secs = 10000000000000"

definition in_range :: "instant \<Rightarrow> bool" where
  "in_range t \<longleftrightarrow> - chrono_secs \<le> timestamp t \<and> timestamp t \<le> chrono_secs"

definition chrono_ok :: "'x lib_scheme \<Rightarrow> bool" where
  "chrono_ok L \<longleftrightarrow> (\<forall>t s u. dt_add L t s = Some u \<longrightarrow> u = t + s * nanos)
     \<and> (\<forall>s u. dt_from_timestamp L s = Some u \<longrightarrow> u = s * nanos \<and> in_range u)"

definition b64_ok :: "'x lib_scheme \<Rightarrow> bool" where
  "b64_ok L \<longleftrightarrow> (\<forall>s. b64url_decode L (b64url_encode L s) = Some s)"

text \<open>\<open>subtle::ConstantTimeEq\<close> on slices of equal length decides equality.\<close>

definition ct_ok :: "'x lib_scheme \<Rightarrow> bool" where
  "ct_ok L \<longleftrightarrow> (\<forall>a b. length a = length b \<longrightarrow> ct_eq L a b = (a = b))"

definition sha256_hex :: "'x lib_scheme \<Rightarrow> string \<Rightarrow> string" where
  "sha256_hex L s = hex_encode L (sha256 L s)"

text \<open>\<open>str::to_lowercase\<close>: ASCII letters by case folding, every other character by the table.\<close>

definition to_lowercase :: "'x lib_scheme \<Rightarrow> string \<Rightarrow> string" where
  "to_lowercase L s = concat (map (\<lambda>c. if length c = 1 then to_ascii_lowercase c else uc_lower L c) (utf8_chars s))"

definition is_ascii :: "string \<Rightarrow> bool" where
  "is_ascii s = list_all (\<lambda>c. byte c < 128) s"

lemma chrono_add: "chrono_ok L \<Longrightarrow> dt_add L t s = Some u \<Longrightarrow> u = t + s * nanos"
  by (simp add: chrono_ok_def)

lemma chrono_from_timestamp: "chrono_ok L \<Longrightarrow> dt_from_timestamp L s = Some u \<Longrightarrow> u = s * nanos \<and> in_range u"
  by (simp add: chrono_ok_def)

lemma timestamp_mult [simp]: "timestamp (s * nanos) = s"
  by (simp add: timestamp_def nanos_def)

lemma nanos_pos [simp]: "0 < nanos"
  by (simp add: nanos_def)

lemma utf8_chars_ascii: "is_ascii s \<Longrightarrow> utf8_chars s = map (\<lambda>c. [c]) s"
  by (induction s) (auto simp: is_ascii_def utf8_len_def)

lemma to_lowercase_ascii: "is_ascii s \<Longrightarrow> to_lowercase L s = to_ascii_lowercase s"
proof -
  assume "is_ascii s"
  then have "to_lowercase L s = concat (map (\<lambda>c. to_ascii_lowercase [c]) s)"
    by (simp add: to_lowercase_def utf8_chars_ascii comp_def)
  also have "\<dots> = to_ascii_lowercase s" by (induction s) (simp_all add: to_ascii_lowercase_def)
  finally show ?thesis .
qed

end
