(* ===== verification/Domain_Session.thy ===== *)
theory Domain_Session
  imports Third_Party
begin

text \<open>
  Session families (\<open>crates/core/src/domain/session.rs\<close>, \<open>single_use.rs\<close>, \<open>secret.rs\<close>): the
  \<open>Session\<close> of one live refresh-token generation, the record a retired generation leaves, the
  classification a store returns for a presented hash, family identifiers, session locations,
  and the constant-time comparison of secrets.
\<close>

section \<open>Family identifiers\<close>

definition FAMILY_ID_PREFIX :: string where
  "FAMILY_ID_PREFIX = ''fam_''"

definition ULID_CHAR_LEN :: nat where
  "ULID_CHAR_LEN = 26"

definition ULID_LOWERCASE_ALPHABET :: string where
  "ULID_LOWERCASE_ALPHABET = ''0123456789abcdefghjkmnpqrstvwxyz''"

definition is_valid_family_id :: "string \<Rightarrow> bool" where
  "is_valid_family_id i = (case strip_prefix FAMILY_ID_PREFIX i of
       None \<Rightarrow> False
     | Some ulid_part \<Rightarrow>
         if length ulid_part \<noteq> ULID_CHAR_LEN then False
         else list_all (\<lambda>c. c \<in> set ULID_LOWERCASE_ALPHABET) ulid_part)"

text \<open>The argument is the string \<open>ulid::Ulid::generate().to_string()\<close> returned.\<close>

definition new_family_id :: "'x lib_scheme \<Rightarrow> string \<Rightarrow> string" where
  "new_family_id L ulid = FAMILY_ID_PREFIX @ to_lowercase L ulid"

definition CROCKFORD_UPPERCASE :: string where
  "CROCKFORD_UPPERCASE = ''0123456789ABCDEFGHJKMNPQRSTVWXYZ''"

text \<open>The documented form of a rendered ULID: 26 characters of upper-case Crockford base32.\<close>

definition ulid_ok :: "string \<Rightarrow> bool" where
  "ulid_ok u = (length u = 26 \<and> list_all (\<lambda>c. c \<in> set CROCKFORD_UPPERCASE) u)"

text \<open>User identifiers, as the stores mint them: non-empty and without a colon.\<close>

definition user_id_ok :: "string \<Rightarrow> bool" where
  "user_id_ok u = (u \<noteq> [] \<and> CHR '':'' \<notin> set u)"

section \<open>Locations\<close>

definition MAX_LOCATION_PART_LEN :: nat where
  "MAX_LOCATION_PART_LEN = 80"

record session_location =
  city :: "string option"
  region :: "string option"
  country :: "string option"

definition clean_part :: "string option \<Rightarrow> string option" where
  "clean_part part = (case part of
       None \<Rightarrow> None
     | Some raw \<Rightarrow>
         let stripped = concat (filter (\<lambda>c. \<not> is_control c) (utf8_chars raw));
             trimmed = concat (take MAX_LOCATION_PART_LEN (utf8_chars (trim stripped)));
             trimmed' = trim trimmed
         in if trimmed' \<noteq> [] then Some trimmed' else None)"

definition session_location_new ::
  "string option \<Rightarrow> string option \<Rightarrow> string option \<Rightarrow> session_location option" where
  "session_location_new ci re co =
     (let loc = \<lparr>city = clean_part ci, region = clean_part re, country = clean_part co\<rparr>
      in if city loc \<noteq> None \<or> region loc \<noteq> None \<or> country loc \<noteq> None then Some loc else None)"

section \<open>Sessions\<close>

record session =
  s_user_id :: string
  s_hash :: string
  s_family_id :: string
  s_generation :: u32
  s_provider :: string
  s_expires_at :: instant
  s_rotated_at :: "instant option"
  s_device_id :: "string option"
  s_user_agent :: "string option"
  s_ip_address :: "string option"
  s_location :: "session_location option"
  s_created_at :: instant

record retired_refresh_token =
  r_hash :: string
  r_family_id :: string
  r_user_id :: string
  r_successor_hash :: string
  r_retired_at :: instant
  r_expires_at :: instant

datatype refresh_resolution =
    Live session
  | Superseded session instant
  | Retired (res_family: string) (res_user: string) (res_retired_at: instant)
  | Unknown

record single_use_record =
  su_key :: string
  su_expires_at :: instant

record session_summary =
  sum_id :: string
  sum_provider :: string
  sum_user_agent :: "string option"
  sum_ip_address :: "string option"
  sum_location :: "session_location option"
  sum_created_at :: instant
  sum_expires_at :: instant

definition SESSION_ID_PREFIX :: string where
  "SESSION_ID_PREFIX = ''ses_''"

definition SESSION_ID_DOMAIN :: string where
  "SESSION_ID_DOMAIN = ''oidc-exchange/session-id/v1:''"

definition session_id_for_family :: "'x lib_scheme \<Rightarrow> string \<Rightarrow> string" where
  "session_id_for_family L family_id =
     SESSION_ID_PREFIX @ b64url_encode L (take 16 (sha256 L (SESSION_ID_DOMAIN @ family_id)))"

definition summary_of :: "'x lib_scheme \<Rightarrow> session \<Rightarrow> session_summary" where
  "summary_of L s = \<lparr>sum_id = session_id_for_family L (s_family_id s), sum_provider = s_provider s,
     sum_user_agent = s_user_agent s, sum_ip_address = s_ip_address s, sum_location = s_location s,
     sum_created_at = s_created_at s, sum_expires_at = s_expires_at s\<rparr>"

text \<open>
  \<open>RetiredRefreshToken::retention_deadline\<close>; both the \<open>assert!\<close> and an out-of-range sum panic.
\<close>

definition retention_deadline ::
  "'x lib_scheme \<Rightarrow> instant \<Rightarrow> u64 \<Rightarrow> instant \<Rightarrow> ('e, instant) outcome" where
  "retention_deadline L retired_at reuse_retention_secs family_expires_at =
     (if \<not> 0 < reuse_retention_secs then Panic ''reuse retention must be greater than zero''
      else case dt_add L retired_at (as_i64 reuse_retention_secs) of
             None \<Rightarrow> Panic ''`DateTime + TimeDelta` overflowed''
           | Some by_retention \<Rightarrow>
               Ok (if by_retention < family_expires_at then by_retention else family_expires_at))"

section \<open>Secrets\<close>

text \<open>
  \<open>PartialEq\<close> for \<open>Secret<String>\<close>; the comparison against a dummy buffer when the lengths differ has
  no effect on the result. \<open>subtle\<close>'s \<open>ct_eq\<close> on slices of equal length is a field of \<open>lib\<close>.
\<close>

definition secret_eq :: "'x lib_scheme \<Rightarrow> string \<Rightarrow> string \<Rightarrow> bool" where
  "secret_eq L left right = (if length left \<noteq> length right then False else ct_eq L left right)"

section \<open>Lemmas\<close>

lemma crockford_all:
  "list_all (\<lambda>c. byte c < 128 \<and> ascii_lower_char c \<in> set ULID_LOWERCASE_ALPHABET) CROCKFORD_UPPERCASE"
  by code_simp

lemma crockford_lower:
  "c \<in> set CROCKFORD_UPPERCASE \<Longrightarrow> byte c < 128 \<and> ascii_lower_char c \<in> set ULID_LOWERCASE_ALPHABET"
  using crockford_all by (simp add: list_all_iff)

lemma new_family_id_valid:
  assumes "ulid_ok u" shows "is_valid_family_id (new_family_id L u)"
proof -
  have "is_ascii u" using assms by (auto simp: ulid_ok_def is_ascii_def list_all_iff dest: crockford_lower)
  then have "new_family_id L u = FAMILY_ID_PREFIX @ to_ascii_lowercase u"
    by (simp add: new_family_id_def to_lowercase_ascii)
  moreover have "list_all (\<lambda>c. c \<in> set ULID_LOWERCASE_ALPHABET) (to_ascii_lowercase u)"
    using assms by (auto simp: ulid_ok_def to_ascii_lowercase_def list_all_iff dest: crockford_lower)
  ultimately show ?thesis using assms
    by (simp add: is_valid_family_id_def ulid_ok_def ULID_CHAR_LEN_def)
qed

lemma ulid_lowercase:
  assumes "ulid_ok u" shows "to_lowercase L u = to_ascii_lowercase u" "CHR '':'' \<notin> set (to_ascii_lowercase u)"
proof -
  have "is_ascii u" using assms by (auto simp: ulid_ok_def is_ascii_def list_all_iff dest: crockford_lower)
  then show "to_lowercase L u = to_ascii_lowercase u" by (simp add: to_lowercase_ascii)
  have "CHR '':'' \<notin> set ULID_LOWERCASE_ALPHABET" by code_simp
  then show "CHR '':'' \<notin> set (to_ascii_lowercase u)" using assms
    by (auto simp: ulid_ok_def to_ascii_lowercase_def list_all_iff dest!: crockford_lower)
qed

lemma is_valid_family_id_nonempty: "is_valid_family_id i \<Longrightarrow> i \<noteq> []"
  by (auto simp: is_valid_family_id_def strip_prefix_def FAMILY_ID_PREFIX_def)

lemma retention_deadline_Ok:
  assumes "chrono_ok L" "retention_deadline L t n x = Ok d"
  shows "0 < n" "d = min (t + as_i64 n * nanos) x"
  using assms by (auto simp: retention_deadline_def min_def dest: chrono_add split: if_splits option.splits)

lemma secret_eq_iff: "ct_ok L \<Longrightarrow> secret_eq L l r \<longleftrightarrow> l = r"
  by (auto simp: secret_eq_def ct_ok_def)

end
