(* ===== verification/Session_Port.thy ===== *)
theory Session_Port
  imports Domain_Session
begin

text \<open>
  The persistent-session port (\<open>SessionRepository\<close> of \<open>crates/core/src/ports/repository.rs\<close>) as a
  record of operations on a store state, an abstract family store that says what each operation
  promises, and the locale \<open>session_repository\<close> with the obligations SR1 to SR5 as laws: an operation
  either reports a store error and leaves the families as they were, or has exactly the abstract
  effect. An adapter reads the clock itself, so the instant it reads is an argument.
\<close>

section \<open>The port\<close>

record 's session_port =
  store_refresh_token :: "session \<Rightarrow> 's \<Rightarrow> unit result \<times> 's"
  get_session_by_refresh_token :: "string \<Rightarrow> 's \<Rightarrow> session option result \<times> 's"
  resolve_refresh_token :: "instant \<Rightarrow> string \<Rightarrow> 's \<Rightarrow> refresh_resolution result \<times> 's"
  rotate_refresh_token :: "instant \<Rightarrow> string \<Rightarrow> session \<Rightarrow> 's \<Rightarrow> bool result \<times> 's"
  revoke_session :: "string \<Rightarrow> 's \<Rightarrow> unit result \<times> 's"
  revoke_family :: "string \<Rightarrow> 's \<Rightarrow> u64 result \<times> 's"
  revoke_all_user_sessions :: "string \<Rightarrow> 's \<Rightarrow> u64 result \<times> 's"
  list_live_sessions :: "string \<Rightarrow> instant \<Rightarrow> nat \<Rightarrow> 's \<Rightarrow> session list result \<times> 's"
  count_active_sessions :: "instant \<Rightarrow> 's \<Rightarrow> u64 result \<times> 's"
  cleanup_expired_sessions :: "instant \<Rightarrow> 's \<Rightarrow> u64 result \<times> 's"
  put_single_use :: "instant \<Rightarrow> string \<Rightarrow> instant \<Rightarrow> 's \<Rightarrow> bool result \<times> 's"
  take_single_use :: "instant \<Rightarrow> string \<Rightarrow> 's \<Rightarrow> bool result \<times> 's"

section \<open>The abstract family store\<close>

text \<open>
  Live generations by hash, retained retirement records by hash, and single-use records by key.
\<close>

record fam_store =
  live :: "string \<rightharpoonup> session"
  retired :: "string \<rightharpoonup> retired_refresh_token"
  single :: "string \<rightharpoonup> instant"

definition spec_resolve :: "instant \<Rightarrow> string \<Rightarrow> fam_store \<Rightarrow> refresh_resolution" where
  "spec_resolve now h st = (case live st h of
       Some s \<Rightarrow> Live s
     | None \<Rightarrow> (case retired st h of
           None \<Rightarrow> Unknown
         | Some r \<Rightarrow>
             if r_expires_at r \<le> now then Unknown
             else (case live st (r_successor_hash r) of
                 Some s \<Rightarrow> Superseded s (r_retired_at r)
               | None \<Rightarrow> Retired (r_family_id r) (r_user_id r) (r_retired_at r))))"

definition retention_record :: "instant \<Rightarrow> u64 \<Rightarrow> session \<Rightarrow> session \<Rightarrow> retired_refresh_token" where
  "retention_record now reten old new = \<lparr>r_hash = s_hash old, r_family_id = s_family_id old,
     r_user_id = s_user_id old, r_successor_hash = s_hash new, r_retired_at = now,
     r_expires_at = min (now + as_i64 reten * nanos) (s_expires_at new)\<rparr>"

text \<open>
  The swap: the old generation is no longer live, the replacement is, and the old one leaves a
  retirement record unless it was a row written before families existed.
\<close>

definition spec_rotate :: "instant \<Rightarrow> u64 \<Rightarrow> session \<Rightarrow> session \<Rightarrow> fam_store \<Rightarrow> fam_store" where
  "spec_rotate now reten old new st = st\<lparr>live := (live st)(s_hash old := None, s_hash new \<mapsto> new),
     retired := (if s_family_id old = [] then retired st
                 else (retired st)(s_hash old \<mapsto> retention_record now reten old new))\<rparr>"

definition rotatable :: "string \<Rightarrow> session \<Rightarrow> session \<Rightarrow> fam_store \<Rightarrow> bool" where
  "rotatable h old new st \<longleftrightarrow> live st h = Some old
     \<and> (s_family_id old = [] \<or> s_family_id old = s_family_id new) \<and> s_user_id old = s_user_id new
     \<and> live st (s_hash new) = None"

definition drop_live :: "(session \<Rightarrow> bool) \<Rightarrow> fam_store \<Rightarrow> fam_store" where
  "drop_live P st = st\<lparr>live := (\<lambda>h. case live st h of Some s \<Rightarrow> if P s then None else Some s | None \<Rightarrow> None)\<rparr>"

definition drop_retired :: "(retired_refresh_token \<Rightarrow> bool) \<Rightarrow> fam_store \<Rightarrow> fam_store" where
  "drop_retired P st = st\<lparr>retired := (\<lambda>h. case retired st h of Some r \<Rightarrow> if P r then None else Some r | None \<Rightarrow> None)\<rparr>"

definition drop_single :: "(instant \<Rightarrow> bool) \<Rightarrow> fam_store \<Rightarrow> fam_store" where
  "drop_single P st = st\<lparr>single := (\<lambda>k. case single st k of Some t \<Rightarrow> if P t then None else Some t | None \<Rightarrow> None)\<rparr>"

definition spec_revoke_family :: "string \<Rightarrow> fam_store \<Rightarrow> fam_store" where
  "spec_revoke_family f st = drop_live (\<lambda>s. s_family_id s = f) (drop_retired (\<lambda>r. r_family_id r = f) st)"

definition spec_revoke_user :: "string \<Rightarrow> fam_store \<Rightarrow> fam_store" where
  "spec_revoke_user u st = drop_live (\<lambda>s. s_user_id s = u) (drop_retired (\<lambda>r. r_user_id r = u) st)"

definition single_live :: "instant \<Rightarrow> string \<Rightarrow> fam_store \<Rightarrow> bool" where
  "single_live now k st \<longleftrightarrow> (\<exists>t. single st k = Some t \<and> now < t)"

text \<open>Well-formed families: what every reachable store satisfies.\<close>

definition fam_ok :: "fam_store \<Rightarrow> bool" where
  "fam_ok st \<longleftrightarrow>
     (\<forall>h s. live st h = Some s \<longrightarrow> s_hash s = h \<and> h \<noteq> [] \<and> (s_family_id s = [] \<or> is_valid_family_id (s_family_id s)))
   \<and> (\<forall>h r. retired st h = Some r \<longrightarrow> r_hash r = h \<and> is_valid_family_id (r_family_id r) \<and> live st h = None
        \<and> (\<forall>s. live st (r_successor_hash r) = Some s \<longrightarrow> s_family_id s = r_family_id r))
   \<and> (\<forall>h1 h2 s1 s2. live st h1 = Some s1 \<longrightarrow> live st h2 = Some s2 \<longrightarrow> s_family_id s1 \<noteq> []
        \<longrightarrow> s_family_id s1 = s_family_id s2 \<longrightarrow> h1 = h2)
   \<and> (\<forall>h1 h2 s r. live st h1 = Some s \<longrightarrow> retired st h2 = Some r \<longrightarrow> s_family_id s = r_family_id r
        \<longrightarrow> s_user_id s = r_user_id r)"

text \<open>
  The last conjunct of \<open>fam_ok\<close> ties a family to one user. What a caller owes: a session it stores
  opens a family that no entry names yet, with a hash that none carries; user identifiers are
  non-empty and hold no colon.
\<close>

definition fresh_hash :: "string \<Rightarrow> fam_store \<Rightarrow> bool" where
  "fresh_hash h st \<longleftrightarrow> h \<noteq> [] \<and> live st h = None \<and> retired st h = None
     \<and> (\<forall>k r. retired st k = Some r \<longrightarrow> r_successor_hash r \<noteq> h)"

definition fresh_family :: "string \<Rightarrow> fam_store \<Rightarrow> bool" where
  "fresh_family f st \<longleftrightarrow> (\<forall>h s. live st h = Some s \<longrightarrow> s_family_id s \<noteq> f)
     \<and> (\<forall>h r. retired st h = Some r \<longrightarrow> r_family_id r \<noteq> f)"

definition storable :: "session \<Rightarrow> fam_store \<Rightarrow> bool" where
  "storable s st \<longleftrightarrow> is_valid_family_id (s_family_id s) \<and> user_id_ok (s_user_id s)
     \<and> fresh_hash (s_hash s) st \<and> fresh_family (s_family_id s) st"

lemmas drop_defs = drop_live_def drop_retired_def drop_single_def

lemma drop_live_simps [simp]:
  "live (drop_live P st) h = Option.bind (live st h) (\<lambda>s. if P s then None else Some s)"
  "retired (drop_live P st) = retired st" "single (drop_live P st) = single st"
  by (simp_all add: drop_live_def split: option.splits)

lemma drop_retired_simps [simp]:
  "retired (drop_retired Q st) h = Option.bind (retired st h) (\<lambda>r. if Q r then None else Some r)"
  "live (drop_retired Q st) = live st" "single (drop_retired Q st) = single st"
  by (simp_all add: drop_retired_def split: option.splits)

lemma drop_single_simps [simp]:
  "single (drop_single R st) k = Option.bind (single st k) (\<lambda>t. if R t then None else Some t)"
  "live (drop_single R st) = live st" "retired (drop_single R st) = retired st"
  by (simp_all add: drop_single_def split: option.splits)

lemma spec_rotate_simps [simp]:
  "live (spec_rotate now reten old new st) = (live st)(s_hash old := None, s_hash new \<mapsto> new)"
  "retired (spec_rotate now reten old new st) = (if s_family_id old = [] then retired st
     else (retired st)(s_hash old \<mapsto> retention_record now reten old new))"
  "single (spec_rotate now reten old new st) = single st"
  by (simp_all add: spec_rotate_def)

lemma spec_revoke_family_simps [simp]:
  "live (spec_revoke_family f st) h = Option.bind (live st h) (\<lambda>s. if s_family_id s = f then None else Some s)"
  "retired (spec_revoke_family f st) h = Option.bind (retired st h) (\<lambda>r. if r_family_id r = f then None else Some r)"
  "single (spec_revoke_family f st) = single st"
  by (simp_all add: spec_revoke_family_def)

lemma spec_revoke_user_simps [simp]:
  "live (spec_revoke_user u st) h = Option.bind (live st h) (\<lambda>s. if s_user_id s = u then None else Some s)"
  "retired (spec_revoke_user u st) h = Option.bind (retired st h) (\<lambda>r. if r_user_id r = u then None else Some r)"
  "single (spec_revoke_user u st) = single st"
  by (simp_all add: spec_revoke_user_def)

lemma retention_record_simps [simp]:
  "r_hash (retention_record now reten old new) = s_hash old"
  "r_family_id (retention_record now reten old new) = s_family_id old"
  "r_user_id (retention_record now reten old new) = s_user_id old"
  "r_successor_hash (retention_record now reten old new) = s_hash new"
  "r_retired_at (retention_record now reten old new) = now"
  "r_expires_at (retention_record now reten old new) = min (now + as_i64 reten * nanos) (s_expires_at new)"
  by (simp_all add: retention_record_def)

section \<open>Families stay well-formed\<close>

lemma fam_okD:
  assumes "fam_ok st"
  shows fam_ok_live: "\<And>h s. live st h = Some s \<Longrightarrow>
      s_hash s = h \<and> h \<noteq> [] \<and> (s_family_id s = [] \<or> is_valid_family_id (s_family_id s))"
    and fam_ok_retired: "\<And>h r. retired st h = Some r \<Longrightarrow>
      r_hash r = h \<and> is_valid_family_id (r_family_id r) \<and> live st h = None
        \<and> (\<forall>s. live st (r_successor_hash r) = Some s \<longrightarrow> s_family_id s = r_family_id r)"
    and fam_ok_single_live: "\<And>h1 h2 s1 s2. live st h1 = Some s1 \<Longrightarrow> live st h2 = Some s2 \<Longrightarrow>
      s_family_id s1 \<noteq> [] \<Longrightarrow> s_family_id s1 = s_family_id s2 \<Longrightarrow> h1 = h2"
    and fam_ok_user: "\<And>h1 h2 s r. live st h1 = Some s \<Longrightarrow> retired st h2 = Some r \<Longrightarrow>
      s_family_id s = r_family_id r \<Longrightarrow> s_user_id s = r_user_id r"
  using assms unfolding fam_ok_def by blast+

lemma fam_okI:
  assumes "\<And>h s. live st h = Some s \<Longrightarrow>
      s_hash s = h \<and> h \<noteq> [] \<and> (s_family_id s = [] \<or> is_valid_family_id (s_family_id s))"
    and "\<And>h r. retired st h = Some r \<Longrightarrow> r_hash r = h \<and> is_valid_family_id (r_family_id r) \<and> live st h = None"
    and "\<And>h r s. retired st h = Some r \<Longrightarrow> live st (r_successor_hash r) = Some s \<Longrightarrow> s_family_id s = r_family_id r"
    and "\<And>h1 h2 s1 s2. live st h1 = Some s1 \<Longrightarrow> live st h2 = Some s2 \<Longrightarrow>
      s_family_id s1 \<noteq> [] \<Longrightarrow> s_family_id s1 = s_family_id s2 \<Longrightarrow> h1 = h2"
    and "\<And>h1 h2 s r. live st h1 = Some s \<Longrightarrow> retired st h2 = Some r \<Longrightarrow>
      s_family_id s = r_family_id r \<Longrightarrow> s_user_id s = r_user_id r"
  shows "fam_ok st"
  unfolding fam_ok_def using assms by blast

text \<open>Removing entries never breaks a family.\<close>

lemma fam_ok_subset:
  assumes ok: "fam_ok st"
    and l: "\<And>h s. live st' h = Some s \<Longrightarrow> live st h = Some s"
    and r: "\<And>h x. retired st' h = Some x \<Longrightarrow> retired st h = Some x"
  shows "fam_ok st'"
proof (rule fam_okI)
  fix h x assume "retired st' h = Some x"
  then show "r_hash x = h \<and> is_valid_family_id (r_family_id x) \<and> live st' h = None"
    using fam_ok_retired [OF ok r] l by (metis not_Some_eq)
next
  fix h x s assume "retired st' h = Some x" "live st' (r_successor_hash x) = Some s"
  then show "s_family_id s = r_family_id x" using fam_ok_retired [OF ok r] l by blast
next
  fix h s assume "live st' h = Some s"
  then show "s_hash s = h \<and> h \<noteq> [] \<and> (s_family_id s = [] \<or> is_valid_family_id (s_family_id s))"
    using fam_ok_live [OF ok l] by blast
next
  fix h1 h2 s1 s2 assume "live st' h1 = Some s1" "live st' h2 = Some s2" "s_family_id s1 \<noteq> []" "s_family_id s1 = s_family_id s2"
  then show "h1 = h2" using fam_ok_single_live [OF ok l l] by blast
next
  fix h1 h2 s x assume "live st' h1 = Some s" "retired st' h2 = Some x" "s_family_id s = r_family_id x"
  then show "s_user_id s = r_user_id x" using fam_ok_user [OF ok l r] by blast
qed

lemma fam_ok_store:
  assumes ok: "fam_ok st" and s: "storable s st"
  shows "fam_ok (st\<lparr>live := (live st)(s_hash s \<mapsto> s)\<rparr>)" (is "fam_ok ?st")
proof -
  have v: "is_valid_family_id (s_family_id s)" "s_hash s \<noteq> []"
    and fl: "\<And>k x. live st k = Some x \<Longrightarrow> s_family_id x \<noteq> s_family_id s"
    and fr: "\<And>k x. retired st k = Some x \<Longrightarrow> r_family_id x \<noteq> s_family_id s"
    and fh: "\<And>k x. retired st k = Some x \<Longrightarrow> r_successor_hash x \<noteq> s_hash s \<and> k \<noteq> s_hash s"
    using s by (auto simp: storable_def fresh_hash_def fresh_family_def)
  have L: "k = s_hash s \<and> x = s \<or> live st k = Some x" if "live ?st k = Some x" for k x
    using that by (auto split: if_splits)
  show ?thesis
  proof (rule fam_okI)
    fix k x assume "live ?st k = Some x"
    then show "s_hash x = k \<and> k \<noteq> [] \<and> (s_family_id x = [] \<or> is_valid_family_id (s_family_id x))"
      using L [of k x] fam_ok_live [OF ok, of k x] v by auto
  next
    fix k x assume "retired ?st k = Some x"
    then show "r_hash x = k \<and> is_valid_family_id (r_family_id x) \<and> live ?st k = None"
      using fam_ok_retired [OF ok, of k x] fh [of k x] by simp
  next
    fix k x y assume a: "retired ?st k = Some x" "live ?st (r_successor_hash x) = Some y"
    then show "s_family_id y = r_family_id x"
      using L [OF a(2)] fam_ok_retired [OF ok, of k x] fh [of k x] by auto
  next
    fix k1 k2 s1 s2 assume a: "live ?st k1 = Some s1" "live ?st k2 = Some s2" "s_family_id s1 \<noteq> []"
      "s_family_id s1 = s_family_id s2"
    show "k1 = k2"
      using L [OF a(1)] L [OF a(2)] fl [of k1 s1] fl [of k2 s2] a(3,4) fam_ok_single_live [OF ok, of k1 s1 k2 s2]
      by auto
  next
    fix k1 k2 y x assume a: "live ?st k1 = Some y" "retired ?st k2 = Some x" "s_family_id y = r_family_id x"
    show "s_user_id y = r_user_id x"
      using L [OF a(1)] a(2,3) fr [of k2 x] fam_ok_user [OF ok, of k1 y k2 x] by auto
  qed
qed

lemma fam_ok_rotate:
  assumes ok: "fam_ok st" and rt: "rotatable h old new st"
    and n: "fresh_hash (s_hash new) st" "is_valid_family_id (s_family_id new)"
    and leg: "s_family_id old = [] \<Longrightarrow> fresh_family (s_family_id new) st"
  shows "fam_ok (spec_rotate now reten old new st)"
proof -
  note r = rt [unfolded rotatable_def]
  have h: "s_hash old = h" "h \<noteq> []" using fam_ok_live [OF ok] r by auto
  have hn: "s_hash new \<noteq> h" using r by auto
  have ne: "s_family_id new \<noteq> []" using n is_valid_family_id_nonempty by blast
  have same: "s_family_id old \<noteq> [] \<Longrightarrow> s_family_id old = s_family_id new" using r by blast
  have others: "s_family_id x \<noteq> s_family_id new" if x: "live st k = Some x" "k \<noteq> h" for k x
  proof (cases "s_family_id old = []")
    case True
    then show ?thesis using leg x by (simp add: fresh_family_def)
  next
    case False
    then show ?thesis using fam_ok_single_live [OF ok conjunct1 [OF r] x(1) False] same x(2) by metis
  qed
  have retd: "s_user_id new = r_user_id x" if x: "retired st k = Some x" "r_family_id x = s_family_id new" for k x
  proof (cases "s_family_id old = []")
    case True
    then show ?thesis using leg x by (simp add: fresh_family_def)
  next
    case False
    then show ?thesis using fam_ok_user [OF ok conjunct1 [OF r] x(1)] same x(2) r by metis
  qed
  have ov: "s_family_id old \<noteq> [] \<Longrightarrow> is_valid_family_id (s_family_id old)" using same n by simp
  let ?st = "spec_rotate now reten old new st"
  have L: "k = s_hash new \<and> x = new \<or> k \<noteq> h \<and> live st k = Some x" if "live ?st k = Some x" for k x
    using that h by (auto split: if_splits)
  have R: "k = h \<and> x = retention_record now reten old new \<and> s_family_id old \<noteq> [] \<or> retired st k = Some x"
    if "retired ?st k = Some x" for k x
    using that h by (auto split: if_splits)
  have succ: "r_successor_hash x \<noteq> s_hash new" if "retired st k = Some x" for k x
    using n that by (auto simp: fresh_hash_def)
  have nl: "live ?st h = None" using h hn by simp
  have nr: "k \<noteq> s_hash new" if "retired st k = Some x" for k x using n that by (auto simp: fresh_hash_def)
  show ?thesis
  proof (rule fam_okI)
    fix k x assume "live ?st k = Some x"
    then show "s_hash x = k \<and> k \<noteq> [] \<and> (s_family_id x = [] \<or> is_valid_family_id (s_family_id x))"
      using L [of k x] fam_ok_live [OF ok, of k x] n by (auto simp: fresh_hash_def)
  next
    fix k x assume a: "retired ?st k = Some x"
    show "r_hash x = k \<and> is_valid_family_id (r_family_id x) \<and> live ?st k = None"
    proof (cases "retired st k = Some x")
      case True
      then show ?thesis using fam_ok_retired [OF ok True] nr [OF True] by simp
    next
      case False
      then show ?thesis using R [OF a] h ov nl by auto
    qed
  next
    fix k x s assume a: "retired ?st k = Some x" "live ?st (r_successor_hash x) = Some s"
    show "s_family_id s = r_family_id x"
    proof (cases "retired st k = Some x")
      case True
      then show ?thesis using L [OF a(2)] succ [OF True] fam_ok_retired [OF ok True] by auto
    next
      case False
      then have x: "r_successor_hash x = s_hash new" "r_family_id x = s_family_id new"
        using R [OF a(1)] same by auto
      then show ?thesis using a(2) by simp
    qed
  next
    fix k1 k2 s1 s2 assume a: "live ?st k1 = Some s1" "live ?st k2 = Some s2" "s_family_id s1 \<noteq> []"
      "s_family_id s1 = s_family_id s2"
    show "k1 = k2"
      using L [OF a(1)] L [OF a(2)] others [of k1 s1] others [of k2 s2] a(3,4)
        fam_ok_single_live [OF ok, of k1 s1 k2 s2] by auto
  next
    fix k1 k2 s x assume a: "live ?st k1 = Some s" "retired ?st k2 = Some x" "s_family_id s = r_family_id x"
    show "s_user_id s = r_user_id x"
    proof (cases "retired st k2 = Some x")
      case True
      then show ?thesis using L [OF a(1)] a(3) retd [OF True] fam_ok_user [OF ok _ True] by metis
    next
      case False
      then have x: "r_family_id x = s_family_id new" "r_user_id x = s_user_id new"
        using R [OF a(2)] same r by auto
      then show ?thesis using L [OF a(1)] a(3) others [of k1 s] by auto
    qed
  qed
qed

lemma fam_ok_revoke_family: "fam_ok st \<Longrightarrow> fam_ok (spec_revoke_family f st)"
  by (erule fam_ok_subset) (auto simp: bind_eq_Some_conv split: if_splits)

lemma fam_ok_revoke_user: "fam_ok st \<Longrightarrow> fam_ok (spec_revoke_user u st)"
  by (erule fam_ok_subset) (auto simp: bind_eq_Some_conv split: if_splits)

lemma fam_ok_single [simp]: "fam_ok (st\<lparr>single := m\<rparr>) = fam_ok st"
  by (simp add: fam_ok_def)

section \<open>The contract\<close>

text \<open>
  \<open>inv\<close> is what the adapter keeps of its own state, \<open>absf\<close> reads the families off it, \<open>reten\<close> is the
  retention window it stamps retirement records with. The trait calls an entry expired when its
  \<open>expires_at\<close> has passed; at that very instant the stores differ (a sweep may leave it, a claim of its
  key may be refused), and so the contract leaves the instant itself open. A rotation between
  generations of different families or users is a caller's defect: a store may panic on it.
\<close>

definition failed_clean :: "('s \<Rightarrow> fam_store) \<Rightarrow> 'a result \<Rightarrow> 's \<Rightarrow> 's \<Rightarrow> bool" where
  "failed_clean absf r s s' \<longleftrightarrow> (\<exists>d. r = Err (StoreError d)) \<and> absf s' = absf s"

locale session_repository =
  fixes P :: "'s session_port" and inv :: "'s \<Rightarrow> bool" and absf :: "'s \<Rightarrow> fam_store" and reten :: u64
  assumes store_law: "inv s \<Longrightarrow> storable x (absf s) \<Longrightarrow> store_refresh_token P x s = (ru, s') \<Longrightarrow>
      inv s' \<and> (failed_clean absf ru s s' \<or> ru = Ok () \<and> absf s' = (absf s)\<lparr>live := (live (absf s))(s_hash x \<mapsto> x)\<rparr>)"
    and get_law: "inv s \<Longrightarrow> get_session_by_refresh_token P h s = (rg, s') \<Longrightarrow>
      inv s' \<and> (failed_clean absf rg s s' \<or> rg = Ok (live (absf s) h) \<and> absf s' = absf s)"
    and resolve_law: "inv s \<Longrightarrow> h \<noteq> [] \<Longrightarrow> resolve_refresh_token P now h s = (rr, s') \<Longrightarrow>
      inv s' \<and> (failed_clean absf rr s s' \<or> rr = Ok (spec_resolve now h (absf s)) \<and> absf s' = absf s)"
    and rotate_law: "inv s \<Longrightarrow> is_valid_family_id (s_family_id new) \<Longrightarrow> s_hash new \<noteq> [] \<Longrightarrow> s_hash new \<noteq> h \<Longrightarrow>
      rotate_refresh_token P now h new s = (rb, s') \<Longrightarrow>
      inv s' \<and> (failed_clean absf rb s s' \<or> (\<exists>p. rb = Panic p) \<and> absf s' = absf s \<or> rb = Ok False \<and> live (absf s) h = None \<and> absf s' = absf s
        \<or> rb = Ok True \<and> (\<exists>old. rotatable h old new (absf s) \<and> absf s' = spec_rotate now reten old new (absf s)))"
    and revoke_session_law: "inv s \<Longrightarrow> h \<noteq> [] \<Longrightarrow> revoke_session P h s = (ru, s') \<Longrightarrow>
      inv s' \<and> (failed_clean absf ru s s' \<or> ru = Ok () \<and> absf s' = (absf s)\<lparr>live := (live (absf s))(h := None)\<rparr>)"
    and revoke_family_law: "inv s \<Longrightarrow> is_valid_family_id f \<Longrightarrow> revoke_family P f s = (rn, s') \<Longrightarrow>
      inv s' \<and> (failed_clean absf rn s s' \<or> absf s' = spec_revoke_family f (absf s)
        \<and> rn = Ok (of_nat (card {h. \<exists>x. live (absf s) h = Some x \<and> s_family_id x = f}
            + card {h. \<exists>x. retired (absf s) h = Some x \<and> r_family_id x = f})))"
    and revoke_all_law: "inv s \<Longrightarrow> user_id_ok u \<Longrightarrow> revoke_all_user_sessions P u s = (rn, s') \<Longrightarrow>
      inv s' \<and> (failed_clean absf rn s s' \<or> absf s' = spec_revoke_user u (absf s)
        \<and> rn = Ok (of_nat (card {h. \<exists>x. live (absf s) h = Some x \<and> s_user_id x = u})))"
    and list_law: "inv s \<Longrightarrow> user_id_ok u \<Longrightarrow> lmt < 2 ^ 63 \<Longrightarrow> list_live_sessions P u now lmt s = (rl, s') \<Longrightarrow>
      inv s' \<and> (failed_clean absf rl s s' \<or> absf s' = absf s \<and> (\<exists>xs. rl = Ok (take lmt xs) \<and> distinct xs
        \<and> set xs = {x. live (absf s) (s_hash x) = Some x \<and> s_user_id x = u \<and> now < s_expires_at x}
        \<and> sorted_wrt (\<lambda>a b. s_created_at b \<le> s_created_at a) xs))"
    and count_law: "inv s \<Longrightarrow> count_active_sessions P now s = (rn, s') \<Longrightarrow>
      inv s' \<and> (failed_clean absf rn s s' \<or> absf s' = absf s
        \<and> rn = Ok (of_nat (card {h. \<exists>x. live (absf s) h = Some x \<and> now < s_expires_at x})))"
    and cleanup_law: "inv s \<Longrightarrow> cleanup_expired_sessions P now s = (rn, s') \<Longrightarrow>
      inv s' \<and> (\<exists>A B C. absf s' = drop_live (\<lambda>x. s_expires_at x \<le> now \<and> A x) (drop_retired (\<lambda>x. r_expires_at x \<le> now \<and> B x)
          (drop_single (\<lambda>t. t \<le> now \<and> C t) (absf s)))
        \<and> ((\<exists>d. rn = Err (StoreError d)) \<or> (\<exists>n. rn = Ok n) \<and> (\<forall>x. s_expires_at x < now \<longrightarrow> A x)
            \<and> (\<forall>x. r_expires_at x < now \<longrightarrow> B x) \<and> (\<forall>t. t < now \<longrightarrow> C t)))"
    and put_law: "inv s \<Longrightarrow> k \<noteq> [] \<Longrightarrow> put_single_use P now k t s = (rb, s') \<Longrightarrow>
      inv s' \<and> (failed_clean absf rb s s' \<or> rb = Ok False \<and> (\<exists>u. single (absf s) k = Some u \<and> now \<le> u) \<and> absf s' = absf s
        \<or> rb = Ok True \<and> \<not> single_live now k (absf s) \<and> absf s' = (absf s)\<lparr>single := (single (absf s))(k \<mapsto> t)\<rparr>)"
    and take_law: "inv s \<Longrightarrow> k \<noteq> [] \<Longrightarrow> take_single_use P now k s = (rb, s') \<Longrightarrow>
      inv s' \<and> (failed_clean absf rb s s' \<or> rb = Ok False \<and> \<not> single_live now k (absf s) \<and> absf s' = absf s
        \<or> rb = Ok (single_live now k (absf s)) \<and> absf s' = (absf s)\<lparr>single := (single (absf s))(k := None)\<rparr>)"

end
