(* ===== verification/Domain_User.thy ===== *)
theory Domain_User
  imports Third_Party
begin

text \<open>
  Users (\<open>crates/core/src/domain/user.rs\<close>), the page clamp of the admin listings, the status
  lifecycle, the keyset cursor codec (\<open>crates/core/src/cursor.rs\<close>), and the identity facts a
  provider returns (\<open>domain/token.rs\<close>).
\<close>

definition INITIAL_USER_VERSION :: u64 where
  "INITIAL_USER_VERSION = 1"

definition MAX_ADMIN_PAGE_SIZE :: u32 where
  "MAX_ADMIN_PAGE_SIZE = 200"

definition DEFAULT_ADMIN_PAGE_SIZE :: u32 where
  "DEFAULT_ADMIN_PAGE_SIZE = 50"

definition clamp_admin_page_limit :: "u32 \<Rightarrow> u32 result" where
  "clamp_admin_page_limit limit =
     (if limit = 0 then Err (InvalidRequest
        (''limit must be at least 1 and at most '' @ show_nat (unat MAX_ADMIN_PAGE_SIZE)))
      else Ok (min limit MAX_ADMIN_PAGE_SIZE))"

datatype user_status = Active | Suspended | Deleted

fun can_transition_to :: "user_status \<Rightarrow> user_status \<Rightarrow> bool" where
  "can_transition_to Deleted _ = False"
| "can_transition_to _ Deleted = True"
| "can_transition_to _ _ = True"

record user =
  u_id :: string
  u_external_id :: string
  u_provider :: string
  u_email :: "string option"
  u_display_name :: "string option"
  u_metadata :: "json hashmap"
  u_claims :: "json hashmap"
  u_status :: user_status
  u_version :: u64
  u_created_at :: instant
  u_updated_at :: instant

record user_page =
  page_users :: "user list"
  next_cursor :: "string option"

record new_user =
  nu_external_id :: string
  nu_provider :: string
  nu_email :: "string option"
  nu_display_name :: "string option"

record user_patch =
  p_email :: "string option"
  p_display_name :: "string option"
  p_metadata :: "json hashmap option"
  p_claims :: "json hashmap option"
  p_status :: "user_status option"

record identity_claims =
  ic_subject :: string
  ic_email :: "string option"
  ic_email_verified :: "bool option"
  ic_name :: "string option"
  ic_is_private_email :: "bool option"
  ic_signing_alg :: string
  ic_raw_claims :: "json hashmap"

record provider_tokens =
  pt_id_token :: string
  pt_refresh_token :: "string option"
  pt_access_token :: "string option"

section \<open>Keyset cursors\<close>

text \<open>
  The wire object \<open>{c, i}\<close> is written and read by \<open>serde_json\<close>, its instant by \<open>chrono\<close>'s RFC 3339
  functions: both are arguments of the codec.
\<close>

record keyset_cursor =
  kc_created_at :: instant
  kc_id :: string

record cursor_codec =
  wire_to_json :: "string \<times> string \<Rightarrow> string"
  wire_from_json :: "string \<Rightarrow> (string \<times> string) option"
  to_rfc3339 :: "instant \<Rightarrow> string"
  parse_rfc3339 :: "string \<Rightarrow> instant option"

definition cursor_decode :: "'x lib_scheme \<Rightarrow> cursor_codec \<Rightarrow> string \<Rightarrow> keyset_cursor result" where
  "cursor_decode L C raw =
     (if raw = [] then Err (InvalidRequest ''cursor must be a non-empty opaque token'')
      else case b64url_decode L raw of
             None \<Rightarrow> Err (InvalidRequest ''cursor is not a valid opaque token'')
           | Some json_bytes \<Rightarrow>
               (case wire_from_json C json_bytes of
                  None \<Rightarrow> Err (InvalidRequest ''cursor is not a valid opaque token'')
                | Some (c, i) \<Rightarrow>
                    if i = [] then Err (InvalidRequest ''cursor is not a valid opaque token'')
                    else case parse_rfc3339 C c of
                           None \<Rightarrow> Err (InvalidRequest ''cursor is not a valid opaque token'')
                         | Some t \<Rightarrow> Ok \<lparr>kc_created_at = t, kc_id = i\<rparr>))"

definition cursor_encode :: "'x lib_scheme \<Rightarrow> cursor_codec \<Rightarrow> keyset_cursor \<Rightarrow> string result" where
  "cursor_encode L C k =
     (if kc_id k = [] then Panic ''a keyset cursor must carry a non-empty id: without it the resume position is undefined''
      else let encoded = b64url_encode L (wire_to_json C (to_rfc3339 C (kc_created_at k), kc_id k)) in
        if encoded = [] then Panic ''encoding a valid keyset cursor must never produce an empty string''
        else case cursor_decode L C encoded of
               Ok k' \<Rightarrow> if k' = k then Ok encoded else Panic ''cursor encoding must round-trip losslessly''
             | Err _ \<Rightarrow> Panic ''encode output must decode cleanly''
             | Panic p \<Rightarrow> Panic p)"

text \<open>What the codec relies on: the three encodings are inverted by their decoders.\<close>

definition codec_ok :: "'x lib_scheme \<Rightarrow> cursor_codec \<Rightarrow> bool" where
  "codec_ok L C \<longleftrightarrow> b64_ok L \<and> (\<forall>s. s \<noteq> [] \<longrightarrow> b64url_encode L s \<noteq> [])
     \<and> (\<forall>w. wire_to_json C w \<noteq> [] \<and> wire_from_json C (wire_to_json C w) = Some w)
     \<and> (\<forall>t. parse_rfc3339 C (to_rfc3339 C t) = Some t)"

section \<open>Lemmas\<close>

lemma clamp_admin_page_limit_Ok:
  "clamp_admin_page_limit l = Ok n \<longleftrightarrow> l \<noteq> 0 \<and> n = min l 200"
  by (auto simp: clamp_admin_page_limit_def MAX_ADMIN_PAGE_SIZE_def)

lemma can_transition_to_iff: "can_transition_to a b \<longleftrightarrow> a \<noteq> Deleted"
  by (cases a; cases b) simp_all

lemma cursor_encode_Ok:
  assumes "codec_ok L C" "kc_id k \<noteq> []"
  shows "\<exists>s. cursor_encode L C k = Ok s \<and> s \<noteq> [] \<and> cursor_decode L C s = Ok k"
proof -
  let ?s = "b64url_encode L (wire_to_json C (to_rfc3339 C (kc_created_at k), kc_id k))"
  have ne: "?s \<noteq> []" using assms by (simp add: codec_ok_def)
  have "cursor_decode L C ?s = Ok k"
    using assms ne by (simp add: cursor_decode_def codec_ok_def b64_ok_def)
  then show ?thesis using assms ne by (simp add: cursor_encode_def)
qed

lemma cursor_decode_error_class:
  "cursor_decode L C raw = Err e \<Longrightarrow> \<exists>r. e = InvalidRequest r"
  by (auto simp: cursor_decode_def split: if_splits option.splits)

lemma cursor_decode_no_panic: "cursor_decode L C raw \<noteq> Panic p"
  by (auto simp: cursor_decode_def split: if_splits option.splits)

end
