(* ===== verification/User_Port.thy ===== *)
theory User_Port
  imports Domain_User Domain_Session "HOL-Library.List_Lexorder" "HOL-Library.Char_ord" "HOL-Library.Product_Lexorder"
begin

text \<open>
  The user store port (\<open>UserRepository\<close> of \<open>crates/core/src/ports/repository.rs\<close>), its contract as
  the locale \<open>user_repository\<close>, and the in-process store \<open>MockRepository\<close> of
  \<open>crates/test-utils/src/lib.rs\<close>, which the locale is interpreted on. The instant and the ULID an
  implementation draws are arguments.
\<close>

section \<open>The port\<close>

record 'u user_port =
  get_user_by_id :: "string \<Rightarrow> 'u \<Rightarrow> user option result \<times> 'u"
  get_user_by_external_id :: "string \<Rightarrow> string \<Rightarrow> 'u \<Rightarrow> user option result \<times> 'u"
  create_user :: "instant \<Rightarrow> string \<Rightarrow> new_user \<Rightarrow> 'u \<Rightarrow> user result \<times> 'u"
  update_user :: "instant \<Rightarrow> string \<Rightarrow> user_patch \<Rightarrow> 'u \<Rightarrow> user result \<times> 'u"
  delete_user :: "instant \<Rightarrow> string \<Rightarrow> 'u \<Rightarrow> unit result \<times> 'u"
  count_by_status :: "'u \<Rightarrow> u64 hashmap result \<times> 'u"
  list_users :: "string option \<Rightarrow> u32 \<Rightarrow> 'u \<Rightarrow> user_page result \<times> 'u"

text \<open>The effect of a patch on a user: present fields replace, the version counts up.\<close>

definition patch_user :: "instant \<Rightarrow> user_patch \<Rightarrow> user \<Rightarrow> user" where
  "patch_user now p u = u\<lparr>
     u_email := (case p_email p of None \<Rightarrow> u_email u | Some e \<Rightarrow> Some e),
     u_display_name := (case p_display_name p of None \<Rightarrow> u_display_name u | Some d \<Rightarrow> Some d),
     u_metadata := (case p_metadata p of None \<Rightarrow> u_metadata u | Some m \<Rightarrow> m),
     u_claims := (case p_claims p of None \<Rightarrow> u_claims u | Some c \<Rightarrow> c),
     u_status := (case p_status p of None \<Rightarrow> u_status u | Some s \<Rightarrow> s),
     u_updated_at := now, u_version := u_version u + 1\<rparr>"

text \<open>
  \<open>umap\<close> reads the users by id off the store state. Every operation either reports an error and
  leaves the users as they were, or has the stated effect.
\<close>

definition user_failed :: "('u \<Rightarrow> string \<rightharpoonup> user) \<Rightarrow> 'a result \<Rightarrow> 'u \<Rightarrow> 'u \<Rightarrow> bool" where
  "user_failed umap r s s' \<longleftrightarrow> (\<exists>e. r = Err e) \<and> umap s' = umap s"

locale user_repository =
  fixes P :: "'u user_port" and inv :: "'u \<Rightarrow> bool" and umap :: "'u \<Rightarrow> string \<rightharpoonup> user"
  assumes keyed: "inv s \<Longrightarrow> umap s i = Some u \<Longrightarrow> u_id u = i \<and> user_id_ok i"
    and get_law: "inv s \<Longrightarrow> get_user_by_id P i s = (ro, s') \<Longrightarrow>
      inv s' \<and> (user_failed umap ro s s' \<or> ro = Ok (umap s i) \<and> umap s' = umap s)"
    and ext_law: "inv s \<Longrightarrow> get_user_by_external_id P x prv s = (ro, s') \<Longrightarrow>
      inv s' \<and> umap s' = umap s \<and> ((\<exists>e. ro = Err e)
        \<or> ro = Ok None \<and> (\<forall>i u. umap s i = Some u \<longrightarrow> \<not> (u_external_id u = x \<and> u_provider u = prv \<and> u_status u \<noteq> Deleted))
        \<or> (\<exists>u. ro = Ok (Some u) \<and> umap s (u_id u) = Some u \<and> u_external_id u = x \<and> u_provider u = prv \<and> u_status u \<noteq> Deleted))"
    and create_law: "inv s \<Longrightarrow> ulid_ok ulid \<Longrightarrow> create_user P now ulid nu s = (ru, s') \<Longrightarrow>
      inv s' \<and> (user_failed umap ru s s' \<or> (\<exists>u. ru = Ok u \<and> umap s' = (umap s)(u_id u \<mapsto> u)
        \<and> u_external_id u = nu_external_id nu \<and> u_provider u = nu_provider nu \<and> u_status u = Active
        \<and> (\<forall>i v. umap s i = Some v \<longrightarrow> \<not> (u_external_id v = nu_external_id nu \<and> u_provider v = nu_provider nu \<and> u_status v \<noteq> Deleted))))"
    and update_law: "inv s \<Longrightarrow> update_user P now i p s = (ru, s') \<Longrightarrow>
      inv s' \<and> (user_failed umap ru s s'
        \<or> (\<exists>u. umap s i = Some u \<and> ru = Ok (patch_user now p u) \<and> umap s' = (umap s)(i \<mapsto> patch_user now p u)))"
begin

text \<open>Reads change nothing, whatever they answer.\<close>

lemma get_same: "inv s \<Longrightarrow> get_user_by_id P i s = (r, s') \<Longrightarrow> inv s' \<and> umap s' = umap s"
  using get_law by (auto simp: user_failed_def)

lemma get_Ok: "inv s \<Longrightarrow> get_user_by_id P i s = (Ok v, s') \<Longrightarrow> v = umap s i"
  using get_law by (auto simp: user_failed_def)

text \<open>An update touches the one user it names, and never its identity.\<close>

lemma update_frame:
  assumes "inv s" "update_user P now i p s = (r, s')" "j \<noteq> i"
  shows "umap s' j = umap s j"
  using update_law [OF assms(1,2)] assms(3) by (auto simp: user_failed_def)

lemma update_identity:
  assumes "inv s" "update_user P now i p s = (Ok u, s')"
  shows "\<exists>v. umap s i = Some v \<and> u_id u = i \<and> u_external_id u = u_external_id v \<and> u_provider u = u_provider v
    \<and> u_created_at u = u_created_at v \<and> u_version u = u_version v + 1"
  using update_law [OF assms] keyed [OF assms(1)] by (auto simp: user_failed_def patch_user_def)

end

section \<open>The in-process store\<close>

record mock_users =
  mu_users :: "user hashmap"

definition mock_get_user_by_id :: "string \<Rightarrow> mock_users \<Rightarrow> user option result \<times> mock_users" where
  "mock_get_user_by_id i s = (Ok (hm_get (mu_users s) i), s)"

definition live_identity :: "string \<Rightarrow> string \<Rightarrow> user \<Rightarrow> bool" where
  "live_identity x p u \<longleftrightarrow> u_external_id u = x \<and> u_provider u = p \<and> u_status u \<noteq> Deleted"

definition mock_get_user_by_external_id :: "string \<Rightarrow> string \<Rightarrow> mock_users \<Rightarrow> user option result \<times> mock_users" where
  "mock_get_user_by_external_id x p s = (Ok (find (live_identity x p) (map snd (mu_users s))), s)"

definition new_user_id :: "'x lib_scheme \<Rightarrow> string \<Rightarrow> string" where
  "new_user_id L ulid = ''usr_'' @ to_lowercase L ulid"

definition fresh_user :: "instant \<Rightarrow> string \<Rightarrow> new_user \<Rightarrow> user" where
  "fresh_user now i nu = \<lparr>u_id = i, u_external_id = nu_external_id nu, u_provider = nu_provider nu,
     u_email = nu_email nu, u_display_name = nu_display_name nu, u_metadata = [], u_claims = [],
     u_status = Active, u_version = INITIAL_USER_VERSION, u_created_at = now, u_updated_at = now\<rparr>"

definition mock_create_user :: "'x lib_scheme \<Rightarrow> instant \<Rightarrow> string \<Rightarrow> new_user \<Rightarrow> mock_users \<Rightarrow> user result \<times> mock_users" where
  "mock_create_user L now ulid nu s =
     (if list_ex (live_identity (nu_external_id nu) (nu_provider nu)) (map snd (mu_users s))
      then (Err (Conflict (''user already exists for provider='' @ nu_provider nu @ '' external_id='' @ nu_external_id nu)), s)
      else let i = new_user_id L ulid; u = fresh_user now i nu
           in (Ok u, s\<lparr>mu_users := hm_insert i u (mu_users s)\<rparr>))"

definition mock_update_user :: "instant \<Rightarrow> string \<Rightarrow> user_patch \<Rightarrow> mock_users \<Rightarrow> user result \<times> mock_users" where
  "mock_update_user now i p s = (case hm_get (mu_users s) i of
       None \<Rightarrow> (Err (StoreError (''user not found: '' @ i)), s)
     | Some u \<Rightarrow> (Ok (patch_user now p u), s\<lparr>mu_users := hm_insert i (patch_user now p u) (mu_users s)\<rparr>))"

definition mock_delete_user :: "instant \<Rightarrow> string \<Rightarrow> mock_users \<Rightarrow> unit result \<times> mock_users" where
  "mock_delete_user now i s = (case hm_get (mu_users s) i of
       None \<Rightarrow> (Err (StoreError (''user not found: '' @ i)), s)
     | Some u \<Rightarrow> (Ok (), s\<lparr>mu_users := hm_insert i (u\<lparr>u_status := Deleted, u_updated_at := now\<rparr>) (mu_users s)\<rparr>))"

fun status_str :: "user_status \<Rightarrow> string" where
  "status_str Active = ''active''"
| "status_str Suspended = ''suspended''"
| "status_str Deleted = ''deleted''"

definition mock_count_by_status :: "mock_users \<Rightarrow> u64 hashmap result \<times> mock_users" where
  "mock_count_by_status s = (Ok (fold (\<lambda>u counts.
       let k = status_str (u_status u)
       in hm_insert k ((case hm_get counts k of None \<Rightarrow> 0 | Some n \<Rightarrow> n) + 1) counts) (map snd (mu_users s)) []), s)"

text \<open>
  The keyset listing: newest first, ties by descending id, resuming strictly after the cursor.
\<close>

definition page_key :: "user \<Rightarrow> int \<times> string" where
  "page_key u = (u_created_at u, u_id u)"

definition mock_list_users ::
  "'x lib_scheme \<Rightarrow> cursor_codec \<Rightarrow> string option \<Rightarrow> u32 \<Rightarrow> mock_users \<Rightarrow> user_page result \<times> mock_users" where
  "mock_list_users L C cursor limit s =
     (if \<not> (1 \<le> limit \<and> limit \<le> MAX_ADMIN_PAGE_SIZE)
      then (Panic ''mock list_users expects a pre-clamped limit'', s)
      else
        let resume = (case cursor of None \<Rightarrow> Ok None | Some raw \<Rightarrow> map_outcome Some (cursor_decode L C raw));
            users = rev (sort_key page_key (map snd (mu_users s)))
        in case resume of
             Err e \<Rightarrow> (Err e, s)
           | Panic m \<Rightarrow> (Panic m, s)
           | Ok after \<Rightarrow>
               let remaining = (case after of
                       None \<Rightarrow> users
                     | Some pos \<Rightarrow> filter (\<lambda>u. page_key u < (kc_created_at pos, kc_id pos)) users);
                   n = unat limit;
                   page = take n remaining
               in if length remaining > n then
                    (if page = [] then (Panic ''has_more implies a non-empty page'', s)
                     else if length page \<noteq> n then (Panic ''a continued page must carry exactly the requested limit'', s)
                     else case cursor_encode L C \<lparr>kc_created_at = u_created_at (last page), kc_id = u_id (last page)\<rparr> of
                            Ok c \<Rightarrow> (Ok \<lparr>page_users = page, next_cursor = Some c\<rparr>, s)
                          | Err e \<Rightarrow> (Err e, s)
                          | Panic m \<Rightarrow> (Panic m, s))
                  else (Ok \<lparr>page_users = page, next_cursor = None\<rparr>, s))"

definition mock_user_port :: "'x lib_scheme \<Rightarrow> cursor_codec \<Rightarrow> mock_users user_port" where
  "mock_user_port L C = \<lparr>get_user_by_id = mock_get_user_by_id,
     get_user_by_external_id = mock_get_user_by_external_id, create_user = mock_create_user L,
     update_user = mock_update_user, delete_user = mock_delete_user,
     count_by_status = mock_count_by_status, list_users = mock_list_users L C\<rparr>"

definition mock_users_ok :: "mock_users \<Rightarrow> bool" where
  "mock_users_ok s \<longleftrightarrow> distinct (hm_keys (mu_users s)) \<and> (\<forall>i u. hm_get (mu_users s) i = Some u \<longrightarrow> u_id u = i \<and> user_id_ok i)"

section \<open>The store meets the contract\<close>

lemma patch_user_id [simp]: "u_id (patch_user now p u) = u_id u"
  by (simp add: patch_user_def)

lemma hm_get_values:
  "distinct (hm_keys m) \<Longrightarrow> v \<in> set (map snd m) \<longleftrightarrow> (\<exists>k. hm_get m k = Some v)"
  by (force simp: hm_get_def hm_keys_def map_of_eq_Some_iff)

lemma mock_users_ok_insert:
  "mock_users_ok s \<Longrightarrow> u_id u = i \<Longrightarrow> user_id_ok i \<Longrightarrow> mock_users_ok (s\<lparr>mu_users := hm_insert i u (mu_users s)\<rparr>)"
  by (auto simp: mock_users_ok_def distinct_hm_insert split: if_splits)

lemma mock_values:
  assumes "mock_users_ok s"
  shows "u \<in> set (map snd (mu_users s)) \<longleftrightarrow> hm_get (mu_users s) (u_id u) = Some u"
proof -
  have d: "distinct (hm_keys (mu_users s))" and k: "\<And>i u. hm_get (mu_users s) i = Some u \<Longrightarrow> u_id u = i"
    using assms by (auto simp: mock_users_ok_def)
  show ?thesis using hm_get_values [OF d, of u] k by metis
qed

lemma mock_find_None:
  assumes "mock_users_ok s" "find Q (map snd (mu_users s)) = None"
  shows "\<forall>i u. hm_get (mu_users s) i = Some u \<longrightarrow> \<not> Q u"
proof (intro allI impI)
  fix i u assume "hm_get (mu_users s) i = Some u"
  then have "u \<in> set (map snd (mu_users s))" using mock_values [OF assms(1)] assms(1) by (metis mock_users_ok_def)
  then show "\<not> Q u" using assms(2) by (auto simp: find_None_iff)
qed

lemma mock_find_Some:
  assumes "mock_users_ok s" "find Q (map snd (mu_users s)) = Some u"
  shows "hm_get (mu_users s) (u_id u) = Some u \<and> Q u"
  using assms mock_values [OF assms(1)] by (metis find_Some_iff nth_mem)

lemma mock_list_ex:
  assumes "mock_users_ok s" "\<not> list_ex Q (map snd (mu_users s))"
  shows "\<forall>i u. hm_get (mu_users s) i = Some u \<longrightarrow> \<not> Q u"
  using assms by (intro mock_find_None) (auto simp: find_None_iff list_ex_iff)

lemma mock_ext_law:
  assumes ok: "mock_users_ok s"
  shows "find (live_identity x p) (map snd (mu_users s)) = None \<and> (\<forall>i u. hm_get (mu_users s) i = Some u \<longrightarrow> \<not> live_identity x p u)
    \<or> (\<exists>u. find (live_identity x p) (map snd (mu_users s)) = Some u \<and> hm_get (mu_users s) (u_id u) = Some u \<and> live_identity x p u)"
  using mock_find_None [OF ok] mock_find_Some [OF ok]
  by (cases "find (live_identity x p) (map snd (mu_users s))") blast+

lemma mock_update_law:
  assumes ok: "mock_users_ok s" and r: "mock_update_user now i p s = (ru, s')"
  shows "mock_users_ok s' \<and> (user_failed (\<lambda>s. hm_get (mu_users s)) ru s s'
        \<or> (\<exists>u. hm_get (mu_users s) i = Some u \<and> ru = Ok (patch_user now p u) \<and> hm_get (mu_users s') = (hm_get (mu_users s))(i \<mapsto> patch_user now p u)))"
proof (cases "hm_get (mu_users s) i")
  case None
  then show ?thesis using ok r by (auto simp: mock_update_user_def user_failed_def)
next
  case (Some u)
  then have "u_id u = i" "user_id_ok i" using ok by (auto simp: mock_users_ok_def)
  then show ?thesis using Some r mock_users_ok_insert [OF ok, of "patch_user now p u" i]
    by (auto simp: mock_update_user_def fun_eq_iff)
qed

lemma mock_create_law:
  assumes ok: "mock_users_ok s" and u: "ulid_ok ulid" and r: "mock_create_user L now ulid nu s = (ru, s')"
  shows "mock_users_ok s' \<and> (user_failed (\<lambda>s. hm_get (mu_users s)) ru s s'
        \<or> (\<exists>u. ru = Ok u \<and> hm_get (mu_users s') = (hm_get (mu_users s))(u_id u \<mapsto> u)
        \<and> u_external_id u = nu_external_id nu \<and> u_provider u = nu_provider nu \<and> u_status u = Active
        \<and> (\<forall>i v. hm_get (mu_users s) i = Some v \<longrightarrow> \<not> (u_external_id v = nu_external_id nu \<and> u_provider v = nu_provider nu \<and> u_status v \<noteq> Deleted))))"
proof (cases "list_ex (live_identity (nu_external_id nu) (nu_provider nu)) (map snd (mu_users s))")
  case True
  then show ?thesis using ok r by (auto simp: mock_create_user_def user_failed_def)
next
  case False
  let ?u = "fresh_user now (new_user_id L ulid) nu"
  have "mock_users_ok (s\<lparr>mu_users := hm_insert (new_user_id L ulid) ?u (mu_users s)\<rparr>)"
    by (rule mock_users_ok_insert [OF ok])
      (use ulid_lowercase(1) [OF u, where L = L] ulid_lowercase(2) [OF u] in \<open>auto simp: fresh_user_def new_user_id_def user_id_ok_def\<close>)
  moreover have "ru = Ok ?u" "s' = s\<lparr>mu_users := hm_insert (new_user_id L ulid) ?u (mu_users s)\<rparr>"
    using r False by (simp_all add: mock_create_user_def Let_def)
  ultimately show ?thesis using mock_list_ex [OF ok False]
    by (simp add: fun_eq_iff fresh_user_def live_identity_def)
qed

interpretation mu: user_repository "mock_user_port L C" mock_users_ok "\<lambda>s. hm_get (mu_users s)"
proof
  fix s :: mock_users and x p ro s'
  assume ok: "mock_users_ok s" and "get_user_by_external_id (mock_user_port L C) x p s = (ro, s')"
  then show "mock_users_ok s' \<and> hm_get (mu_users s') = hm_get (mu_users s) \<and> ((\<exists>e. ro = Err e)
        \<or> ro = Ok None \<and> (\<forall>i u. hm_get (mu_users s) i = Some u \<longrightarrow> \<not> (u_external_id u = x \<and> u_provider u = p \<and> u_status u \<noteq> Deleted))
        \<or> (\<exists>u. ro = Ok (Some u) \<and> hm_get (mu_users s) (u_id u) = Some u \<and> u_external_id u = x \<and> u_provider u = p \<and> u_status u \<noteq> Deleted))"
    using mock_ext_law [OF ok, of x p] by (auto simp: mock_user_port_def mock_get_user_by_external_id_def live_identity_def)
next
  fix s :: mock_users and now i p ru s'
  assume "mock_users_ok s" "update_user (mock_user_port L C) now i p s = (ru, s')"
  then show "mock_users_ok s' \<and> (user_failed (\<lambda>s. hm_get (mu_users s)) ru s s'
        \<or> (\<exists>u. hm_get (mu_users s) i = Some u \<and> ru = Ok (patch_user now p u) \<and> hm_get (mu_users s') = (hm_get (mu_users s))(i \<mapsto> patch_user now p u)))"
    by (intro mock_update_law) (simp_all add: mock_user_port_def)
next
  fix s :: mock_users and now ulid nu ru s'
  assume "mock_users_ok s" "ulid_ok ulid" "create_user (mock_user_port L C) now ulid nu s = (ru, s')"
  then show "mock_users_ok s' \<and> (user_failed (\<lambda>s. hm_get (mu_users s)) ru s s'
        \<or> (\<exists>u. ru = Ok u \<and> hm_get (mu_users s') = (hm_get (mu_users s))(u_id u \<mapsto> u)
        \<and> u_external_id u = nu_external_id nu \<and> u_provider u = nu_provider nu \<and> u_status u = Active
        \<and> (\<forall>i v. hm_get (mu_users s) i = Some v \<longrightarrow> \<not> (u_external_id v = nu_external_id nu \<and> u_provider v = nu_provider nu \<and> u_status v \<noteq> Deleted))))"
    by (intro mock_create_law [of s _ L]) (simp_all add: mock_user_port_def)
qed (simp_all add: mock_users_ok_def mock_user_port_def mock_get_user_by_id_def)

end
