(* ===== verification/Domain_Audit.thy ===== *)
theory Domain_Audit
  imports Third_Party
begin

text \<open>
  The audit vocabulary (\<open>crates/core/src/domain/audit.rs\<close>, \<open>operator.rs\<close>): severities in the
  order of their discriminants, event types, client addresses with their provenance, the closed
  set of security events and the fixed metadata of each, rate-limit keys, operator principals,
  and the wire form of an outcome.
\<close>

section \<open>Severities\<close>

datatype audit_severity = Emergency | Alert | Critical | SevError | Warning | Notice | Info | Debug

text \<open>The discriminant (\<open>severity as u8\<close>): a smaller number is more severe.\<close>

primrec severity_level :: "audit_severity \<Rightarrow> nat" where
  "severity_level Emergency = 0"
| "severity_level Alert = 1"
| "severity_level Critical = 2"
| "severity_level SevError = 3"
| "severity_level Warning = 4"
| "severity_level Notice = 5"
| "severity_level Info = 6"
| "severity_level Debug = 7"

lemma severity_level_inj [simp]: "severity_level a = severity_level b \<longleftrightarrow> a = b"
  by (cases a; cases b) simp_all

instantiation audit_severity :: linorder
begin

definition less_eq_audit_severity :: "audit_severity \<Rightarrow> audit_severity \<Rightarrow> bool" where
  "a \<le> b \<longleftrightarrow> severity_level a \<le> severity_level b"

definition less_audit_severity :: "audit_severity \<Rightarrow> audit_severity \<Rightarrow> bool" where
  "a < b \<longleftrightarrow> severity_level a < severity_level b"

instance
  by standard (auto simp: less_eq_audit_severity_def less_audit_severity_def order.antisym [THEN severity_level_inj [THEN iffD1]])

end

lemmas severity_defs = less_eq_audit_severity_def less_audit_severity_def

section \<open>Events\<close>

datatype audit_event_type =
    ET_TokenExchange | ET_TokenRefresh | ET_TokenRevocation | ET_SessionRevoked | ET_AllSessionsRevoked
  | ET_UserCreated | ET_UserUpdated | ET_UserSuspended | ET_UserDeleted | ET_ValidationFailed
  | ET_RegistrationDenied | ET_ProviderError | ET_Unauthorized | ET_ThrottleExceeded
  | ET_RefreshTokenReuse | ET_MissingCredential | ET_InvalidCredential | ET_NotConfigured | ET_StoreError

datatype client_addr_source = Src_Peer | Src_Forwarded | Src_Reported | Src_Asserted | Src_Unknown

text \<open>
  \<open>std::net::IpAddr\<close>: the four octets or the sixteen bytes of the address. Its textual form
  (\<open>to_string\<close>) is the standard library's, given as the function argument \<open>ip_text\<close>.
\<close>

datatype ip_addr = V4 u8 u8 u8 u8 | V6 "u8 list"

definition MAX_ASSERTED_CLIENT_ADDR_LEN :: nat where
  "MAX_ASSERTED_CLIENT_ADDR_LEN = 128"

datatype client_addr = Peer ip_addr | Forwarded ip_addr | Reported ip_addr | Asserted string | UnknownAddr

definition asserted_client_addr_new :: "string \<Rightarrow> string option" where
  "asserted_client_addr_new v = (if length v \<le> MAX_ASSERTED_CLIENT_ADDR_LEN then Some v else None)"

definition asserted :: "string \<Rightarrow> client_addr option" where
  "asserted v = map_option Asserted (asserted_client_addr_new v)"

fun addr_source :: "client_addr \<Rightarrow> client_addr_source" where
  "addr_source (Peer _) = Src_Peer"
| "addr_source (Forwarded _) = Src_Forwarded"
| "addr_source (Reported _) = Src_Reported"
| "addr_source (Asserted _) = Src_Asserted"
| "addr_source UnknownAddr = Src_Unknown"

fun audit_address :: "(ip_addr \<Rightarrow> string) \<Rightarrow> client_addr \<Rightarrow> string option" where
  "audit_address ip_text (Peer a) = Some (ip_text a)"
| "audit_address ip_text (Forwarded a) = Some (ip_text a)"
| "audit_address ip_text (Reported a) = Some (ip_text a)"
| "audit_address ip_text (Asserted v) = Some v"
| "audit_address ip_text UnknownAddr = None"

fun rate_limit_key :: "client_addr \<Rightarrow> ip_addr option" where
  "rate_limit_key (Peer a) = Some a"
| "rate_limit_key (Forwarded a) = Some a"
| "rate_limit_key (Reported a) = Some a"
| "rate_limit_key (Asserted _) = None"
| "rate_limit_key UnknownAddr = None"

section \<open>Operators\<close>

datatype operator_auth_mechanism = MutualTls | OperatorToken | SharedSecret

record operator_principal =
  op_id :: string
  op_mechanism :: operator_auth_mechanism

definition UNATTRIBUTED_OPERATOR_ID :: string where
  "UNATTRIBUTED_OPERATOR_ID = ''unattributed''"

definition unattributed :: operator_principal where
  "unattributed = \<lparr>op_id = UNATTRIBUTED_OPERATOR_ID, op_mechanism = SharedSecret\<rparr>"

definition operator_assert_invariants :: "operator_principal \<Rightarrow> unit result" where
  "operator_assert_invariants p =
     (if op_id p = [] then Panic ''operator principal id must be non-empty''
      else if (op_mechanism p \<noteq> SharedSecret) \<noteq> (op_id p \<noteq> UNATTRIBUTED_OPERATOR_ID)
        then Panic ''the unattributed id belongs to the shared-secret mechanism alone''
      else Ok ())"

datatype operator_auth_failure_reason = OA_MissingCredential | OA_InvalidCredential | OA_NotConfigured

fun auth_reason_str :: "operator_auth_failure_reason \<Rightarrow> string" where
  "auth_reason_str OA_MissingCredential = ''missing_credential''"
| "auth_reason_str OA_InvalidCredential = ''invalid_credential''"
| "auth_reason_str OA_NotConfigured = ''not_configured''"

section \<open>Security events\<close>

datatype authentication_kind = AK_Exchange | AK_Refresh

datatype admin_mutation_kind =
  AM_Created | AM_Updated | AM_Suspended | AM_Deleted | AM_SessionRevoked | AM_SessionsRevoked

datatype security_event =
    AuthenticationSucceeded authentication_kind
  | AuthenticationFailed
  | RegistrationDenied
  | PrincipalSuspended
  | PrincipalCreated
  | SessionRevoked
  | SessionsRevoked
  | ProviderRejected
  | AdminMutation admin_mutation_kind
  | OperatorAuthenticationFailed operator_auth_failure_reason
  | RefreshTokenReuse
  | ThrottleExceeded

datatype audit_failure =
    AF_AuthenticationFailed | AF_RegistrationDenied | AF_PrincipalSuspended | AF_ProviderRejected
  | AF_ThrottleExceeded | AF_RefreshTokenReuse | AF_MissingCredential | AF_InvalidCredential
  | AF_NotConfigured | AF_StoreError

datatype audit_outcome = Success | Failure audit_failure

fun oa_audit_failure :: "operator_auth_failure_reason \<Rightarrow> audit_failure" where
  "oa_audit_failure OA_MissingCredential = AF_MissingCredential"
| "oa_audit_failure OA_InvalidCredential = AF_InvalidCredential"
| "oa_audit_failure OA_NotConfigured = AF_NotConfigured"

fun se_severity :: "security_event \<Rightarrow> audit_severity" where
  "se_severity (AuthenticationSucceeded _) = Info"
| "se_severity SessionRevoked = Info"
| "se_severity AuthenticationFailed = Warning"
| "se_severity RegistrationDenied = Warning"
| "se_severity PrincipalSuspended = Warning"
| "se_severity ProviderRejected = Warning"
| "se_severity (OperatorAuthenticationFailed _) = Warning"
| "se_severity RefreshTokenReuse = Warning"
| "se_severity ThrottleExceeded = Warning"
| "se_severity PrincipalCreated = Notice"
| "se_severity SessionsRevoked = Notice"
| "se_severity (AdminMutation _) = Notice"

fun se_event_type :: "security_event \<Rightarrow> audit_event_type" where
  "se_event_type (AuthenticationSucceeded AK_Exchange) = ET_TokenExchange"
| "se_event_type (AuthenticationSucceeded AK_Refresh) = ET_TokenRefresh"
| "se_event_type AuthenticationFailed = ET_ValidationFailed"
| "se_event_type RegistrationDenied = ET_RegistrationDenied"
| "se_event_type PrincipalSuspended = ET_UserSuspended"
| "se_event_type PrincipalCreated = ET_UserCreated"
| "se_event_type SessionRevoked = ET_TokenRevocation"
| "se_event_type SessionsRevoked = ET_AllSessionsRevoked"
| "se_event_type ProviderRejected = ET_ProviderError"
| "se_event_type (AdminMutation AM_Created) = ET_UserCreated"
| "se_event_type (AdminMutation AM_Updated) = ET_UserUpdated"
| "se_event_type (AdminMutation AM_Suspended) = ET_UserSuspended"
| "se_event_type (AdminMutation AM_Deleted) = ET_UserDeleted"
| "se_event_type (AdminMutation AM_SessionRevoked) = ET_SessionRevoked"
| "se_event_type (AdminMutation AM_SessionsRevoked) = ET_AllSessionsRevoked"
| "se_event_type (OperatorAuthenticationFailed _) = ET_Unauthorized"
| "se_event_type RefreshTokenReuse = ET_RefreshTokenReuse"
| "se_event_type ThrottleExceeded = ET_ThrottleExceeded"

record audit_event =
  ae_id :: string
  ae_timestamp :: instant
  ae_severity :: audit_severity
  ae_type :: audit_event_type
  ae_actor :: "string option"
  ae_operator :: "operator_principal option"
  ae_provider :: "string option"
  ae_ip_address :: "string option"
  ae_ip_source :: client_addr_source
  ae_user_agent :: "string option"
  ae_detail :: "json hashmap"
  ae_outcome :: audit_outcome

text \<open>
  The ULID and the instant the event is stamped with are arguments: the caller draws them
  from its environment.
\<close>

definition into_audit_event ::
  "(ip_addr \<Rightarrow> string) \<Rightarrow> string \<Rightarrow> instant \<Rightarrow> security_event \<Rightarrow> audit_outcome \<Rightarrow> string option \<Rightarrow> string option
     \<Rightarrow> client_addr \<Rightarrow> string option \<Rightarrow> audit_event" where
  "into_audit_event ip_text ulid now ev outc actor provider addr user_agent =
     \<lparr>ae_id = ulid, ae_timestamp = now, ae_severity = se_severity ev, ae_type = se_event_type ev,
      ae_actor = actor, ae_operator = None, ae_provider = provider,
      ae_ip_address = audit_address ip_text addr, ae_ip_source = addr_source addr,
      ae_user_agent = user_agent, ae_detail = [], ae_outcome = outc\<rparr>"

section \<open>Rate-limit keys\<close>

definition MAX_RATE_LIMIT_PROVIDER_LEN :: nat where
  "MAX_RATE_LIMIT_PROVIDER_LEN = 128"

definition SUBJECT_HASH_HEX_LEN :: nat where
  "SUBJECT_HASH_HEX_LEN = 64"

datatype rl_key =
    RL_ClientAddr ip_addr
  | RL_ClientAddrFailure ip_addr
  | RL_OperatorAuth ip_addr
  | RL_Subject "string option" string
  | RL_Provider string

datatype rate_limit_decision = Allow | Deny u64

definition subject_hash :: "'x lib_scheme \<Rightarrow> string \<Rightarrow> string" where
  "subject_hash L s = sha256_hex L s"

definition key_client_addr_failure :: "client_addr \<Rightarrow> rl_key option" where
  "key_client_addr_failure a = map_option RL_ClientAddrFailure (rate_limit_key a)"

definition key_provider :: "string \<Rightarrow> rl_key option" where
  "key_provider p = (if length p \<le> MAX_RATE_LIMIT_PROVIDER_LEN then Some (RL_Provider p) else None)"

definition key_subject :: "'x lib_scheme \<Rightarrow> string option \<Rightarrow> string \<Rightarrow> rl_key option" where
  "key_subject L provider subj = (case provider of
       Some p \<Rightarrow> if length p > MAX_RATE_LIMIT_PROVIDER_LEN then None
                else Some (RL_Subject (Some p) (subject_hash L subj))
     | None \<Rightarrow> Some (RL_Subject None (subject_hash L subj)))"

definition key_subject_hashed :: "string option \<Rightarrow> string \<Rightarrow> rl_key option" where
  "key_subject_hashed provider h =
     (if (case provider of Some p \<Rightarrow> length p > MAX_RATE_LIMIT_PROVIDER_LEN | None \<Rightarrow> False)
         \<or> length h \<noteq> SUBJECT_HASH_HEX_LEN \<or> \<not> list_all is_ascii_hexdigit h
      then None else Some (RL_Subject provider h))"

section \<open>The wire form of an outcome\<close>

fun failure_wire :: "audit_failure \<Rightarrow> string" where
  "failure_wire AF_AuthenticationFailed = ''authentication_failed''"
| "failure_wire AF_RegistrationDenied = ''registration_denied''"
| "failure_wire AF_PrincipalSuspended = ''principal_suspended''"
| "failure_wire AF_ProviderRejected = ''provider_rejected''"
| "failure_wire AF_ThrottleExceeded = ''throttle_exceeded''"
| "failure_wire AF_RefreshTokenReuse = ''refresh_token_reuse''"
| "failure_wire AF_MissingCredential = ''missing_credential''"
| "failure_wire AF_InvalidCredential = ''invalid_credential''"
| "failure_wire AF_NotConfigured = ''not_configured''"
| "failure_wire AF_StoreError = ''store_error''"

definition all_failures :: "audit_failure list" where
  "all_failures = [AF_AuthenticationFailed, AF_RegistrationDenied, AF_PrincipalSuspended, AF_ProviderRejected,
     AF_ThrottleExceeded, AF_RefreshTokenReuse, AF_MissingCredential, AF_InvalidCredential, AF_NotConfigured,
     AF_StoreError]"

definition failure_unwire :: "string \<Rightarrow> audit_failure option" where
  "failure_unwire s = find (\<lambda>f. failure_wire f = s) all_failures"

text \<open>The entries of the serialized map, in order.\<close>

fun outcome_serialize :: "audit_outcome \<Rightarrow> (string \<times> string) list" where
  "outcome_serialize Success = [(''status'', ''success'')]"
| "outcome_serialize (Failure r) = [(''status'', ''failure''), (''reason'', failure_wire r)]"

text \<open>
  \<open>visit_map\<close>: the entries are read in order, a repeated key overwrites, other keys are
  ignored, and a \<open>reason\<close> outside the closed set is an error where it is read.
\<close>

fun visit_map :: "string option \<Rightarrow> audit_failure option \<Rightarrow> (string \<times> string) list \<Rightarrow> (string, audit_outcome) outcome" where
  "visit_map status reason ((k, v) # rest) =
     (if k = ''status'' then visit_map (Some v) reason rest
      else if k = ''reason'' then
        (case failure_unwire v of None \<Rightarrow> Err ''unknown variant'' | Some f \<Rightarrow> visit_map status (Some f) rest)
      else visit_map status reason rest)"
| "visit_map status reason [] =
     (case status of
        None \<Rightarrow> Err ''missing field `status`''
      | Some s \<Rightarrow>
          if s = ''success'' then Ok Success
          else if s = ''failure'' then
            (case reason of None \<Rightarrow> Err ''missing field `reason`'' | Some r \<Rightarrow> Ok (Failure r))
          else Err ''unknown variant'')"

definition outcome_deserialize :: "(string \<times> string) list \<Rightarrow> (string, audit_outcome) outcome" where
  "outcome_deserialize m = visit_map None None m"

section \<open>Lemmas\<close>

lemma failure_unwire_wire [simp]: "failure_unwire (failure_wire f) = Some f"
  by (cases f) (simp_all add: failure_unwire_def all_failures_def)

lemma se_severity_min: "Warning \<le> se_severity ev"
  by (cases ev) (simp_all add: severity_defs)

lemma se_warning_iff_rejection:
  "se_severity ev = Warning \<longleftrightarrow> ev \<in> {AuthenticationFailed, RegistrationDenied, PrincipalSuspended,
     ProviderRejected, RefreshTokenReuse, ThrottleExceeded} \<or> (\<exists>r. ev = OperatorAuthenticationFailed r)"
  by (cases ev) simp_all

lemma operator_invariants_Ok:
  "operator_assert_invariants p = Ok () \<longleftrightarrow>
     op_id p \<noteq> [] \<and> (op_mechanism p = SharedSecret \<longleftrightarrow> op_id p = UNATTRIBUTED_OPERATOR_ID)"
  by (auto simp: operator_assert_invariants_def)

lemma unattributed_ok [simp]: "operator_assert_invariants unattributed = Ok ()"
  by (simp add: operator_invariants_Ok unattributed_def UNATTRIBUTED_OPERATOR_ID_def)

lemma rate_limit_key_server_established:
  "rate_limit_key a = Some i \<longleftrightarrow> a \<in> {Peer i, Forwarded i, Reported i}"
  by (cases a) auto

lemma outcome_roundtrip: "outcome_deserialize (outcome_serialize oc) = Ok oc"
  by (cases oc) (simp_all add: outcome_deserialize_def)

end
