(* ===== verification/Claims.thy ===== *)
theory Claims
  imports Domain_User "HOL-Library.List_Lexorder" "HOL-Library.Char_ord"
begin

text \<open>
  Custom claims (\<open>crates/core/src/service/claims.rs\<close>): the closed set of reserved protocol claim
  names, the deterministic search for an offending name, and the resolution of configured
  templates and per-user claims into the claims of an access token. Strings are ordered by their
  bytes, as \<open>Ord for String\<close> does.
\<close>

section \<open>Reserved names\<close>

definition RESERVED_CLAIMS :: "string list" where
  "RESERVED_CLAIMS = [''iss'', ''sub'', ''aud'', ''exp'', ''nbf'', ''iat'', ''jti'',
     ''acr'', ''amr'', ''at_hash'', ''auth_time'', ''azp'', ''c_hash'', ''cnf'', ''nonce'', ''sid'', ''typ'',
     ''client_id'', ''scope'', ''scp'', ''roles'', ''groups'', ''entitlements'', ''permissions'']"

definition is_reserved_claim :: "string \<Rightarrow> bool" where
  "is_reserved_claim key = (key \<in> set RESERVED_CLAIMS)"

definition find_reserved_claim_key :: "'v hashmap \<Rightarrow> string option" where
  "find_reserved_claim_key claims = find is_reserved_claim (sort (hm_keys claims))"

section \<open>Templates\<close>

text \<open>\<open>str::split(c)\<close>: the pieces between the separators, at least one.\<close>

fun split_on :: "char \<Rightarrow> string \<Rightarrow> string list" where
  "split_on c [] = [[]]"
| "split_on c (x # xs) = (if x = c then [] # split_on c xs
     else case split_on c xs of [] \<Rightarrow> [[x]] | p # ps \<Rightarrow> (x # p) # ps)"

definition starts_with :: "string \<Rightarrow> string \<Rightarrow> bool" where
  "starts_with s p = prefix p s"

definition ends_with :: "string \<Rightarrow> string \<Rightarrow> bool" where
  "ends_with s p = suffix p s"

definition quote :: string where
  "quote = [CHR 0x27]"

definition resolve_field :: "string \<Rightarrow> user \<Rightarrow> json option" where
  "resolve_field path u = (case split_on (CHR ''.'') path of
       seg0 # field # rest \<Rightarrow>
         if seg0 \<noteq> ''user'' then None
         else if field = ''id'' then Some (JString (u_id u))
         else if field = ''email'' then map_option JString (u_email u)
         else if field = ''display_name'' then map_option JString (u_display_name u)
         else if field = ''provider'' then Some (JString (u_provider u))
         else if field = ''external_id'' then Some (JString (u_external_id u))
         else if field = ''metadata'' then
           (case rest of [] \<Rightarrow> None | key # _ \<Rightarrow> hm_get (u_metadata u) key)
         else if field = ''claims'' then
           (case rest of [] \<Rightarrow> None
            | key # _ \<Rightarrow> if is_reserved_claim key then None else hm_get (u_claims u) key)
         else None
     | _ \<Rightarrow> None)"

definition parse_default_filter :: "string \<Rightarrow> (string \<times> string) option" where
  "parse_default_filter inner =
     (if CHR ''|'' \<notin> set inner then None
      else let path = takeWhile (\<lambda>c. c \<noteq> CHR ''|'') inner;
               filter_part = trim (tl (dropWhile (\<lambda>c. c \<noteq> CHR ''|'') inner))
           in case strip_prefix ''default:'' filter_part of
                None \<Rightarrow> None
              | Some rest0 \<Rightarrow>
                  let rest = trim rest0;
                      dflt = (if starts_with rest quote \<and> ends_with rest quote \<and> length rest \<ge> 2
                              then take (length rest - 2) (drop 1 rest) else rest)
                  in Some (path, dflt))"

definition resolve_template :: "string \<Rightarrow> user \<Rightarrow> json option" where
  "resolve_template template u =
     (let trimmed = trim template in
      if starts_with trimmed ''{{'' \<and> ends_with trimmed ''}}'' then
        let inner = trim (take (length trimmed - 4) (drop 2 trimmed)) in
        (case parse_default_filter inner of
           Some (path, dflt) \<Rightarrow>
             (case resolve_field (trim path) u of Some v \<Rightarrow> Some v | None \<Rightarrow> Some (JString dflt))
         | None \<Rightarrow> resolve_field inner u)
      else Some (JString template))"

section \<open>Resolution\<close>

definition resolve_config_claims :: "(string \<times> string) list \<Rightarrow> user \<Rightarrow> json hashmap \<Rightarrow> json hashmap" where
  "resolve_config_claims templates u result = fold (\<lambda>(key, template) acc.
       if is_reserved_claim key then acc
       else case resolve_template template u of None \<Rightarrow> acc | Some v \<Rightarrow> hm_insert key v acc) templates result"

definition merge_user_claims :: "(string \<times> json) list \<Rightarrow> json hashmap \<Rightarrow> json hashmap" where
  "merge_user_claims claims result = fold (\<lambda>(key, v) acc.
       if is_reserved_claim key then acc else hm_insert key v acc) claims result"

definition resolve_custom_claims :: "string hashmap option \<Rightarrow> user \<Rightarrow> json hashmap" where
  "resolve_custom_claims config_claims u =
     merge_user_claims (u_claims u)
       (case config_claims of None \<Rightarrow> [] | Some templates \<Rightarrow> resolve_config_claims templates u [])"

section \<open>Lemmas\<close>

lemma find_reserved_None:
  "find_reserved_claim_key m = None \<longleftrightarrow> (\<forall>k \<in> set (hm_keys m). \<not> is_reserved_claim k)"
  by (auto simp: find_reserved_claim_key_def find_None_iff)

lemma find_reserved_Some:
  assumes "find_reserved_claim_key m = Some k"
  shows "k \<in> set (hm_keys m)" "is_reserved_claim k"
    "\<And>k'. k' \<in> set (hm_keys m) \<Longrightarrow> is_reserved_claim k' \<Longrightarrow> k \<le> k'"
proof -
  let ?s = "sort (hm_keys m)"
  obtain i where i: "i < length ?s" "is_reserved_claim (?s ! i)" "k = ?s ! i"
      "\<forall>j < i. \<not> is_reserved_claim (?s ! j)"
    using assms by (auto simp: find_reserved_claim_key_def find_Some_iff)
  then show "k \<in> set (hm_keys m)" "is_reserved_claim k" by (metis nth_mem set_sort, simp)
  fix k' assume "k' \<in> set (hm_keys m)" "is_reserved_claim k'"
  then obtain j where j: "j < length ?s" "?s ! j = k'" by (metis in_set_conv_nth set_sort)
  then have "i \<le> j" using i \<open>is_reserved_claim k'\<close> by (metis not_le)
  then show "k \<le> k'" using i j sorted_nth_mono [OF sorted_sort] by metis
qed

lemma split_on_nonempty [simp]: "split_on c s \<noteq> []"
  by (induction s) (auto split: list.splits)

lemma resolve_field_never_reserved:
  assumes "split_on (CHR ''.'') path = ''user'' # ''claims'' # key # rest" "is_reserved_claim key"
  shows "resolve_field path u = None"
  using assms by (simp add: resolve_field_def)

lemma hm_get_merge_user_claims:
  assumes "distinct (map fst claims)"
  shows "hm_get (merge_user_claims claims acc) k =
    (if is_reserved_claim k then hm_get acc k
     else case map_of claims k of Some v \<Rightarrow> Some v | None \<Rightarrow> hm_get acc k)"
  using assms
proof (induction claims arbitrary: acc)
  case (Cons kv claims)
  obtain k0 v0 where kv: "kv = (k0, v0)" by (cases kv)
  have "k0 \<notin> fst ` set claims" using Cons.prems kv by simp
  then have "map_of claims k0 = None" by (simp add: map_of_eq_None_iff)
  then show ?case using Cons kv by (auto simp: merge_user_claims_def split: option.splits)
qed (simp add: merge_user_claims_def)

lemma hm_get_resolve_config_claims:
  assumes "distinct (map fst templates)"
  shows "hm_get (resolve_config_claims templates u acc) k =
    (if is_reserved_claim k then hm_get acc k
     else case map_of templates k of
            None \<Rightarrow> hm_get acc k
          | Some t \<Rightarrow> (case resolve_template t u of Some v \<Rightarrow> Some v | None \<Rightarrow> hm_get acc k))"
  using assms
proof (induction templates arbitrary: acc)
  case (Cons kt templates)
  obtain k0 t0 where kt: "kt = (k0, t0)" by (cases kt)
  have "k0 \<notin> fst ` set templates" using Cons.prems kt by simp
  then have "map_of templates k0 = None" by (simp add: map_of_eq_None_iff)
  then show ?case using Cons kt by (auto simp: resolve_config_claims_def split: option.splits)
qed (simp add: resolve_config_claims_def)

lemma hm_get_resolve_custom_claims:
  assumes "distinct (hm_keys (u_claims u))" "\<And>t. cfg = Some t \<Longrightarrow> distinct (hm_keys t)"
  shows "hm_get (resolve_custom_claims cfg u) k =
    (if is_reserved_claim k then None
     else case hm_get (u_claims u) k of
            Some v \<Rightarrow> Some v
          | None \<Rightarrow> Option.bind cfg (\<lambda>t. Option.bind (hm_get t k) (\<lambda>tpl. resolve_template tpl u)))"
proof (cases cfg)
  case None
  then show ?thesis using assms
    by (simp add: resolve_custom_claims_def hm_get_merge_user_claims hm_keys_def hm_get_def [symmetric]
        split: option.splits)
next
  case (Some t)
  then show ?thesis using assms
    by (auto simp: resolve_custom_claims_def hm_get_merge_user_claims hm_get_resolve_config_claims
        hm_keys_def hm_get_def [symmetric] split: option.splits)
qed

lemma merge_user_claims_reserved:
  "is_reserved_claim k \<Longrightarrow> hm_get (merge_user_claims claims acc) k = hm_get acc k"
proof (induction claims arbitrary: acc)
  case (Cons kv claims)
  then show ?case by (cases kv) (auto simp: merge_user_claims_def)
qed (simp add: merge_user_claims_def)

lemma resolve_config_claims_reserved:
  "is_reserved_claim k \<Longrightarrow> hm_get (resolve_config_claims ts u acc) k = hm_get acc k"
proof (induction ts arbitrary: acc)
  case (Cons t ts)
  then show ?case by (cases t) (auto simp: resolve_config_claims_def split: option.splits)
qed (simp add: resolve_config_claims_def)

lemma resolve_custom_claims_not_reserved:
  "is_reserved_claim k \<Longrightarrow> hm_get (resolve_custom_claims cfg u) k = None"
  by (simp add: resolve_custom_claims_def merge_user_claims_reserved resolve_config_claims_reserved
      split: option.splits)

end
