(* ===== verification/Service.thy ===== *)
theory Service
  imports Session_Port User_Port Domain_Audit Claims
begin

text \<open>
  The service core (\<open>crates/core/src/service/mod.rs\<close>): the \<open>AppService\<close> record of ports and
  configuration, the world its operations run in, and audit emission with its thresholds and
  durability policy. A port object is a record of functions; the signing keys, the identity
  providers, the audit sink and the user-sync sink live outside the process, so each of their
  answers depends on how many outside calls came before (\<open>w_ticks\<close>). The same counter indexes the
  readings of \<open>Utc::now()\<close>, which nothing here assumes to be monotone.
\<close>

section \<open>Configuration\<close>

datatype audit_durability = Observe | Enforce

definition is_enforce :: "audit_durability \<Rightarrow> bool" where
  "is_enforce d = (d = Enforce)"

datatype registration_mode = Open | ExistingUsersOnly

definition MAX_REFRESH_ROTATION_GRACE_SECS :: u64 where
  "MAX_REFRESH_ROTATION_GRACE_SECS = 60"

record config =
  cfg_issuer :: string
  cfg_audience :: string
  cfg_access_token_ttl :: u64
  cfg_refresh_token_ttl :: u64
  cfg_custom_claims :: "string hashmap option"
  cfg_refresh_rotation :: bool
  cfg_refresh_rotation_grace :: u64
  cfg_emit_threshold :: audit_severity
  cfg_blocking_threshold :: audit_severity
  cfg_durability :: audit_durability
  cfg_registration_mode :: registration_mode
  cfg_domain_allowlist :: "string list option"
  cfg_max_assertion_lifetime :: u64
  cfg_nonce_ttl :: u64

section \<open>Ports outside the process\<close>

record key_manager =
  km_sign :: "nat \<Rightarrow> string \<Rightarrow> string result"
  km_verify :: "nat \<Rightarrow> string \<Rightarrow> string \<Rightarrow> bool result"
  km_public_jwk :: "nat \<Rightarrow> json result"
  km_algorithm :: string
  km_key_id :: string

record identity_provider =
  ip_exchange_code :: "nat \<Rightarrow> string \<Rightarrow> string \<Rightarrow> provider_tokens result"
  ip_validate_id_token :: "nat \<Rightarrow> string \<Rightarrow> identity_claims result"
  ip_provider_id :: string
  ip_client_id :: string

record 'r limiter_port =
  check_and_consume :: "instant \<Rightarrow> rl_key \<Rightarrow> 'r \<Rightarrow> rate_limit_decision result \<times> 'r"
  check :: "instant \<Rightarrow> rl_key \<Rightarrow> 'r \<Rightarrow> rate_limit_decision result \<times> 'r"
  consume :: "instant \<Rightarrow> rl_key \<Rightarrow> 'r \<Rightarrow> rate_limit_decision result \<times> 'r"

datatype sync_call = SyncCreated user | SyncUpdated user "string list" | SyncDeleted string

section \<open>Access tokens on the wire\<close>

record access_token_claims =
  c_sub :: string
  c_iss :: string
  c_aud :: string
  c_sid :: string
  c_iat :: u64
  c_exp :: u64
  c_custom :: "json hashmap"

record access_token_header =
  h_alg :: string
  h_typ :: string
  h_kid :: string

text \<open>
  \<open>serde_json\<close> on the token structures: writers can fail, readers answer \<open>None\<close> on a parse
  failure. \<open>nbf_of_json\<close> reads the optional \<open>nbf\<close> of a payload.
\<close>

record token_codec =
  claims_to_json :: "access_token_claims \<Rightarrow> string option"
  claims_of_json :: "string \<Rightarrow> access_token_claims option"
  header_to_json :: "access_token_header \<Rightarrow> string option"
  header_of_json :: "string \<Rightarrow> access_token_header option"
  nbf_of_json :: "string \<Rightarrow> u64 option option"

section \<open>The service and its world\<close>

record ('s, 'u, 'r) app_service =
  user_repo :: "'u user_port"
  session_repo :: "'s session_port"
  keys :: key_manager
  audit_sink :: "nat \<Rightarrow> audit_event \<Rightarrow> error option"
  user_sync :: "nat \<Rightarrow> sync_call \<Rightarrow> error option"
  rate_limiter :: "'r limiter_port"
  providers :: "identity_provider hashmap"
  config :: config
  lib :: lib
  token_json :: token_codec
  ip_text :: "ip_addr \<Rightarrow> string"

record ('s, 'u, 'r) world =
  w_clock :: "nat \<Rightarrow> instant"
  w_ticks :: nat
  w_random :: "nat \<Rightarrow> string"
  w_draws :: nat
  w_ulid :: "nat \<Rightarrow> string"
  w_ulids :: nat
  w_sessions :: 's
  w_users :: 'u
  w_limits :: 'r
  w_audit :: "audit_event list"
  w_attempts :: "audit_event list"
  w_fallback :: "(audit_severity \<times> audit_event) list"
  w_sync :: "sync_call list"
  w_fail_total :: u64
  w_fail_run :: u64

type_synonym ('s, 'u, 'r, 'a) svc = "(('s, 'u, 'r) world, error, 'a) prog"

subsection \<open>The environment\<close>

definition utc_now :: "(('s, 'u, 'r) world, 'e, instant) prog" where
  "utc_now w = (Ok (w_clock w (w_ticks w)), w\<lparr>w_ticks := Suc (w_ticks w)\<rparr>)"

definition outside :: "(nat \<Rightarrow> 'a) \<Rightarrow> (('s, 'u, 'r) world, 'e, 'a) prog" where
  "outside f w = (Ok (f (w_ticks w)), w\<lparr>w_ticks := Suc (w_ticks w)\<rparr>)"

definition outside_result :: "(nat \<Rightarrow> ('e, 'a) outcome) \<Rightarrow> (('s, 'u, 'r) world, 'e, 'a) prog" where
  "outside_result f w = (f (w_ticks w), w\<lparr>w_ticks := Suc (w_ticks w)\<rparr>)"

definition random_bytes :: "(('s, 'u, 'r) world, 'e, string) prog" where
  "random_bytes w = (Ok (w_random w (w_draws w)), w\<lparr>w_draws := Suc (w_draws w)\<rparr>)"

definition gen_ulid :: "(('s, 'u, 'r) world, 'e, string) prog" where
  "gen_ulid w = (Ok (w_ulid w (w_ulids w)), w\<lparr>w_ulids := Suc (w_ulids w)\<rparr>)"

definition on_sessions :: "('s \<Rightarrow> ('e, 'a) outcome \<times> 's) \<Rightarrow> (('s, 'u, 'r) world, 'e, 'a) prog" where
  "on_sessions f w = (case f (w_sessions w) of (r, s) \<Rightarrow> (r, w\<lparr>w_sessions := s\<rparr>))"

definition on_users :: "('u \<Rightarrow> ('e, 'a) outcome \<times> 'u) \<Rightarrow> (('s, 'u, 'r) world, 'e, 'a) prog" where
  "on_users f w = (case f (w_users w) of (r, s) \<Rightarrow> (r, w\<lparr>w_users := s\<rparr>))"

definition on_limits :: "('r \<Rightarrow> ('e, 'a) outcome \<times> 'r) \<Rightarrow> (('s, 'u, 'r) world, 'e, 'a) prog" where
  "on_limits f w = (case f (w_limits w) of (r, s) \<Rightarrow> (r, w\<lparr>w_limits := s\<rparr>))"

section \<open>Audit\<close>

definition AUDIT_SINK_DEGRADED_AFTER_CONSECUTIVE_FAILURES :: u64 where
  "AUDIT_SINK_DEGRADED_AFTER_CONSECUTIVE_FAILURES = 3"

definition audit_sink_degraded :: "('s, 'u, 'r) world \<Rightarrow> bool" where
  "audit_sink_degraded w \<longleftrightarrow> w_fail_run w \<ge> AUDIT_SINK_DEGRADED_AFTER_CONSECUTIVE_FAILURES"

definition record_mandatory_audit_success :: "('s, 'u, 'r) world \<Rightarrow> ('s, 'u, 'r) world" where
  "record_mandatory_audit_success w = w\<lparr>w_fail_run := 0\<rparr>"

definition record_mandatory_audit_failure :: "('s, 'u, 'r) world \<Rightarrow> ('s, 'u, 'r) world" where
  "record_mandatory_audit_failure w =
     w\<lparr>w_fail_total := w_fail_total w + 1, w_fail_run := saturating_add_u64 (w_fail_run w) 1\<rparr>"

text \<open>\<open>AuditLog::emit\<close>: what the sink accepts is appended to the durable log.\<close>

definition audit_emit :: "('s, 'u, 'r) app_service \<Rightarrow> audit_event \<Rightarrow> ('s, 'u, 'r, unit) svc" where
  "audit_emit A ev w =
     (let w' = w\<lparr>w_ticks := Suc (w_ticks w), w_attempts := w_attempts w @ [ev]\<rparr> in
      case audit_sink A (w_ticks w) ev of
        None \<Rightarrow> (Ok (), w'\<lparr>w_audit := w_audit w @ [ev]\<rparr>)
      | Some e \<Rightarrow> (Err e, w'))"

definition log_audit_fallback :: "audit_event \<Rightarrow> ('s, 'u, 'r) world \<Rightarrow> ('s, 'u, 'r) world" where
  "log_audit_fallback ev w = w\<lparr>w_fallback := w_fallback w @
     [(if severity_level (ae_severity ev) \<le> severity_level SevError then SevError else Info, ev)]\<rparr>"

definition emit_audit :: "('s, 'u, 'r) app_service \<Rightarrow> audit_event \<Rightarrow> ('s, 'u, 'r, unit) svc" where
  "emit_audit A ev =
     (if severity_level (ae_severity ev) > severity_level (cfg_emit_threshold (config A)) then ret ()
      else and_then (audit_emit A ev) ret (\<lambda>e.
        seqq (writes (log_audit_fallback ev))
          (if severity_level (ae_severity ev) \<le> severity_level (cfg_blocking_threshold (config A))
           then throw e else ret ())))"

definition emit_mandatory_audit_event :: "('s, 'u, 'r) app_service \<Rightarrow> audit_event \<Rightarrow> ('s, 'u, 'r, unit) svc" where
  "emit_mandatory_audit_event A ev = and_then (audit_emit A ev)
     (\<lambda>_. writes record_mandatory_audit_success)
     (\<lambda>e. seqq (writes record_mandatory_audit_failure) (seqq (writes (log_audit_fallback ev))
        (if is_enforce (cfg_durability (config A)) then throw (SecurityAuditDurability (display_error e)) else ret ())))"

text \<open>\<open>SecurityEvent::into_audit_event\<close> in its world: a ULID, then a clock reading.\<close>

definition build_security_event ::
  "('s, 'u, 'r) app_service \<Rightarrow> security_event \<Rightarrow> audit_outcome \<Rightarrow> string option \<Rightarrow> string option \<Rightarrow> client_addr
     \<Rightarrow> string option \<Rightarrow> (('s, 'u, 'r) world, 'e, audit_event) prog" where
  "build_security_event A ev outc actor provider addr ua =
     bindq gen_ulid (\<lambda>i. bindq utc_now (\<lambda>t. ret (into_audit_event (ip_text A) i t ev outc actor provider addr ua)))"

definition emit_security_event_with_detail ::
  "('s, 'u, 'r) app_service \<Rightarrow> security_event \<Rightarrow> audit_outcome \<Rightarrow> string option \<Rightarrow> string option \<Rightarrow> client_addr
     \<Rightarrow> string option \<Rightarrow> json hashmap \<Rightarrow> ('s, 'u, 'r, unit) svc" where
  "emit_security_event_with_detail A ev outc actor provider addr ua detail =
     bindq (build_security_event A ev outc actor provider addr ua)
       (\<lambda>e. emit_mandatory_audit_event A (e\<lparr>ae_detail := detail\<rparr>))"

definition emit_security_event ::
  "('s, 'u, 'r) app_service \<Rightarrow> security_event \<Rightarrow> audit_outcome \<Rightarrow> string option \<Rightarrow> string option \<Rightarrow> client_addr
     \<Rightarrow> string option \<Rightarrow> ('s, 'u, 'r, unit) svc" where
  "emit_security_event A ev outc actor provider addr ua =
     emit_security_event_with_detail A ev outc actor provider addr ua []"

definition create_audit_event ::
  "('s, 'u, 'r) app_service \<Rightarrow> audit_event_type \<Rightarrow> audit_severity \<Rightarrow> audit_outcome \<Rightarrow> string option \<Rightarrow> string option
     \<Rightarrow> client_addr \<Rightarrow> string option \<Rightarrow> (('s, 'u, 'r) world, 'e, audit_event) prog" where
  "create_audit_event A ty sev outc actor provider addr ua =
     bindq gen_ulid (\<lambda>i. bindq utc_now (\<lambda>t. ret \<lparr>ae_id = i, ae_timestamp = t, ae_severity = sev, ae_type = ty,
        ae_actor = actor, ae_operator = None, ae_provider = provider, ae_ip_address = audit_address (ip_text A) addr,
        ae_ip_source = addr_source addr, ae_user_agent = ua, ae_detail = [], ae_outcome = outc\<rparr>))"

definition parse_severity :: "'x lib_scheme \<Rightarrow> string \<Rightarrow> audit_severity option" where
  "parse_severity L s = (let t = to_lowercase L (trim s) in
     if t = ''emergency'' then Some Emergency else if t = ''alert'' then Some Alert
     else if t = ''critical'' then Some Critical else if t = ''error'' then Some SevError
     else if t = ''warning'' then Some Warning else if t = ''notice'' then Some Notice
     else if t = ''info'' then Some Info else if t = ''debug'' then Some Debug else None)"

section \<open>User sync\<close>

text \<open>One call of the \<open>UserSync\<close> port; callers log a failure and go on.\<close>

definition notify_sync :: "('s, 'u, 'r) app_service \<Rightarrow> sync_call \<Rightarrow> ('s, 'u, 'r, unit) svc" where
  "notify_sync A call w = (case user_sync A (w_ticks w) call of None \<Rightarrow> Ok () | Some e \<Rightarrow> Err e,
     w\<lparr>w_ticks := Suc (w_ticks w), w_sync := w_sync w @ [call]\<rparr>)"

definition best_effort :: "('w, 'e, unit) prog \<Rightarrow> ('w, 'e, unit) prog" where
  "best_effort m = and_then m ret (\<lambda>_. ret ())"

section \<open>Lemmas\<close>

lemma notify_best_effort [simp]:
  "best_effort (notify_sync A call) w = (Ok (), w\<lparr>w_ticks := Suc (w_ticks w), w_sync := w_sync w @ [call]\<rparr>)"
  by (simp add: best_effort_def notify_sync_def and_then_def split: option.splits)

lemma utc_now_run [simp]: "utc_now w = (Ok (w_clock w (w_ticks w)), w\<lparr>w_ticks := Suc (w_ticks w)\<rparr>)"
  by (simp add: utc_now_def)

lemma gen_ulid_run [simp]: "gen_ulid w = (Ok (w_ulid w (w_ulids w)), w\<lparr>w_ulids := Suc (w_ulids w)\<rparr>)"
  by (simp add: gen_ulid_def)

lemma random_bytes_run [simp]: "random_bytes w = (Ok (w_random w (w_draws w)), w\<lparr>w_draws := Suc (w_draws w)\<rparr>)"
  by (simp add: random_bytes_def)

lemma outside_run [simp]: "outside f w = (Ok (f (w_ticks w)), w\<lparr>w_ticks := Suc (w_ticks w)\<rparr>)"
  by (simp add: outside_def)

lemma outside_result_run [simp]: "outside_result f w = (f (w_ticks w), w\<lparr>w_ticks := Suc (w_ticks w)\<rparr>)"
  by (simp add: outside_result_def)

lemma on_sessions_run: "on_sessions f w = (fst (f (w_sessions w)), w\<lparr>w_sessions := snd (f (w_sessions w))\<rparr>)"
  by (simp add: on_sessions_def split: prod.splits)

lemma on_users_run: "on_users f w = (fst (f (w_users w)), w\<lparr>w_users := snd (f (w_users w))\<rparr>)"
  by (simp add: on_users_def split: prod.splits)

lemma on_limits_run: "on_limits f w = (fst (f (w_limits w)), w\<lparr>w_limits := snd (f (w_limits w))\<rparr>)"
  by (simp add: on_limits_def split: prod.splits)

lemma on_sessionsE:
  assumes "on_sessions f w = (r, w')"
  obtains s where "f (w_sessions w) = (r, s)" "w' = w\<lparr>w_sessions := s\<rparr>"
  using assms by (auto simp: on_sessions_def split: prod.splits)

lemma on_usersE:
  assumes "on_users f w = (r, w')"
  obtains s where "f (w_users w) = (r, s)" "w' = w\<lparr>w_users := s\<rparr>"
  using assms by (auto simp: on_users_def split: prod.splits)

subsection \<open>Frames\<close>

text \<open>What a step leaves alone: the session store, the user store, and what the log already holds.\<close>

definition keeps_sessions :: "('s, 'u, 'r) world \<Rightarrow> ('s, 'u, 'r) world \<Rightarrow> bool" where
  "keeps_sessions w w' \<longleftrightarrow> w_sessions w' = w_sessions w"

definition keeps_stores :: "('s, 'u, 'r) world \<Rightarrow> ('s, 'u, 'r) world \<Rightarrow> bool" where
  "keeps_stores w w' \<longleftrightarrow> w_sessions w' = w_sessions w \<and> w_users w' = w_users w \<and> w_limits w' = w_limits w
     \<and> w_sync w' = w_sync w"

definition audit_grows :: "('s, 'u, 'r) world \<Rightarrow> ('s, 'u, 'r) world \<Rightarrow> bool" where
  "audit_grows w w' \<longleftrightarrow> prefix (w_audit w) (w_audit w') \<and> prefix (w_attempts w) (w_attempts w')"

lemma preorder_frames [simp]:
  "preorderp keeps_sessions" "preorderp keeps_stores" "preorderp audit_grows"
  by (auto simp: preorderp_def keeps_sessions_def keeps_stores_def audit_grows_def)

lemma keeps_env [keeps_rules]:
  "keeps keeps_sessions utc_now" "keeps keeps_sessions gen_ulid" "keeps keeps_sessions random_bytes"
  "keeps keeps_sessions (outside f)" "keeps keeps_sessions (outside_result g)"
  "keeps keeps_stores utc_now" "keeps keeps_stores gen_ulid" "keeps keeps_stores random_bytes"
  "keeps keeps_stores (outside f)" "keeps keeps_stores (outside_result g)"
  "keeps audit_grows utc_now" "keeps audit_grows gen_ulid" "keeps audit_grows random_bytes"
  "keeps audit_grows (outside f)" "keeps audit_grows (outside_result g)"
  by (simp_all add: keeps_def keeps_sessions_def keeps_stores_def audit_grows_def)

lemma keeps_on [keeps_rules]:
  "keeps keeps_sessions (on_users fu)" "keeps keeps_sessions (on_limits fl)"
  "keeps audit_grows (on_users fu)" "keeps audit_grows (on_limits fl)" "keeps audit_grows (on_sessions fs)"
  by (simp_all add: keeps_def keeps_sessions_def audit_grows_def on_users_run on_limits_run on_sessions_run)

lemma audit_emit_run:
  "audit_emit A ev w = (r, w') \<Longrightarrow> keeps_stores w w' \<and> w_attempts w' = w_attempts w @ [ev]
     \<and> w_fail_run w' = w_fail_run w \<and> w_fail_total w' = w_fail_total w
     \<and> w_ticks w' = Suc (w_ticks w) \<and> w_fallback w' = w_fallback w \<and> w_clock w' = w_clock w \<and> w_draws w' = w_draws w
     \<and> w_random w' = w_random w \<and> w_ulid w' = w_ulid w \<and> w_ulids w' = w_ulids w
     \<and> (r = Ok () \<and> audit_sink A (w_ticks w) ev = None \<and> w_audit w' = w_audit w @ [ev]
        \<or> (\<exists>e. r = Err e \<and> audit_sink A (w_ticks w) ev = Some e \<and> w_audit w' = w_audit w))"
  by (auto simp: audit_emit_def Let_def keeps_stores_def split: option.splits)

lemma keeps_emit [keeps_rules]:
  "keeps keeps_stores (audit_emit A ev)" "keeps keeps_stores (emit_audit A ev)"
  "keeps keeps_stores (emit_mandatory_audit_event A ev)"
  "keeps audit_grows (audit_emit A ev)" "keeps audit_grows (emit_audit A ev)"
  "keeps audit_grows (emit_mandatory_audit_event A ev)"
  unfolding emit_audit_def emit_mandatory_audit_event_def keeps_stores_def audit_grows_def
  by (auto simp: keeps_def audit_emit_def and_then_def seqq_def bindq_def Let_def log_audit_fallback_def
      record_mandatory_audit_success_def record_mandatory_audit_failure_def split: option.splits prod.splits)

lemma keeps_emit_security [keeps_rules]:
  "keeps keeps_stores (build_security_event A ev outc actor provider addr ua)"
  "keeps keeps_stores (create_audit_event A ty sev outc actor provider addr ua)"
  "keeps keeps_stores (emit_security_event_with_detail A ev outc actor provider addr ua d)"
  "keeps keeps_stores (emit_security_event A ev outc actor provider addr ua)"
  "keeps audit_grows (build_security_event A ev outc actor provider addr ua)"
  "keeps audit_grows (create_audit_event A ty sev outc actor provider addr ua)"
  "keeps audit_grows (emit_security_event_with_detail A ev outc actor provider addr ua d)"
  "keeps audit_grows (emit_security_event A ev outc actor provider addr ua)"
  unfolding build_security_event_def create_audit_event_def emit_security_event_with_detail_def emit_security_event_def
  by (intro keeps_rules preorder_frames)+

text \<open>A mandatory emission either succeeds or reports the durability error, and only under \<open>Enforce\<close>.\<close>

lemma emit_mandatory_cases:
  assumes "emit_mandatory_audit_event A ev w = (r, w')"
  shows "w_attempts w' = w_attempts w @ [ev] \<and>
    (r = Ok () \<and> w_audit w' = w_audit w @ [ev] \<and> w_fail_run w' = 0
     \<or> w_audit w' = w_audit w \<and> w_fail_run w' = saturating_add_u64 (w_fail_run w) 1 \<and>
       (r = Ok () \<and> cfg_durability (config A) = Observe
        \<or> (\<exists>d. r = Err (SecurityAuditDurability d)) \<and> cfg_durability (config A) = Enforce))"
proof (cases "audit_sink A (w_ticks w) ev")
  case None
  then show ?thesis using assms
    by (auto simp: emit_mandatory_audit_event_def audit_emit_def Let_def record_mandatory_audit_success_def)
next
  case (Some e)
  then show ?thesis using assms
    by (cases "cfg_durability (config A)")
      (auto simp: emit_mandatory_audit_event_def audit_emit_def Let_def is_enforce_def
        record_mandatory_audit_failure_def log_audit_fallback_def)
qed

lemma emit_security_cases:
  assumes "emit_security_event_with_detail A ev outc actor provider addr ua d w = (r, w')"
  obtains e where "w_attempts w' = w_attempts w @ [e]" "ae_type e = se_event_type ev" "ae_severity e = se_severity ev"
    "ae_outcome e = outc" "ae_actor e = actor" "ae_detail e = d" "ae_operator e = None"
    "r = Ok () \<and> w_audit w' = w_audit w @ [e] \<or> w_audit w' = w_audit w \<and>
       (r = Ok () \<and> cfg_durability (config A) = Observe
        \<or> (\<exists>x. r = Err (SecurityAuditDurability x)) \<and> cfg_durability (config A) = Enforce)"
proof -
  let ?e = "into_audit_event (ip_text A) (w_ulid w (w_ulids w)) (w_clock w (w_ticks w)) ev outc actor provider addr ua\<lparr>ae_detail := d\<rparr>"
  have "emit_mandatory_audit_event A ?e (w\<lparr>w_ulids := Suc (w_ulids w), w_ticks := Suc (w_ticks w)\<rparr>) = (r, w')"
    using assms by (simp add: emit_security_event_with_detail_def build_security_event_def)
  from emit_mandatory_cases [OF this] show thesis
    by (intro that [of ?e]) (auto simp: into_audit_event_def)
qed

end
