(* ===== verification/Access_Token.thy ===== *)
theory Access_Token
  imports Service
begin

text \<open>
  Access tokens (\<open>build_access_token\<close> and \<open>validate_access_token\<close> of \<open>crates/core/src/service/mod.rs\<close>):
  minting a compact JWS over the merged claims, and validating one in the order shape, pinned
  header, signature, typed claims. A rejection of the validator is one of its fixed reason
  strings, so its error type is \<open>string\<close>.
\<close>

section \<open>Minting\<close>

definition ACCESS_TOKEN_TYP :: string where
  "ACCESS_TOKEN_TYP = ''at+jwt''"

definition CLOCK_SKEW_SECS :: u64 where
  "CLOCK_SKEW_SECS = 60"

definition token_claims :: "config \<Rightarrow> user \<Rightarrow> string \<Rightarrow> instant \<Rightarrow> access_token_claims" where
  "token_claims C u family_id now = \<lparr>c_sub = u_id u, c_iss = cfg_issuer C, c_aud = cfg_audience C,
     c_sid = family_id, c_iat = word_of_int (timestamp now),
     c_exp = word_of_int (timestamp now) + cfg_access_token_ttl C,
     c_custom = resolve_custom_claims (cfg_custom_claims C) u\<rparr>"

definition token_header :: "key_manager \<Rightarrow> access_token_header" where
  "token_header K = \<lparr>h_alg = km_algorithm K, h_typ = ACCESS_TOKEN_TYP, h_kid = km_key_id K\<rparr>"

definition build_access_token ::
  "('s, 'u, 'r) app_service \<Rightarrow> user \<Rightarrow> string \<Rightarrow> ('s, 'u, 'r, string \<times> u64) svc" where
  "build_access_token A u family_id =
     seqq (assert_that (family_id = [] \<or> is_valid_family_id family_id) ''build_access_token: malformed family id'')
     (seqq (assert_that (u_id u \<noteq> []) ''build_access_token: user id must not be empty'')
     (bindq utc_now (\<lambda>now.
        case claims_to_json (token_json A) (token_claims (config A) u family_id now) of
          None \<Rightarrow> throw (ConfigError ''failed to serialize access token claims'')
        | Some claims_json \<Rightarrow>
            (case header_to_json (token_json A) (token_header (keys A)) of
               None \<Rightarrow> throw (ConfigError ''failed to serialize JWT header'')
             | Some header_json \<Rightarrow>
                 let header_b64 = b64url_encode (lib A) header_json;
                     payload_b64 = b64url_encode (lib A) claims_json;
                     signing_input = header_b64 @ ''.'' @ payload_b64
                 in bindq (outside_result (\<lambda>n. km_sign (keys A) n signing_input)) (\<lambda>signature.
                      ret (signing_input @ ''.'' @ b64url_encode (lib A) signature,
                           cfg_access_token_ttl (config A)))))))"

section \<open>Validation\<close>

definition JWT_SEGMENT_COUNT :: nat where
  "JWT_SEGMENT_COUNT = 3"

definition REASON_MALFORMED :: string where "REASON_MALFORMED = ''malformed access token''"
definition REASON_WRONG_KEY :: string where "REASON_WRONG_KEY = ''access token pinned to the wrong key''"
definition REASON_WRONG_TYPE :: string where "REASON_WRONG_TYPE = ''not an access token''"
definition REASON_BAD_SIGNATURE :: string where "REASON_BAD_SIGNATURE = ''invalid signature''"
definition REASON_INVALID_CLAIMS :: string where "REASON_INVALID_CLAIMS = ''malformed access token claims''"
definition REASON_WRONG_ISSUER :: string where "REASON_WRONG_ISSUER = ''invalid issuer''"
definition REASON_WRONG_AUDIENCE :: string where "REASON_WRONG_AUDIENCE = ''invalid audience''"
definition REASON_EXPIRED :: string where "REASON_EXPIRED = ''token expired''"
definition REASON_FUTURE_ISSUED_AT :: string where "REASON_FUTURE_ISSUED_AT = ''token issued in the future''"
definition REASON_NOT_YET_VALID :: string where "REASON_NOT_YET_VALID = ''token not yet valid''"
definition REASON_BLANK_SUBJECT :: string where "REASON_BLANK_SUBJECT = ''blank subject''"
definition REASON_BLANK_SESSION :: string where "REASON_BLANK_SESSION = ''blank session identifier''"

definition split_jws_segments :: "string \<Rightarrow> (string, string \<times> string \<times> string) outcome" where
  "split_jws_segments token =
     (let segments = split_on (CHR ''.'') token in
      if length segments \<noteq> JWT_SEGMENT_COUNT then Err REASON_MALFORMED
      else case segments of
             [header, payload, signature] \<Rightarrow>
               if header \<noteq> [] \<and> payload \<noteq> [] \<and> signature \<noteq> [] then Ok (header, payload, signature)
               else Err REASON_MALFORMED
           | _ \<Rightarrow> Err REASON_MALFORMED)"

definition pin_access_token_header :: "token_codec \<Rightarrow> string \<Rightarrow> string \<Rightarrow> string \<Rightarrow> (string, unit) outcome" where
  "pin_access_token_header J header_bytes algorithm key_id =
     (if algorithm = [] then Panic ''key manager must report an algorithm''
      else if key_id = [] then Panic ''key manager must report a key id''
      else case header_of_json J header_bytes of
             None \<Rightarrow> Err REASON_WRONG_TYPE
           | Some h \<Rightarrow>
               if h_alg h \<noteq> algorithm \<or> h_kid h \<noteq> key_id then Err REASON_WRONG_KEY
               else if h_typ h \<noteq> ACCESS_TOKEN_TYP then Err REASON_WRONG_TYPE
               else Ok ())"

definition check_claims :: "token_codec \<Rightarrow> config \<Rightarrow> access_token_claims \<Rightarrow> string \<Rightarrow> u64 \<Rightarrow> (string, unit) outcome" where
  "check_claims J C claims payload_bytes now_secs =
     (if cfg_issuer C = [] then Panic ''server.issuer must be configured before tokens can be validated''
      else if c_iss claims \<noteq> cfg_issuer C then Err REASON_WRONG_ISSUER
      else if c_aud claims \<noteq> cfg_audience C then Err REASON_WRONG_AUDIENCE
      else case nbf_of_json J payload_bytes of
             None \<Rightarrow> Err REASON_INVALID_CLAIMS
           | Some nbf \<Rightarrow>
               if now_secs > saturating_add_u64 (c_exp claims) CLOCK_SKEW_SECS then Err REASON_EXPIRED
               else if c_iat claims > saturating_add_u64 now_secs CLOCK_SKEW_SECS then Err REASON_FUTURE_ISSUED_AT
               else if (case nbf of None \<Rightarrow> False | Some n \<Rightarrow> n > saturating_add_u64 now_secs CLOCK_SKEW_SECS)
                 then Err REASON_NOT_YET_VALID
               else if trim (c_sub claims) = [] then Err REASON_BLANK_SUBJECT
               else if trim (c_sid claims) = [] then Err REASON_BLANK_SESSION
               else Ok ())"

text \<open>\<open>u64::try_from(Utc::now().timestamp()).unwrap_or(0)\<close>.\<close>

definition secs_u64 :: "instant \<Rightarrow> u64" where
  "secs_u64 t = (if timestamp t < 0 then 0 else word_of_int (timestamp t))"

definition decode_or :: "'x lib_scheme \<Rightarrow> string \<Rightarrow> 'e \<Rightarrow> ('e, string) outcome" where
  "decode_or L s e = (case b64url_decode L s of None \<Rightarrow> Err e | Some b \<Rightarrow> Ok b)"

text \<open>The last stage of the validator, reached only past the signature.\<close>

definition read_claims ::
  "('s, 'u, 'r) app_service \<Rightarrow> string \<Rightarrow> u64 \<Rightarrow> (('s, 'u, 'r) world, string, access_token_claims) prog" where
  "read_claims A payload_seg now_secs =
     bindq (from_outcome (decode_or (lib A) payload_seg REASON_MALFORMED)) (\<lambda>payload_bytes.
       case claims_of_json (token_json A) payload_bytes of
         None \<Rightarrow> throw REASON_INVALID_CLAIMS
       | Some claims \<Rightarrow>
           seqq (from_outcome (check_claims (token_json A) (config A) claims payload_bytes now_secs))
           (seqq (assert_that (trim (c_sub claims) \<noteq> []) ''validate_access_token: subject must be non-blank after check_claims'')
           (seqq (assert_that (trim (c_sid claims) \<noteq> []) ''validate_access_token: session id must be non-blank after check_claims'')
           (ret claims))))"

definition validate_access_token ::
  "('s, 'u, 'r) app_service \<Rightarrow> string \<Rightarrow> (('s, 'u, 'r) world, string, access_token_claims) prog" where
  "validate_access_token A token =
     bindq utc_now (\<lambda>now.
     bindq (from_outcome (split_jws_segments token)) (\<lambda>(header_seg, payload_seg, signature_seg).
     bindq (from_outcome (decode_or (lib A) header_seg REASON_MALFORMED)) (\<lambda>header_bytes.
     seqq (from_outcome (pin_access_token_header (token_json A) header_bytes (km_algorithm (keys A)) (km_key_id (keys A))))
     (bindq (from_outcome (decode_or (lib A) signature_seg REASON_MALFORMED)) (\<lambda>signature_bytes.
     bindq (and_then (outside_result (\<lambda>n. km_verify (keys A) n (header_seg @ ''.'' @ payload_seg) signature_bytes))
             ret (\<lambda>_. throw REASON_BAD_SIGNATURE)) (\<lambda>verified.
     if \<not> verified then throw REASON_BAD_SIGNATURE
     else read_claims A payload_seg (secs_u64 now)))))))"

section \<open>Lemmas\<close>

lemma split_on_join: "split_on c s = parts \<Longrightarrow> s = concat (map (\<lambda>p. p @ [c]) (butlast parts)) @ last parts"
proof (induction s arbitrary: parts)
  case (Cons x xs)
  obtain p ps where p: "split_on c xs = p # ps" by (metis split_on_nonempty list.exhaust)
  show ?case using Cons.IH [OF p] Cons.prems p by (cases "x = c"; cases ps) auto
qed auto

lemma split_on_single: "c \<notin> set s \<Longrightarrow> split_on c s = [s]"
  by (induction s) auto

lemma split_on_append: "c \<notin> set a \<Longrightarrow> split_on c (a @ c # b) = a # split_on c b"
  by (induction a) auto

lemma split_jws_Ok:
  "split_jws_segments token = Ok (h, p, s) \<Longrightarrow> token = h @ ''.'' @ p @ ''.'' @ s \<and> h \<noteq> [] \<and> p \<noteq> [] \<and> s \<noteq> []"
proof -
  assume a: "split_jws_segments token = Ok (h, p, s)"
  then have s: "split_on (CHR ''.'') token = [h, p, s]" "h \<noteq> []" "p \<noteq> []" "s \<noteq> []"
    by (auto simp: split_jws_segments_def Let_def split: list.splits if_splits)
  from split_on_join [OF s(1)] s show ?thesis by simp
qed

lemma split_jws_build:
  assumes "CHR ''.'' \<notin> set h" "CHR ''.'' \<notin> set p" "CHR ''.'' \<notin> set s" "h \<noteq> []" "p \<noteq> []" "s \<noteq> []"
  shows "split_jws_segments (h @ ''.'' @ p @ ''.'' @ s) = Ok (h, p, s)"
proof -
  have "split_on (CHR ''.'') (h @ ''.'' @ p @ ''.'' @ s) = [h, p, s]"
    using assms by (simp add: split_on_append split_on_single)
  then show ?thesis using assms by (simp add: split_jws_segments_def JWT_SEGMENT_COUNT_def)
qed

lemma pin_header_Ok:
  "pin_access_token_header J b alg kid = Ok () \<longleftrightarrow> alg \<noteq> [] \<and> kid \<noteq> [] \<and>
     (\<exists>h. header_of_json J b = Some h \<and> h_alg h = alg \<and> h_kid h = kid \<and> h_typ h = ACCESS_TOKEN_TYP)"
  by (auto simp: pin_access_token_header_def split: option.splits)

text \<open>The window a token is accepted in, in integers: no wrap-around can move a bound.\<close>

definition claims_current :: "access_token_claims \<Rightarrow> u64 option \<Rightarrow> u64 \<Rightarrow> bool" where
  "claims_current c nbf now \<longleftrightarrow> uint now \<le> uint (c_exp c) + 60 \<and> uint (c_iat c) \<le> uint now + 60
     \<and> (\<forall>n. nbf = Some n \<longrightarrow> uint n \<le> uint now + 60)"

lemma less_saturating:
  "saturating_add_u64 a CLOCK_SKEW_SECS < b \<longleftrightarrow> uint a + 60 < uint b"
proof -
  have "uint b < 2 ^ 64" using unsigned_less [of b] by simp
  then show ?thesis by (auto simp: word_less_def uint_saturating_add_u64 CLOCK_SKEW_SECS_def min_def)
qed

lemma check_claims_Ok:
  "check_claims J C c b now = Ok () \<longleftrightarrow> cfg_issuer C \<noteq> [] \<and> c_iss c = cfg_issuer C \<and> c_aud c = cfg_audience C
     \<and> (\<exists>nbf. nbf_of_json J b = Some nbf \<and> claims_current c nbf now) \<and> trim (c_sub c) \<noteq> [] \<and> trim (c_sid c) \<noteq> []"
  by (auto simp: check_claims_def claims_current_def less_saturating not_less split: option.splits)

lemma decode_or_Ok [simp]: "decode_or L s e = Ok b \<longleftrightarrow> b64url_decode L s = Some b"
  by (simp add: decode_or_def split: option.splits)

lemma from_outcome_okE:
  assumes "from_outcome r w = (Ok x, w')" obtains "r = Ok x" "w' = w"
  using assms by (auto simp: from_outcome_def)

lemma bindq_from_outcome_okE:
  assumes "bindq (from_outcome r) f w = (Ok y, w')"
  obtains x where "r = Ok x" "f x w = (Ok y, w')"
  using assms by (auto elim!: bindq_okE)

lemma keeps_case_prod [keeps_rules]: "(\<And>a b. keeps R (f a b)) \<Longrightarrow> keeps R (case p of (a, b) \<Rightarrow> f a b)"
  by (cases p) simp

lemma keeps_access_token [keeps_rules]:
  "keeps keeps_stores (build_access_token A u f)" "keeps keeps_stores (validate_access_token A t)"
  "keeps audit_grows (build_access_token A u f)" "keeps audit_grows (validate_access_token A t)"
  unfolding build_access_token_def validate_access_token_def read_claims_def Let_def
  by (intro keeps_rules preorder_frames)+

text \<open>What the validator has established when it answers a claim set.\<close>

definition token_established ::
  "('s, 'u, 'r) app_service \<Rightarrow> string \<Rightarrow> u64 \<Rightarrow> nat \<Rightarrow> access_token_claims \<Rightarrow> bool" where
  "token_established A token now n c \<longleftrightarrow> (\<exists>h p s hb sb pb hd nbf. token = h @ ''.'' @ p @ ''.'' @ s
     \<and> b64url_decode (lib A) h = Some hb \<and> header_of_json (token_json A) hb = Some hd
     \<and> h_alg hd = km_algorithm (keys A) \<and> h_kid hd = km_key_id (keys A) \<and> h_typ hd = ACCESS_TOKEN_TYP
     \<and> b64url_decode (lib A) s = Some sb \<and> km_verify (keys A) n (h @ ''.'' @ p) sb = Ok True
     \<and> b64url_decode (lib A) p = Some pb \<and> claims_of_json (token_json A) pb = Some c
     \<and> nbf_of_json (token_json A) pb = Some nbf \<and> c_iss c = cfg_issuer (config A) \<and> c_aud c = cfg_audience (config A)
     \<and> claims_current c nbf now \<and> trim (c_sub c) \<noteq> [] \<and> trim (c_sid c) \<noteq> [])"

lemma read_claims_Ok:
  assumes "read_claims A p now w = (Ok c, w')"
  obtains pb where "b64url_decode (lib A) p = Some pb" "claims_of_json (token_json A) pb = Some c"
    "check_claims (token_json A) (config A) c pb now = Ok ()" "w' = w"
  using assms unfolding read_claims_def
  by (auto elim!: bindq_okE seqq_okE split: if_splits option.splits)

lemma validate_access_token_Ok:
  assumes "validate_access_token A token w = (Ok c, w')"
  shows "token_established A token (secs_u64 (w_clock w (w_ticks w))) (Suc (w_ticks w)) c"
proof -
  from assms obtain h p s hb sb where 1: "split_jws_segments token = Ok (h, p, s)"
      "b64url_decode (lib A) h = Some hb"
      "pin_access_token_header (token_json A) hb (km_algorithm (keys A)) (km_key_id (keys A)) = Ok ()"
      "b64url_decode (lib A) s = Some sb"
      "km_verify (keys A) (Suc (w_ticks w)) (h @ ''.'' @ p) sb = Ok True"
    and r: "read_claims A p (secs_u64 (w_clock w (w_ticks w))) (w\<lparr>w_ticks := Suc (Suc (w_ticks w))\<rparr>) = (Ok c, w')"
    unfolding validate_access_token_def
    by (auto elim!: bindq_okE seqq_okE and_then_cases split: if_splits)
  from r obtain pb where 2: "b64url_decode (lib A) p = Some pb" "claims_of_json (token_json A) pb = Some c"
    "check_claims (token_json A) (config A) c pb (secs_u64 (w_clock w (w_ticks w))) = Ok ()"
    by (rule read_claims_Ok)
  show ?thesis using split_jws_Ok [OF 1(1)] 1 2 unfolding token_established_def check_claims_Ok pin_header_Ok by blast
qed

section \<open>Minted tokens validate\<close>

text \<open>
  What minting and validating rely on: base64url output is non-empty for non-empty input and holds
  no dot; the JSON readers invert the writers (for claims whose custom part names no reserved
  claim, which is what keeps the flattened members apart); a signature of the key manager is
  non-empty and verifies.
\<close>

definition b64_text_ok :: "'x lib_scheme \<Rightarrow> bool" where
  "b64_text_ok L \<longleftrightarrow> b64_ok L \<and> (\<forall>s. CHR ''.'' \<notin> set (b64url_encode L s) \<and> (s \<noteq> [] \<longrightarrow> b64url_encode L s \<noteq> []))"

definition token_json_ok :: "token_codec \<Rightarrow> bool" where
  "token_json_ok J \<longleftrightarrow>
     (\<forall>c j. claims_to_json J c = Some j \<longrightarrow> (\<forall>k. is_reserved_claim k \<longrightarrow> hm_get (c_custom c) k = None) \<longrightarrow>
        j \<noteq> [] \<and> nbf_of_json J j = Some None \<and> (\<exists>m. claims_of_json J j = Some (c\<lparr>c_custom := m\<rparr>) \<and> hm_get m = hm_get (c_custom c)))
   \<and> (\<forall>h j. header_to_json J h = Some j \<longrightarrow> j \<noteq> [] \<and> header_of_json J j = Some h)"

definition keys_ok :: "key_manager \<Rightarrow> bool" where
  "keys_ok K \<longleftrightarrow> km_algorithm K \<noteq> [] \<and> km_key_id K \<noteq> []
     \<and> (\<forall>n m msg sig. km_sign K n msg = Ok sig \<longrightarrow> sig \<noteq> [] \<and> km_verify K m msg sig = Ok True)"

lemma build_access_token_Ok:
  assumes "build_access_token A u f w = (Ok (tok, ttl), w')"
  obtains cj hj sig where "f = [] \<or> is_valid_family_id f" "u_id u \<noteq> []"
    "claims_to_json (token_json A) (token_claims (config A) u f (w_clock w (w_ticks w))) = Some cj"
    "header_to_json (token_json A) (token_header (keys A)) = Some hj"
    "km_sign (keys A) (Suc (w_ticks w)) (b64url_encode (lib A) hj @ ''.'' @ b64url_encode (lib A) cj) = Ok sig"
    "tok = b64url_encode (lib A) hj @ ''.'' @ b64url_encode (lib A) cj @ ''.'' @ b64url_encode (lib A) sig"
    "ttl = cfg_access_token_ttl (config A)"
  using assms unfolding build_access_token_def Let_def
  by (auto elim!: bindq_okE seqq_okE split: if_splits option.splits)

lemma uint_secs:
  assumes "0 \<le> timestamp t" "timestamp t < 2 ^ 64"
  shows "uint (secs_u64 t) = timestamp t" "uint (word_of_int (timestamp t) :: u64) = timestamp t"
  using assms by (simp_all add: secs_u64_def take_bit_int_eq_self unsigned_of_int)

lemma token_claims_current:
  assumes "0 \<le> timestamp t1" "timestamp t1 \<le> timestamp t2"
    "timestamp t2 \<le> timestamp t1 + uint (cfg_access_token_ttl C)" "timestamp t1 + uint (cfg_access_token_ttl C) < 2 ^ 64"
  shows "claims_current (token_claims C u f t1) None (secs_u64 t2)"
proof -
  have nn: "0 \<le> uint (cfg_access_token_ttl C)" by simp
  then have "timestamp t1 < 2 ^ 64" "0 \<le> timestamp t2" "timestamp t2 < 2 ^ 64" using assms by linarith+
  note 1 = uint_secs [OF assms(1) this(1)] uint_secs [OF this(2,3)]
  have "uint (c_exp (token_claims C u f t1)) = timestamp t1 + uint (cfg_access_token_ttl C)"
    using assms nn by (simp add: token_claims_def uint_word_ariths 1 mod_pos_pos_trivial)
  then show ?thesis using assms 1 by (simp add: claims_current_def token_claims_def)
qed

lemma mint_then_validate:
  assumes mint: "build_access_token A u f w = (Ok (tok, ttl), w')"
    and ok: "b64_text_ok (lib A)" "token_json_ok (token_json A)" "keys_ok (keys A)"
    and id: "trim (u_id u) \<noteq> []" "trim f \<noteq> []" "cfg_issuer (config A) \<noteq> []"
    and cur: "claims_current (token_claims (config A) u f (w_clock w (w_ticks w))) None (secs_u64 (w_clock v (w_ticks v)))"
  shows "\<exists>m. validate_access_token A tok v =
      (Ok (token_claims (config A) u f (w_clock w (w_ticks w))\<lparr>c_custom := m\<rparr>), v\<lparr>w_ticks := Suc (Suc (w_ticks v))\<rparr>)
    \<and> hm_get m = hm_get (resolve_custom_claims (cfg_custom_claims (config A)) u)"
proof -
  let ?c = "token_claims (config A) u f (w_clock w (w_ticks w))"
  from mint obtain cj hj sig where j: "claims_to_json (token_json A) ?c = Some cj"
      "header_to_json (token_json A) (token_header (keys A)) = Some hj"
      "km_sign (keys A) (Suc (w_ticks w)) (b64url_encode (lib A) hj @ ''.'' @ b64url_encode (lib A) cj) = Ok sig"
    and tok: "tok = b64url_encode (lib A) hj @ ''.'' @ b64url_encode (lib A) cj @ ''.'' @ b64url_encode (lib A) sig"
    by (rule build_access_token_Ok)
  have res: "\<forall>k. is_reserved_claim k \<longrightarrow> hm_get (c_custom ?c) k = None"
    by (simp add: token_claims_def resolve_custom_claims_not_reserved)
  obtain m where m: "cj \<noteq> []" "nbf_of_json (token_json A) cj = Some None"
      "claims_of_json (token_json A) cj = Some (?c\<lparr>c_custom := m\<rparr>)" "hm_get m = hm_get (c_custom ?c)"
    using ok(2) j(1) res unfolding token_json_ok_def by blast
  have h: "hj \<noteq> []" "header_of_json (token_json A) hj = Some (token_header (keys A))"
    using ok(2) j(2) unfolding token_json_ok_def by blast+
  have sg: "sig \<noteq> []" "\<And>n. km_verify (keys A) n (b64url_encode (lib A) hj @ ''.'' @ b64url_encode (lib A) cj) sig = Ok True"
    using ok(3) j(3) unfolding keys_ok_def by blast+
  have seg: "split_jws_segments tok = Ok (b64url_encode (lib A) hj, b64url_encode (lib A) cj, b64url_encode (lib A) sig)"
    unfolding tok by (rule split_jws_build) (use ok(1) m(1) h(1) sg(1) in \<open>auto simp: b64_text_ok_def\<close>)
  have pin: "pin_access_token_header (token_json A) hj (km_algorithm (keys A)) (km_key_id (keys A)) = Ok ()"
    using ok(3) h(2) by (simp add: pin_header_Ok keys_ok_def token_header_def)
  have dec: "\<And>x e. decode_or (lib A) (b64url_encode (lib A) x) e = Ok x"
    using ok(1) by (simp add: b64_text_ok_def b64_ok_def)
  have chk: "check_claims (token_json A) (config A) (?c\<lparr>c_custom := m\<rparr>) cj (secs_u64 (w_clock v (w_ticks v))) = Ok ()"
    using id m(2) cur by (simp add: check_claims_Ok token_claims_def claims_current_def)
  have "validate_access_token A tok v = (Ok (?c\<lparr>c_custom := m\<rparr>), v\<lparr>w_ticks := Suc (Suc (w_ticks v))\<rparr>)"
    using seg dec pin sg(2) m(3) chk id
    by (simp add: validate_access_token_def read_claims_def token_claims_def)
  then show ?thesis using m(4) by (auto simp: token_claims_def)
qed

end
