(* ===== verification/Refresh.thy ===== *)
theory Refresh
  imports Access_Token
begin

text \<open>
  Redeeming a refresh token (\<open>crates/core/src/service/refresh.rs\<close>): classify the presented hash,
  gate on expiry and user status, mint the next generation, swap it in atomically, sign and audit;
  a superseded or retired hash outside the grace window revokes its family.
\<close>

section \<open>Operations\<close>

definition UNKNOWN_REFRESH_TOKEN_REASON :: string where
  "UNKNOWN_REFRESH_TOKEN_REASON = ''unknown refresh token''"

definition EXPIRED_REFRESH_TOKEN_REASON :: string where
  "EXPIRED_REFRESH_TOKEN_REASON = ''refresh token expired''"

definition MISSING_USER_REASON :: string where
  "MISSING_USER_REASON = ''user not found''"

definition REFRESH_HASH_HEX_LEN :: nat where
  "REFRESH_HASH_HEX_LEN = 64"

record refresh_request =
  rq_refresh_token :: string
  rq_client_addr :: client_addr
  rq_user_agent :: "string option"
  rq_device_id :: "string option"

record token_response =
  tr_access_token :: string
  tr_refresh_token :: "string option"
  tr_token_type :: string
  tr_expires_in :: u64

definition rotation_grace_secs :: "config \<Rightarrow> u64 result" where
  "rotation_grace_secs C =
     (let secs = cfg_refresh_rotation_grace C in
      if secs > 0 \<and> secs \<le> MAX_REFRESH_ROTATION_GRACE_SECS then Ok secs
      else Panic ''refresh grace must be within (0, 60] after validation'')"

definition within_grace :: "instant \<Rightarrow> u64 \<Rightarrow> (('s, 'u, 'r) world, 'e, bool) prog" where
  "within_grace retired_at grace_secs =
     bindq utc_now (\<lambda>now. ret (now - retired_at \<le> as_i64 grace_secs * nanos))"

definition refuse_with_validation_failed ::
  "('s, 'u, 'r) app_service \<Rightarrow> string \<Rightarrow> string option \<Rightarrow> refresh_request \<Rightarrow> ('s, 'u, 'r, 'a) svc" where
  "refuse_with_validation_failed A reason actor req =
     seqq (assert_that (reason \<noteq> []) ''refresh refusal must always carry a reason'')
     (bindq (create_audit_event A ET_ValidationFailed Debug (Failure AF_AuthenticationFailed) actor None
               (rq_client_addr req) (rq_user_agent req)) (\<lambda>ev.
      seqq (emit_audit A ev) (throw (InvalidToken reason))))"

definition revoke_family_for_reuse ::
  "('s, 'u, 'r) app_service \<Rightarrow> string \<Rightarrow> string \<Rightarrow> refresh_request \<Rightarrow> ('s, 'u, 'r, 'a) svc" where
  "revoke_family_for_reuse A family_id user_id req =
     seqq (assert_that (is_valid_family_id family_id) ''reuse revocation requires a well-formed family id'')
     (seqq (assert_that (user_id \<noteq> []) ''reuse revocation requires the family's user id'')
     (bindq (on_sessions (revoke_family (session_repo A) family_id)) (\<lambda>sessions_revoked.
      let detail = [(''family_id'', JString family_id), (''sessions_revoked'', JInt (uint sessions_revoked))] in
      seqq (assert_that (\<not> list_ex (\<lambda>(_, v). case v of JString s \<Rightarrow> length s = REFRESH_HASH_HEX_LEN | _ \<Rightarrow> False) detail)
             ''audit detail must never carry a token-hash-shaped value'')
      (seqq (emit_security_event_with_detail A RefreshTokenReuse Success (Some user_id) None
               (rq_client_addr req) (rq_user_agent req) detail)
      (throw (InvalidToken UNKNOWN_REFRESH_TOKEN_REASON))))))"

definition mint_replacement ::
  "('s, 'u, 'r) app_service \<Rightarrow> session \<Rightarrow> ('s, 'u, 'r, string \<times> session) svc" where
  "mint_replacement A l =
     seqq (assert_that (s_hash l \<noteq> []) ''mint_replacement: live generation must carry a hash'')
     (bindq random_bytes (\<lambda>bytes.
      let raw_token = b64url_encode (lib A) bytes; token_hash = sha256_hex (lib A) raw_token in
      seqq (assert_that (length token_hash = REFRESH_HASH_HEX_LEN) ''assertion failed: token_hash.len() == REFRESH_HASH_HEX_LEN'')
      (seqq (assert_that (token_hash \<noteq> s_hash l) ''a fresh 256-bit generation colliding with the presented hash is a programmer error'')
      (bindq (if s_family_id l = [] then bindq gen_ulid (\<lambda>u. ret (new_family_id (lib A) u)) else ret (s_family_id l)) (\<lambda>family_id.
      seqq (assert_that (is_valid_family_id family_id) ''mint_replacement: replacement family must be well-formed'')
      (bindq utc_now (\<lambda>now.
       ret (raw_token, \<lparr>s_user_id = s_user_id l, s_hash = token_hash, s_family_id = family_id,
              s_generation = s_generation l + 1, s_provider = s_provider l, s_expires_at = s_expires_at l,
              s_rotated_at = Some now, s_device_id = s_device_id l, s_user_agent = s_user_agent l,
              s_ip_address = s_ip_address l, s_location = s_location l, s_created_at = s_created_at l\<rparr>))))))))"

definition audit_successful_refresh ::
  "('s, 'u, 'r) app_service \<Rightarrow> string \<Rightarrow> string \<Rightarrow> u32 \<Rightarrow> bool \<Rightarrow> refresh_request \<Rightarrow> ('s, 'u, 'r, unit) svc" where
  "audit_successful_refresh A user_id family_id generation via_grace req =
     seqq (assert_that (user_id \<noteq> []) ''audit needs a real actor'')
     (seqq (assert_that (family_id = [] \<or> is_valid_family_id family_id) ''audit detail carries the session family id'')
     (emit_security_event_with_detail A (AuthenticationSucceeded AK_Refresh) Success (Some user_id) None
        (rq_client_addr req) (rq_user_agent req)
        [(''family_id'', JString family_id), (''generation'', JInt (uint generation)), (''grace'', JBool via_grace)]))"

text \<open>
  The gates both flows share, written out once per flow in the source: the family's deadline,
  then the user, who has to exist and be active.
\<close>

definition gate_session ::
  "('s, 'u, 'r) app_service \<Rightarrow> session \<Rightarrow> refresh_request \<Rightarrow> ('s, 'u, 'r, user) svc" where
  "gate_session A l req =
     bindq utc_now (\<lambda>now.
     if s_expires_at l < now
     then refuse_with_validation_failed A EXPIRED_REFRESH_TOKEN_REASON (Some (s_user_id l)) req
     else bindq (on_users (get_user_by_id (user_repo A) (s_user_id l))) (\<lambda>found.
       case found of
         None \<Rightarrow> refuse_with_validation_failed A MISSING_USER_REASON (Some (s_user_id l)) req
       | Some user \<Rightarrow>
           if u_status user \<noteq> Active then
             seqq (emit_security_event A PrincipalSuspended (Failure AF_PrincipalSuspended) (Some (u_id user)) None
                     (rq_client_addr req) (rq_user_agent req))
             (throw (UserSuspended (u_id user)))
           else ret user))"

text \<open>The end both flows share: sign, audit, respond. The session store is not touched again.\<close>

definition respond_tail ::
  "('s, 'u, 'r) app_service \<Rightarrow> user \<Rightarrow> session \<Rightarrow> bool \<Rightarrow> string option \<Rightarrow> refresh_request \<Rightarrow> ('s, 'u, 'r, token_response) svc" where
  "respond_tail A user l via_grace raw req =
     bindq (build_access_token A user (s_family_id l)) (\<lambda>(access_token, expires_in).
      seqq (audit_successful_refresh A (u_id user) (s_family_id l) (s_generation l) via_grace req)
      (ret \<lparr>tr_access_token = access_token, tr_refresh_token = raw, tr_token_type = ''Bearer'',
            tr_expires_in = expires_in\<rparr>))"

definition rotate_and_respond ::
  "('s, 'u, 'r) app_service \<Rightarrow> session \<Rightarrow> bool \<Rightarrow> refresh_request \<Rightarrow> ('s, 'u, 'r, token_response) svc" where
  "rotate_and_respond A l via_grace req =
     seqq (assert_that (s_hash l \<noteq> []) ''rotate_and_respond: live generation must carry a hash'')
     (bindq (gate_session A l req) (\<lambda>user.
      bindq (mint_replacement A l) (\<lambda>(raw_token, replacement).
      bindq utc_now (\<lambda>t.
      bindq (on_sessions (rotate_refresh_token (session_repo A) t (s_hash l) replacement)) (\<lambda>won.
      if \<not> won then refuse_with_validation_failed A UNKNOWN_REFRESH_TOKEN_REASON (Some (u_id user)) req
      else respond_tail A user replacement via_grace (Some raw_token) req)))))"

definition refresh_without_rotation ::
  "('s, 'u, 'r) app_service \<Rightarrow> refresh_resolution \<Rightarrow> refresh_request \<Rightarrow> ('s, 'u, 'r, token_response) svc" where
  "refresh_without_rotation A resolution req = (case resolution of
       Live l \<Rightarrow>
         seqq (assert_that (s_hash l \<noteq> []) ''refresh_without_rotation: stored session must carry a hash'')
         (bindq (gate_session A l req) (\<lambda>user. respond_tail A user l False None req))
     | _ \<Rightarrow> refuse_with_validation_failed A UNKNOWN_REFRESH_TOKEN_REASON None req)"

text \<open>The decision on a classified hash, with rotation on.\<close>

definition redeem ::
  "('s, 'u, 'r) app_service \<Rightarrow> refresh_resolution \<Rightarrow> refresh_request \<Rightarrow> ('s, 'u, 'r, token_response) svc" where
  "redeem A resolution req = (case resolution of
       Unknown \<Rightarrow> refuse_with_validation_failed A UNKNOWN_REFRESH_TOKEN_REASON None req
     | Live l \<Rightarrow> rotate_and_respond A l False req
     | Superseded l retired_at \<Rightarrow>
         bindq (from_outcome (rotation_grace_secs (config A))) (\<lambda>grace_secs.
         bindq (within_grace retired_at grace_secs) (\<lambda>inside.
         if inside then rotate_and_respond A l True req
         else revoke_family_for_reuse A (s_family_id l) (s_user_id l) req))
     | Retired family_id user_id _ \<Rightarrow> revoke_family_for_reuse A family_id user_id req)"

definition refresh :: "('s, 'u, 'r) app_service \<Rightarrow> refresh_request \<Rightarrow> ('s, 'u, 'r, token_response) svc" where
  "refresh A req =
     seqq (assert_that (rq_refresh_token req \<noteq> []) ''refresh: presented refresh token must not be empty'')
     (let token_hash = sha256_hex (lib A) (rq_refresh_token req) in
      seqq (assert_that (length token_hash = REFRESH_HASH_HEX_LEN) ''refresh: SHA-256 hex digest must be 64 characters'')
      (bindq utc_now (\<lambda>t.
       bindq (on_sessions (resolve_refresh_token (session_repo A) t token_hash)) (\<lambda>resolution.
       if \<not> cfg_refresh_rotation (config A) then refresh_without_rotation A resolution req
       else redeem A resolution req))))"

section \<open>Frames\<close>

lemma keeps_refuse [keeps_rules]:
  "keeps keeps_stores (refuse_with_validation_failed A reason actor req)"
  "keeps audit_grows (refuse_with_validation_failed A reason actor req)"
  "keeps keeps_stores (audit_successful_refresh A u f g b req)"
  "keeps audit_grows (audit_successful_refresh A u f g b req)"
  "keeps keeps_stores (mint_replacement A l)"
  unfolding refuse_with_validation_failed_def audit_successful_refresh_def mint_replacement_def Let_def
  by (intro keeps_rules preorder_frames)+

lemma keeps_stores_sessions: "keeps keeps_stores m \<Longrightarrow> keeps keeps_sessions m"
  by (auto simp: keeps_def keeps_stores_def keeps_sessions_def)

lemma keeps_gate [keeps_rules]: "keeps keeps_sessions (gate_session A l req)"
  unfolding gate_session_def
  by (intro keeps_rules preorder_frames keeps_stores_sessions)

lemma refuse_never_ok: "refuse_with_validation_failed A reason actor req w \<noteq> (Ok x, w')"
  unfolding refuse_with_validation_failed_def by (auto elim!: bindq_okE seqq_okE)

lemma gate_session_Ok:
  assumes "gate_session A l req w = (Ok user, w')"
  obtains u' where "\<not> s_expires_at l < w_clock w (w_ticks w)"
    "get_user_by_id (user_repo A) (s_user_id l) (w_users w) = (Ok (Some user), u')"
    "u_status user = Active" "w' = w\<lparr>w_ticks := Suc (w_ticks w), w_users := u'\<rparr>"
  using assms unfolding gate_session_def
  by (auto elim!: bindq_okE seqq_okE on_usersE split: if_splits option.splits dest: refuse_never_ok [THEN notE])

text \<open>The next generation of \<open>l\<close>, as it is minted from the world \<open>w\<close>.\<close>

definition next_generation :: "('s, 'u, 'r) app_service \<Rightarrow> ('s, 'u, 'r) world \<Rightarrow> session \<Rightarrow> string \<Rightarrow> session \<Rightarrow> bool" where
  "next_generation A w l raw new \<longleftrightarrow> raw = b64url_encode (lib A) (w_random w (w_draws w))
     \<and> s_hash new = sha256_hex (lib A) raw \<and> length (s_hash new) = 64 \<and> s_hash new \<noteq> s_hash l
     \<and> is_valid_family_id (s_family_id new) \<and> (s_family_id l \<noteq> [] \<longrightarrow> s_family_id new = s_family_id l)
     \<and> (s_family_id l = [] \<longrightarrow> s_family_id new = new_family_id (lib A) (w_ulid w (w_ulids w)))
     \<and> s_user_id new = s_user_id l \<and> s_generation new = s_generation l + 1 \<and> s_expires_at new = s_expires_at l
     \<and> s_created_at new = s_created_at l \<and> s_provider new = s_provider l"

lemma mint_replacement_Ok:
  assumes "mint_replacement A l w = (Ok (raw, new), w')"
  shows "next_generation A w l raw new"
  using assms unfolding mint_replacement_def Let_def
  by (auto simp: seqq_assert bindq_if REFRESH_HASH_HEX_LEN_def next_generation_def split: if_splits)

lemma next_generation_frame [simp]:
  "next_generation A (w\<lparr>w_ticks := n, w_users := u\<rparr>) l raw new = next_generation A w l raw new"
  "next_generation A (w\<lparr>w_ticks := n, w_sessions := s\<rparr>) l raw new = next_generation A w l raw new"
  by (simp_all add: next_generation_def)

section \<open>Redemption over a session repository\<close>

text \<open>
  An answered redemption: the gates held, the response carries the minted token, and the access
  token was built for that user and family.
\<close>

definition answered :: "('s, 'u, 'r) app_service \<Rightarrow> 'u \<Rightarrow> instant \<Rightarrow> session \<Rightarrow> string \<Rightarrow> string option \<Rightarrow> token_response \<Rightarrow> bool" where
  "answered A us now l fam raw x \<longleftrightarrow> tr_refresh_token x = raw \<and> tr_token_type x = ''Bearer''
     \<and> s_expires_at l \<ge> now
     \<and> (\<exists>user u' v v'. get_user_by_id (user_repo A) (s_user_id l) us = (Ok (Some user), u') \<and> u_status user = Active
          \<and> build_access_token A user fam v = (Ok (tr_access_token x, tr_expires_in x), v'))"

text \<open>Whether a retirement at \<open>retired_at\<close> still grants grace at \<open>now\<close>.\<close>

definition in_grace :: "('s, 'u, 'r) app_service \<Rightarrow> instant \<Rightarrow> instant \<Rightarrow> bool" where
  "in_grace A retired_at now \<longleftrightarrow> now - retired_at \<le> as_i64 (cfg_refresh_rotation_grace (config A)) * nanos"

lemma refuse_sessions:
  "refuse_with_validation_failed A reason actor req w = (r, w') \<Longrightarrow> w_sessions w' = w_sessions w \<and> (\<forall>x. r \<noteq> Ok x)"
  using keepsD [OF keeps_refuse(1), of A reason actor req w r w'] refuse_never_ok [of A reason actor req w]
  by (metis keeps_stores_def)

lemma keeps_respond_tail: "keeps keeps_stores (respond_tail A user l g raw req)"
  unfolding respond_tail_def by (intro keeps_rules preorder_frames)

lemma respond_tail_Ok:
  assumes "respond_tail A user l g raw req w = (Ok x, w')"
  shows "tr_refresh_token x = raw \<and> tr_token_type x = ''Bearer''
    \<and> (\<exists>v v'. build_access_token A user (s_family_id l) v = (Ok (tr_access_token x, tr_expires_in x), v'))"
  using assms unfolding respond_tail_def by (fastforce elim!: bindq_okE seqq_okE)

context session_repository
begin

lemma swap_run:
  assumes P: "session_repo A = P" and i: "inv (w_sessions w)"
    and new: "is_valid_family_id (s_family_id new)" "s_hash new \<noteq> []" "s_hash new \<noteq> s_hash l"
    and b: "bindq (on_sessions (rotate_refresh_token (session_repo A) t (s_hash l) new)) (\<lambda>won.
      if \<not> won then refuse_with_validation_failed A UNKNOWN_REFRESH_TOKEN_REASON (Some (u_id user)) req
      else respond_tail A user new g (Some raw) req) w = (r, w')"
  shows "inv (w_sessions w') \<and>
    (absf (w_sessions w') = absf (w_sessions w) \<and> (\<forall>x. r \<noteq> Ok x)
     \<or> (\<exists>old. rotatable (s_hash l) old new (absf (w_sessions w))
        \<and> absf (w_sessions w') = spec_rotate t reten old new (absf (w_sessions w)))
        \<and> (\<forall>x. r = Ok x \<longrightarrow> (\<exists>v. respond_tail A user new g (Some raw) req v = (Ok x, w'))))"
proof -
  obtain rb s where o: "rotate_refresh_token P t (s_hash l) new (w_sessions w) = (rb, s)" by fastforce
  note law = rotate_law [OF i new(1,2,3) o]
  let ?w = "w\<lparr>w_sessions := s\<rparr>"
  have run: "on_sessions (rotate_refresh_token (session_repo A) t (s_hash l) new) w = (rb, ?w)"
    using o P by (simp add: on_sessions_def)
  show ?thesis
  proof (cases rb)
    case (Ok won)
    show ?thesis
    proof (cases won)
      case True
      then have "respond_tail A user new g (Some raw) req ?w = (r, w')" using b run Ok by simp
      moreover from this have "w_sessions w' = s"
        using keepsD [OF keeps_respond_tail] by (fastforce simp: keeps_stores_def)
      ultimately show ?thesis using law Ok True by (auto simp: failed_clean_def)
    next
      case False
      then have "refuse_with_validation_failed A UNKNOWN_REFRESH_TOKEN_REASON (Some (u_id user)) req ?w = (r, w')"
        using b run Ok by simp
      from refuse_sessions [OF this] show ?thesis using law Ok False by (auto simp: failed_clean_def)
    qed
  qed (use b run law in \<open>auto simp: failed_clean_def\<close>)
qed

lemma rotate_and_respond_run:
  assumes P: "session_repo A = P" and i: "inv (w_sessions w)" and l: "s_hash l \<noteq> []"
    and b: "rotate_and_respond A l g req w = (r, w')"
  shows "inv (w_sessions w') \<and>
    (absf (w_sessions w') = absf (w_sessions w) \<and> (\<forall>x. r \<noteq> Ok x)
     \<or> (\<exists>t raw old new. next_generation A w l raw new \<and> rotatable (s_hash l) old new (absf (w_sessions w))
        \<and> absf (w_sessions w') = spec_rotate t reten old new (absf (w_sessions w))
        \<and> (\<forall>x. r = Ok x \<longrightarrow> answered A (w_users w) (w_clock w (w_ticks w)) l (s_family_id new) (Some raw) x)))"
proof -
  from b have "bindq (gate_session A l req) (\<lambda>user. bindq (mint_replacement A l) (\<lambda>(raw_token, new).
      bindq utc_now (\<lambda>t. bindq (on_sessions (rotate_refresh_token (session_repo A) t (s_hash l) new)) (\<lambda>won.
      if \<not> won then refuse_with_validation_failed A UNKNOWN_REFRESH_TOKEN_REASON (Some (u_id user)) req
      else respond_tail A user new g (Some raw_token) req)))) w = (r, w')"
    using l by (simp add: rotate_and_respond_def)
  then show ?thesis
  proof (cases rule: bindq_cases)
    case (ok user w1)
    obtain u' where g: "\<not> s_expires_at l < w_clock w (w_ticks w)"
        "get_user_by_id (user_repo A) (s_user_id l) (w_users w) = (Ok (Some user), u')" "u_status user = Active"
        "w1 = w\<lparr>w_ticks := Suc (w_ticks w), w_users := u'\<rparr>"
      using gate_session_Ok [OF ok(1)] .
    from ok(2) show ?thesis
    proof (cases rule: bindq_cases)
      case (ok p w2)
      obtain raw new where p: "p = (raw, new)" by (cases p)
      have "mint_replacement A l w1 = (Ok (raw, new), w2)" using ok(1) p by simp
      from mint_replacement_Ok [OF this] have n: "next_generation A w l raw new" unfolding g(4) by simp
      have s2: "w_sessions w2 = w_sessions w"
        using keepsD [OF keeps_refuse(5) ok(1)] g(4) by (simp add: keeps_stores_def)
      let ?w = "w2\<lparr>w_ticks := Suc (w_ticks w2)\<rparr>" and ?t = "w_clock w2 (w_ticks w2)"
      have "bindq (on_sessions (rotate_refresh_token (session_repo A) ?t (s_hash l) new)) (\<lambda>won.
         if \<not> won then refuse_with_validation_failed A UNKNOWN_REFRESH_TOKEN_REASON (Some (u_id user)) req
         else respond_tail A user new g (Some raw) req) ?w = (r, w')"
        using ok(2) p by simp
      note run = this
      have nf: "is_valid_family_id (s_family_id new)" "s_hash new \<noteq> []" "s_hash new \<noteq> s_hash l"
        using n by (auto simp: next_generation_def)
      have i2: "inv (w_sessions ?w)" using i s2 by simp
      have sw: "inv (w_sessions w') \<and>
        (absf (w_sessions w') = absf (w_sessions w) \<and> (\<forall>x. r \<noteq> Ok x)
         \<or> (\<exists>old. rotatable (s_hash l) old new (absf (w_sessions w))
            \<and> absf (w_sessions w') = spec_rotate ?t reten old new (absf (w_sessions w)))
            \<and> (\<forall>x. r = Ok x \<longrightarrow> (\<exists>v. respond_tail A user new g (Some raw) req v = (Ok x, w'))))"
        using swap_run [OF P i2 nf run] s2 by simp
      have ans: "answered A (w_users w) (w_clock w (w_ticks w)) l (s_family_id new) (Some raw) x"
        if "respond_tail A user new g (Some raw) req v = (Ok x, w')" for x v
        using respond_tail_Ok [OF that] g unfolding answered_def by (metis not_less)
      show ?thesis
      proof (cases "absf (w_sessions w') = absf (w_sessions w) \<and> (\<forall>x. r \<noteq> Ok x)")
        case True
        then show ?thesis using sw by simp
      next
        case False
        then obtain old where "rotatable (s_hash l) old new (absf (w_sessions w))"
            "absf (w_sessions w') = spec_rotate ?t reten old new (absf (w_sessions w))"
          using sw by auto
        moreover have "\<forall>x. r = Ok x \<longrightarrow> answered A (w_users w) (w_clock w (w_ticks w)) l (s_family_id new) (Some raw) x" using sw False ans by metis
        ultimately show ?thesis using sw n by blast
      qed
    qed (use i keepsD [OF keeps_refuse(5)] g(4) in \<open>fastforce simp: keeps_stores_def\<close>)+
  qed (use i keepsD [OF keeps_gate] in \<open>fastforce simp: keeps_sessions_def\<close>)+
qed

lemma reuse_run:
  assumes P: "session_repo A = P" and i: "inv (w_sessions w)"
    and b: "revoke_family_for_reuse A f u req w = (r, w')"
  shows "inv (w_sessions w') \<and> (\<forall>x. r \<noteq> Ok x) \<and>
    (absf (w_sessions w') = absf (w_sessions w) \<and> r \<noteq> Err (InvalidToken UNKNOWN_REFRESH_TOKEN_REASON)
     \<or> absf (w_sessions w') = spec_revoke_family f (absf (w_sessions w))
       \<and> (r = Err (InvalidToken UNKNOWN_REFRESH_TOKEN_REASON) \<or> (\<exists>d. r = Err (SecurityAuditDurability d))))"
proof (cases "is_valid_family_id f \<and> u \<noteq> []")
  case False
  then show ?thesis using b i by (auto simp: revoke_family_for_reuse_def seqq_assert split: if_splits)
next
  case True
  obtain rn s where o: "revoke_family P f (w_sessions w) = (rn, s)" by fastforce
  note law = revoke_family_law [OF i _ o]
  have len: "length f = 30" using True
    by (auto simp: is_valid_family_id_def FAMILY_ID_PREFIX_def ULID_CHAR_LEN_def split: option.splits if_splits)
  show ?thesis
  proof (cases rn)
    case (Ok n)
    let ?w = "w\<lparr>w_sessions := s\<rparr>"
    let ?d = "[(''family_id'', JString f), (''sessions_revoked'', JInt (uint n))]"
    obtain re w2 where e: "emit_security_event_with_detail A RefreshTokenReuse Success (Some u) None
         (rq_client_addr req) (rq_user_agent req) ?d ?w = (re, w2)" by fastforce
    have s2: "w_sessions w2 = s" using keepsD [OF keeps_emit_security(3) e] by (simp add: keeps_stores_def)
    have re: "re = Ok () \<or> (\<exists>d. re = Err (SecurityAuditDurability d))"
      using e by (rule emit_security_cases) auto
    have "seqq (emit_security_event_with_detail A RefreshTokenReuse Success
        (Some u) None (rq_client_addr req) (rq_user_agent req) ?d) (throw (InvalidToken UNKNOWN_REFRESH_TOKEN_REASON)) ?w = (r, w')"
      using b True o P Ok len by (simp add: revoke_family_for_reuse_def seqq_assert on_sessions_def REFRESH_HASH_HEX_LEN_def)
    then have "(r, w') = (case re of Ok _ \<Rightarrow> Err (InvalidToken UNKNOWN_REFRESH_TOKEN_REASON) | Err d \<Rightarrow> Err d | Panic p \<Rightarrow> Panic p, w2)"
      using e by (auto simp: seqq_def bindq_def and_then_def split: outcome.splits)
    then show ?thesis using law True Ok re s2 by (auto simp: failed_clean_def)
  qed (use b law True o P in \<open>auto simp: revoke_family_for_reuse_def seqq_assert on_sessions_def failed_clean_def\<close>)
qed

text \<open>Every run of a redemption: refused with the families untouched, rotated, or a family revoked.\<close>

lemma redeem_run:
  assumes P: "session_repo A = P" and i: "inv (w_sessions w)" and ok: "fam_ok (absf (w_sessions w))"
    and R: "R = spec_resolve now h (absf (w_sessions w))" and b: "redeem A R req w = (r, w')"
  shows "inv (w_sessions w') \<and>
    (absf (w_sessions w') = absf (w_sessions w) \<and> (\<forall>x. r \<noteq> Ok x)
     \<or> (\<exists>l t raw new n. (R = Live l \<or> (\<exists>ra. R = Superseded l ra \<and> in_grace A ra (w_clock w (w_ticks w))))
        \<and> next_generation A w l raw new \<and> rotatable (s_hash l) l new (absf (w_sessions w))
        \<and> absf (w_sessions w') = spec_rotate t reten l new (absf (w_sessions w))
        \<and> (\<forall>x. r = Ok x \<longrightarrow> answered A (w_users w) (w_clock w n) l (s_family_id new) (Some raw) x))
     \<or> (\<exists>f. ((\<exists>u ra. R = Retired f u ra) \<or> (\<exists>l ra. R = Superseded l ra \<and> f = s_family_id l \<and> \<not> in_grace A ra (w_clock w (w_ticks w))))
        \<and> absf (w_sessions w') = spec_revoke_family f (absf (w_sessions w))
        \<and> (r = Err (InvalidToken UNKNOWN_REFRESH_TOKEN_REASON) \<or> (\<exists>d. r = Err (SecurityAuditDurability d)))))"
proof -
  have rot: "inv (w_sessions w') \<and> (absf (w_sessions w') = absf (w_sessions w) \<and> (\<forall>x. r \<noteq> Ok x)
     \<or> (\<exists>t raw new n. next_generation A w l raw new \<and> rotatable (s_hash l) l new (absf (w_sessions w))
        \<and> absf (w_sessions w') = spec_rotate t reten l new (absf (w_sessions w))
        \<and> (\<forall>x. r = Ok x \<longrightarrow> answered A (w_users w) (w_clock w n) l (s_family_id new) (Some raw) x)))"
    if l: "live (absf (w_sessions w)) (s_hash l) = Some l"
      and b: "rotate_and_respond A l g req (w\<lparr>w_ticks := n\<rparr>) = (r, w')" for l g n
  proof -
    have ne: "s_hash l \<noteq> []" using fam_ok_live [OF ok l] by simp
    have "rotatable (s_hash l) old new (absf (w_sessions w)) \<Longrightarrow> old = l" for old new using l by (simp add: rotatable_def)
    then show ?thesis using rotate_and_respond_run [OF P _ ne b] i
      by (simp add: next_generation_def) metis
  qed
  show ?thesis
  proof (cases R)
    case (Live l)
    then have "live (absf (w_sessions w)) (s_hash l) = Some l"
      using R fam_ok_live [OF ok, of h l] by (auto simp: spec_resolve_def split: option.splits if_splits)
    from rot [OF this, of False "w_ticks w"] b Live show ?thesis by (simp add: redeem_def)
  next
    case (Superseded l ra)
    then have l: "live (absf (w_sessions w)) (s_hash l) = Some l"
      using R fam_ok_live [OF ok, of _ l] by (auto simp: spec_resolve_def split: option.splits if_splits)
    show ?thesis
    proof (cases "rotation_grace_secs (config A)")
      case (Ok secs)
      then have secs: "secs = cfg_refresh_rotation_grace (config A)" by (auto simp: rotation_grace_secs_def Let_def split: if_splits)
      show ?thesis
      proof (cases "in_grace A ra (w_clock w (w_ticks w))")
        case True
        then have "rotate_and_respond A l True req (w\<lparr>w_ticks := Suc (w_ticks w)\<rparr>) = (r, w')"
          using b Superseded Ok secs by (simp add: redeem_def within_grace_def in_grace_def)
        from rot [OF l this] Superseded True show ?thesis by blast
      next
        case False
        then have "revoke_family_for_reuse A (s_family_id l) (s_user_id l) req (w\<lparr>w_ticks := Suc (w_ticks w)\<rparr>) = (r, w')"
          using b Superseded Ok secs by (simp add: redeem_def within_grace_def in_grace_def)
        from reuse_run [OF P _ this] i Superseded False show ?thesis by auto
      qed
    qed (use b i Superseded in \<open>auto simp: redeem_def\<close>)
  next
    case (Retired f u ra)
    then have "revoke_family_for_reuse A f u req w = (r, w')" using b by (simp add: redeem_def)
    from reuse_run [OF P i this] Retired show ?thesis by auto
  next
    case Unknown
    then show ?thesis using b i refuse_sessions [of A UNKNOWN_REFRESH_TOKEN_REASON None req w r w'] by (auto simp: redeem_def)
  qed
qed

lemma no_rotation_run:
  assumes P: "session_repo A = P" and i: "inv (w_sessions w)" and b: "refresh_without_rotation A R req w = (r, w')"
  shows "w_sessions w' = w_sessions w"
proof -
  have "keeps keeps_sessions (refresh_without_rotation A R req)"
    unfolding refresh_without_rotation_def
    by (cases R) (auto intro!: keeps_rules preorder_frames intro: keeps_stores_sessions keeps_respond_tail keeps_refuse(1))
  from keepsD [OF this b] show ?thesis by (simp add: keeps_sessions_def)
qed

lemma refresh_run:
  assumes P: "session_repo A = P" and i: "inv (w_sessions w)" and b: "refresh A req w = (r, w')"
  obtains (stopped) "inv (w_sessions w')" "absf (w_sessions w') = absf (w_sessions w)" "\<forall>x. r \<noteq> Ok x" "\<forall>m. r \<noteq> Err (InvalidToken m)"
  | (plain) v where "\<not> cfg_refresh_rotation (config A)" "inv (w_sessions v)" "absf (w_sessions v) = absf (w_sessions w)" "w_users v = w_users w"
      "refresh_without_rotation A (spec_resolve (w_clock w (w_ticks w)) (sha256_hex (lib A) (rq_refresh_token req)) (absf (w_sessions w))) req v = (r, w')"
  | (rotating) s where "cfg_refresh_rotation (config A)" "inv s" "absf s = absf (w_sessions w)"
      "redeem A (spec_resolve (w_clock w (w_ticks w)) (sha256_hex (lib A) (rq_refresh_token req)) (absf (w_sessions w))) req
         (w\<lparr>w_ticks := Suc (w_ticks w), w_sessions := s\<rparr>) = (r, w')"
proof (cases "rq_refresh_token req \<noteq> [] \<and> length (sha256_hex (lib A) (rq_refresh_token req)) = REFRESH_HASH_HEX_LEN")
  case False
  then show thesis using b i by (intro stopped) (auto simp: refresh_def seqq_assert Let_def split: if_splits)
next
  case True
  let ?h = "sha256_hex (lib A) (rq_refresh_token req)" and ?now = "w_clock w (w_ticks w)"
  have ne: "?h \<noteq> []" using True by (auto simp: REFRESH_HASH_HEX_LEN_def)
  obtain rr s where o: "resolve_refresh_token P ?now ?h (w_sessions w) = (rr, s)" by fastforce
  note law = resolve_law [OF i ne o]
  let ?v = "w\<lparr>w_ticks := Suc (w_ticks w), w_sessions := s\<rparr>"
  have run: "bindq (from_outcome rr) (\<lambda>resolution. if \<not> cfg_refresh_rotation (config A) then refresh_without_rotation A resolution req
       else redeem A resolution req) ?v = (r, w')"
    using b True o P by (auto simp: refresh_def seqq_assert Let_def on_sessions_def bindq_def and_then_def split: outcome.splits)
  from law consider (f) d where "rr = Err (StoreError d)" "absf s = absf (w_sessions w)" "inv s"
    | (ok) "rr = Ok (spec_resolve ?now ?h (absf (w_sessions w)))" "absf s = absf (w_sessions w)" "inv s"
    by (auto simp: failed_clean_def)
  then show thesis
  proof cases
    case f
    then show ?thesis using run by (intro stopped) auto
  next
    case ok
    show ?thesis
    proof (cases "cfg_refresh_rotation (config A)")
      case True
      then show ?thesis using run ok by (intro rotating [of s]) auto
    next
      case False
      then show ?thesis using run ok by (intro plain [of ?v]) auto
    qed
  qed
qed

lemma refresh_Ok:
  assumes P: "session_repo A = P" and i: "inv (w_sessions w)" and ok: "fam_ok (absf (w_sessions w))"
    and c: "cfg_refresh_rotation (config A)" and b: "refresh A req w = (Ok x, w')"
    and R: "R = spec_resolve (w_clock w (w_ticks w)) (sha256_hex (lib A) (rq_refresh_token req)) (absf (w_sessions w))"
  shows "\<exists>l t raw new n. (R = Live l \<or> (\<exists>ra. R = Superseded l ra \<and> in_grace A ra (w_clock w (Suc (w_ticks w)))))
    \<and> next_generation A w l raw new \<and> rotatable (s_hash l) l new (absf (w_sessions w))
    \<and> answered A (w_users w) (w_clock w n) l (s_family_id new) (Some raw) x
    \<and> absf (w_sessions w') = spec_rotate t reten l new (absf (w_sessions w))"
  using P i b
proof (cases rule: refresh_run)
  case (rotating s)
  show ?thesis using redeem_run [OF P _ _ _ rotating(4) [folded R], of "w_clock w (w_ticks w)"
        "sha256_hex (lib A) (rq_refresh_token req)"] rotating(2,3) ok R
    by (simp add: next_generation_def) metis
qed (use c in auto)

text \<open>The presented hash is retired, or superseded and past its grace.\<close>

lemma refresh_reuse:
  assumes P: "session_repo A = P" and i: "inv (w_sessions w)"
    and c: "cfg_refresh_rotation (config A)" and b: "refresh A req w = (r, w')"
    and R: "spec_resolve (w_clock w (w_ticks w)) (sha256_hex (lib A) (rq_refresh_token req)) (absf (w_sessions w)) = R"
    and reuse: "(\<exists>u ra. R = Retired f u ra) \<or> (\<exists>l ra. R = Superseded l ra \<and> f = s_family_id l \<and> \<not> in_grace A ra (w_clock w (Suc (w_ticks w))))"
  shows "inv (w_sessions w') \<and> (\<forall>x. r \<noteq> Ok x) \<and>
    (absf (w_sessions w') = absf (w_sessions w) \<and> r \<noteq> Err (InvalidToken UNKNOWN_REFRESH_TOKEN_REASON)
     \<or> absf (w_sessions w') = spec_revoke_family f (absf (w_sessions w))
       \<and> (r = Err (InvalidToken UNKNOWN_REFRESH_TOKEN_REASON) \<or> (\<exists>d. r = Err (SecurityAuditDurability d))))"
  using P i b
proof (cases rule: refresh_run)
  case (rotating s)
  let ?v = "w\<lparr>w_ticks := Suc (w_ticks w), w_sessions := s\<rparr>"
  note run = rotating(4) [unfolded R]
  from reuse consider (ret) u ra where "R = Retired f u ra"
    | (sup) l ra where "R = Superseded l ra" "f = s_family_id l" "\<not> in_grace A ra (w_clock w (Suc (w_ticks w)))" by blast
  then show ?thesis
  proof cases
    case ret
    then have "revoke_family_for_reuse A f u req ?v = (r, w')" using run by (simp add: redeem_def)
    from reuse_run [OF P _ this] rotating(2,3) show ?thesis by simp
  next
    case sup
    show ?thesis
    proof (cases "rotation_grace_secs (config A)")
      case (Ok secs)
      then have "secs = cfg_refresh_rotation_grace (config A)" by (auto simp: rotation_grace_secs_def Let_def split: if_splits)
      then have "revoke_family_for_reuse A f (s_user_id l) req (?v\<lparr>w_ticks := Suc (Suc (w_ticks w))\<rparr>) = (r, w')"
        using run sup Ok by (simp add: redeem_def within_grace_def in_grace_def)
      from reuse_run [OF P _ this] rotating(2,3) show ?thesis by simp
    qed (use run sup rotating(2,3) in \<open>auto simp: redeem_def rotation_grace_secs_def Let_def split: if_splits\<close>)
  qed
qed (use c in auto)

text \<open>Redemption keeps every family well-formed, as long as what it draws is fresh.\<close>

lemma refresh_fam_ok:
  assumes P: "session_repo A = P" and i: "inv (w_sessions w)" and ok: "fam_ok (absf (w_sessions w))"
    and b: "refresh A req w = (r, w')"
    and fresh: "fresh_hash (sha256_hex (lib A) (b64url_encode (lib A) (w_random w (w_draws w)))) (absf (w_sessions w))"
    and fam: "fresh_family (new_family_id (lib A) (w_ulid w (w_ulids w))) (absf (w_sessions w))"
  shows "inv (w_sessions w') \<and> fam_ok (absf (w_sessions w'))"
  using P i b
proof (cases rule: refresh_run)
  case (rotating s)
  have "fam_ok (spec_rotate t reten l new (absf (w_sessions w)))"
    if "next_generation A w l raw new" "rotatable (s_hash l) l new (absf (w_sessions w))" for t l new raw
    by (rule fam_ok_rotate [OF ok that(2)]) (use that(1) fresh fam in \<open>auto simp: next_generation_def\<close>)
  moreover have "fam_ok (spec_revoke_family f (absf (w_sessions w)))" for f by (rule fam_ok_revoke_family [OF ok])
  ultimately show ?thesis using redeem_run [OF P _ _ _ rotating(4), of "w_clock w (w_ticks w)"
        "sha256_hex (lib A) (rq_refresh_token req)"] rotating(2,3) ok
    by auto
next
  case (plain v)
  then show ?thesis using no_rotation_run [OF P plain(2) plain(5)] ok by simp
qed (use ok in auto)

end

section \<open>Properties\<close>

text \<open>C2. A redemption that answers with tokens, with rotation on: the presented hash was the live
  generation of its family, or a superseded one inside the grace window; the user was active and the
  family unexpired at a clock reading of the run; the response carries a fresh token whose hash is the
  next generation, one higher and with the family's deadline and creation time unchanged; and the
  store has swapped exactly the old generation for the new one, leaving the retirement record.\<close>

theorem refresh_rotates:
  assumes "session_repository (session_repo A) I absf reten" "I (w_sessions w)" "fam_ok (absf (w_sessions w))"
    and "cfg_refresh_rotation (config A)" "refresh A req w = (Ok x, w')"
    and "R = spec_resolve (w_clock w (w_ticks w)) (sha256_hex (lib A) (rq_refresh_token req)) (absf (w_sessions w))"
  shows "\<exists>l t raw new n. (R = Live l \<or> (\<exists>ra. R = Superseded l ra \<and> in_grace A ra (w_clock w (Suc (w_ticks w)))))
    \<and> next_generation A w l raw new \<and> rotatable (s_hash l) l new (absf (w_sessions w))
    \<and> answered A (w_users w) (w_clock w n) l (s_family_id new) (Some raw) x
    \<and> absf (w_sessions w') = spec_rotate t reten l new (absf (w_sessions w))"
  by (rule session_repository.refresh_Ok [OF assms(1) refl assms(2-6)])

text \<open>C3. Reuse of a retired or out-of-grace superseded token, with rotation on: the request is
  never answered with tokens, and it is refused with the unknown-token error only once the whole
  family, live generation and retirement records, is gone; a durability failure of the alarm does not
  bring the family back. When nothing was removed the caller sees another error.\<close>

theorem reuse_revokes_family:
  assumes "session_repository (session_repo A) I absf reten" "I (w_sessions w)"
    and "cfg_refresh_rotation (config A)" "refresh A req w = (r, w')"
    and "spec_resolve (w_clock w (w_ticks w)) (sha256_hex (lib A) (rq_refresh_token req)) (absf (w_sessions w)) = R"
    and "(\<exists>u ra. R = Retired f u ra) \<or> (\<exists>l ra. R = Superseded l ra \<and> f = s_family_id l \<and> \<not> in_grace A ra (w_clock w (Suc (w_ticks w))))"
  shows "(\<forall>x. r \<noteq> Ok x) \<and>
    (absf (w_sessions w') = absf (w_sessions w) \<and> r \<noteq> Err (InvalidToken UNKNOWN_REFRESH_TOKEN_REASON)
     \<or> absf (w_sessions w') = spec_revoke_family f (absf (w_sessions w))
       \<and> (r = Err (InvalidToken UNKNOWN_REFRESH_TOKEN_REASON) \<or> (\<exists>d. r = Err (SecurityAuditDurability d))))"
  using session_repository.refresh_reuse [OF assms(1) refl assms(2-6)] by simp

text \<open>C1. Whatever a redemption ends in, a value, an error or a panic, the families stay
  well-formed, so a family never has two live generations, provided the random token and the ULID
  the run draws are fresh in the store.\<close>

theorem refresh_single_live_generation:
  assumes "session_repository (session_repo A) I absf reten" "I (w_sessions w)" "fam_ok (absf (w_sessions w))"
    and "refresh A req w = (r, w')"
    and "fresh_hash (sha256_hex (lib A) (b64url_encode (lib A) (w_random w (w_draws w)))) (absf (w_sessions w))"
    and "fresh_family (new_family_id (lib A) (w_ulid w (w_ulids w))) (absf (w_sessions w))"
  shows "I (w_sessions w') \<and> fam_ok (absf (w_sessions w'))"
  by (rule session_repository.refresh_fam_ok [OF assms(1) refl assms(2-6)])

end
