(* ===== verification/Assertion.thy ===== *)
theory Assertion
  imports Service
begin

unbundle bit_operations_syntax

text \<open>
  Assertion binding (\<open>crates/core/src/service/assertion.rs\<close>): the five controls an accepted ID token
  passes in a fixed order (lifetime ceiling, \<open>azp\<close>, \<open>at_hash\<close>, nonce, single-use marker), and
  the minting of nonces. A control that rejects names itself; a failing single-use store is a
  different error.
\<close>

section \<open>Data\<close>

definition NONCE_BYTES :: nat where "NONCE_BYTES = 32"
definition NONCE_KEY_PREFIX :: string where "NONCE_KEY_PREFIX = ''nonce:''"
definition ASSERTION_KEY_PREFIX :: string where "ASSERTION_KEY_PREFIX = ''assertion:''"
definition NO_JTI_DISCRIMINATOR :: string where "NO_JTI_DISCRIMINATOR = ''d:''"
definition NONCE_B64URL_LEN :: nat where "NONCE_B64URL_LEN = 43"
definition EDDSA_SIGNING_ALG :: string where "EDDSA_SIGNING_ALG = ''EdDSA''"
definition SHA256_HEX_LEN :: nat where "SHA256_HEX_LEN = 64"
definition CHECK_LIFETIME_CEILING :: string where "CHECK_LIFETIME_CEILING = ''lifetime_ceiling''"
definition CHECK_AZP :: string where "CHECK_AZP = ''azp''"
definition CHECK_AT_HASH :: string where "CHECK_AT_HASH = ''at_hash''"
definition CHECK_NONCE :: string where "CHECK_NONCE = ''nonce''"
definition CHECK_SINGLE_USE :: string where "CHECK_SINGLE_USE = ''single_use''"

record assertion_context =
  ax_provider_id :: string
  ax_client_id :: string
  ax_access_token :: "string option"
  ax_compact_jwt :: string
  ax_require_nonce :: bool
  ax_max_assertion_secs :: u64

datatype bind_error = Rejected (rej_check: string) (rej_reason: string) | BindStore error

record minted_nonce =
  mn_nonce :: string
  mn_expires_in :: u64

section \<open>The pure controls\<close>

fun as_str :: "json \<Rightarrow> string option" where
  "as_str (JString s) = Some s"
| "as_str _ = None"

definition str_claim :: "identity_claims \<Rightarrow> string \<Rightarrow> string option" where
  "str_claim c name = Option.bind (hm_get (ic_raw_claims c) name) as_str"

text \<open>
  \<open>n.as_i64().or_else(|| n.as_f64().map(|f| f as i64))\<close>: an integer outside \<open>i64\<close> and a float go
  through \<open>f64\<close>, whose cast to \<open>i64\<close> truncates and saturates.
\<close>

definition saturate_i64 :: "int \<Rightarrow> int" where
  "saturate_i64 n = max i64_min (min i64_max n)"

definition trunc_rat :: "rat \<Rightarrow> int" where
  "trunc_rat q = (if 0 \<le> q then \<lfloor>q\<rfloor> else \<lceil>q\<rceil>)"

fun number_as_i64 :: "json \<Rightarrow> int option" where
  "number_as_i64 (JInt n) = Some (saturate_i64 n)"
| "number_as_i64 (JFloat q) = Some (saturate_i64 (trunc_rat q))"
| "number_as_i64 _ = None"

definition no_usable_exp :: "(bind_error, 'a) outcome" where
  "no_usable_exp = Err (Rejected CHECK_LIFETIME_CEILING ''assertion has no usable exp claim'')"

definition check_lifetime :: "'x lib_scheme \<Rightarrow> identity_claims \<Rightarrow> instant \<Rightarrow> u64 \<Rightarrow> (bind_error, instant) outcome" where
  "check_lifetime L claims now max_assertion_secs =
     (case Option.bind (hm_get (ic_raw_claims claims) ''exp'') number_as_i64 of
        None \<Rightarrow> no_usable_exp
      | Some exp_secs \<Rightarrow>
          if \<not> timestamp now > 0 then Panic ''clock must be past the epoch''
          else
            let remaining = wrap_i64 (exp_secs - timestamp now) in
            if remaining \<le> 0 then Err (Rejected CHECK_LIFETIME_CEILING ''assertion is already expired'')
            else if remaining > as_i64 max_assertion_secs
              then Err (Rejected CHECK_LIFETIME_CEILING ''assertion lifetime exceeds the configured maximum'')
            else (case dt_from_timestamp L exp_secs of
                    None \<Rightarrow> no_usable_exp
                  | Some expires_at \<Rightarrow> Ok expires_at))"

definition check_azp :: "identity_claims \<Rightarrow> assertion_context \<Rightarrow> (bind_error, unit) outcome" where
  "check_azp claims ctx = (case str_claim claims ''azp'' of
       Some azp \<Rightarrow> if azp \<noteq> ax_client_id ctx then Err (Rejected CHECK_AZP ''azp does not match this client'') else Ok ()
     | None \<Rightarrow>
         (case hm_get (ic_raw_claims claims) ''aud'' of
            Some (JArray a) \<Rightarrow> if length a > 1 then Err (Rejected CHECK_AZP ''multi-audience assertion requires azp'') else Ok ()
          | _ \<Rightarrow> Ok ()))"

definition at_hash_value :: "'x lib_scheme \<Rightarrow> string \<Rightarrow> string \<Rightarrow> string option" where
  "at_hash_value L signing_alg access_token =
     (if ends_with signing_alg ''256'' then Some (b64url_encode L (take 16 (sha256 L access_token)))
      else if ends_with signing_alg ''384'' then Some (b64url_encode L (take 24 (sha384 L access_token)))
      else if ends_with signing_alg ''512'' then Some (b64url_encode L (take 32 (sha512 L access_token)))
      else None)"

definition u8_of :: "char \<Rightarrow> u8" where
  "u8_of c = word_of_int (byte c)"

definition constant_time_eq :: "string \<Rightarrow> string \<Rightarrow> bool" where
  "constant_time_eq a b =
     (if length a \<noteq> length b then False
      else fold (\<lambda>(x, y) diff. diff OR (u8_of x XOR u8_of y)) (zip a b) 0 = 0)"

definition check_at_hash :: "'x lib_scheme \<Rightarrow> identity_claims \<Rightarrow> assertion_context \<Rightarrow> (bind_error, unit) outcome" where
  "check_at_hash L claims ctx = (case str_claim claims ''at_hash'' of
       None \<Rightarrow> Ok ()
     | Some claimed \<Rightarrow>
         if ic_signing_alg claims = EDDSA_SIGNING_ALG
           then Err (Rejected CHECK_AT_HASH ''at_hash is unverifiable on an EdDSA-signed assertion'')
         else (case ax_access_token ctx of
             None \<Rightarrow> Ok ()
           | Some access_token \<Rightarrow>
               (case at_hash_value L (ic_signing_alg claims) access_token of
                  None \<Rightarrow> Err (Rejected CHECK_AT_HASH ''no verifiable at_hash digest for this signing algorithm'')
                | Some expected \<Rightarrow>
                    if \<not> constant_time_eq expected claimed
                      then Err (Rejected CHECK_AT_HASH ''at_hash does not match the accompanying access token'')
                    else Ok ())))"

definition nonempty :: "string option \<Rightarrow> string option" where
  "nonempty x = (case x of Some s \<Rightarrow> if s \<noteq> [] then Some s else None | None \<Rightarrow> None)"

definition assertion_marker_key :: "'x lib_scheme \<Rightarrow> assertion_context \<Rightarrow> identity_claims \<Rightarrow> string" where
  "assertion_marker_key L ctx claims = (case nonempty (str_claim claims ''jti'') of
       Some jti \<Rightarrow> ASSERTION_KEY_PREFIX @ ax_provider_id ctx @ '':'' @ sha256_hex L jti
     | None \<Rightarrow> ASSERTION_KEY_PREFIX @ ax_provider_id ctx @ '':'' @ NO_JTI_DISCRIMINATOR @ sha256_hex L (ax_compact_jwt ctx))"

section \<open>The controls that burn state\<close>

definition consume_nonce ::
  "('s, 'u, 'r) app_service \<Rightarrow> identity_claims \<Rightarrow> (('s, 'u, 'r) world, bind_error, unit) prog" where
  "consume_nonce A claims = (case nonempty (str_claim claims ''nonce'') of
       None \<Rightarrow> throw (Rejected CHECK_NONCE ''assertion carries no usable nonce'')
     | Some nonce \<Rightarrow>
         let key = NONCE_KEY_PREFIX @ sha256_hex (lib A) nonce in
         bindq utc_now (\<lambda>t.
         and_then (on_sessions (take_single_use (session_repo A) t key))
           (\<lambda>burned. if \<not> burned then throw (Rejected CHECK_NONCE ''nonce is missing, expired, or already used'') else ret ())
           (\<lambda>e. throw (BindStore e))))"

definition claim_assertion_marker ::
  "('s, 'u, 'r) app_service \<Rightarrow> identity_claims \<Rightarrow> assertion_context \<Rightarrow> instant \<Rightarrow> (('s, 'u, 'r) world, bind_error, unit) prog" where
  "claim_assertion_marker A claims ctx expires_at =
     bindq utc_now (\<lambda>t.
     and_then (on_sessions (put_single_use (session_repo A) t (assertion_marker_key (lib A) ctx claims) expires_at))
       (\<lambda>claimed. if \<not> claimed then throw (Rejected CHECK_SINGLE_USE ''assertion has already been used'') else ret ())
       (\<lambda>e. throw (BindStore e)))"

definition bind :: "('s, 'u, 'r) app_service \<Rightarrow> identity_claims \<Rightarrow> assertion_context \<Rightarrow> (('s, 'u, 'r) world, bind_error, unit) prog" where
  "bind A claims ctx =
     bindq utc_now (\<lambda>now.
     bindq (from_outcome (check_lifetime (lib A) claims now (ax_max_assertion_secs ctx))) (\<lambda>expires_at.
     seqq (from_outcome (check_azp claims ctx))
     (seqq (from_outcome (check_at_hash (lib A) claims ctx))
     (seqq (if ax_require_nonce ctx then consume_nonce A claims else ret ())
     (claim_assertion_marker A claims ctx expires_at)))))"

definition parse_nonce_ttl_secs :: "config \<Rightarrow> u64 result" where
  "parse_nonce_ttl_secs C = (if uint (cfg_nonce_ttl C) \<le> (2 ^ 64 - 1) div 2 then Ok (cfg_nonce_ttl C)
     else Panic ''nonce TTL must leave headroom for arithmetic'')"

definition mint_nonce :: "('s, 'u, 'r) app_service \<Rightarrow> ('s, 'u, 'r, minted_nonce) svc" where
  "mint_nonce A =
     bindq (from_outcome (parse_nonce_ttl_secs (config A))) (\<lambda>ttl_secs.
     bindq random_bytes (\<lambda>nonce_bytes.
     let nonce = b64url_encode (lib A) nonce_bytes; nonce_digest = sha256_hex (lib A) nonce in
     seqq (assert_that (length nonce = NONCE_B64URL_LEN) ''base64url of 32 bytes must be 43 chars'')
     (seqq (assert_that (length nonce_digest = SHA256_HEX_LEN) ''SHA-256 hex digests are 64 chars'')
     (bindq utc_now (\<lambda>now.
      case dt_add (lib A) now (as_i64 ttl_secs) of
        None \<Rightarrow> panic ''`DateTime + TimeDelta` overflowed''
      | Some expires_at \<Rightarrow>
          bindq utc_now (\<lambda>t.
          bindq (on_sessions (put_single_use (session_repo A) t (NONCE_KEY_PREFIX @ nonce_digest) expires_at)) (\<lambda>claimed.
          if \<not> claimed then throw (StoreError ''single-use nonce key collision'')
          else ret \<lparr>mn_nonce = nonce, mn_expires_in = ttl_secs\<rparr>)))))))"

section \<open>Lemmas on the pure controls\<close>

lemma or_zero_iff: "(a :: u8) OR b = 0 \<longleftrightarrow> a = 0 \<and> b = 0"
  by (metis or.left_neutral or_eq_0_iff)

lemma u8_of_inj: "u8_of a = u8_of b \<longleftrightarrow> a = b"
  by (auto simp: u8_of_def word_of_int_eq_iff take_bit_int_eq_self byte_inj)

lemma xor_zero_iff: "u8_of a XOR u8_of b = 0 \<longleftrightarrow> a = b"
  by (metis u8_of_inj xor.assoc xor.left_neutral xor_self_eq xor.right_neutral)

lemma ct_fold_zero:
  "length a = length b \<Longrightarrow>
     fold (\<lambda>(x, y) diff. diff OR (u8_of x XOR u8_of y)) (zip a b) acc = 0 \<longleftrightarrow> acc = 0 \<and> a = b"
  by (induction a b arbitrary: acc rule: list_induct2) (auto simp: or_zero_iff xor_zero_iff)

lemma constant_time_eq_iff: "constant_time_eq a b \<longleftrightarrow> a = b"
  by (auto simp: constant_time_eq_def ct_fold_zero)

lemma check_lifetime_Ok:
  assumes "check_lifetime L c now m = Ok t" "chrono_ok L" "in_range now"
  obtains e where "Option.bind (hm_get (ic_raw_claims c) ''exp'') number_as_i64 = Some e" "t = e * nanos"
    "timestamp now < e" "e \<le> timestamp now + as_i64 m" "now < t"
proof -
  obtain e where e: "Option.bind (hm_get (ic_raw_claims c) ''exp'') number_as_i64 = Some e"
    and r: "timestamp now > 0" "0 < wrap_i64 (e - timestamp now)" "wrap_i64 (e - timestamp now) \<le> as_i64 m"
    and f: "dt_from_timestamp L e = Some t"
    using assms(1) by (auto simp: check_lifetime_def no_usable_exp_def Let_def split: option.splits if_splits)
  have t: "t = e * nanos" "in_range (e * nanos)" using chrono_from_timestamp [OF assms(2) f] by auto
  then have w: "wrap_i64 (e - timestamp now) = e - timestamp now"
    using assms(3) by (intro wrap_i64_id) (auto simp: in_range_def chrono_secs_def i64_min_def i64_max_def)
  have "now < (timestamp now + 1) * nanos" by (simp add: timestamp_def nanos_def)
  also have "\<dots> \<le> e * nanos" using r w by (intro mult_right_mono) (auto simp: nanos_def)
  finally show thesis using that [OF e t(1)] r w t(1) by simp
qed

section \<open>Binding over a session repository\<close>

lemma keeps_bind [keeps_rules]:
  "keeps audit_grows (consume_nonce A c)" "keeps audit_grows (claim_assertion_marker A c x t)"
  "keeps audit_grows (bind A c x)"
  unfolding bind_def consume_nonce_def claim_assertion_marker_def Let_def
  by (intro keeps_rules preorder_frames)+

lemma marker_key_nonempty [simp]: "assertion_marker_key L x c \<noteq> []"
  by (simp add: assertion_marker_key_def ASSERTION_KEY_PREFIX_def split: option.splits)

text \<open>The live families a binding leaves are those it found: only single-use records change.\<close>

definition same_families :: "fam_store \<Rightarrow> fam_store \<Rightarrow> bool" where
  "same_families a b \<longleftrightarrow> live b = live a \<and> retired b = retired a"

lemma marker_not_nonce: "NONCE_KEY_PREFIX @ n \<noteq> assertion_marker_key L x c"
  by (simp add: assertion_marker_key_def NONCE_KEY_PREFIX_def ASSERTION_KEY_PREFIX_def split: option.splits)

lemma consume_nonce_clock:
  "w_clock (snd (consume_nonce A c w)) = w_clock w \<and> w_ticks w \<le> w_ticks (snd (consume_nonce A c w))"
  by (auto simp: consume_nonce_def Let_def on_sessions_def and_then_def split: option.splits outcome.splits prod.splits)

context session_repository
begin

lemma consume_nonce_run:
  assumes "session_repo A = P" "inv (w_sessions w)" "consume_nonce A c w = (r, w')"
  shows "inv (w_sessions w') \<and> same_families (absf (w_sessions w)) (absf (w_sessions w'))
    \<and> (r = Ok () \<longrightarrow> (\<exists>n. nonempty (str_claim c ''nonce'') = Some n
        \<and> single_live (w_clock w (w_ticks w)) (NONCE_KEY_PREFIX @ sha256_hex (lib A) n) (absf (w_sessions w))
        \<and> absf (w_sessions w') = (absf (w_sessions w))\<lparr>single := (single (absf (w_sessions w)))
             (NONCE_KEY_PREFIX @ sha256_hex (lib A) n := None)\<rparr>))"
proof (cases "nonempty (str_claim c ''nonce'')")
  case None
  then show ?thesis using assms by (auto simp: consume_nonce_def same_families_def)
next
  case (Some n)
  let ?k = "NONCE_KEY_PREFIX @ sha256_hex (lib A) n"
  obtain rb s where t: "take_single_use P (w_clock w (w_ticks w)) ?k (w_sessions w) = (rb, s)" by fastforce
  have k: "?k \<noteq> []" by (simp add: NONCE_KEY_PREFIX_def)
  have run: "consume_nonce A c w = (case rb of Ok b \<Rightarrow>
       (if \<not> b then Err (Rejected CHECK_NONCE ''nonce is missing, expired, or already used'') else Ok ())
     | Err e \<Rightarrow> Err (BindStore e) | Panic p \<Rightarrow> Panic p, w\<lparr>w_ticks := Suc (w_ticks w), w_sessions := s\<rparr>)"
    using Some assms(1) t
    by (simp add: consume_nonce_def Let_def on_sessions_def and_then_def split: outcome.splits)
  show ?thesis using take_law [OF assms(2) k t] run assms(3) Some
    by (auto simp: failed_clean_def same_families_def split: outcome.splits if_splits)
qed

lemma claim_marker_run:
  assumes "session_repo A = P" "inv (w_sessions w)" "claim_assertion_marker A c x t w = (r, w')"
  shows "inv (w_sessions w') \<and> same_families (absf (w_sessions w)) (absf (w_sessions w'))
    \<and> (r = Ok () \<longrightarrow> \<not> single_live (w_clock w (w_ticks w)) (assertion_marker_key (lib A) x c) (absf (w_sessions w))
        \<and> absf (w_sessions w') = (absf (w_sessions w))\<lparr>single := (single (absf (w_sessions w)))
             (assertion_marker_key (lib A) x c \<mapsto> t)\<rparr>)"
proof -
  let ?k = "assertion_marker_key (lib A) x c"
  obtain rb s where t: "put_single_use P (w_clock w (w_ticks w)) ?k t (w_sessions w) = (rb, s)" by fastforce
  have run: "claim_assertion_marker A c x t w = (case rb of Ok b \<Rightarrow>
       (if \<not> b then Err (Rejected CHECK_SINGLE_USE ''assertion has already been used'') else Ok ())
     | Err e \<Rightarrow> Err (BindStore e) | Panic p \<Rightarrow> Panic p, w\<lparr>w_ticks := Suc (w_ticks w), w_sessions := s\<rparr>)"
    using assms(1) t
    by (simp add: claim_assertion_marker_def Let_def on_sessions_def and_then_def split: outcome.splits)
  show ?thesis using put_law [OF assms(2) _ t] run assms(3)
    by (auto simp: failed_clean_def same_families_def split: outcome.splits if_splits)
qed

lemma bind_run:
  assumes P: "session_repo A = P" and i: "inv (w_sessions w)" and b: "bind A c x w = (r, w')"
  shows "inv (w_sessions w') \<and> same_families (absf (w_sessions w)) (absf (w_sessions w'))"
proof -
  have refl: "\<And>a. same_families a a" and trans: "\<And>a b c. same_families a b \<Longrightarrow> same_families b c \<Longrightarrow> same_families a c"
    by (auto simp: same_families_def)
  have "keeps (\<lambda>w w'. inv (w_sessions w) \<longrightarrow> inv (w_sessions w') \<and> same_families (absf (w_sessions w)) (absf (w_sessions w'))) (bind A c x)"
    (is "keeps ?R _")
  proof -
    have pre: "preorderp ?R" by (rule preorderpI) (auto intro: refl trans)
    have "keeps ?R (consume_nonce A c)" "\<And>t. keeps ?R (claim_assertion_marker A c x t)" "keeps ?R utc_now"
      by (auto intro!: keepsI dest: consume_nonce_run [OF P] claim_marker_run [OF P] simp: refl)
    then show ?thesis unfolding bind_def by (intro keeps_rules pre)
  qed
  from keepsD [OF this b] i show ?thesis by simp
qed

text \<open>What a successful binding has checked, and the marker it leaves.\<close>

lemma bind_Ok:
  assumes P: "session_repo A = P" and i: "inv (w_sessions w)" and b: "bind A c x w = (Ok (), w')"
  obtains t where "check_lifetime (lib A) c (w_clock w (w_ticks w)) (ax_max_assertion_secs x) = Ok t"
    "check_azp c x = Ok ()" "check_at_hash (lib A) c x = Ok ()"
    "ax_require_nonce x \<Longrightarrow> \<exists>n. nonempty (str_claim c ''nonce'') = Some n \<and>
       single_live (w_clock w (Suc (w_ticks w))) (NONCE_KEY_PREFIX @ sha256_hex (lib A) n) (absf (w_sessions w))
       \<and> single (absf (w_sessions w')) (NONCE_KEY_PREFIX @ sha256_hex (lib A) n) = None"
    "single (absf (w_sessions w')) (assertion_marker_key (lib A) x c) = Some t"
    "\<exists>n \<ge> w_ticks w. \<not> single_live (w_clock w n) (assertion_marker_key (lib A) x c) (absf (w_sessions w))"
proof -
  let ?w = "w\<lparr>w_ticks := Suc (w_ticks w)\<rparr>" and ?k = "assertion_marker_key (lib A) x c"
  from b obtain t v where chk: "check_lifetime (lib A) c (w_clock w (w_ticks w)) (ax_max_assertion_secs x) = Ok t"
      "check_azp c x = Ok ()" "check_at_hash (lib A) c x = Ok ()"
    and n: "(if ax_require_nonce x then consume_nonce A c else ret ()) ?w = (Ok (), v)"
    and m: "claim_assertion_marker A c x t v = (Ok (), w')"
    unfolding bind_def by (auto elim!: bindq_okE seqq_okE)
  have v: "inv (w_sessions v)" "w_clock v = w_clock w" "w_ticks w \<le> w_ticks v"
    and nk: "ax_require_nonce x \<Longrightarrow> \<exists>n. nonempty (str_claim c ''nonce'') = Some n
      \<and> single_live (w_clock w (Suc (w_ticks w))) (NONCE_KEY_PREFIX @ sha256_hex (lib A) n) (absf (w_sessions w))
      \<and> absf (w_sessions v) = (absf (w_sessions w))\<lparr>single := (single (absf (w_sessions w)))
             (NONCE_KEY_PREFIX @ sha256_hex (lib A) n := None)\<rparr>"
    and nn: "\<not> ax_require_nonce x \<Longrightarrow> absf (w_sessions v) = absf (w_sessions w)"
    using n i consume_nonce_run [OF P, of ?w c "Ok ()" v] consume_nonce_clock [of A c ?w]
    by (auto split: if_splits)
  note M = claim_marker_run [OF P v(1) m]
  show thesis
  proof (rule that [OF chk])
    assume "ax_require_nonce x"
    from nk [OF this] M show "\<exists>n. nonempty (str_claim c ''nonce'') = Some n \<and>
       single_live (w_clock w (Suc (w_ticks w))) (NONCE_KEY_PREFIX @ sha256_hex (lib A) n) (absf (w_sessions w))
       \<and> single (absf (w_sessions w')) (NONCE_KEY_PREFIX @ sha256_hex (lib A) n) = None"
      by (auto simp: marker_not_nonce)
  next
    show "single (absf (w_sessions w')) ?k = Some t" using M by simp
  next
    have "single (absf (w_sessions v)) ?k = single (absf (w_sessions w)) ?k"
      using nk nn by (cases "ax_require_nonce x") (auto simp: marker_not_nonce marker_not_nonce [symmetric])
    then show "\<exists>n \<ge> w_ticks w. \<not> single_live (w_clock w n) ?k (absf (w_sessions w))"
      using M v by (auto simp: single_live_def)
  qed
qed

lemma replay_refused:
  assumes "session_repo A = P" "inv (w_sessions v)"
    and "single (absf (w_sessions v)) (assertion_marker_key (lib A) x c) = Some t"
    and "\<And>n. w_ticks v \<le> n \<Longrightarrow> w_clock v n < t"
  shows "fst (bind A c x v) \<noteq> Ok ()"
proof
  assume "fst (bind A c x v) = Ok ()"
  then have "bind A c x v = (Ok (), snd (bind A c x v))" by (metis prod.collapse)
  from bind_Ok [OF assms(1,2) this] assms(3,4) show False by (auto simp: single_live_def)
qed

end

end
