(* ===== verification/Lmdb_Store.thy ===== *)
theory Lmdb_Store
  imports Session_Port
begin

text \<open>
  The LMDB session adapter (\<open>crates/adapters/src/lmdb/mod.rs\<close>). The \<open>heed\<close> crate is a record of
  key-value operations on a database handle of any type, with a fault for each of its calls; the
  JSON and RFC 3339 encodings are a record of functions. A transaction works on a copy of the
  committed databases, which a successful commit installs; dropping it leaves them alone. A panic
  inside the blocking closure reaches the caller as the store error of the failed join.
\<close>

section \<open>Third-party parts\<close>

datatype heed_error = MapFull | OtherHeed string

datatype db_name = Sessions | User_Sessions | Retired_Tokens | Family_Index | Single_Use

record 'd heed =
  kv_get :: "'d \<Rightarrow> string \<Rightarrow> string option"
  kv_put :: "'d \<Rightarrow> string \<Rightarrow> string \<Rightarrow> 'd"
  kv_delete :: "'d \<Rightarrow> string \<Rightarrow> bool \<times> 'd"
  kv_iter :: "'d \<Rightarrow> (string \<times> string) list"
  kv_prefix_iter :: "'d \<Rightarrow> string \<Rightarrow> (string \<times> string) list"
  kv_fault :: "nat \<Rightarrow> heed_error option"
  heed_display :: "heed_error \<Rightarrow> string"

record lmdb_codec =
  enc_session :: "session \<Rightarrow> string option"
  dec_session :: "string \<Rightarrow> session option"
  enc_retired :: "retired_refresh_token \<Rightarrow> string option"
  dec_retired :: "string \<Rightarrow> retired_refresh_token option"
  enc_time :: "instant \<Rightarrow> string"
  dec_time :: "string \<Rightarrow> instant option"

record 'd lmdb_env =
  heed :: "'d heed"
  codec :: lmdb_codec
  clib :: lib
  reuse_retention_secs :: u64

text \<open>
  What the adapter relies on: a database is a finite map in key order, deletion reports whether
  the key was there, and the encodings are inverted by their decoders.
\<close>

definition heed_ok :: "'d heed \<Rightarrow> bool" where
  "heed_ok H \<longleftrightarrow> (\<forall>d k v k'. kv_get H (kv_put H d k v) k' = (if k' = k then Some v else kv_get H d k'))
     \<and> (\<forall>d k. fst (kv_delete H d k) = (kv_get H d k \<noteq> None))
     \<and> (\<forall>d k k'. kv_get H (snd (kv_delete H d k)) k' = (if k' = k then None else kv_get H d k'))
     \<and> (\<forall>d. distinct (map fst (kv_iter H d)) \<and> (\<forall>k v. (k, v) \<in> set (kv_iter H d) \<longleftrightarrow> kv_get H d k = Some v))
     \<and> (\<forall>d p. kv_prefix_iter H d p = filter (\<lambda>(k, _). prefix p k) (kv_iter H d))"

definition lcodec_ok :: "lmdb_codec \<Rightarrow> bool" where
  "lcodec_ok C \<longleftrightarrow> (\<forall>x b. enc_session C x = Some b \<longrightarrow> dec_session C b = Some x)
     \<and> (\<forall>x b. enc_retired C x = Some b \<longrightarrow> dec_retired C b = Some x) \<and> (\<forall>t. dec_time C (enc_time C t) = Some t)"

definition lmdb_env_ok :: "'d lmdb_env \<Rightarrow> bool" where
  "lmdb_env_ok E \<longleftrightarrow> heed_ok (heed E) \<and> lcodec_ok (codec E) \<and> chrono_ok (clib E)"

section \<open>Transactions\<close>

record 'd lmdb =
  committed :: "db_name \<Rightarrow> 'd"
  working :: "db_name \<Rightarrow> 'd"
  heed_calls :: nat

type_synonym ('d, 'a) raw = "('d lmdb, heed_error, 'a) prog"
type_synonym ('d, 'a) txn = "('d lmdb, error, 'a) prog"

definition heed_call :: "'d lmdb_env \<Rightarrow> ('d, unit) raw" where
  "heed_call E s = (case kv_fault (heed E) (heed_calls s) of None \<Rightarrow> Ok () | Some e \<Rightarrow> Err e,
     s\<lparr>heed_calls := Suc (heed_calls s)\<rparr>)"

definition begin_txn :: "'d lmdb_env \<Rightarrow> ('d, unit) raw" where
  "begin_txn E = seqq (heed_call E) (writes (\<lambda>s. s\<lparr>working := committed s\<rparr>))"

definition commit_txn :: "'d lmdb_env \<Rightarrow> ('d, unit) raw" where
  "commit_txn E = seqq (heed_call E) (writes (\<lambda>s. s\<lparr>committed := working s\<rparr>))"

definition h_get :: "'d lmdb_env \<Rightarrow> db_name \<Rightarrow> string \<Rightarrow> ('d, string option) raw" where
  "h_get E n k = seqq (heed_call E) (reads (\<lambda>s. kv_get (heed E) (working s n) k))"

definition h_put :: "'d lmdb_env \<Rightarrow> db_name \<Rightarrow> string \<Rightarrow> string \<Rightarrow> ('d, unit) raw" where
  "h_put E n k v = seqq (heed_call E) (writes (\<lambda>s. s\<lparr>working := (working s)(n := kv_put (heed E) (working s n) k v)\<rparr>))"

definition h_delete :: "'d lmdb_env \<Rightarrow> db_name \<Rightarrow> string \<Rightarrow> ('d, bool) raw" where
  "h_delete E n k = seqq (heed_call E) (bindq (reads (\<lambda>s. fst (kv_delete (heed E) (working s n) k)))
     (\<lambda>existed. seqq (writes (\<lambda>s. s\<lparr>working := (working s)(n := snd (kv_delete (heed E) (working s n) k))\<rparr>)) (ret existed)))"

definition h_iter :: "'d lmdb_env \<Rightarrow> db_name \<Rightarrow> ('d, (string \<times> string) list) raw" where
  "h_iter E n = seqq (heed_call E) (reads (\<lambda>s. kv_iter (heed E) (working s n)))"

definition h_prefix_iter :: "'d lmdb_env \<Rightarrow> db_name \<Rightarrow> string \<Rightarrow> ('d, (string \<times> string) list) raw" where
  "h_prefix_iter E n p = seqq (heed_call E) (reads (\<lambda>s. kv_prefix_iter (heed E) (working s n) p))"

text \<open>\<open>map_err(Dbs::store_err)\<close>, and the conversion of a \<open>None\<close> into an error.\<close>

definition store_err :: "'d lmdb_env \<Rightarrow> ('d, 'a) raw \<Rightarrow> ('d, 'a) txn" where
  "store_err E m = and_then m ret (\<lambda>e. throw (StoreError (heed_display (heed E) e)))"

definition ok_or :: "'a option \<Rightarrow> string \<Rightarrow> ('d, 'a) txn" where
  "ok_or x msg = (case x of None \<Rightarrow> throw (StoreError msg) | Some y \<Rightarrow> ret y)"

text \<open>A loop over an iterator: each step, and the end, is a call that can fail.\<close>

primrec for_items :: "'d lmdb_env \<Rightarrow> 'i list \<Rightarrow> ('i \<Rightarrow> 'acc \<Rightarrow> ('d, 'acc) txn) \<Rightarrow> 'acc \<Rightarrow> ('d, 'acc) txn" where
  "for_items E [] f acc = seqq (store_err E (heed_call E)) (ret acc)"
| "for_items E (x # xs) f acc = seqq (store_err E (heed_call E)) (bindq (f x acc) (for_items E xs f))"

text \<open>A plain loop over a collected vector.\<close>

primrec for_each :: "'i list \<Rightarrow> ('i \<Rightarrow> 'acc \<Rightarrow> ('d, 'acc) txn) \<Rightarrow> 'acc \<Rightarrow> ('d, 'acc) txn" where
  "for_each [] f acc = ret acc"
| "for_each (x # xs) f acc = bindq (f x acc) (for_each xs f)"

text \<open>\<open>spawn_blocking(closure).await\<close>: the join error of a panicked closure is a store error.\<close>

definition spawn_blocking :: "('d, 'a) txn \<Rightarrow> ('d, 'a) txn" where
  "spawn_blocking m s = (case m s of
       (Panic p, s') \<Rightarrow> (Err (StoreError (''task panicked: '' @ p)), s')
     | (Err e, s') \<Rightarrow> (Err e, s')
     | (Ok x, s') \<Rightarrow> (Ok x, s'))"

section \<open>Entries\<close>

definition LMDB_CLEANUP_BATCH_SIZE :: nat where "LMDB_CLEANUP_BATCH_SIZE = 256"
definition CLEANUP_MAX_BATCH_HALVINGS :: nat where "CLEANUP_MAX_BATCH_HALVINGS = 8"
definition FAMILY_INDEX_KIND_LIVE :: string where "FAMILY_INDEX_KIND_LIVE = ''live''"
definition FAMILY_INDEX_KIND_RETIRED :: string where "FAMILY_INDEX_KIND_RETIRED = ''retired''"

datatype expired_entry = ExpLive session | ExpRetired retired_refresh_token

definition user_session_key :: "string \<Rightarrow> string \<Rightarrow> string" where
  "user_session_key user_id token_hash = user_id @ '':'' @ token_hash"

definition family_index_key :: "string \<Rightarrow> string \<Rightarrow> string" where
  "family_index_key family_id token_hash = family_id @ [CHR 0x00] @ token_hash"

definition remove_live_entry_raw :: "'d lmdb_env \<Rightarrow> string \<Rightarrow> session \<Rightarrow> ('d, bool) raw" where
  "remove_live_entry_raw E token_hash x =
     bindq (h_delete E Sessions token_hash) (\<lambda>existed.
     bindq (h_delete E User_Sessions (user_session_key (s_user_id x) token_hash)) (\<lambda>_.
     bindq (if s_family_id x \<noteq> [] then h_delete E Family_Index (family_index_key (s_family_id x) token_hash) else ret True) (\<lambda>_.
     ret existed)))"

definition remove_retired_entry_raw :: "'d lmdb_env \<Rightarrow> retired_refresh_token \<Rightarrow> ('d, bool) raw" where
  "remove_retired_entry_raw E r =
     bindq (h_delete E Retired_Tokens (r_hash r)) (\<lambda>existed.
     bindq (h_delete E Family_Index (family_index_key (r_family_id r) (r_hash r))) (\<lambda>_. ret existed))"

definition remove_live_entry :: "'d lmdb_env \<Rightarrow> string \<Rightarrow> session \<Rightarrow> ('d, bool) txn" where
  "remove_live_entry E token_hash x = store_err E (remove_live_entry_raw E token_hash x)"

definition remove_retired_entry :: "'d lmdb_env \<Rightarrow> retired_refresh_token \<Rightarrow> ('d, bool) txn" where
  "remove_retired_entry E r = store_err E (remove_retired_entry_raw E r)"

definition install_live_entry :: "'d lmdb_env \<Rightarrow> session \<Rightarrow> ('d, unit) txn" where
  "install_live_entry E x =
     bindq (ok_or (enc_session (codec E) x) ''serialization failed'') (\<lambda>json.
     seqq (store_err E (h_put E Sessions (s_hash x) json))
     (seqq (store_err E (h_put E User_Sessions (user_session_key (s_user_id x) (s_hash x)) []))
     (if s_family_id x \<noteq> [] then store_err E (h_put E Family_Index (family_index_key (s_family_id x) (s_hash x)) FAMILY_INDEX_KIND_LIVE)
      else ret ())))"

definition retirement_record :: "'d lmdb_env \<Rightarrow> string \<Rightarrow> session \<Rightarrow> session \<Rightarrow> instant \<Rightarrow> retired_refresh_token result" where
  "retirement_record E live_hash l replacement now =
     (if s_hash l \<noteq> live_hash then Panic ''retirement record must name the presented hash''
      else if \<not> is_valid_family_id (s_family_id l) then Panic ''a legacy row must not produce a retirement record''
      else case retention_deadline (clib E) now (reuse_retention_secs E) (s_expires_at replacement) of
             Ok d \<Rightarrow> Ok \<lparr>r_hash = live_hash, r_family_id = s_family_id l, r_user_id = s_user_id l,
                       r_successor_hash = s_hash replacement, r_retired_at = now, r_expires_at = d\<rparr>
           | Err e \<Rightarrow> Err e | Panic p \<Rightarrow> Panic p)"

section \<open>The port operations\<close>

definition lmdb_store_refresh_token :: "'d lmdb_env \<Rightarrow> session \<Rightarrow> ('d, unit) txn" where
  "lmdb_store_refresh_token E x =
     seqq (assert_that (s_family_id x = [] \<or> is_valid_family_id (s_family_id x)) ''store_refresh_token: malformed family id'')
     (seqq (assert_that (s_hash x \<noteq> []) ''store_refresh_token: refresh_token_hash must not be empty'')
     (spawn_blocking
       (bindq (ok_or (enc_session (codec E) x) ''serialization failed'') (\<lambda>json.
        seqq (store_err E (begin_txn E))
        (seqq (store_err E (h_put E Sessions (s_hash x) json))
        (seqq (store_err E (h_put E User_Sessions (user_session_key (s_user_id x) (s_hash x)) []))
        (seqq (if s_family_id x \<noteq> [] then store_err E (h_put E Family_Index (family_index_key (s_family_id x) (s_hash x)) FAMILY_INDEX_KIND_LIVE)
               else ret ())
        (store_err E (commit_txn E)))))))))"

definition decode_session :: "'d lmdb_env \<Rightarrow> string \<Rightarrow> ('d, session) txn" where
  "decode_session E b = ok_or (dec_session (codec E) b) ''malformed session record''"

definition decode_retired :: "'d lmdb_env \<Rightarrow> string \<Rightarrow> ('d, retired_refresh_token) txn" where
  "decode_retired E b = ok_or (dec_retired (codec E) b) ''malformed retirement record''"

definition lmdb_get_session :: "'d lmdb_env \<Rightarrow> string \<Rightarrow> ('d, session option) txn" where
  "lmdb_get_session E token_hash = spawn_blocking
     (seqq (store_err E (begin_txn E))
     (bindq (store_err E (h_get E Sessions token_hash)) (\<lambda>maybe_bytes.
      case maybe_bytes of
        Some b \<Rightarrow> bindq (decode_session E b) (\<lambda>x. ret (Some x))
      | None \<Rightarrow> ret None)))"

definition lmdb_resolve :: "'d lmdb_env \<Rightarrow> instant \<Rightarrow> string \<Rightarrow> ('d, refresh_resolution) txn" where
  "lmdb_resolve E now token_hash =
     seqq (assert_that (token_hash \<noteq> []) ''resolve_refresh_token: token_hash must not be empty'')
     (spawn_blocking
       (seqq (store_err E (begin_txn E))
       (bindq (store_err E (h_get E Sessions token_hash)) (\<lambda>lb.
        case lb of
          Some b \<Rightarrow> bindq (decode_session E b) (\<lambda>x. ret (Live x))
        | None \<Rightarrow>
            bindq (store_err E (h_get E Retired_Tokens token_hash)) (\<lambda>rb.
            case rb of
              None \<Rightarrow> ret Unknown
            | Some b \<Rightarrow>
                bindq (decode_retired E b) (\<lambda>r.
                if r_expires_at r \<le> now then ret Unknown
                else bindq (store_err E (h_get E Sessions (r_successor_hash r))) (\<lambda>sb.
                  case sb of
                    Some b' \<Rightarrow>
                      bindq (decode_session E b') (\<lambda>successor.
                      seqq (assert_that (s_family_id successor = r_family_id r) ''store corruption: successor family mismatch'')
                      (ret (Superseded successor (r_retired_at r))))
                  | None \<Rightarrow> ret (Retired (r_family_id r) (r_user_id r) (r_retired_at r)))))))))"

definition lmdb_rotate :: "'d lmdb_env \<Rightarrow> instant \<Rightarrow> string \<Rightarrow> session \<Rightarrow> ('d, bool) txn" where
  "lmdb_rotate E now live_hash new =
     seqq (assert_that (is_valid_family_id (s_family_id new)) ''rotate_refresh_token: malformed replacement family id'')
     (seqq (assert_that (live_hash \<noteq> s_hash new) ''rotate_refresh_token: replacement must be a fresh generation'')
     (spawn_blocking
       (seqq (store_err E (begin_txn E))
       (bindq (store_err E (h_get E Sessions live_hash)) (\<lambda>lb.
        case lb of
          None \<Rightarrow> ret False
        | Some b \<Rightarrow>
            bindq (decode_session E b) (\<lambda>l.
            seqq (assert_that (s_family_id l = [] \<or> s_family_id l = s_family_id new) ''rotate_refresh_token: family mismatch between live and replacement'')
            (seqq (assert_that (s_user_id l = s_user_id new) ''rotate_refresh_token: user mismatch between live and replacement'')
            (bindq (store_err E (h_get E Sessions (s_hash new))) (\<lambda>dup.
            seqq (assert_that (dup = None) ''rotate_refresh_token: replacement hash already exists as a live session'')
            (bindq (store_err E (h_get E Retired_Tokens (s_hash new))) (\<lambda>dup'.
            seqq (assert_that (dup' = None) ''rotate_refresh_token: replacement hash already exists as a retired record'')
            (bindq (remove_live_entry E live_hash l) (\<lambda>_.
            seqq (if s_family_id l \<noteq> [] then
                    bindq (from_outcome (retirement_record E live_hash l new now)) (\<lambda>r.
                    bindq (ok_or (enc_retired (codec E) r) ''serialization failed'') (\<lambda>json.
                    seqq (store_err E (h_put E Retired_Tokens (r_hash r) json))
                    (store_err E (h_put E Family_Index (family_index_key (r_family_id r) (r_hash r)) FAMILY_INDEX_KIND_RETIRED))))
                  else ret ())
            (seqq (install_live_entry E new)
            (seqq (store_err E (commit_txn E))
            (ret True))))))))))))))))"

definition lmdb_revoke_session :: "'d lmdb_env \<Rightarrow> string \<Rightarrow> ('d, unit) txn" where
  "lmdb_revoke_session E token_hash =
     seqq (assert_that (token_hash \<noteq> []) ''revoke_session: token_hash must not be empty'')
     (spawn_blocking
       (seqq (store_err E (begin_txn E))
       (bindq (store_err E (h_get E Sessions token_hash)) (\<lambda>lb.
        case lb of
          None \<Rightarrow> ret ()
        | Some b \<Rightarrow>
            bindq (decode_session E b) (\<lambda>x.
            bindq (remove_live_entry E token_hash x) (\<lambda>_.
            store_err E (commit_txn E)))))))"

text \<open>\<open>revoke_family_wtxn\<close>: enumerate the index, then remove every live and retired entry.\<close>

definition split_index_entry :: "string \<Rightarrow> string \<times> string \<Rightarrow> string list \<times> string list \<Rightarrow> ('d, string list \<times> string list) txn" where
  "split_index_entry p kv acc =
     (case strip_prefix p (fst kv) of
        None \<Rightarrow> panic ''prefix_iter keys carry the prefix''
      | Some token_hash \<Rightarrow>
          if snd kv = FAMILY_INDEX_KIND_LIVE then ret (fst acc @ [token_hash], snd acc)
          else seqq (assert_that (snd kv = FAMILY_INDEX_KIND_RETIRED) ''unknown family_index kind'')
                 (ret (fst acc, snd acc @ [token_hash])))"

definition revoke_live_hash :: "'d lmdb_env \<Rightarrow> string \<Rightarrow> string \<Rightarrow> u64 \<Rightarrow> ('d, u64) txn" where
  "revoke_live_hash E family_id token_hash removed =
     bindq (store_err E (h_get E Sessions token_hash)) (\<lambda>lb.
     bindq (ok_or lb (''family_index names live session '' @ token_hash @ '' but none is stored'')) (\<lambda>b.
     bindq (decode_session E b) (\<lambda>x.
     seqq (assert_that (s_family_id x = family_id) ''family_index entry must agree with the stored session's family'')
     (bindq (remove_live_entry E token_hash x) (\<lambda>_. ret (removed + 1))))))"

definition revoke_retired_hash :: "'d lmdb_env \<Rightarrow> string \<Rightarrow> string \<Rightarrow> u64 \<Rightarrow> ('d, u64) txn" where
  "revoke_retired_hash E family_id token_hash removed =
     bindq (store_err E (h_get E Retired_Tokens token_hash)) (\<lambda>rb.
     bindq (ok_or rb (''family_index names retired record '' @ token_hash @ '' but none is stored'')) (\<lambda>b.
     bindq (decode_retired E b) (\<lambda>r.
     seqq (assert_that (r_family_id r = family_id) ''family_index entry must agree with the stored record's family'')
     (bindq (remove_retired_entry E r) (\<lambda>_. ret (removed + 1))))))"

definition revoke_family_wtxn :: "'d lmdb_env \<Rightarrow> string \<Rightarrow> ('d, u64) txn" where
  "revoke_family_wtxn E family_id =
     (let p = family_id @ [CHR 0x00] in
      bindq (store_err E (h_prefix_iter E Family_Index p)) (\<lambda>items.
      bindq (for_items E items (split_index_entry p) ([], [])) (\<lambda>(live_hashes, retired_hashes).
      bindq (for_each live_hashes (revoke_live_hash E family_id) 0) (\<lambda>removed.
      for_each retired_hashes (revoke_retired_hash E family_id) removed))))"

definition lmdb_revoke_family :: "'d lmdb_env \<Rightarrow> string \<Rightarrow> ('d, u64) txn" where
  "lmdb_revoke_family E family_id =
     seqq (assert_that (is_valid_family_id family_id) ''revoke_family: malformed family id'')
     (spawn_blocking
       (seqq (store_err E (begin_txn E))
       (bindq (revoke_family_wtxn E family_id) (\<lambda>removed.
        seqq (store_err E (commit_txn E)) (ret removed)))))"

definition list_index_entry ::
  "'d lmdb_env \<Rightarrow> string \<Rightarrow> instant \<Rightarrow> string \<Rightarrow> string \<times> string \<Rightarrow> session list \<Rightarrow> ('d, session list) txn" where
  "list_index_entry E user_id now p kv acc = (case strip_prefix p (fst kv) of
       None \<Rightarrow> panic ''prefix_iter keys carry the prefix''
     | Some token_hash \<Rightarrow>
         bindq (store_err E (h_get E Sessions token_hash)) (\<lambda>lb.
         case lb of
           None \<Rightarrow> ret acc
         | Some b \<Rightarrow>
             bindq (decode_session E b) (\<lambda>x.
             ret (if s_user_id x = user_id \<and> s_expires_at x > now then acc @ [x] else acc))))"

definition lmdb_list_live_sessions :: "'d lmdb_env \<Rightarrow> string \<Rightarrow> instant \<Rightarrow> nat \<Rightarrow> ('d, session list) txn" where
  "lmdb_list_live_sessions E user_id now limit = spawn_blocking
     (seqq (store_err E (begin_txn E))
     (bindq (store_err E (h_prefix_iter E User_Sessions (user_id @ '':''))) (\<lambda>items.
      bindq (for_items E items (list_index_entry E user_id now (user_id @ '':'')) []) (\<lambda>found.
      ret (take limit (sort_key (\<lambda>x. - s_created_at x) found))))))"

definition lmdb_count_active_sessions :: "'d lmdb_env \<Rightarrow> instant \<Rightarrow> ('d, u64) txn" where
  "lmdb_count_active_sessions E now = spawn_blocking
     (seqq (store_err E (begin_txn E))
     (bindq (store_err E (h_iter E Sessions)) (\<lambda>items.
      for_items E items (\<lambda>kv count. ret (case dec_session (codec E) (snd kv) of
          Some x \<Rightarrow> if s_expires_at x > now then count + 1 else count
        | None \<Rightarrow> count)) 0)))"

subsection \<open>The sweep\<close>

definition collect_live :: "'d lmdb_env \<Rightarrow> instant \<Rightarrow> string \<times> string \<Rightarrow> expired_entry list \<Rightarrow> ('d, expired_entry list) txn" where
  "collect_live E now kv acc = ret (case dec_session (codec E) (snd kv) of
       Some x \<Rightarrow> if s_expires_at x \<le> now then acc @ [ExpLive x] else acc
     | None \<Rightarrow> acc)"

definition collect_retired :: "'d lmdb_env \<Rightarrow> instant \<Rightarrow> string \<times> string \<Rightarrow> expired_entry list \<Rightarrow> ('d, expired_entry list) txn" where
  "collect_retired E now kv acc = ret (case dec_retired (codec E) (snd kv) of
       Some r \<Rightarrow> if r_expires_at r \<le> now then acc @ [ExpRetired r] else acc
     | None \<Rightarrow> acc)"

definition delete_expired :: "'d lmdb_env \<Rightarrow> expired_entry \<Rightarrow> ('d, bool) raw" where
  "delete_expired E e = (case e of
       ExpLive x \<Rightarrow> remove_live_entry_raw E (s_hash x) x
     | ExpRetired r \<Rightarrow> remove_retired_entry_raw E r)"

primrec delete_all :: "'d lmdb_env \<Rightarrow> expired_entry list \<Rightarrow> u64 \<Rightarrow> ('d, u64) raw" where
  "delete_all E [] removed = ret removed"
| "delete_all E (e # es) removed = bindq (delete_expired E e) (\<lambda>existed. delete_all E es (removed + of_bool existed))"

definition commit_deletion_batch :: "'d lmdb_env \<Rightarrow> expired_entry list \<Rightarrow> ('d, u64) raw" where
  "commit_deletion_batch E batch =
     seqq (begin_txn E) (bindq (delete_all E batch 0) (\<lambda>removed. seqq (commit_txn E) (ret removed)))"

text \<open>
  The inner loop: a batch that does not fit is retried at half width, at most \<open>n\<close> more times. It
  answers what was removed and the width that committed.
\<close>

primrec sweep_batch :: "'d lmdb_env \<Rightarrow> nat \<Rightarrow> expired_entry list \<Rightarrow> nat \<Rightarrow> ('d, u64 \<times> nat) txn" where
  "sweep_batch E 0 rest width = and_then (commit_deletion_batch E (take width rest)) (\<lambda>removed. ret (removed, width))
     (\<lambda>err. throw (StoreError (heed_display (heed E) err)))"
| "sweep_batch E (Suc n) rest width = and_then (commit_deletion_batch E (take width rest)) (\<lambda>removed. ret (removed, width))
     (\<lambda>err. if err = MapFull \<and> width > 1 then sweep_batch E n rest (max (width div 2) 1)
            else throw (StoreError (heed_display (heed E) err)))"

lemma sweep_batch_width:
  "0 < width \<Longrightarrow> sweep_batch E n rest width s = (Ok (removed, width'), s') \<Longrightarrow> 0 < width' \<and> width' \<le> width"
proof (induction n arbitrary: width s)
  case 0
  then show ?case by (auto elim!: and_then_cases)
next
  case (Suc n)
  from Suc.prems(2) [unfolded sweep_batch.simps] show ?case
  proof (cases rule: and_then_cases)
    case (err e w)
    then have "sweep_batch E n rest (max (width div 2) 1) w = (Ok (removed, width'), s')" "1 < width"
      by (auto split: if_splits)
    with Suc.IH [of "max (width div 2) 1" w] show ?thesis by auto
  qed (use Suc.prems in auto)
qed

function sweep :: "'d lmdb_env \<Rightarrow> expired_entry list \<Rightarrow> u64 \<Rightarrow> 'd lmdb \<Rightarrow> u64 result \<times> 'd lmdb" where
  "sweep E rest deleted s =
     (if rest = [] then (Ok deleted, s)
      else case sweep_batch E CLEANUP_MAX_BATCH_HALVINGS rest (min LMDB_CLEANUP_BATCH_SIZE (length rest)) s of
             (Ok (removed, width), s') \<Rightarrow> sweep E (drop width rest) (deleted + removed) s'
           | (Err e, s') \<Rightarrow> (Err e, s')
           | (Panic p, s') \<Rightarrow> (Panic p, s'))"
  by pat_completeness auto
termination
  by (relation "measure (\<lambda>(E, rest, d, s). length rest)")
    (auto dest!: sweep_batch_width [rotated, OF sym] simp: LMDB_CLEANUP_BATCH_SIZE_def)
declare sweep.simps [simp del]

definition collect_single_use :: "'d lmdb_env \<Rightarrow> instant \<Rightarrow> string \<times> string \<Rightarrow> string list \<Rightarrow> ('d, string list) txn" where
  "collect_single_use E now kv acc = (case dec_time (codec E) (snd kv) of
       Some t \<Rightarrow> ret (if t \<le> now then acc @ [fst kv] else acc)
     | None \<Rightarrow> throw (StoreError ''single_use record has unparsable expiry (key withheld)''))"

definition lmdb_cleanup :: "'d lmdb_env \<Rightarrow> instant \<Rightarrow> ('d, u64) txn" where
  "lmdb_cleanup E now = spawn_blocking
     (seqq (store_err E (begin_txn E))
     (bindq (store_err E (h_iter E Sessions)) (\<lambda>items.
      bindq (for_items E items (collect_live E now) []) (\<lambda>exp1.
      bindq (store_err E (h_iter E Retired_Tokens)) (\<lambda>items'.
      bindq (for_items E items' (collect_retired E now) exp1) (\<lambda>expired.
      bindq (sweep E expired 0) (\<lambda>deleted.
      seqq (store_err E (begin_txn E))
      (bindq (store_err E (h_iter E Single_Use)) (\<lambda>singles.
      bindq (for_items E singles (collect_single_use E now) []) (\<lambda>keys.
      if keys = [] then ret deleted
      else
        seqq (store_err E (begin_txn E))
        (bindq (for_each keys (\<lambda>k _. store_err E (h_delete E Single_Use k)) True) (\<lambda>_.
         seqq (store_err E (commit_txn E)) (ret (deleted + of_nat (length keys)))))))))))))))"

subsection \<open>Revoking a user, and single-use records\<close>

definition collect_user_entry ::
  "'d lmdb_env \<Rightarrow> string \<Rightarrow> string \<Rightarrow> string \<times> string \<Rightarrow> (string \<times> session) list \<Rightarrow> ('d, (string \<times> session) list) txn" where
  "collect_user_entry E user_id p kv acc = (case strip_prefix p (fst kv) of
       None \<Rightarrow> panic ''prefix_iter keys carry the prefix''
     | Some token_hash \<Rightarrow>
         bindq (store_err E (h_get E Sessions token_hash)) (\<lambda>lb.
         bindq (ok_or lb (''user_sessions names live session '' @ token_hash @ '' but none is stored'')) (\<lambda>b.
         bindq (decode_session E b) (\<lambda>x.
         seqq (assert_that (s_user_id x = user_id) ''user_sessions entry must agree with the stored session's owner'')
         (ret (acc @ [(token_hash, x)]))))))"

definition collect_user_retired ::
  "'d lmdb_env \<Rightarrow> string \<Rightarrow> string \<times> string \<Rightarrow> retired_refresh_token list \<Rightarrow> ('d, retired_refresh_token list) txn" where
  "collect_user_retired E user_id kv acc =
     bindq (decode_retired E (snd kv)) (\<lambda>r. ret (if r_user_id r = user_id then acc @ [r] else acc))"

definition lmdb_revoke_all_user_sessions :: "'d lmdb_env \<Rightarrow> string \<Rightarrow> ('d, u64) txn" where
  "lmdb_revoke_all_user_sessions E user_id =
     seqq (assert_that (user_id \<noteq> []) ''revoke_all_user_sessions: user_id must not be empty'')
     (spawn_blocking
       (seqq (store_err E (begin_txn E))
       (bindq (store_err E (h_prefix_iter E User_Sessions (user_id @ '':''))) (\<lambda>items.
        bindq (for_items E items (collect_user_entry E user_id (user_id @ '':'')) []) (\<lambda>lives.
        bindq (store_err E (h_iter E Retired_Tokens)) (\<lambda>items'.
        bindq (for_items E items' (collect_user_retired E user_id) []) (\<lambda>rets.
        bindq (for_each lives (\<lambda>(h, x) _. remove_live_entry E h x) True) (\<lambda>_.
        bindq (for_each rets (\<lambda>r _. remove_retired_entry E r) True) (\<lambda>_.
        seqq (store_err E (commit_txn E))
        (ret (of_nat (length lives))))))))))))"

definition lmdb_put_single_use :: "'d lmdb_env \<Rightarrow> instant \<Rightarrow> string \<Rightarrow> instant \<Rightarrow> ('d, bool) txn" where
  "lmdb_put_single_use E now key expires_at =
     seqq (assert_that (key \<noteq> []) ''single-use key must be non-empty'')
     (spawn_blocking
       (seqq (store_err E (begin_txn E))
       (bindq (store_err E (h_get E Single_Use key)) (\<lambda>existing.
        bindq (case existing of
                 None \<Rightarrow> ret False
               | Some b \<Rightarrow> bindq (ok_or (dec_time (codec E) b) ''single_use record has unparsable expiry'') (\<lambda>t. ret (t > now))) (\<lambda>held.
        if held then ret False
        else seqq (store_err E (h_put E Single_Use key (enc_time (codec E) expires_at)))
             (seqq (store_err E (commit_txn E)) (ret True)))))))"

definition lmdb_take_single_use :: "'d lmdb_env \<Rightarrow> instant \<Rightarrow> string \<Rightarrow> ('d, bool) txn" where
  "lmdb_take_single_use E now key =
     seqq (assert_that (key \<noteq> []) ''single-use key must be non-empty'')
     (spawn_blocking
       (seqq (store_err E (begin_txn E))
       (bindq (store_err E (h_get E Single_Use key)) (\<lambda>existing.
        bindq (case existing of
                 None \<Rightarrow> ret False
               | Some b \<Rightarrow> bindq (ok_or (dec_time (codec E) b) ''single_use record has unparsable expiry'') (\<lambda>t.
                   bindq (store_err E (h_delete E Single_Use key)) (\<lambda>_. ret (t > now)))) (\<lambda>was_live.
        seqq (store_err E (commit_txn E)) (ret was_live))))))"

definition lmdb_port :: "'d lmdb_env \<Rightarrow> 'd lmdb session_port" where
  "lmdb_port E = \<lparr>store_refresh_token = lmdb_store_refresh_token E,
     get_session_by_refresh_token = lmdb_get_session E, resolve_refresh_token = lmdb_resolve E,
     rotate_refresh_token = lmdb_rotate E, revoke_session = lmdb_revoke_session E,
     revoke_family = lmdb_revoke_family E, revoke_all_user_sessions = lmdb_revoke_all_user_sessions E,
     list_live_sessions = lmdb_list_live_sessions E, count_active_sessions = lmdb_count_active_sessions E,
     cleanup_expired_sessions = lmdb_cleanup E, put_single_use = lmdb_put_single_use E,
     take_single_use = lmdb_take_single_use E\<rparr>"

end
