(* ===== verification/Lmdb_View.thy ===== *)
theory Lmdb_View
  imports Lmdb_Store
begin

text \<open>
  The databases of the LMDB adapter as maps: what the adapter keeps true of its four session
  databases and the single-use database (\<open>okv\<close>), the families they stand for (\<open>absv\<close>), and the
  effect on both of removing and installing one entry with its index filings.
\<close>

type_synonym view = "db_name \<Rightarrow> string \<Rightarrow> string option"

definition live_at :: "lmdb_codec \<Rightarrow> view \<Rightarrow> string \<Rightarrow> session option" where
  "live_at C V h = Option.bind (V Sessions h) (dec_session C)"

definition retired_at :: "lmdb_codec \<Rightarrow> view \<Rightarrow> string \<Rightarrow> retired_refresh_token option" where
  "retired_at C V h = Option.bind (V Retired_Tokens h) (dec_retired C)"

definition absv :: "lmdb_codec \<Rightarrow> view \<Rightarrow> fam_store" where
  "absv C V = \<lparr>live = live_at C V, retired = retired_at C V, single = (\<lambda>k. Option.bind (V Single_Use k) (dec_time C))\<rparr>"

definition session_row_ok :: "view \<Rightarrow> string \<Rightarrow> session \<Rightarrow> bool" where
  "session_row_ok V h x \<longleftrightarrow> s_hash x = h \<and> h \<noteq> [] \<and> CHR '':'' \<notin> set (s_user_id x)
     \<and> (s_family_id x = [] \<or> is_valid_family_id (s_family_id x)) \<and> V Retired_Tokens h = None
     \<and> V User_Sessions (user_session_key (s_user_id x) h) \<noteq> None
     \<and> (s_family_id x \<noteq> [] \<longrightarrow> V Family_Index (family_index_key (s_family_id x) h) = Some FAMILY_INDEX_KIND_LIVE)"

definition retired_row_ok :: "view \<Rightarrow> string \<Rightarrow> retired_refresh_token \<Rightarrow> bool" where
  "retired_row_ok V h r \<longleftrightarrow> r_hash r = h \<and> is_valid_family_id (r_family_id r)
     \<and> V Family_Index (family_index_key (r_family_id r) h) = Some FAMILY_INDEX_KIND_RETIRED"

definition index_row_ok :: "lmdb_codec \<Rightarrow> view \<Rightarrow> string \<Rightarrow> string \<Rightarrow> bool" where
  "index_row_ok C V k v \<longleftrightarrow>
     (\<exists>h x. v = FAMILY_INDEX_KIND_LIVE \<and> live_at C V h = Some x \<and> s_family_id x \<noteq> [] \<and> k = family_index_key (s_family_id x) h)
   \<or> (\<exists>h r. v = FAMILY_INDEX_KIND_RETIRED \<and> retired_at C V h = Some r \<and> k = family_index_key (r_family_id r) h)"

definition okv :: "lmdb_codec \<Rightarrow> view \<Rightarrow> bool" where
  "okv C V \<longleftrightarrow> (\<forall>h b. V Sessions h = Some b \<longrightarrow> dec_session C b \<noteq> None)
     \<and> (\<forall>h b. V Retired_Tokens h = Some b \<longrightarrow> dec_retired C b \<noteq> None)
     \<and> (\<forall>k b. V Single_Use k = Some b \<longrightarrow> dec_time C b \<noteq> None)
     \<and> (\<forall>h x. live_at C V h = Some x \<longrightarrow> session_row_ok V h x)
     \<and> (\<forall>h r. retired_at C V h = Some r \<longrightarrow> retired_row_ok V h r)
     \<and> (\<forall>k v. V User_Sessions k = Some v \<longrightarrow> (\<exists>h x. live_at C V h = Some x \<and> k = user_session_key (s_user_id x) h))
     \<and> (\<forall>k v. V Family_Index k = Some v \<longrightarrow> index_row_ok C V k v)"

section \<open>Keys\<close>

lemma valid_family_length: "is_valid_family_id f \<Longrightarrow> length f = 30"
  by (auto simp: is_valid_family_id_def FAMILY_ID_PREFIX_def ULID_CHAR_LEN_def split: option.splits if_splits)

lemma family_index_key_inj:
  "is_valid_family_id f \<Longrightarrow> is_valid_family_id g \<Longrightarrow> family_index_key f h = family_index_key g k \<longleftrightarrow> f = g \<and> h = k"
  by (auto simp: family_index_key_def dest!: valid_family_length)

lemma family_index_key_prefix:
  assumes "is_valid_family_id f" "is_valid_family_id g"
  shows "prefix (f @ [CHR 0x00]) (family_index_key g h) \<longleftrightarrow> f = g"
  using assms by (auto simp: family_index_key_def prefix_def dest!: valid_family_length)

lemma colon_split:
  "CHR '':'' \<notin> set u \<Longrightarrow> CHR '':'' \<notin> set v \<Longrightarrow> u @ CHR '':'' # h = v @ CHR '':'' # k \<longleftrightarrow> u = v \<and> h = k"
proof (induction u arbitrary: v)
  case Nil
  then show ?case by (cases v) auto
next
  case (Cons a u)
  then show ?case by (cases v) auto
qed

lemma user_session_key_inj:
  "CHR '':'' \<notin> set u \<Longrightarrow> CHR '':'' \<notin> set v \<Longrightarrow> user_session_key u h = user_session_key v k \<longleftrightarrow> u = v \<and> h = k"
  by (simp add: user_session_key_def colon_split)

lemma user_session_key_prefix:
  "CHR '':'' \<notin> set u \<Longrightarrow> CHR '':'' \<notin> set v \<Longrightarrow> prefix (u @ '':'') (user_session_key v h) \<longleftrightarrow> u = v"
  using colon_split [of v u] by (auto simp: user_session_key_def prefix_def)

lemma kinds_differ [simp]: "FAMILY_INDEX_KIND_LIVE \<noteq> FAMILY_INDEX_KIND_RETIRED" "FAMILY_INDEX_KIND_RETIRED \<noteq> FAMILY_INDEX_KIND_LIVE"
  by (simp_all add: FAMILY_INDEX_KIND_LIVE_def FAMILY_INDEX_KIND_RETIRED_def)

section \<open>Entries in and out\<close>

definition rm_live :: "view \<Rightarrow> string \<Rightarrow> session \<Rightarrow> view" where
  "rm_live V h x = V(Sessions := (V Sessions)(h := None),
     User_Sessions := (V User_Sessions)(user_session_key (s_user_id x) h := None),
     Family_Index := (if s_family_id x \<noteq> [] then (V Family_Index)(family_index_key (s_family_id x) h := None) else V Family_Index))"

definition rm_retired :: "view \<Rightarrow> retired_refresh_token \<Rightarrow> view" where
  "rm_retired V r = V(Retired_Tokens := (V Retired_Tokens)(r_hash r := None),
     Family_Index := (V Family_Index)(family_index_key (r_family_id r) (r_hash r) := None))"

definition ins_live :: "view \<Rightarrow> session \<Rightarrow> string \<Rightarrow> view" where
  "ins_live V x b = V(Sessions := (V Sessions)(s_hash x \<mapsto> b),
     User_Sessions := (V User_Sessions)(user_session_key (s_user_id x) (s_hash x) \<mapsto> []),
     Family_Index := (if s_family_id x \<noteq> [] then (V Family_Index)(family_index_key (s_family_id x) (s_hash x) \<mapsto> FAMILY_INDEX_KIND_LIVE)
                      else V Family_Index))"

definition ins_retired :: "view \<Rightarrow> retired_refresh_token \<Rightarrow> string \<Rightarrow> view" where
  "ins_retired V r b = V(Retired_Tokens := (V Retired_Tokens)(r_hash r \<mapsto> b),
     Family_Index := (V Family_Index)(family_index_key (r_family_id r) (r_hash r) \<mapsto> FAMILY_INDEX_KIND_RETIRED))"

lemma okvI:
  assumes "\<And>h b. V Sessions h = Some b \<Longrightarrow> dec_session C b \<noteq> None"
    and "\<And>h b. V Retired_Tokens h = Some b \<Longrightarrow> dec_retired C b \<noteq> None"
    and "\<And>k b. V Single_Use k = Some b \<Longrightarrow> dec_time C b \<noteq> None"
    and "\<And>h x. live_at C V h = Some x \<Longrightarrow> session_row_ok V h x"
    and "\<And>h r. retired_at C V h = Some r \<Longrightarrow> retired_row_ok V h r"
    and "\<And>k v. V User_Sessions k = Some v \<Longrightarrow> \<exists>h x. live_at C V h = Some x \<and> k = user_session_key (s_user_id x) h"
    and "\<And>k v. V Family_Index k = Some v \<Longrightarrow> index_row_ok C V k v"
  shows "okv C V"
  unfolding okv_def using assms by blast

lemma okvD:
  assumes "okv C V"
  shows okv_session: "\<And>h b. V Sessions h = Some b \<Longrightarrow> dec_session C b \<noteq> None"
    and okv_retired: "\<And>h b. V Retired_Tokens h = Some b \<Longrightarrow> dec_retired C b \<noteq> None"
    and okv_single: "\<And>k b. V Single_Use k = Some b \<Longrightarrow> dec_time C b \<noteq> None"
    and okv_live: "\<And>h x. live_at C V h = Some x \<Longrightarrow> session_row_ok V h x"
    and okv_ret: "\<And>h r. retired_at C V h = Some r \<Longrightarrow> retired_row_ok V h r"
    and okv_user: "\<And>k v. V User_Sessions k = Some v \<Longrightarrow> \<exists>h x. live_at C V h = Some x \<and> k = user_session_key (s_user_id x) h"
    and okv_index: "\<And>k v. V Family_Index k = Some v \<Longrightarrow> index_row_ok C V k v"
  using assms unfolding okv_def by blast+

lemma live_at_rm_live [simp]: "live_at C (rm_live V h x) = (live_at C V)(h := None)"
  by (auto simp: live_at_def rm_live_def fun_eq_iff)

lemma retired_at_rm_live [simp]: "retired_at C (rm_live V h x) = retired_at C V"
  by (auto simp: retired_at_def rm_live_def fun_eq_iff)

lemma live_at_rm_retired [simp]: "live_at C (rm_retired V r) = live_at C V"
  by (auto simp: live_at_def rm_retired_def fun_eq_iff)

lemma retired_at_rm_retired [simp]: "retired_at C (rm_retired V r) = (retired_at C V)(r_hash r := None)"
  by (auto simp: retired_at_def rm_retired_def fun_eq_iff)

lemma live_at_ins_live [simp]: "dec_session C b = Some x \<Longrightarrow> live_at C (ins_live V x b) = (live_at C V)(s_hash x \<mapsto> x)"
  by (auto simp: live_at_def ins_live_def fun_eq_iff)

lemma retired_at_ins_live [simp]: "retired_at C (ins_live V x b) = retired_at C V"
  by (auto simp: retired_at_def ins_live_def fun_eq_iff)

lemma live_at_ins_retired [simp]: "live_at C (ins_retired V r b) = live_at C V"
  by (auto simp: live_at_def ins_retired_def fun_eq_iff)

lemma retired_at_ins_retired [simp]: "dec_retired C b = Some r \<Longrightarrow> retired_at C (ins_retired V r b) = (retired_at C V)(r_hash r \<mapsto> r)"
  by (auto simp: retired_at_def ins_retired_def fun_eq_iff)

lemma absv_rm_live: "absv C (rm_live V h x) = (absv C V)\<lparr>live := (live (absv C V))(h := None)\<rparr>"
  by (simp add: absv_def) (simp add: rm_live_def)

lemma absv_rm_retired: "absv C (rm_retired V r) = (absv C V)\<lparr>retired := (retired (absv C V))(r_hash r := None)\<rparr>"
  by (simp add: absv_def) (simp add: rm_retired_def)

lemma absv_ins_live: "dec_session C b = Some x \<Longrightarrow> absv C (ins_live V x b) = (absv C V)\<lparr>live := (live (absv C V))(s_hash x \<mapsto> x)\<rparr>"
  by (simp add: absv_def) (simp add: ins_live_def)

lemma absv_ins_retired:
  "dec_retired C b = Some r \<Longrightarrow> absv C (ins_retired V r b) = (absv C V)\<lparr>retired := (retired (absv C V))(r_hash r \<mapsto> r)\<rparr>"
  by (simp add: absv_def) (simp add: ins_retired_def)

section \<open>The invariant is kept\<close>

lemma index_rowE:
  assumes "index_row_ok C V k v"
  obtains (live) h x where "v = FAMILY_INDEX_KIND_LIVE" "live_at C V h = Some x" "s_family_id x \<noteq> []" "k = family_index_key (s_family_id x) h"
    | (ret) h r where "v = FAMILY_INDEX_KIND_RETIRED" "retired_at C V h = Some r" "k = family_index_key (r_family_id r) h"
  using assms unfolding index_row_ok_def by blast

lemma index_row_live:
  "live_at C V h = Some x \<Longrightarrow> s_family_id x \<noteq> [] \<Longrightarrow> k = family_index_key (s_family_id x) h \<Longrightarrow>
     v = FAMILY_INDEX_KIND_LIVE \<Longrightarrow> index_row_ok C V k v"
  unfolding index_row_ok_def by blast

lemma index_row_retired:
  "retired_at C V h = Some r \<Longrightarrow> k = family_index_key (r_family_id r) h \<Longrightarrow> v = FAMILY_INDEX_KIND_RETIRED \<Longrightarrow> index_row_ok C V k v"
  unfolding index_row_ok_def by blast

lemma live_at_Some: "live_at C V h = Some x \<Longrightarrow> V Sessions h \<noteq> None"
  by (cases "V Sessions h") (auto simp: live_at_def)

lemma retired_at_Some: "retired_at C V h = Some x \<Longrightarrow> V Retired_Tokens h \<noteq> None"
  by (cases "V Retired_Tokens h") (auto simp: retired_at_def)

lemma live_not_retired: "okv C V \<Longrightarrow> live_at C V h = Some x \<Longrightarrow> retired_at C V h = None"
  using okv_live [of C V h x] by (auto simp: session_row_ok_def retired_at_def)

text \<open>Index keys of different entries differ.\<close>

lemma index_key_live_live:
  assumes "okv C V" "live_at C V h = Some x" "live_at C V k = Some y" "s_family_id x \<noteq> []" "s_family_id y \<noteq> []" "h \<noteq> k"
  shows "family_index_key (s_family_id x) h \<noteq> family_index_key (s_family_id y) k"
  using okv_live [OF assms(1,2)] okv_live [OF assms(1,3)] assms(4-6)
  by (auto simp: session_row_ok_def family_index_key_inj)

lemma index_key_live_retired:
  assumes "okv C V" "live_at C V h = Some x" "retired_at C V k = Some r" "s_family_id x \<noteq> []"
  shows "family_index_key (s_family_id x) h \<noteq> family_index_key (r_family_id r) k"
  using okv_live [OF assms(1,2)] okv_ret [OF assms(1,3)] live_not_retired [OF assms(1,2)] assms
  by (auto simp: session_row_ok_def retired_row_ok_def family_index_key_inj)

lemma index_key_retired_retired:
  assumes "okv C V" "retired_at C V h = Some r" "retired_at C V k = Some q" "h \<noteq> k"
  shows "family_index_key (r_family_id r) h \<noteq> family_index_key (r_family_id q) k"
  using okv_ret [OF assms(1,2)] okv_ret [OF assms(1,3)] assms(4)
  by (auto simp: retired_row_ok_def family_index_key_inj)

lemma user_key_live_live:
  assumes "okv C V" "live_at C V h = Some x" "live_at C V k = Some y" "h \<noteq> k"
  shows "user_session_key (s_user_id x) h \<noteq> user_session_key (s_user_id y) k"
  using okv_live [OF assms(1,2)] okv_live [OF assms(1,3)] assms(4)
  by (auto simp: session_row_ok_def user_session_key_inj)

lemma okv_rm_live:
  assumes ok: "okv C V" and x: "live_at C V h = Some x"
  shows "okv C (rm_live V h x)"
proof (rule okvI)
  fix k y assume "live_at C (rm_live V h x) k = Some y"
  then have y: "live_at C V k = Some y" "k \<noteq> h" by (auto split: if_splits)
  then show "session_row_ok (rm_live V h x) k y"
    using okv_live [OF ok y(1)] user_key_live_live [OF ok x y(1)] index_key_live_live [OF ok x y(1)]
    by (simp add: session_row_ok_def rm_live_def) metis
next
  fix k r assume "retired_at C (rm_live V h x) k = Some r"
  then have r: "retired_at C V k = Some r" by simp
  have "s_family_id x \<noteq> [] \<Longrightarrow> family_index_key (r_family_id r) k \<noteq> family_index_key (s_family_id x) h"
    using index_key_live_retired [OF ok x r] by metis
  then show "retired_row_ok (rm_live V h x) k r" using okv_ret [OF ok r]
    by (simp add: retired_row_ok_def rm_live_def)
next
  fix k v assume "rm_live V h x User_Sessions k = Some v"
  then have k: "V User_Sessions k = Some v" "k \<noteq> user_session_key (s_user_id x) h"
    by (auto simp: rm_live_def split: if_splits)
  then obtain h' y where y: "live_at C V h' = Some y" "k = user_session_key (s_user_id y) h'" using okv_user [OF ok k(1)] by blast
  then have "h' \<noteq> h" using k(2) x by auto
  then show "\<exists>h' y. live_at C (rm_live V h x) h' = Some y \<and> k = user_session_key (s_user_id y) h'" using y by auto
next
  fix k v assume "rm_live V h x Family_Index k = Some v"
  then have k: "V Family_Index k = Some v" "s_family_id x \<noteq> [] \<Longrightarrow> k \<noteq> family_index_key (s_family_id x) h"
    by (auto simp: rm_live_def split: if_splits)
  from okv_index [OF ok k(1)] show "index_row_ok C (rm_live V h x) k v"
  proof (cases rule: index_rowE)
    case (live h' y)
    then have "h' \<noteq> h" using k(2) x by auto
    then show ?thesis using live by (auto intro: index_row_live)
  qed (auto intro: index_row_retired)
qed (use ok in \<open>auto simp: rm_live_def dest: okv_session okv_retired okv_single split: if_splits\<close>)

lemma okv_rm_retired:
  assumes ok: "okv C V" and r: "retired_at C V h = Some r"
  shows "okv C (rm_retired V r)"
proof -
  have h: "r_hash r = h" using okv_ret [OF ok r] by (simp add: retired_row_ok_def)
  show ?thesis
  proof (rule okvI)
    fix k y assume "live_at C (rm_retired V r) k = Some y"
    then have y: "live_at C V k = Some y" by simp
    then show "session_row_ok (rm_retired V r) k y"
      using okv_live [OF ok y] index_key_live_retired [OF ok y r] h
      by (auto simp: session_row_ok_def rm_retired_def)
  next
    fix k q assume "retired_at C (rm_retired V r) k = Some q"
    then have q: "retired_at C V k = Some q" "k \<noteq> h" using h by (auto split: if_splits)
    then show "retired_row_ok (rm_retired V r) k q"
      using okv_ret [OF ok q(1)] index_key_retired_retired [OF ok r q(1)] h
      by (auto simp: retired_row_ok_def rm_retired_def)
  next
    fix k v assume "rm_retired V r User_Sessions k = Some v"
    then have "V User_Sessions k = Some v" by (simp add: rm_retired_def)
    from okv_user [OF ok this] show "\<exists>h' y. live_at C (rm_retired V r) h' = Some y \<and> k = user_session_key (s_user_id y) h'"
      by simp
  next
    fix k v assume "rm_retired V r Family_Index k = Some v"
    then have k: "V Family_Index k = Some v" "k \<noteq> family_index_key (r_family_id r) h"
      using h by (auto simp: rm_retired_def split: if_splits)
    from okv_index [OF ok k(1)] show "index_row_ok C (rm_retired V r) k v"
    proof (cases rule: index_rowE)
      case (ret h' q)
      then have "h' \<noteq> r_hash r" using k(2) r h by auto
      then show ?thesis using ret by (auto intro: index_row_retired)
    qed (auto intro: index_row_live)
  qed (use ok in \<open>auto simp: rm_retired_def dest: okv_session okv_retired okv_single split: if_splits\<close>)
qed

text \<open>Installing a session needs a hash no row carries.\<close>

lemma okv_ins_live:
  assumes ok: "okv C V" and b: "dec_session C b = Some x"
    and f: "V Sessions (s_hash x) = None" "V Retired_Tokens (s_hash x) = None" "s_hash x \<noteq> []"
    and x: "CHR '':'' \<notin> set (s_user_id x)" "s_family_id x = [] \<or> is_valid_family_id (s_family_id x)"
  shows "okv C (ins_live V x b)"
proof -
  have fl: "k \<noteq> s_hash x" if "live_at C V k = Some y" for k y using live_at_Some [OF that] f by metis
  have fr: "k \<noteq> s_hash x" if "retired_at C V k = Some r" for k r using retired_at_Some [OF that] f by metis
  have lv: "live_at C (ins_live V x b) = (live_at C V)(s_hash x \<mapsto> x)" using b by simp
  show ?thesis
  proof (rule okvI)
    fix k y assume a: "live_at C (ins_live V x b) k = Some y"
    show "session_row_ok (ins_live V x b) k y"
    proof (cases "k = s_hash x")
      case True
      then have "y = x" using a lv by simp
      then show ?thesis using True f x by (simp add: session_row_ok_def ins_live_def)
    next
      case False
      then have y: "live_at C V k = Some y" using a lv by simp
      from okv_live [OF ok y] show ?thesis
        by (auto simp: session_row_ok_def ins_live_def)
    qed
  next
    fix k r assume "retired_at C (ins_live V x b) k = Some r"
    then have r: "retired_at C V k = Some r" by simp
    have "family_index_key (r_family_id r) k \<noteq> family_index_key (s_family_id x) (s_hash x)" if "s_family_id x \<noteq> []"
      using okv_ret [OF ok r] fr [OF r] x(2) that by (auto simp: retired_row_ok_def family_index_key_inj)
    then show "retired_row_ok (ins_live V x b) k r" using okv_ret [OF ok r]
      by (simp add: retired_row_ok_def ins_live_def)
  next
    fix k v assume "ins_live V x b User_Sessions k = Some v"
    then have "k = user_session_key (s_user_id x) (s_hash x) \<or> V User_Sessions k = Some v"
      by (auto simp: ins_live_def split: if_splits)
    then show "\<exists>h y. live_at C (ins_live V x b) h = Some y \<and> k = user_session_key (s_user_id y) h"
    proof
      assume "V User_Sessions k = Some v"
      from okv_user [OF ok this] obtain h y where "live_at C V h = Some y" "k = user_session_key (s_user_id y) h" by blast
      then show ?thesis using fl lv by (intro exI [of _ h] exI [of _ y]) auto
    next
      assume "k = user_session_key (s_user_id x) (s_hash x)"
      then show ?thesis using lv by (intro exI [of _ "s_hash x"] exI [of _ x]) simp
    qed
  next
    fix k v assume "ins_live V x b Family_Index k = Some v"
    then consider "s_family_id x \<noteq> []" "k = family_index_key (s_family_id x) (s_hash x)" "v = FAMILY_INDEX_KIND_LIVE"
      | "V Family_Index k = Some v"
      unfolding ins_live_def by (cases "s_family_id x = []"; cases "k = family_index_key (s_family_id x) (s_hash x)") auto
    then show "index_row_ok C (ins_live V x b) k v"
    proof cases
      case 2
      from okv_index [OF ok 2] show ?thesis
      proof (cases rule: index_rowE)
        case (live h y)
        then show ?thesis using fl [OF live(2)] lv by (intro index_row_live [of C "ins_live V x b" h y]) simp_all
      next
        case (ret h r)
        then show ?thesis by (intro index_row_retired [of C "ins_live V x b" h r]) simp_all
      qed
    next
      case 1
      then show ?thesis using lv by (intro index_row_live [of C "ins_live V x b" "s_hash x" x]) simp_all
    qed
  next
    fix h c assume "ins_live V x b Sessions h = Some c"
    then show "dec_session C c \<noteq> None" using okv_session [OF ok, of h c] b by (auto simp: ins_live_def split: if_splits)
  next
    fix h c assume "ins_live V x b Retired_Tokens h = Some c"
    then show "dec_retired C c \<noteq> None" using okv_retired [OF ok, of h c] b by (auto simp: ins_live_def split: if_splits)
  next
    fix h c assume "ins_live V x b Single_Use h = Some c"
    then show "dec_time C c \<noteq> None" using okv_single [OF ok, of h c] by (simp add: ins_live_def)
  qed
qed

lemma okv_ins_retired:
  assumes ok: "okv C V" and b: "dec_retired C b = Some r"
    and f: "V Sessions (r_hash r) = None" "V Retired_Tokens (r_hash r) = None" "is_valid_family_id (r_family_id r)"
  shows "okv C (ins_retired V r b)"
proof -
  have fl: "k \<noteq> r_hash r" if "live_at C V k = Some y" for k y using live_at_Some [OF that] f by metis
  have fr: "k \<noteq> r_hash r" if "retired_at C V k = Some q" for k q using retired_at_Some [OF that] f by metis
  have rt: "retired_at C (ins_retired V r b) = (retired_at C V)(r_hash r \<mapsto> r)" using b by simp
  show ?thesis
  proof (rule okvI)
    fix k y assume "live_at C (ins_retired V r b) k = Some y"
    then have y: "live_at C V k = Some y" by simp
    have "family_index_key (s_family_id y) k \<noteq> family_index_key (r_family_id r) (r_hash r)" if "s_family_id y \<noteq> []"
      using okv_live [OF ok y] fl [OF y] f(3) that by (auto simp: session_row_ok_def family_index_key_inj)
    then show "session_row_ok (ins_retired V r b) k y" using okv_live [OF ok y] fl [OF y]
      by (auto simp: session_row_ok_def ins_retired_def)
  next
    fix k q assume a: "retired_at C (ins_retired V r b) k = Some q"
    show "retired_row_ok (ins_retired V r b) k q"
    proof (cases "k = r_hash r")
      case True
      then show ?thesis using a rt f by (simp add: retired_row_ok_def ins_retired_def)
    next
      case False
      then have q: "retired_at C V k = Some q" using a rt by simp
      from okv_ret [OF ok q] show ?thesis using f False
        by (auto simp: retired_row_ok_def ins_retired_def family_index_key_inj)
    qed
  next
    fix k v assume "ins_retired V r b User_Sessions k = Some v"
    then have "V User_Sessions k = Some v" by (simp add: ins_retired_def)
    from okv_user [OF ok this] show "\<exists>h y. live_at C (ins_retired V r b) h = Some y \<and> k = user_session_key (s_user_id y) h" by simp
  next
    fix k v assume "ins_retired V r b Family_Index k = Some v"
    then consider "k = family_index_key (r_family_id r) (r_hash r)" "v = FAMILY_INDEX_KIND_RETIRED"
      | "V Family_Index k = Some v"
      unfolding ins_retired_def by (cases "k = family_index_key (r_family_id r) (r_hash r)") auto
    then show "index_row_ok C (ins_retired V r b) k v"
    proof cases
      case 2
      from okv_index [OF ok 2] show ?thesis
      proof (cases rule: index_rowE)
        case (live h y)
        then show ?thesis by (intro index_row_live [of C "ins_retired V r b" h y]) simp_all
      next
        case (ret h q)
        then show ?thesis using fr [OF ret(2)] rt by (intro index_row_retired [of C "ins_retired V r b" h q]) simp_all
      qed
    next
      case 1
      then show ?thesis using rt by (intro index_row_retired [of C "ins_retired V r b" "r_hash r" r]) simp_all
    qed
  next
    fix h c assume "ins_retired V r b Sessions h = Some c"
    then show "dec_session C c \<noteq> None" using okv_session [OF ok, of h c] b by (auto simp: ins_retired_def split: if_splits)
  next
    fix h c assume "ins_retired V r b Retired_Tokens h = Some c"
    then show "dec_retired C c \<noteq> None" using okv_retired [OF ok, of h c] b by (auto simp: ins_retired_def split: if_splits)
  next
    fix h c assume "ins_retired V r b Single_Use h = Some c"
    then show "dec_time C c \<noteq> None" using okv_single [OF ok, of h c] by (simp add: ins_retired_def)
  qed
qed

lemma okv_single_upd:
  assumes "okv C V" "\<And>k b. m k = Some b \<Longrightarrow> dec_time C b \<noteq> None"
  shows "okv C (V(Single_Use := m))"
proof -
  have "live_at C (V(Single_Use := m)) = live_at C V" "retired_at C (V(Single_Use := m)) = retired_at C V"
    by (auto simp: live_at_def retired_at_def)
  then show ?thesis using assms by (simp add: okv_def session_row_ok_def retired_row_ok_def index_row_ok_def)
qed

end
