(* ===== verification/Lmdb_Runs.thy ===== *)
theory Lmdb_Runs
  imports Lmdb_View
begin

text \<open>
  How runs of the LMDB adapter are reasoned about. Its failing runs: \<open>still\<close> and \<open>quiet\<close> programs
  commit nothing on the way, \<open>clean\<close> ones have committed nothing unless they succeed, and the errors
  are store errors. Its successful runs: \<open>leads E m V K Q\<close> says that \<open>m\<close>, started with the working
  copy \<open>V\<close> over the committed databases \<open>K\<close>, answers and leaves what \<open>Q\<close> allows; the rules are
  weakest preconditions, so that \<open>intro\<close> computes what a transaction writes.
\<close>

definition vw :: "'d lmdb_env \<Rightarrow> 'd lmdb \<Rightarrow> view" where
  "vw E s = (\<lambda>n. kv_get (heed E) (working s n))"

definition cv :: "'d lmdb_env \<Rightarrow> 'd lmdb \<Rightarrow> view" where
  "cv E s = (\<lambda>n. kv_get (heed E) (committed s n))"

section \<open>Failing runs\<close>

named_theorems quiet_rules \<open>programs that commit nothing\<close>
named_theorems clean_rules \<open>programs whose failing runs commit nothing\<close>

definition still :: "('d lmdb, 'e, 'a) prog \<Rightarrow> bool" where
  "still m \<longleftrightarrow> (\<forall>s r s'. m s = (r, s') \<longrightarrow> committed s' = committed s)"

definition quiet :: "('d, 'a) txn \<Rightarrow> bool" where
  "quiet m \<longleftrightarrow> (\<forall>s r s'. m s = (r, s') \<longrightarrow> committed s' = committed s \<and> (\<forall>e. r = Err e \<longrightarrow> (\<exists>d. e = StoreError d)))"

definition clean :: "('d, 'a) txn \<Rightarrow> bool" where
  "clean m \<longleftrightarrow> (\<forall>s r s'. m s = (r, s') \<longrightarrow> (\<exists>x. r = Ok x)
     \<or> committed s' = committed s \<and> (\<forall>e. r = Err e \<longrightarrow> (\<exists>d. e = StoreError d)))"

lemma still_bindq [quiet_rules]: "still m \<Longrightarrow> (\<And>x. still (f x)) \<Longrightarrow> still (bindq m f)"
  unfolding still_def by (auto elim!: bindq_cases)

lemma still_basic [quiet_rules]: "still (ret x)" "still (reads f)" "still (throw e)" "still (heed_call E)"
  by (auto simp: still_def heed_call_def)

lemma still_seqq [quiet_rules]: "still m \<Longrightarrow> still k \<Longrightarrow> still (seqq m k)"
  unfolding seqq_def by (intro still_bindq)

lemma still_if [quiet_rules]: "still m \<Longrightarrow> still k \<Longrightarrow> still (if b then m else k)"
  by simp

lemma still_working [quiet_rules]: "still (writes (\<lambda>s. s\<lparr>working := f s\<rparr>))"
  by (auto simp: still_def)

lemma still_heed [quiet_rules]:
  "still (begin_txn E)" "still (h_get E n k)" "still (h_put E n k v)" "still (h_delete E n k)" "still (h_iter E n)"
  "still (h_prefix_iter E n p)"
  unfolding begin_txn_def h_get_def h_put_def h_delete_def h_iter_def h_prefix_iter_def
  by (intro quiet_rules)+

lemma still_entries [quiet_rules]: "still (remove_live_entry_raw E h x)" "still (remove_retired_entry_raw E r)"
  unfolding remove_live_entry_raw_def remove_retired_entry_raw_def by (intro quiet_rules)+

lemma quiet_store_err [quiet_rules]: "still m \<Longrightarrow> quiet (store_err E m)"
  unfolding still_def quiet_def store_err_def by (auto elim!: and_then_cases)

lemma quiet_basic [quiet_rules]: "quiet (ret x)" "quiet (panic p)" "quiet (assert_that b msg)" "quiet (ok_or o' msg)"
  "quiet (throw (StoreError d))"
  by (auto simp: quiet_def ok_or_def split: option.splits if_splits)

lemma quiet_bindq [quiet_rules]: "quiet m \<Longrightarrow> (\<And>x. quiet (f x)) \<Longrightarrow> quiet (bindq m f)"
  unfolding quiet_def by (fastforce elim!: bindq_cases)

lemma quiet_seqq [quiet_rules]: "quiet m \<Longrightarrow> quiet k \<Longrightarrow> quiet (seqq m k)"
  unfolding seqq_def by (intro quiet_bindq)

lemma quiet_if [quiet_rules]: "quiet m \<Longrightarrow> quiet k \<Longrightarrow> quiet (if b then m else k)"
  by simp

lemma quiet_option [quiet_rules]: "quiet m \<Longrightarrow> (\<And>y. quiet (k y)) \<Longrightarrow> quiet (case x of None \<Rightarrow> m | Some y \<Rightarrow> k y)"
  by (cases x) auto

lemma quiet_prod [quiet_rules]: "(\<And>a b. quiet (f a b)) \<Longrightarrow> quiet (case p of (a, b) \<Rightarrow> f a b)"
  by (cases p) auto

lemma quiet_from_outcome [quiet_rules]: "(\<And>e. r \<noteq> Err e) \<Longrightarrow> quiet (from_outcome r)"
  by (auto simp: quiet_def)

lemma quiet_for_items [quiet_rules]: "(\<And>x acc. quiet (f x acc)) \<Longrightarrow> quiet (for_items E xs f acc)"
  by (induction xs arbitrary: acc) (auto intro!: quiet_rules)

lemma quiet_for_each [quiet_rules]: "(\<And>x acc. quiet (f x acc)) \<Longrightarrow> quiet (for_each xs f acc)"
  by (induction xs arbitrary: acc) (auto intro!: quiet_rules)

lemma retirement_record_no_err [simp]: "retirement_record E h l new now \<noteq> Err e"
  by (auto simp: retirement_record_def retention_deadline_def split: option.splits outcome.splits)

lemma quiet_parts [quiet_rules]:
  "quiet (decode_session E b)" "quiet (decode_retired E b)" "quiet (remove_live_entry E h x)"
  "quiet (remove_retired_entry E r)" "quiet (install_live_entry E x)" "quiet (split_index_entry p kv acc)"
  unfolding decode_session_def decode_retired_def remove_live_entry_def remove_retired_entry_def
    install_live_entry_def split_index_entry_def
  by (intro quiet_rules)+

lemma quiet_loops [quiet_rules]:
  "quiet (revoke_live_hash E f h n)" "quiet (revoke_retired_hash E f h n)" "quiet (list_index_entry E u now p kv acc)"
  "quiet (collect_live E now kv es)" "quiet (collect_retired E now kv es)" "quiet (collect_single_use E now kv ks)"
  "quiet (collect_user_entry E u p kv us)" "quiet (collect_user_retired E u kv rs)"
  unfolding revoke_live_hash_def revoke_retired_hash_def list_index_entry_def collect_live_def collect_retired_def
    collect_single_use_def collect_user_entry_def collect_user_retired_def
  by (intro quiet_rules)+

lemma quiet_revoke_family_wtxn [quiet_rules]: "quiet (revoke_family_wtxn E f)"
  unfolding revoke_family_wtxn_def Let_def by (intro quiet_rules)

lemma clean_quiet: "quiet m \<Longrightarrow> clean m"
  unfolding quiet_def clean_def by blast

lemma clean_bindq [clean_rules]: "quiet m \<Longrightarrow> (\<And>x. clean (f x)) \<Longrightarrow> clean (bindq m f)"
  unfolding quiet_def clean_def by (fastforce elim!: bindq_cases)

lemma clean_seqq [clean_rules]: "quiet m \<Longrightarrow> clean k \<Longrightarrow> clean (seqq m k)"
  unfolding seqq_def by (intro clean_bindq)

lemma clean_if [clean_rules]: "clean m \<Longrightarrow> clean k \<Longrightarrow> clean (if b then m else k)"
  by simp

lemma clean_option [clean_rules]: "clean m \<Longrightarrow> (\<And>y. clean (k y)) \<Longrightarrow> clean (case x of None \<Rightarrow> m | Some y \<Rightarrow> k y)"
  by (cases x) auto

lemma clean_commit [clean_rules]: "clean (store_err E (commit_txn E))" "clean (seqq (store_err E (commit_txn E)) (ret x))"
  by (auto simp: clean_def store_err_def commit_txn_def heed_call_def and_then_def seqq_def bindq_def split: option.splits)

lemma clean_ret [clean_rules]: "clean (ret x)"
  by (simp add: clean_def)

text \<open>A closure handed to \<open>spawn_blocking\<close> that is clean never panics outward.\<close>

lemma spawn_clean:
  assumes "clean m" "spawn_blocking m s = (r, s')"
  shows "(\<exists>x. r = Ok x \<and> m s = (Ok x, s')) \<or> (\<exists>d. r = Err (StoreError d)) \<and> committed s' = committed s"
proof -
  obtain q t where q: "m s = (q, t)" by (cases "m s")
  with assms(1) have "(\<exists>x. q = Ok x) \<or> committed t = committed s \<and> (\<forall>e. q = Err e \<longrightarrow> (\<exists>d. e = StoreError d))"
    unfolding clean_def by blast
  then show ?thesis using assms(2) q by (cases q) (auto simp: spawn_blocking_def)
qed

section \<open>Successful runs\<close>

named_theorems leads_rules \<open>what a successful run leaves\<close>

definition leads :: "'d lmdb_env \<Rightarrow> ('d lmdb, 'e, 'a) prog \<Rightarrow> view \<Rightarrow> view \<Rightarrow> ('a \<Rightarrow> view \<Rightarrow> view \<Rightarrow> bool) \<Rightarrow> bool" where
  "leads E m V K Q \<longleftrightarrow> (\<forall>s x s'. vw E s = V \<longrightarrow> cv E s = K \<longrightarrow> m s = (Ok x, s') \<longrightarrow> Q x (vw E s') (cv E s'))"

lemma leadsD: "leads E m (vw E s) (cv E s) Q \<Longrightarrow> m s = (Ok x, s') \<Longrightarrow> Q x (vw E s') (cv E s')"
  unfolding leads_def by blast

lemma leads_ret [leads_rules]: "Q x V K \<Longrightarrow> leads E (ret x) V K Q"
  by (simp add: leads_def)

lemma leads_fail [leads_rules]: "leads E (throw e) V K Q" "leads E (panic p) V K Q"
  by (simp_all add: leads_def)

lemma leads_bindq [leads_rules]: "leads E m V K (\<lambda>x V' K'. leads E (f x) V' K' Q) \<Longrightarrow> leads E (bindq m f) V K Q"
  unfolding leads_def by (blast elim!: bindq_okE)

lemma leads_seqq [leads_rules]: "leads E m V K (\<lambda>_ V' K'. leads E k V' K' Q) \<Longrightarrow> leads E (seqq m k) V K Q"
  unfolding seqq_def by (rule leads_bindq)

lemma leads_assert [leads_rules]: "(b \<Longrightarrow> Q () V K) \<Longrightarrow> leads E (assert_that b msg) V K Q"
  by (auto simp: leads_def split: if_splits)

lemma leads_from_outcome [leads_rules]: "(\<And>x. r = Ok x \<Longrightarrow> Q x V K) \<Longrightarrow> leads E (from_outcome r) V K Q"
  by (auto simp: leads_def)

lemma leads_if [leads_rules]: "(b \<Longrightarrow> leads E m V K Q) \<Longrightarrow> (\<not> b \<Longrightarrow> leads E k V K Q) \<Longrightarrow> leads E (if b then m else k) V K Q"
  by simp

lemma leads_option [leads_rules]:
  "(v = None \<Longrightarrow> leads E m V K Q) \<Longrightarrow> (\<And>y. v = Some y \<Longrightarrow> leads E (k y) V K Q) \<Longrightarrow>
     leads E (case v of None \<Rightarrow> m | Some y \<Rightarrow> k y) V K Q"
  by (cases v) auto

lemma leads_prod [leads_rules]: "(\<And>a b. p = (a, b) \<Longrightarrow> leads E (f a b) V K Q) \<Longrightarrow> leads E (case p of (a, b) \<Rightarrow> f a b) V K Q"
  by (cases p) auto

lemma leads_conseq: "leads E m V K Q \<Longrightarrow> (\<And>x V' K'. Q x V' K' \<Longrightarrow> R x V' K') \<Longrightarrow> leads E m V K R"
  unfolding leads_def by blast

lemma store_err_Ok [simp]: "store_err E m s = (Ok x, s') \<longleftrightarrow> m s = (Ok x, s')"
  by (auto simp: store_err_def and_then_def split: prod.splits outcome.splits)

lemma leads_store_err [leads_rules]: "leads E m V K Q \<Longrightarrow> leads E (store_err E' m) V K Q"
  by (simp add: leads_def)

lemma leads_ok_or [leads_rules]: "(\<And>x. v = Some x \<Longrightarrow> Q x V K) \<Longrightarrow> leads E (ok_or v msg) V K Q"
  by (auto simp: leads_def ok_or_def split: option.splits)

lemma leads_decode [leads_rules]:
  "(\<And>x. dec_session (codec E) b = Some x \<Longrightarrow> Q x V K) \<Longrightarrow> leads E (decode_session E b) V K Q"
  "(\<And>r. dec_retired (codec E) b = Some r \<Longrightarrow> Q' r V K) \<Longrightarrow> leads E (decode_retired E b) V K Q'"
  unfolding decode_session_def decode_retired_def by (rule leads_ok_or; simp)+

lemma leads_call [leads_rules]: "Q () V K \<Longrightarrow> leads E (heed_call E) V K Q"
  by (auto simp: leads_def heed_call_def vw_def cv_def)

lemma leads_begin [leads_rules]: "Q () K K \<Longrightarrow> leads E (begin_txn E) V K Q"
  by (auto simp: leads_def begin_txn_def vw_def cv_def heed_call_def elim!: seqq_okE)

lemma leads_commit [leads_rules]: "Q () V V \<Longrightarrow> leads E (commit_txn E) V K Q"
  by (auto simp: leads_def commit_txn_def vw_def cv_def heed_call_def elim!: seqq_okE)

lemma leads_get [leads_rules]: "Q (V n k) V K \<Longrightarrow> leads E (h_get E n k) V K Q"
  by (auto simp: leads_def h_get_def vw_def cv_def heed_call_def elim!: seqq_okE)

lemma vw_upd:
  "vw E (s\<lparr>working := (working s)(n := d)\<rparr>) = (vw E s)(n := kv_get (heed E) d)"
  "vw E (s\<lparr>heed_calls := c, working := (working s)(n := d)\<rparr>) = (vw E s)(n := kv_get (heed E) d)"
  "kv_get (heed E) (working s n) = vw E s n"
  by (auto simp: vw_def)

lemma frames_simps [simp]: "vw E (s\<lparr>heed_calls := c\<rparr>) = vw E s" "cv E (s\<lparr>heed_calls := c\<rparr>) = cv E s"
  "cv E (s\<lparr>working := d\<rparr>) = cv E s"
  by (simp_all add: vw_def cv_def)

lemma heed_get_put: "heed_ok H \<Longrightarrow> kv_get H (kv_put H d k v) = (kv_get H d)(k \<mapsto> v)"
  by (auto simp: heed_ok_def fun_eq_iff)

lemma heed_get_delete: "heed_ok H \<Longrightarrow> kv_get H (snd (kv_delete H d k)) = (kv_get H d)(k := None)"
  by (auto simp: heed_ok_def fun_eq_iff)

lemma leads_put [leads_rules]:
  "heed_ok (heed E) \<Longrightarrow> Q () (V(n := (V n)(k \<mapsto> v))) K \<Longrightarrow> leads E (h_put E n k v) V K Q"
  by (auto simp: leads_def h_put_def heed_call_def vw_upd heed_get_put elim!: seqq_okE)

lemma leads_delete [leads_rules]:
  "heed_ok (heed E) \<Longrightarrow> (\<And>b. Q b (V(n := (V n)(k := None))) K) \<Longrightarrow> leads E (h_delete E n k) V K Q"
  by (auto simp: leads_def h_delete_def heed_call_def vw_upd heed_get_delete elim!: seqq_okE bindq_okE)

text \<open>What an iterator yields.\<close>

definition rows_of :: "(string \<Rightarrow> bool) \<Rightarrow> (string \<Rightarrow> string option) \<Rightarrow> (string \<times> string) list \<Rightarrow> bool" where
  "rows_of P m items \<longleftrightarrow> distinct (map fst items) \<and> (\<forall>k v. (k, v) \<in> set items \<longleftrightarrow> P k \<and> m k = Some v)"

lemma heed_rows: "heed_ok H \<Longrightarrow> rows_of (\<lambda>_. True) (kv_get H d) (kv_iter H d)"
  by (simp add: heed_ok_def rows_of_def)

lemma heed_prefix_rows:
  assumes "heed_ok H"
  shows "rows_of (prefix p) (kv_get H d) (kv_prefix_iter H d p)"
proof -
  have "kv_prefix_iter H d p = filter (\<lambda>(k, _). prefix p k) (kv_iter H d)" using assms by (simp add: heed_ok_def)
  moreover note heed_rows [OF assms, of d]
  ultimately show ?thesis by (auto simp: rows_of_def distinct_map_filter)
qed

lemma leads_iter [leads_rules]:
  "heed_ok (heed E) \<Longrightarrow> (\<And>items. rows_of (\<lambda>_. True) (V n) items \<Longrightarrow> Q items V K) \<Longrightarrow> leads E (h_iter E n) V K Q"
  using heed_rows [of "heed E"]
  by (auto simp: leads_def h_iter_def heed_call_def elim!: seqq_okE) (simp add: vw_def)

lemma leads_prefix_iter [leads_rules]:
  "heed_ok (heed E) \<Longrightarrow> (\<And>items. rows_of (prefix p) (V n) items \<Longrightarrow> Q items V K) \<Longrightarrow> leads E (h_prefix_iter E n p) V K Q"
  using heed_prefix_rows [of "heed E"]
  by (auto simp: leads_def h_prefix_iter_def heed_call_def elim!: seqq_okE) (simp add: vw_def)

text \<open>Loops that only read, and are then a fold of what each turn computes.\<close>

lemma leads_for_items:
  assumes "\<And>x a. x \<in> set xs \<Longrightarrow> leads E (f x a) V K (\<lambda>a' V' K'. a' = g x a \<and> V' = V \<and> K' = K)"
    and "Q (fold g xs acc) V K"
  shows "leads E (for_items E xs f acc) V K Q"
  using assms
proof (induction xs arbitrary: acc)
  case Nil
  then show ?case by (auto intro!: leads_rules)
next
  case (Cons x xs)
  have "leads E (for_items E xs f (g x acc)) V K Q" using Cons.prems by (intro Cons.IH) auto
  then have "leads E (f x acc) V K (\<lambda>a V' K'. leads E (for_items E xs f a) V' K' Q)"
    by (intro leads_conseq [OF Cons.prems(1)]) auto
  then show ?case by (auto intro!: leads_rules)
qed

text \<open>Removing and installing an entry with its filings.\<close>

lemma rm_live_unfiled:
  "s_family_id x = [] \<Longrightarrow> rm_live V h x = V(Sessions := (V Sessions)(h := None), User_Sessions := (V User_Sessions)(user_session_key (s_user_id x) h := None))"
  by (auto simp: rm_live_def fun_eq_iff)

lemma ins_live_unfiled:
  "s_family_id x = [] \<Longrightarrow> ins_live V x b = V(Sessions := (V Sessions)(s_hash x \<mapsto> b), User_Sessions := (V User_Sessions)(user_session_key (s_user_id x) (s_hash x) \<mapsto> []))"
  by (auto simp: ins_live_def fun_eq_iff)

lemma leads_remove_live [leads_rules]:
  "heed_ok (heed E) \<Longrightarrow> (\<And>b. Q b (rm_live V h x) K) \<Longrightarrow> leads E (remove_live_entry_raw E h x) V K Q"
  unfolding remove_live_entry_raw_def by (intro leads_rules; simp add: rm_live_unfiled; simp add: rm_live_def)

lemma leads_remove_retired [leads_rules]:
  "heed_ok (heed E) \<Longrightarrow> (\<And>b. Q b (rm_retired V r) K) \<Longrightarrow> leads E (remove_retired_entry_raw E r) V K Q"
  unfolding remove_retired_entry_raw_def rm_retired_def by (intro leads_rules) auto

lemma leads_remove [leads_rules]:
  "heed_ok (heed E) \<Longrightarrow> (\<And>b. Q b (rm_live V h x) K) \<Longrightarrow> leads E (remove_live_entry E h x) V K Q"
  "heed_ok (heed E) \<Longrightarrow> (\<And>b. Q b (rm_retired V r) K) \<Longrightarrow> leads E (remove_retired_entry E r) V K Q"
  unfolding remove_live_entry_def remove_retired_entry_def by (intro leads_rules; simp)+

lemma leads_install [leads_rules]:
  "heed_ok (heed E) \<Longrightarrow> (\<And>b. enc_session (codec E) x = Some b \<Longrightarrow> Q () (ins_live V x b) K) \<Longrightarrow>
     leads E (install_live_entry E x) V K Q"
  unfolding install_live_entry_def by (intro leads_rules; simp add: ins_live_unfiled; simp add: ins_live_def)

end
