(* ===== verification/Lmdb_Refine.thy ===== *)
theory Lmdb_Refine
  imports Lmdb_Runs
begin

text \<open>
  The LMDB adapter meets the session contract: each law of \<open>session_repository\<close> is proved of the
  operation of \<open>lmdb_port\<close> from the two halves of \<open>Lmdb_Runs\<close>, and the laws together are the
  refinement of the abstract family store by the five databases.
\<close>

definition lmdb_inv :: "'d lmdb_env \<Rightarrow> 'd lmdb \<Rightarrow> bool" where
  "lmdb_inv E s \<longleftrightarrow> okv (codec E) (cv E s)"

definition lmdb_abs :: "'d lmdb_env \<Rightarrow> 'd lmdb \<Rightarrow> fam_store" where
  "lmdb_abs E s = absv (codec E) (cv E s)"

lemma lmdb_env_okD:
  assumes "lmdb_env_ok E"
  shows "heed_ok (heed E)" "chrono_ok (clib E)"
    "\<And>x b. enc_session (codec E) x = Some b \<Longrightarrow> dec_session (codec E) b = Some x"
    "\<And>r b. enc_retired (codec E) r = Some b \<Longrightarrow> dec_retired (codec E) b = Some r"
    "\<And>t. dec_time (codec E) (enc_time (codec E) t) = Some t"
  using assms by (auto simp: lmdb_env_ok_def lcodec_ok_def)

lemma assert_holds: "b \<Longrightarrow> seqq (assert_that b msg) m = m"
  by simp

text \<open>A clean closure either fails with the families untouched or does what its run leads to.\<close>

lemma spawn_law:
  assumes "spawn_blocking m s = (r, s')" "lmdb_inv E s" "clean m"
    and "leads E m (vw E s) (cv E s) (\<lambda>x _ K'. okv (codec E) K' \<and> Q x (absv (codec E) K'))"
  shows "lmdb_inv E s' \<and> (failed_clean (lmdb_abs E) r s s' \<or> (\<exists>x. r = Ok x \<and> Q x (lmdb_abs E s')))"
  using spawn_clean [OF assms(3,1)]
proof
  assume "\<exists>x. r = Ok x \<and> m s = (Ok x, s')"
  then show ?thesis using leadsD [OF assms(4)] by (auto simp: lmdb_inv_def lmdb_abs_def)
next
  assume a: "(\<exists>d. r = Err (StoreError d)) \<and> committed s' = committed s"
  then have "cv E s' = cv E s" by (simp add: cv_def)
  then show ?thesis using a assms(2) by (auto simp: failed_clean_def lmdb_inv_def lmdb_abs_def)
qed

lemma absv_simps [simp]: "live (absv C V) = live_at C V" "retired (absv C V) = retired_at C V"
  by (simp_all add: absv_def)

lemma single_absv: "single (absv C V) = (\<lambda>k. Option.bind (V Single_Use k) (dec_time C))"
  by (simp add: absv_def)

lemma single_live_absv: "single_live now k (absv C V) \<longleftrightarrow> (\<exists>b t. V Single_Use k = Some b \<and> dec_time C b = Some t \<and> now < t)"
  by (auto simp: single_live_def single_absv bind_eq_Some_conv)

lemma live_at_row: "V Sessions h = Some b \<Longrightarrow> dec_session C b = Some x \<Longrightarrow> live_at C V h = Some x"
  "V Sessions h = None \<Longrightarrow> live_at C V h = None"
  by (simp_all add: live_at_def)

lemma retired_at_row: "V Retired_Tokens h = Some b \<Longrightarrow> dec_retired C b = Some r \<Longrightarrow> retired_at C V h = Some r"
  "V Retired_Tokens h = None \<Longrightarrow> retired_at C V h = None"
  by (simp_all add: retired_at_def)

lemma no_row: "okv C V \<Longrightarrow> live_at C V h = None \<Longrightarrow> V Sessions h = None"
  "okv C V \<Longrightarrow> retired_at C V h = None \<Longrightarrow> V Retired_Tokens h = None"
  using okv_session [of C V h] okv_retired [of C V h]
  by (cases "V Sessions h"; cases "V Retired_Tokens h"; auto simp: live_at_def retired_at_def)+

section \<open>Reading and writing one session\<close>

text \<open>What storing a session writes.\<close>

lemma okv_store:
  assumes E: "lmdb_env_ok E" and ok: "okv (codec E) V" and x: "storable x (absv (codec E) V)" and b: "enc_session (codec E) x = Some b"
  shows "okv (codec E) (ins_live V x b) \<and> absv (codec E) (ins_live V x b) = (absv (codec E) V)\<lparr>live := (live (absv (codec E) V))(s_hash x \<mapsto> x)\<rparr>"
proof
  have d: "dec_session (codec E) b = Some x" by (rule lmdb_env_okD(3) [OF E b])
  show "okv (codec E) (ins_live V x b)"
    using x no_row [OF ok] by (intro okv_ins_live [OF ok d]) (auto simp: storable_def user_id_ok_def fresh_hash_def)
  show "absv (codec E) (ins_live V x b) = (absv (codec E) V)\<lparr>live := (live (absv (codec E) V))(s_hash x \<mapsto> x)\<rparr>"
    by (rule absv_ins_live [OF d])
qed

lemma lmdb_store_law:
  assumes E: "lmdb_env_ok E" and i: "lmdb_inv E s" and x: "storable x (lmdb_abs E s)"
    and run: "lmdb_store_refresh_token E x s = (r, s')"
  shows "lmdb_inv E s' \<and> (failed_clean (lmdb_abs E) r s s'
    \<or> r = Ok () \<and> lmdb_abs E s' = (lmdb_abs E s)\<lparr>live := (live (lmdb_abs E s))(s_hash x \<mapsto> x)\<rparr>)"
proof -
  have v: "is_valid_family_id (s_family_id x)" "s_hash x \<noteq> []" using x by (auto simp: storable_def fresh_hash_def)
  then have ne: "s_family_id x \<noteq> []" using is_valid_family_id_nonempty by blast
  note st = okv_store [OF E i [unfolded lmdb_inv_def] x [unfolded lmdb_abs_def]]
  have "lmdb_inv E s' \<and> (failed_clean (lmdb_abs E) r s s' \<or> (\<exists>u. r = Ok u
      \<and> lmdb_abs E s' = (lmdb_abs E s)\<lparr>live := (live (lmdb_abs E s))(s_hash x \<mapsto> x)\<rparr>))"
  proof (rule spawn_law [OF run [unfolded lmdb_store_refresh_token_def assert_holds [OF disjI2 [OF v(1)]] assert_holds [OF v(2)]] i,
      where Q = "\<lambda>_ st. st = (lmdb_abs E s)\<lparr>live := (live (lmdb_abs E s))(s_hash x \<mapsto> x)\<rparr>"], goal_cases)
    case 1
    show ?case by (intro clean_rules quiet_rules)
  next
    case 2
    show ?case using lmdb_env_okD(1) [OF E] st ne unfolding lmdb_abs_def
      by (intro leads_rules) (simp_all add: ins_live_def)
  qed
  then show ?thesis by simp
qed

lemma lmdb_get_law:
  assumes E: "lmdb_env_ok E" and i: "lmdb_inv E s" and run: "lmdb_get_session E h s = (r, s')"
  shows "lmdb_inv E s' \<and> (failed_clean (lmdb_abs E) r s s' \<or> r = Ok (live (lmdb_abs E s) h) \<and> lmdb_abs E s' = lmdb_abs E s)"
proof -
  have "lmdb_inv E s' \<and> (failed_clean (lmdb_abs E) r s s' \<or> (\<exists>x. r = Ok x \<and> x = live (lmdb_abs E s) h \<and> lmdb_abs E s' = lmdb_abs E s))"
  proof (rule spawn_law [OF run [unfolded lmdb_get_session_def] i, where Q = "\<lambda>x st. x = live (lmdb_abs E s) h \<and> st = lmdb_abs E s"], goal_cases)
    case 1
    show ?case by (intro clean_rules clean_quiet quiet_rules)
  next
    case 2
    show ?case using i unfolding lmdb_inv_def lmdb_abs_def
      by (intro leads_rules) (auto simp: live_at_def)
  qed
  then show ?thesis by auto
qed

lemma lmdb_resolve_law:
  assumes E: "lmdb_env_ok E" and i: "lmdb_inv E s" and h: "h \<noteq> []" and run: "lmdb_resolve E now h s = (r, s')"
  shows "lmdb_inv E s' \<and> (failed_clean (lmdb_abs E) r s s' \<or> r = Ok (spec_resolve now h (lmdb_abs E s)) \<and> lmdb_abs E s' = lmdb_abs E s)"
proof -
  have "lmdb_inv E s' \<and> (failed_clean (lmdb_abs E) r s s' \<or> (\<exists>x. r = Ok x \<and> x = spec_resolve now h (lmdb_abs E s) \<and> lmdb_abs E s' = lmdb_abs E s))"
  proof (rule spawn_law [OF run [unfolded lmdb_resolve_def assert_holds [OF h]] i, where Q = "\<lambda>x st. x = spec_resolve now h (lmdb_abs E s) \<and> st = lmdb_abs E s"], goal_cases)
    case 1
    show ?case by (intro clean_rules clean_quiet quiet_rules)
  next
    case 2
    show ?case using i unfolding lmdb_inv_def lmdb_abs_def
      by (intro leads_rules) (auto simp: spec_resolve_def live_at_row retired_at_row)
  qed
  then show ?thesis by auto
qed

lemma lmdb_revoke_session_law:
  assumes E: "lmdb_env_ok E" and i: "lmdb_inv E s" and h: "h \<noteq> []" and run: "lmdb_revoke_session E h s = (r, s')"
  shows "lmdb_inv E s' \<and> (failed_clean (lmdb_abs E) r s s' \<or> r = Ok () \<and> lmdb_abs E s' = (lmdb_abs E s)\<lparr>live := (live (lmdb_abs E s))(h := None)\<rparr>)"
proof -
  have "lmdb_inv E s' \<and> (failed_clean (lmdb_abs E) r s s' \<or> (\<exists>u. r = Ok u \<and> lmdb_abs E s' = (lmdb_abs E s)\<lparr>live := (live (lmdb_abs E s))(h := None)\<rparr>))"
  proof (rule spawn_law [OF run [unfolded lmdb_revoke_session_def assert_holds [OF h]] i,
      where Q = "\<lambda>_ st. st = (lmdb_abs E s)\<lparr>live := (live (lmdb_abs E s))(h := None)\<rparr>"], goal_cases)
    case 1
    show ?case by (intro clean_rules quiet_rules)
  next
    case 2
    have "live_at (codec E) (cv E s) h = None \<Longrightarrow> (live_at (codec E) (cv E s))(h := None) = live_at (codec E) (cv E s)"
      by (simp add: fun_upd_idem)
    then show ?case using i lmdb_env_okD(1) [OF E] unfolding lmdb_inv_def lmdb_abs_def
      by (intro leads_rules) (auto simp: live_at_row absv_rm_live okv_rm_live)
  qed
  then show ?thesis by simp
qed

section \<open>The swap\<close>

lemma retirement_record_Ok:
  assumes "chrono_ok (clib E)" "retirement_record E h l new now = Ok r"
  shows "r = retention_record now (reuse_retention_secs E) l new" "s_hash l = h" "is_valid_family_id (s_family_id l)"
  using assms retention_deadline_Ok(2) [OF assms(1), of now "reuse_retention_secs E" "s_expires_at new"]
  by (auto simp: retirement_record_def retention_record_def split: if_splits outcome.splits)

lemma ins_retired_puts:
  "V(Retired_Tokens := (V Retired_Tokens)(r_hash r \<mapsto> b),
     Family_Index := ((V(Retired_Tokens := (V Retired_Tokens)(r_hash r \<mapsto> b))) Family_Index)
       (family_index_key (r_family_id r) (r_hash r) \<mapsto> FAMILY_INDEX_KIND_RETIRED)) = ins_retired V r b"
  by (simp add: ins_retired_def)

text \<open>The three steps of the swap, as maps: remove, file the retirement record, install.\<close>

lemma okv_retire:
  assumes ok: "okv C V" and l: "live_at C V h = Some l" and f: "s_family_id l \<noteq> []"
    and r: "r = retention_record now reten l new" and b: "dec_retired C b = Some r"
  shows "okv C (ins_retired (rm_live V h l) r b)"
proof -
  have row: "s_hash l = h" "is_valid_family_id (s_family_id l)" "V Retired_Tokens h = None"
    using okv_live [OF ok l] f by (auto simp: session_row_ok_def)
  show ?thesis using row r by (intro okv_ins_retired [OF okv_rm_live [OF ok l] b]) (simp_all add: rm_live_def)
qed

lemma okv_swap:
  assumes ok: "okv C V" and l: "live_at C V h = Some l" and b: "dec_session C b = Some new"
    and new: "s_hash new \<noteq> []" "is_valid_family_id (s_family_id new)" "s_user_id l = s_user_id new" "s_hash new \<noteq> h"
      "V Sessions (s_hash new) = None" "V Retired_Tokens (s_hash new) = None"
    and W: "okv C W" "W Sessions = (V Sessions)(h := None)" "W Retired_Tokens (s_hash new) = None"
  shows "okv C (ins_live W new b)"
proof -
  have "CHR '':'' \<notin> set (s_user_id new)" using okv_live [OF ok l] new(3) by (simp add: session_row_ok_def)
  then show ?thesis using new W by (intro okv_ins_live [OF W(1) b]) simp_all
qed

lemma swap_views:
  assumes ok: "okv C V" and l: "live_at C V h = Some l" and b: "dec_session C b = Some new"
    and new: "s_hash new \<noteq> []" "is_valid_family_id (s_family_id new)" "s_user_id l = s_user_id new" "s_hash new \<noteq> h"
      "V Sessions (s_hash new) = None" "V Retired_Tokens (s_hash new) = None"
  shows "s_family_id l = [] \<Longrightarrow> okv C (ins_live (rm_live V h l) new b)
      \<and> absv C (ins_live (rm_live V h l) new b) = spec_rotate now reten l new (absv C V)"
    and "s_family_id l \<noteq> [] \<Longrightarrow> r = retention_record now reten l new \<Longrightarrow> dec_retired C b' = Some r \<Longrightarrow>
      okv C (ins_live (ins_retired (rm_live V h l) r b') new b)
      \<and> absv C (ins_live (ins_retired (rm_live V h l) r b') new b) = spec_rotate now reten l new (absv C V)"
proof -
  have h: "s_hash l = h" using okv_live [OF ok l] by (simp add: session_row_ok_def)
  note sw = okv_swap [OF ok l b new]
  {
    assume f: "s_family_id l = []"
    have "okv C (ins_live (rm_live V h l) new b)"
      using new by (intro sw okv_rm_live [OF ok l]) (simp_all add: rm_live_def)
    then show "okv C (ins_live (rm_live V h l) new b)
      \<and> absv C (ins_live (rm_live V h l) new b) = spec_rotate now reten l new (absv C V)"
      using f h by (simp add: absv_ins_live [OF b] absv_rm_live spec_rotate_def)
  next
    assume f: "s_family_id l \<noteq> []" and r: "r = retention_record now reten l new" and b': "dec_retired C b' = Some r"
    have "okv C (ins_live (ins_retired (rm_live V h l) r b') new b)"
      using new r h by (intro sw okv_retire [OF ok l f r b']) (simp_all add: rm_live_def ins_retired_def)
    then show "okv C (ins_live (ins_retired (rm_live V h l) r b') new b)
      \<and> absv C (ins_live (ins_retired (rm_live V h l) r b') new b) = spec_rotate now reten l new (absv C V)"
      using f h r by (simp add: absv_ins_live [OF b] absv_rm_live absv_ins_retired [OF b' [unfolded r]] spec_rotate_def)
  }
qed

lemma lmdb_rotate_law:
  assumes E: "lmdb_env_ok E" and i: "lmdb_inv E s"
    and n: "is_valid_family_id (s_family_id new)" "s_hash new \<noteq> []" "s_hash new \<noteq> h"
    and run: "lmdb_rotate E now h new s = (r, s')"
  shows "lmdb_inv E s' \<and> (failed_clean (lmdb_abs E) r s s' \<or> r = Ok False \<and> live (lmdb_abs E s) h = None \<and> lmdb_abs E s' = lmdb_abs E s
    \<or> r = Ok True \<and> (\<exists>old. rotatable h old new (lmdb_abs E s)
        \<and> lmdb_abs E s' = spec_rotate now (reuse_retention_secs E) old new (lmdb_abs E s)))"
proof -
  let ?Q = "\<lambda>x st. x = False \<and> live (lmdb_abs E s) h = None \<and> st = lmdb_abs E s
    \<or> x = True \<and> (\<exists>old. rotatable h old new (lmdb_abs E s) \<and> st = spec_rotate now (reuse_retention_secs E) old new (lmdb_abs E s))"
  let ?V = "cv E s" and ?C = "codec E"
  have ok: "okv ?C ?V" using i by (simp add: lmdb_inv_def)
  have fin: "okv ?C W \<and> ?Q True (absv ?C W)"
    if "okv ?C W \<and> absv ?C W = spec_rotate now (reuse_retention_secs E) l new (absv ?C ?V)" "live_at ?C ?V h = Some l"
      "s_family_id l = [] \<or> s_family_id l = s_family_id new" "s_user_id l = s_user_id new"
      "?V Sessions (s_hash new) = None" "?V Retired_Tokens (s_hash new) = None" for W l
    using that by (auto simp: rotatable_def lmdb_abs_def live_at_row retired_at_row)
  have "lmdb_inv E s' \<and> (failed_clean (lmdb_abs E) r s s' \<or> (\<exists>x. r = Ok x \<and> ?Q x (lmdb_abs E s')))"
  proof (rule spawn_law [OF run [unfolded lmdb_rotate_def assert_holds [OF n(1)] assert_holds [OF not_sym [OF n(3)]]] i], goal_cases)
    case 1
    show ?case by (intro clean_rules quiet_rules) simp_all
  next
    case 2
    show ?case
    proof (intro leads_rules lmdb_env_okD(1) [OF E], goal_cases)
      case 1
      then show ?case using ok by (auto simp: lmdb_abs_def live_at_row)
    next
      case (2 b l e r' b' c)
      have l: "live_at ?C ?V h = Some l" using 2 by (simp add: live_at_row)
      note r' = retirement_record_Ok(1) [OF lmdb_env_okD(2) [OF E] 2(8)]
      have "okv ?C (ins_live (ins_retired (rm_live ?V h l) r' b') new c)
          \<and> absv ?C (ins_live (ins_retired (rm_live ?V h l) r' b') new c) = spec_rotate now (reuse_retention_secs E) l new (absv ?C ?V)"
        using 2 n by (intro swap_views(2) [OF ok l] lmdb_env_okD(3,4) [OF E] r') simp_all
      from fin [OF this l] 2 show ?case unfolding ins_retired_puts by blast
    next
      case (3 b l e c)
      have l: "live_at ?C ?V h = Some l" using 3 by (simp add: live_at_row)
      have "okv ?C (ins_live (rm_live ?V h l) new c)
          \<and> absv ?C (ins_live (rm_live ?V h l) new c) = spec_rotate now (reuse_retention_secs E) l new (absv ?C ?V)"
        using 3 n by (intro swap_views(1) [OF ok l] lmdb_env_okD(3) [OF E]) simp_all
      from fin [OF this l] 3 show ?case by blast
    qed
  qed
  then show ?thesis by auto
qed

section \<open>Single-use records\<close>

lemma absv_single_upd: "absv C (V(Single_Use := m)) = (absv C V)\<lparr>single := (\<lambda>k. Option.bind (m k) (dec_time C))\<rparr>"
  by (auto simp: absv_def live_at_def retired_at_def fun_eq_iff)

lemma single_put_view:
  assumes "okv C V" "dec_time C b = Some t"
  shows "okv C (V(Single_Use := (V Single_Use)(k \<mapsto> b))) \<and> absv C (V(Single_Use := (V Single_Use)(k \<mapsto> b))) = (absv C V)\<lparr>single := (single (absv C V))(k \<mapsto> t)\<rparr>"
  using assms by (auto intro!: okv_single_upd dest: okv_single simp: absv_single_upd single_absv fun_eq_iff split: if_splits)

lemma single_take_view:
  assumes "okv C V"
  shows "okv C (V(Single_Use := (V Single_Use)(k := None))) \<and> absv C (V(Single_Use := (V Single_Use)(k := None))) = (absv C V)\<lparr>single := (single (absv C V))(k := None)\<rparr>"
  using assms by (auto intro!: okv_single_upd dest: okv_single simp: absv_single_upd single_absv fun_eq_iff split: if_splits)

lemma lmdb_put_law:
  assumes E: "lmdb_env_ok E" and i: "lmdb_inv E s" and k: "k \<noteq> []" and run: "lmdb_put_single_use E now k t s = (r, s')"
  shows "lmdb_inv E s' \<and> (failed_clean (lmdb_abs E) r s s' \<or> r = Ok False \<and> single_live now k (lmdb_abs E s) \<and> lmdb_abs E s' = lmdb_abs E s
    \<or> r = Ok True \<and> \<not> single_live now k (lmdb_abs E s) \<and> lmdb_abs E s' = (lmdb_abs E s)\<lparr>single := (single (lmdb_abs E s))(k \<mapsto> t)\<rparr>)"
proof -
  let ?Q = "\<lambda>x st. x = False \<and> single_live now k (lmdb_abs E s) \<and> st = lmdb_abs E s
    \<or> x = True \<and> \<not> single_live now k (lmdb_abs E s) \<and> st = (lmdb_abs E s)\<lparr>single := (single (lmdb_abs E s))(k \<mapsto> t)\<rparr>"
  have ok: "okv (codec E) (cv E s)" using i by (simp add: lmdb_inv_def)
  note put = single_put_view [OF ok lmdb_env_okD(5) [OF E], of k t]
  have "lmdb_inv E s' \<and> (failed_clean (lmdb_abs E) r s s' \<or> (\<exists>x. r = Ok x \<and> ?Q x (lmdb_abs E s')))"
  proof (rule spawn_law [OF run [unfolded lmdb_put_single_use_def assert_holds [OF k]] i, where Q = ?Q], goal_cases)
    case 1
    show ?case by (intro clean_rules quiet_rules)
  next
    case 2
    show ?case using ok put
      by (intro leads_rules lmdb_env_okD(1) [OF E]) (auto simp: lmdb_abs_def single_live_absv)
  qed
  then show ?thesis by auto
qed

lemma lmdb_take_law:
  assumes E: "lmdb_env_ok E" and i: "lmdb_inv E s" and k: "k \<noteq> []" and run: "lmdb_take_single_use E now k s = (r, s')"
  shows "lmdb_inv E s' \<and> (failed_clean (lmdb_abs E) r s s'
    \<or> r = Ok (single_live now k (lmdb_abs E s)) \<and> lmdb_abs E s' = (lmdb_abs E s)\<lparr>single := (single (lmdb_abs E s))(k := None)\<rparr>)"
proof -
  let ?Q = "\<lambda>x st. x = single_live now k (lmdb_abs E s) \<and> st = (lmdb_abs E s)\<lparr>single := (single (lmdb_abs E s))(k := None)\<rparr>"
  have ok: "okv (codec E) (cv E s)" using i by (simp add: lmdb_inv_def)
  have none: "(absv (codec E) V)\<lparr>single := (single (absv (codec E) V))(k := None)\<rparr> = absv (codec E) V" if "V Single_Use k = None" for V
    using that by (auto simp: absv_def fun_eq_iff)
  have "lmdb_inv E s' \<and> (failed_clean (lmdb_abs E) r s s' \<or> (\<exists>x. r = Ok x \<and> ?Q x (lmdb_abs E s')))"
  proof (rule spawn_law [OF run [unfolded lmdb_take_single_use_def assert_holds [OF k]] i, where Q = ?Q], goal_cases)
    case 1
    show ?case by (intro clean_rules quiet_rules)
  next
    case 2
    show ?case using ok single_take_view [OF ok, of k] none [of "cv E s"]
      by (intro leads_rules lmdb_env_okD(1) [OF E]) (auto simp: lmdb_abs_def single_live_absv)
  qed
  then show ?thesis by auto
qed

section \<open>Removing many entries\<close>

definition entry_in :: "lmdb_codec \<Rightarrow> view \<Rightarrow> expired_entry \<Rightarrow> bool" where
  "entry_in C V e = (case e of ExpLive x \<Rightarrow> live_at C V (s_hash x) = Some x | ExpRetired r \<Rightarrow> retired_at C V (r_hash r) = Some r)"

definition rm_entry :: "view \<Rightarrow> expired_entry \<Rightarrow> view" where
  "rm_entry V e = (case e of ExpLive x \<Rightarrow> rm_live V (s_hash x) x | ExpRetired r \<Rightarrow> rm_retired V r)"

abbreviation rm_entries :: "view \<Rightarrow> expired_entry list \<Rightarrow> view" where
  "rm_entries V es \<equiv> foldl rm_entry V es"

definition drop_entries :: "expired_entry set \<Rightarrow> fam_store \<Rightarrow> fam_store" where
  "drop_entries A st = drop_live (\<lambda>x. ExpLive x \<in> A) (drop_retired (\<lambda>r. ExpRetired r \<in> A) st)"

lemma entry_in_rm: "entry_in C V e \<Longrightarrow> e \<noteq> d \<Longrightarrow> entry_in C V d \<Longrightarrow> entry_in C (rm_entry V d) e"
  by (auto simp: entry_in_def rm_entry_def split: expired_entry.splits)

lemma okv_rm_entry: "okv C V \<Longrightarrow> entry_in C V e \<Longrightarrow> okv C (rm_entry V e)"
  by (auto simp: entry_in_def rm_entry_def okv_rm_live okv_rm_retired split: expired_entry.splits)

lemma fam_store_eqI: "live a = live b \<Longrightarrow> retired a = retired b \<Longrightarrow> single a = single b \<Longrightarrow> a = (b :: fam_store)"
  by simp

lemma drop_entries_simps [simp]:
  "live (drop_entries A st) h = Option.bind (live st h) (\<lambda>x. if ExpLive x \<in> A then None else Some x)"
  "retired (drop_entries A st) h = Option.bind (retired st h) (\<lambda>r. if ExpRetired r \<in> A then None else Some r)"
  "single (drop_entries A st) = single st"
  by (simp_all add: drop_entries_def)

lemma drop_entries_insert: "drop_entries A (drop_entries {e} st) = drop_entries (insert e A) st"
proof (rule fam_store_eqI; rule ext)
  show "live (drop_entries A (drop_entries {e} st)) h = live (drop_entries (insert e A) st) h" for h by (cases "live st h") auto
  show "retired (drop_entries A (drop_entries {e} st)) h = retired (drop_entries (insert e A) st) h" for h by (cases "retired st h") auto
qed simp

lemma absv_rm_entry:
  assumes ok: "okv C V" and e: "entry_in C V e"
  shows "absv C (rm_entry V e) = drop_entries {e} (absv C V)"
proof (cases e)
  case (ExpLive x)
  have h: "live_at C V h = Some x \<Longrightarrow> h = s_hash x" for h using okv_live [OF ok, of h x] by (auto simp: session_row_ok_def)
  have "live (absv C (rm_entry V e)) h = live (drop_entries {e} (absv C V)) h" for h
    using ExpLive e h [of h] by (cases "live_at C V h") (auto simp: rm_entry_def entry_in_def)
  moreover have "retired (drop_entries {e} (absv C V)) h = retired (absv C V) h" for h
    using ExpLive by (cases "retired_at C V h") auto
  ultimately show ?thesis using ExpLive
    by (intro fam_store_eqI ext) (simp_all add: rm_entry_def absv_rm_live)
next
  case (ExpRetired r)
  have h: "retired_at C V h = Some r \<Longrightarrow> h = r_hash r" for h using okv_ret [OF ok, of h r] by (auto simp: retired_row_ok_def)
  have "retired (absv C (rm_entry V e)) h = retired (drop_entries {e} (absv C V)) h" for h
    using ExpRetired e h [of h] by (cases "retired_at C V h") (auto simp: rm_entry_def entry_in_def)
  moreover have "live (drop_entries {e} (absv C V)) h = live (absv C V) h" for h
    using ExpRetired by (cases "live_at C V h") auto
  ultimately show ?thesis using ExpRetired
    by (intro fam_store_eqI ext) (simp_all add: rm_entry_def absv_rm_retired)
qed

lemma rm_entries_view:
  assumes "okv C V" "\<forall>e \<in> set es. entry_in C V e" "distinct es"
  shows "okv C (rm_entries V es) \<and> absv C (rm_entries V es) = drop_entries (set es) (absv C V)"
  using assms
proof (induction es arbitrary: V)
  case Nil
  have "drop_entries {} (absv C V) = absv C V" 
    by (intro fam_store_eqI ext) (simp_all split: Option.bind_splits)
  then show ?case using Nil by simp
next
  case (Cons e es)
  have "\<forall>d \<in> set es. entry_in C (rm_entry V e) d" using Cons.prems entry_in_rm [of C V _ e] by auto
  then have "okv C (rm_entries (rm_entry V e) es) \<and> absv C (rm_entries (rm_entry V e) es) = drop_entries (set es) (absv C (rm_entry V e))"
    using Cons.prems by (intro Cons.IH) (auto intro: okv_rm_entry)
  then show ?case using Cons.prems by (simp add: absv_rm_entry drop_entries_insert)
qed

end
