(* ===== verification/Lmdb_Loops.thy ===== *)
theory Lmdb_Loops
  imports Lmdb_Refine
begin

text \<open>
  The laws of the LMDB operations that loop over a database: counting, listing, revoking a family
  or a user, and the sweep, and with them the refinement theorem.
\<close>

section \<open>What the loops compute\<close>

definition add_opt :: "('i \<Rightarrow> 'a option) \<Rightarrow> 'i \<Rightarrow> 'a list \<Rightarrow> 'a list" where
  "add_opt f x acc = (case f x of None \<Rightarrow> acc | Some y \<Rightarrow> acc @ [y])"

lemma fold_add_opt: "fold (add_opt f) xs acc = acc @ List.map_filter f xs"
  by (induction xs arbitrary: acc) (auto simp: add_opt_def map_filter_simps split: option.splits)

lemma set_map_filter_iff: "y \<in> set (List.map_filter f xs) \<longleftrightarrow> (\<exists>x \<in> set xs. f x = Some y)"
  by (induction xs) (auto simp: map_filter_simps split: option.splits)

lemma rows_distinct:
  assumes "rows_of P m items" "\<And>k v k' v' y. f (k, v) = Some y \<Longrightarrow> f (k', v') = Some y \<Longrightarrow>
      P k \<Longrightarrow> P k' \<Longrightarrow> m k = Some v \<Longrightarrow> m k' = Some v' \<Longrightarrow> k = k'"
  shows "distinct (List.map_filter f items)"
proof -
  have "distinct (List.map_filter f xs)" if "distinct (map fst xs)" "\<And>k v. (k, v) \<in> set xs \<Longrightarrow> P k \<and> m k = Some v" for xs
    using that
  proof (induction xs)
    case (Cons a xs)
    obtain k v where a: "a = (k, v)" by (cases a)
    have ih: "distinct (List.map_filter f xs)" using Cons by auto
    have "y \<notin> set (List.map_filter f xs)" if y: "f a = Some y" for y
    proof
      assume "y \<in> set (List.map_filter f xs)"
      then obtain k' v' where kv: "(k', v') \<in> set xs" "f (k', v') = Some y" by (auto simp: set_map_filter_iff)
      then have "k = k'" using y a Cons.prems(2) by (intro assms(2) [of k v y k' v']) auto
      then show False using Cons.prems(1) kv(1) a by force
    qed
    then show ?case using ih by (simp add: map_filter_simps split: option.splits)
  qed (simp add: map_filter_simps)
  then show ?thesis using assms(1) by (auto simp: rows_of_def)
qed

lemma rows_set: "rows_of P m items \<Longrightarrow> set (List.map_filter f items) = {y. \<exists>k v. P k \<and> m k = Some v \<and> f (k, v) = Some y}"
proof (rule set_eqI)
  fix y assume r: "rows_of P m items"
  have "(\<exists>x \<in> set items. f x = Some y) \<longleftrightarrow> (\<exists>k v. (k, v) \<in> set items \<and> f (k, v) = Some y)" by (metis surj_pair)
  then show "y \<in> set (List.map_filter f items) \<longleftrightarrow> y \<in> {y. \<exists>k v. P k \<and> m k = Some v \<and> f (k, v) = Some y}"
    using r unfolding rows_of_def set_map_filter_iff by simp
qed

lemma rows_card:
  assumes "rows_of P m items"
  shows "length (filter (\<lambda>(k, v). R k v) items) = card {k. P k \<and> (\<exists>v. m k = Some v \<and> R k v)}"
proof -
  have "k \<in> set (map fst (filter (\<lambda>(k, v). R k v) items)) \<longleftrightarrow> (\<exists>v. (k, v) \<in> set items \<and> R k v)" for k
    by (auto simp: image_iff)
  then have "{k. P k \<and> (\<exists>v. m k = Some v \<and> R k v)} = set (map fst (filter (\<lambda>(k, v). R k v) items))"
    using assms unfolding rows_of_def by blast
  moreover have "distinct (map fst (filter (\<lambda>(k, v). R k v) items))" using assms by (simp add: rows_of_def distinct_map_filter)
  ultimately show ?thesis by (metis distinct_card length_map)
qed

section \<open>Counting and listing\<close>

lemma lmdb_count_law:
  assumes E: "lmdb_env_ok E" and i: "lmdb_inv E s" and run: "lmdb_count_active_sessions E now s = (r, s')"
  shows "lmdb_inv E s' \<and> (failed_clean (lmdb_abs E) r s s' \<or> lmdb_abs E s' = lmdb_abs E s
    \<and> r = Ok (of_nat (card {h. \<exists>x. live (lmdb_abs E s) h = Some x \<and> now < s_expires_at x})))"
proof -
  let ?C = "codec E" and ?V = "cv E s"
  let ?Q = "\<lambda>n st. st = lmdb_abs E s \<and> n = of_nat (card {h. \<exists>x. live (lmdb_abs E s) h = Some x \<and> now < s_expires_at x})"
  let ?act = "\<lambda>(h :: string) b. \<exists>x. dec_session ?C b = Some x \<and> now < s_expires_at x"
  let ?g = "\<lambda>kv count. case dec_session ?C (snd kv) of Some x \<Rightarrow> if now < s_expires_at x then count + 1 else count | None \<Rightarrow> count"
  have cnt: "fold ?g items n = n + of_nat (length (filter (\<lambda>(k, b). ?act k b) items))" for items :: "(string \<times> string) list" and n :: u64
    by (induction items arbitrary: n) (auto split: option.splits)
  have eq: "{h. \<exists>x. live_at ?C ?V h = Some x \<and> now < s_expires_at x} = {h. True \<and> (\<exists>b. ?V Sessions h = Some b \<and> ?act h b)}"
    by (auto simp: live_at_def bind_eq_Some_conv)
  have "lmdb_inv E s' \<and> (failed_clean (lmdb_abs E) r s s' \<or> (\<exists>x. r = Ok x \<and> ?Q x (lmdb_abs E s')))"
  proof (rule spawn_law [OF run [unfolded lmdb_count_active_sessions_def] i, where Q = ?Q], goal_cases)
    case 1
    show ?case by (intro clean_rules clean_quiet quiet_rules)
  next
    case 2
    show ?case
    proof (intro leads_rules lmdb_env_okD(1) [OF E] leads_for_items [where g = ?g], goal_cases)
      case (2 items)
      then show ?case using i eq rows_card [OF 2, of ?act] unfolding lmdb_abs_def lmdb_inv_def cnt by simp
    qed simp
  qed
  then show ?thesis by auto
qed

definition listed :: "lmdb_codec \<Rightarrow> view \<Rightarrow> string \<Rightarrow> instant \<Rightarrow> string \<times> string \<Rightarrow> session option" where
  "listed C V u now kv = (case strip_prefix (u @ '':'') (fst kv) of None \<Rightarrow> None
     | Some h \<Rightarrow> (case live_at C V h of Some x \<Rightarrow> if s_user_id x = u \<and> now < s_expires_at x then Some x else None | None \<Rightarrow> None))"

lemma listed_Some: "listed C V u now (k, v) = Some x \<longleftrightarrow>
   (\<exists>h. strip_prefix (u @ '':'') k = Some h \<and> live_at C V h = Some x \<and> s_user_id x = u \<and> now < s_expires_at x)"
  unfolding listed_def by (cases "strip_prefix (u @ '':'') k") (auto simp del: strip_prefix_Some split: option.splits if_splits)

lemma newest_first: "sorted_wrt (\<lambda>a b. s_created_at b \<le> s_created_at a) (sort_key (\<lambda>x. - s_created_at x) xs)"
  using sorted_sort_key [of "\<lambda>x. - s_created_at x" xs] by (simp add: sorted_wrt_map)

lemma lmdb_list_law:
  assumes E: "lmdb_env_ok E" and i: "lmdb_inv E s" and u: "user_id_ok u" and run: "lmdb_list_live_sessions E u now lmt s = (r, s')"
  shows "lmdb_inv E s' \<and> (failed_clean (lmdb_abs E) r s s' \<or> lmdb_abs E s' = lmdb_abs E s \<and> (\<exists>xs. r = Ok (take lmt xs) \<and> distinct xs
    \<and> set xs = {x. live (lmdb_abs E s) (s_hash x) = Some x \<and> s_user_id x = u \<and> now < s_expires_at x}
    \<and> sorted_wrt (\<lambda>a b. s_created_at b \<le> s_created_at a) xs))"
proof -
  let ?C = "codec E" and ?V = "cv E s"
  let ?S = "{x. live (lmdb_abs E s) (s_hash x) = Some x \<and> s_user_id x = u \<and> now < s_expires_at x}"
  let ?Q = "\<lambda>ys st. st = lmdb_abs E s \<and> (\<exists>xs. ys = take lmt xs \<and> distinct xs \<and> set xs = ?S
    \<and> sorted_wrt (\<lambda>a b. s_created_at b \<le> s_created_at a) xs)"
  let ?f = "listed ?C ?V u now"
  have ok: "okv ?C ?V" using i by (simp add: lmdb_inv_def)
  have hash: "live_at ?C ?V h = Some x \<Longrightarrow> s_hash x = h" for h x using okv_live [OF ok, of h x] by (simp add: session_row_ok_def)
  have found: "distinct (List.map_filter ?f items) \<and> set (List.map_filter ?f items) = ?S"
    if rows: "rows_of (prefix (u @ '':'')) (?V User_Sessions) items" for items
  proof
    show "distinct (List.map_filter ?f items)"
      by (rule rows_distinct [OF rows]) (use hash in \<open>unfold listed_Some strip_prefix_Some; blast\<close>)
    show "set (List.map_filter ?f items) = ?S" (is "?L = _")
    proof
      show "?L \<subseteq> ?S" using hash unfolding rows_set [OF rows] listed_Some lmdb_abs_def absv_simps by blast
      show "?S \<subseteq> ?L"
      proof
        fix x assume x: "x \<in> ?S"
        then have l: "live_at ?C ?V (s_hash x) = Some x" by (simp add: lmdb_abs_def)
        obtain v where "?V User_Sessions (user_session_key u (s_hash x)) = Some v"
          using okv_live [OF ok l] x by (auto simp: session_row_ok_def)
        moreover have "prefix (u @ '':'') (user_session_key u (s_hash x))" by (simp add: user_session_key_def)
        moreover have "?f (user_session_key u (s_hash x), v) = Some x" using x l unfolding listed_Some by (auto simp: user_session_key_def)
        ultimately show "x \<in> ?L" unfolding rows_set [OF rows] by blast
      qed
    qed
  qed
  have "lmdb_inv E s' \<and> (failed_clean (lmdb_abs E) r s s' \<or> (\<exists>x. r = Ok x \<and> ?Q x (lmdb_abs E s')))"
  proof (rule spawn_law [OF run [unfolded lmdb_list_live_sessions_def] i, where Q = ?Q], goal_cases)
    case 1
    show ?case by (intro clean_rules clean_quiet quiet_rules)
  next
    case 2
    show ?case
    proof (intro leads_rules lmdb_env_okD(1) [OF E] leads_for_items [where g = "add_opt ?f"], goal_cases)
      case (1 items kv a)
      show ?case unfolding list_index_entry_def
        by (intro leads_rules) (auto simp: add_opt_def listed_def live_at_row simp del: strip_prefix_Some)
    next
      case (2 items)
      then show ?case using ok found [OF 2] newest_first [of "List.map_filter ?f items"]
        by (intro conjI exI [of _ "sort_key (\<lambda>x. - s_created_at x) (List.map_filter ?f items)"])
          (simp_all add: fold_add_opt lmdb_abs_def)
    qed
  qed
  then show ?thesis by blast
qed

section \<open>Revoking a family\<close>

text \<open>The two loops over the hashes the index names remove the sessions and records they name.\<close>

lemma leads_revoke_hash:
  assumes H: "heed_ok (heed E)"
  shows "live_at (codec E) V h = Some x \<Longrightarrow> Q (n + 1) (rm_live V h x) K \<Longrightarrow> leads E (revoke_live_hash E f h n) V K Q"
    "retired_at (codec E) V h = Some r \<Longrightarrow> Q' (n + 1) (rm_retired V r) K \<Longrightarrow> leads E (revoke_retired_hash E f h n) V K Q'"
  unfolding revoke_live_hash_def revoke_retired_hash_def
  by (intro leads_rules H; simp add: live_at_def retired_at_def)+

lemma leads_revoke_lives:
  assumes H: "heed_ok (heed E)"
    and "okv (codec E) V" "\<forall>x \<in> set xs. live_at (codec E) V (s_hash x) = Some x" "distinct xs"
    and "Q (n + of_nat (length xs)) (rm_entries V (map ExpLive xs)) K"
  shows "leads E (for_each (map s_hash xs) (revoke_live_hash E f) n) V K Q"
  using assms(2-)
proof (induction xs arbitrary: V n)
  case Nil
  then show ?case by (simp add: leads_def)
next
  case (Cons x xs)
  let ?W = "rm_live V (s_hash x) x"
  have l: "live_at (codec E) V (s_hash x) = Some x" using Cons.prems by simp
  have "\<forall>y \<in> set xs. s_hash y \<noteq> s_hash x" using Cons.prems by (metis distinct.simps(2) list.set_intros option.inject)
  then have "leads E (for_each (map s_hash xs) (revoke_live_hash E f) (n + 1)) ?W K Q"
    using Cons.prems okv_rm_live [OF Cons.prems(1) l] by (intro Cons.IH) (auto simp: rm_entry_def algebra_simps)
  then show ?case using l by (auto intro!: leads_bindq leads_revoke_hash(1) [OF H])
qed

lemma leads_revoke_rets:
  assumes H: "heed_ok (heed E)"
    and "okv (codec E) V" "\<forall>r \<in> set rs. retired_at (codec E) V (r_hash r) = Some r" "distinct rs"
    and "Q (n + of_nat (length rs)) (rm_entries V (map ExpRetired rs)) K"
  shows "leads E (for_each (map r_hash rs) (revoke_retired_hash E f) n) V K Q"
  using assms(2-)
proof (induction rs arbitrary: V n)
  case Nil
  then show ?case by (simp add: leads_def)
next
  case (Cons r rs)
  have l: "retired_at (codec E) V (r_hash r) = Some r" using Cons.prems by simp
  have "\<forall>q \<in> set rs. r_hash q \<noteq> r_hash r" using Cons.prems by (metis distinct.simps(2) list.set_intros option.inject)
  then have "leads E (for_each (map r_hash rs) (revoke_retired_hash E f) (n + 1)) (rm_retired V r) K Q"
    using Cons.prems okv_rm_retired [OF Cons.prems(1) l] by (intro Cons.IH) (auto simp: rm_entry_def algebra_simps)
  then show ?case using l by (auto intro!: leads_bindq leads_revoke_hash(2) [OF H])
qed

text \<open>What the index walk collects.\<close>

definition index_hash :: "string \<Rightarrow> bool \<Rightarrow> string \<times> string \<Rightarrow> string option" where
  "index_hash p liv kv = (if (snd kv = FAMILY_INDEX_KIND_LIVE) = liv then strip_prefix p (fst kv) else None)"

definition split_fold :: "string \<Rightarrow> string \<times> string \<Rightarrow> string list \<times> string list \<Rightarrow> string list \<times> string list" where
  "split_fold p kv acc = (add_opt (index_hash p True) kv (fst acc), add_opt (index_hash p False) kv (snd acc))"

lemma fold_split: "fold (split_fold p) items (as, bs) = (as @ List.map_filter (index_hash p True) items, bs @ List.map_filter (index_hash p False) items)"
  by (induction items arbitrary: "as" bs) (auto simp: split_fold_def add_opt_def map_filter_simps split: option.splits)

lemma leads_split: "leads E (split_index_entry p kv acc) V K (\<lambda>a V' K'. a = split_fold p kv acc \<and> V' = V \<and> K' = K)"
  unfolding split_index_entry_def
  by (intro leads_rules) (auto simp: split_fold_def add_opt_def index_hash_def simp del: strip_prefix_Some)

lemma index_lists:
  assumes ok: "okv C V" and f: "is_valid_family_id f" and rows: "rows_of (prefix (f @ [CHR 0x00])) (V Family_Index) items"
  shows "distinct (List.map_filter (index_hash (f @ [CHR 0x00]) liv) items)"
    "set (List.map_filter (index_hash (f @ [CHR 0x00]) True) items) = {h. \<exists>x. live_at C V h = Some x \<and> s_family_id x = f}"
    "set (List.map_filter (index_hash (f @ [CHR 0x00]) False) items) = {h. \<exists>r. retired_at C V h = Some r \<and> r_family_id r = f}"
proof -
  let ?p = "f @ [CHR 0x00]"
  have ne: "f \<noteq> []" using f is_valid_family_id_nonempty by blast
  show "distinct (List.map_filter (index_hash ?p liv) items)"
    by (rule rows_distinct [OF rows]) (auto simp: index_hash_def split: if_splits)
  have row: "(\<exists>x. live_at C V h = Some x \<and> s_family_id x = f \<and> v = FAMILY_INDEX_KIND_LIVE)
      \<or> (\<exists>r. retired_at C V h = Some r \<and> r_family_id r = f \<and> v = FAMILY_INDEX_KIND_RETIRED)"
    if kv: "V Family_Index (?p @ h) = Some v" for h v
    using okv_index [OF ok kv]
  proof (cases rule: index_rowE)
    case (live h' x)
    then have "is_valid_family_id (s_family_id x)" using okv_live [OF ok live(2)] by (simp add: session_row_ok_def)
    then show ?thesis using live family_index_key_inj [OF f, of "s_family_id x" h h'] by (simp add: family_index_key_def)
  next
    case (ret h' r)
    then have "is_valid_family_id (r_family_id r)" using okv_ret [OF ok ret(2)] by (simp add: retired_row_ok_def)
    then show ?thesis using ret family_index_key_inj [OF f, of "r_family_id r" h h'] by (simp add: family_index_key_def)
  qed
  have mem: "h \<in> set (List.map_filter (index_hash ?p liv) items) \<longleftrightarrow> (\<exists>v. V Family_Index (?p @ h) = Some v \<and> (v = FAMILY_INDEX_KIND_LIVE) = liv)" for h liv
  proof -
    have "index_hash ?p liv (k, v) = Some h \<longleftrightarrow> (v = FAMILY_INDEX_KIND_LIVE) = liv \<and> k = ?p @ h" for k v
      by (simp add: index_hash_def)
    moreover have "prefix ?p (?p @ h)" by (rule prefixI) (rule refl)
    ultimately show ?thesis unfolding rows_set [OF rows] mem_Collect_eq by metis
  qed
  have l: "live_at C V h = Some x \<Longrightarrow> s_family_id x = f \<Longrightarrow> V Family_Index (?p @ h) = Some FAMILY_INDEX_KIND_LIVE" for h x
    using okv_live [OF ok, of h x] ne by (auto simp: session_row_ok_def family_index_key_def)
  have r: "retired_at C V h = Some x \<Longrightarrow> r_family_id x = f \<Longrightarrow> V Family_Index (?p @ h) = Some FAMILY_INDEX_KIND_RETIRED" for h x
    using okv_ret [OF ok, of h x] by (auto simp: retired_row_ok_def family_index_key_def)
  show "set (List.map_filter (index_hash ?p True) items) = {h. \<exists>x. live_at C V h = Some x \<and> s_family_id x = f}"
  proof (rule set_eqI)
    fix h
    show "h \<in> set (List.map_filter (index_hash ?p True) items) \<longleftrightarrow> h \<in> {h. \<exists>x. live_at C V h = Some x \<and> s_family_id x = f}"
      unfolding mem mem_Collect_eq using row [of h] l [of h] by (metis kinds_differ(1))
  qed
  show "set (List.map_filter (index_hash ?p False) items) = {h. \<exists>x. retired_at C V h = Some x \<and> r_family_id x = f}"
  proof (rule set_eqI)
    fix h
    show "h \<in> set (List.map_filter (index_hash ?p False) items) \<longleftrightarrow> h \<in> {h. \<exists>x. retired_at C V h = Some x \<and> r_family_id x = f}"
      unfolding mem mem_Collect_eq using row [of h] r [of h] by (metis kinds_differ(1))
  qed
qed

lemma drop_entries_cong:
  assumes "\<And>h x. live st h = Some x \<Longrightarrow> ExpLive x \<in> A \<longleftrightarrow> P x" "\<And>h r. retired st h = Some r \<Longrightarrow> ExpRetired r \<in> A \<longleftrightarrow> Q r"
  shows "drop_entries A st = drop_live P (drop_retired Q st)"
proof (rule fam_store_eqI; rule ext)
  show "live (drop_entries A st) h = live (drop_live P (drop_retired Q st)) h" for h using assms(1) [of h] by (cases "live st h") auto
  show "retired (drop_entries A st) h = retired (drop_live P (drop_retired Q st)) h" for h using assms(2) [of h] by (cases "retired st h") auto
qed simp

text \<open>A list of distinct hashes that name the rows with a property is the hashes of those rows.\<close>

lemma named_rows:
  fixes m :: "string \<Rightarrow> 'r option"
  assumes key: "\<And>h x. m h = Some x \<Longrightarrow> key x = h" and d: "distinct hs" and s: "set hs = {h. \<exists>x. m h = Some x \<and> P x}"
  shows "\<exists>xs. hs = map key xs \<and> distinct xs \<and> set xs = {x. m (key x) = Some x \<and> P x}"
proof -
  have named: "m h = Some (the (m h)) \<and> P (the (m h)) \<and> key (the (m h)) = h" if h: "h \<in> set hs" for h
  proof -
    from h s obtain x where "m h = Some x" "P x" by blast
    then show ?thesis using key [of h x] by simp
  qed
  then have hs: "map key (map (\<lambda>h. the (m h)) hs) = hs" by (simp add: map_idI)
  have "x \<in> set (map (\<lambda>h. the (m h)) hs) \<longleftrightarrow> m (key x) = Some x \<and> P x" for x
  proof
    assume "x \<in> set (map (\<lambda>h. the (m h)) hs)"
    then obtain h where "h \<in> set hs" "x = the (m h)" by auto
    then show "m (key x) = Some x \<and> P x" using named [of h] by simp
  next
    assume x: "m (key x) = Some x \<and> P x"
    then have "key x \<in> set hs" using s by blast
    moreover have "x = the (m (key x))" using x by simp
    ultimately show "x \<in> set (map (\<lambda>h. the (m h)) hs)" unfolding set_map by (rule rev_image_eqI)
  qed
  then have "set (map (\<lambda>h. the (m h)) hs) = {x. m (key x) = Some x \<and> P x}" by blast
  moreover have "distinct (map key (map (\<lambda>h. the (m h)) hs))" unfolding hs by (rule d)
  then have "distinct (map (\<lambda>h. the (m h)) hs)" unfolding distinct_map [of key] by blast
  ultimately show ?thesis using hs [symmetric] by blast
qed

lemma live_hash: "okv C V \<Longrightarrow> live_at C V h = Some x \<Longrightarrow> s_hash x = h"
  using okv_live [of C V h x] by (simp add: session_row_ok_def)

lemma retired_hash: "okv C V \<Longrightarrow> retired_at C V h = Some r \<Longrightarrow> r_hash r = h"
  using okv_ret [of C V h r] by (simp add: retired_row_ok_def)

lemma retired_at_rm_lives [simp]: "retired_at C (rm_entries V (map ExpLive xs)) = retired_at C V"
  by (induction xs arbitrary: V) (simp_all add: rm_entry_def)

lemma rm_lives_rets:
  assumes ok: "okv C V"
    and xs: "distinct xs" "set xs = {x. live_at C V (s_hash x) = Some x \<and> P x}"
    and rs: "distinct rs" "set rs = {r. retired_at C V (r_hash r) = Some r \<and> Q r}"
  shows "okv C (rm_entries V (map ExpLive xs))"
    "okv C (rm_entries (rm_entries V (map ExpLive xs)) (map ExpRetired rs))"
    "absv C (rm_entries (rm_entries V (map ExpLive xs)) (map ExpRetired rs)) = drop_live P (drop_retired Q (absv C V))"
proof -
  let ?es = "map ExpLive xs @ map ExpRetired rs"
  have e: "\<forall>e \<in> set ?es. entry_in C V e" using xs rs by (auto simp: entry_in_def)
  have d: "distinct ?es" "distinct (map ExpLive xs)" using xs rs by (auto simp: distinct_map inj_on_def)
  show "okv C (rm_entries V (map ExpLive xs))" using rm_entries_view [OF ok _ d(2)] e by simp
  have v: "okv C (rm_entries V ?es) \<and> absv C (rm_entries V ?es) = drop_entries (set ?es) (absv C V)"
    using rm_entries_view [OF ok e d(1)] .
  then show "okv C (rm_entries (rm_entries V (map ExpLive xs)) (map ExpRetired rs))" by simp
  have "drop_entries (set ?es) (absv C V) = drop_live P (drop_retired Q (absv C V))"
    using xs(2) rs(2) live_hash [OF ok] retired_hash [OF ok] by (intro drop_entries_cong) auto
  then show "absv C (rm_entries (rm_entries V (map ExpLive xs)) (map ExpRetired rs)) = drop_live P (drop_retired Q (absv C V))"
    using v by simp
qed

lemma lmdb_revoke_family_law:
  assumes E: "lmdb_env_ok E" and i: "lmdb_inv E s" and f: "is_valid_family_id f" and run: "lmdb_revoke_family E f s = (r, s')"
  shows "lmdb_inv E s' \<and> (failed_clean (lmdb_abs E) r s s' \<or> lmdb_abs E s' = spec_revoke_family f (lmdb_abs E s)
    \<and> r = Ok (of_nat (card {h. \<exists>x. live (lmdb_abs E s) h = Some x \<and> s_family_id x = f}
        + card {h. \<exists>x. retired (lmdb_abs E s) h = Some x \<and> r_family_id x = f})))"
proof -
  let ?C = "codec E" and ?V = "cv E s" and ?p = "f @ [CHR 0x00]"
  let ?L = "{h. \<exists>x. live (lmdb_abs E s) h = Some x \<and> s_family_id x = f}"
  let ?R = "{h. \<exists>x. retired (lmdb_abs E s) h = Some x \<and> r_family_id x = f}"
  let ?Q = "\<lambda>n st. st = spec_revoke_family f (lmdb_abs E s) \<and> n = of_nat (card ?L + card ?R)"
  have ok: "okv ?C ?V" and H: "heed_ok (heed E)" using i lmdb_env_okD(1) [OF E] by (simp_all add: lmdb_inv_def)
  have loops: "leads E (for_each (List.map_filter (index_hash ?p True) items) (revoke_live_hash E f) 0) ?V ?V
      (\<lambda>n V' K'. leads E (for_each (List.map_filter (index_hash ?p False) items) (revoke_retired_hash E f) n) V' K'
        (\<lambda>n V' K'. leads E (seqq (store_err E (commit_txn E)) (ret n)) V' K' (\<lambda>n _ K'. okv ?C K' \<and> ?Q n (absv ?C K'))))"
    if rows: "rows_of (prefix ?p) (?V Family_Index) items" for items
  proof -
    note il = index_lists [OF ok f rows]
    obtain xs where xs: "List.map_filter (index_hash ?p True) items = map s_hash xs" "distinct xs"
        "set xs = {x. live_at ?C ?V (s_hash x) = Some x \<and> s_family_id x = f}"
      using named_rows [where m = "live_at ?C ?V" and key = s_hash, OF live_hash [OF ok] il(1) [of True], where P = "\<lambda>x. s_family_id x = f"] il(2) by blast
    obtain rs where rs: "List.map_filter (index_hash ?p False) items = map r_hash rs" "distinct rs"
        "set rs = {x. retired_at ?C ?V (r_hash x) = Some x \<and> r_family_id x = f}"
      using named_rows [where m = "retired_at ?C ?V" and key = r_hash, OF retired_hash [OF ok] il(1) [of False], where P = "\<lambda>x. r_family_id x = f"] il(3) by blast
    note rm = rm_lives_rets [OF ok xs(2,3) rs(2,3)]
    have "card ?L = length xs" "card ?R = length rs"
      using il(1) [of True] il(1) [of False] unfolding lmdb_abs_def absv_simps il(2,3) [symmetric] xs(1) rs(1)
      by (metis distinct_card length_map)+
    then show ?thesis unfolding xs(1) rs(1) using rm xs rs ok
      by (intro leads_revoke_lives leads_revoke_rets leads_rules H) (auto simp: spec_revoke_family_def lmdb_abs_def)
  qed
  have "lmdb_inv E s' \<and> (failed_clean (lmdb_abs E) r s s' \<or> (\<exists>x. r = Ok x \<and> ?Q x (lmdb_abs E s')))"
  proof (rule spawn_law [OF run [unfolded lmdb_revoke_family_def assert_holds [OF f]] i, where Q = ?Q], goal_cases)
    case 1
    show ?case by (intro clean_rules quiet_rules)
  next
    case 2
    show ?case unfolding revoke_family_wtxn_def Let_def
    proof (intro leads_seqq leads_store_err leads_begin leads_bindq leads_prefix_iter H leads_for_items [OF leads_split], goal_cases)
      case (1 items)
      then show ?case using loops by (simp add: fold_split leads_bindq)
    qed
  qed
  then show ?thesis by auto
qed

section \<open>Revoking a user\<close>

definition owned :: "string \<Rightarrow> lmdb_codec \<Rightarrow> view \<Rightarrow> string \<times> string \<Rightarrow> (string \<times> session) option" where
  "owned u C V kv = (case strip_prefix (u @ '':'') (fst kv) of None \<Rightarrow> None
     | Some h \<Rightarrow> map_option (Pair h) (live_at C V h))"

definition owned_retired :: "string \<Rightarrow> lmdb_codec \<Rightarrow> string \<times> string \<Rightarrow> retired_refresh_token option" where
  "owned_retired u C kv = (case dec_retired C (snd kv) of Some r \<Rightarrow> if r_user_id r = u then Some r else None | None \<Rightarrow> None)"

lemma leads_collect_user:
  "leads E (collect_user_entry E u (u @ '':'') kv acc) V K (\<lambda>a V' K'. a = add_opt (owned u (codec E) V) kv acc \<and> V' = V \<and> K' = K)"
  "leads E (collect_user_retired E u kv rs) V K (\<lambda>a V' K'. a = add_opt (owned_retired u (codec E)) kv rs \<and> V' = V \<and> K' = K)"
  unfolding collect_user_entry_def collect_user_retired_def
  by (intro leads_rules; auto simp: add_opt_def owned_def owned_retired_def live_at_row simp del: strip_prefix_Some)+

lemma owned_Some: "owned u C V (k, v) = Some y \<longleftrightarrow> (\<exists>h x. y = (h, x) \<and> k = user_session_key u h \<and> live_at C V h = Some x)"
proof -
  have "strip_prefix (u @ '':'') k = Some h \<longleftrightarrow> k = user_session_key u h" for h by (simp add: user_session_key_def)
  then have "owned u C V (k, v) = Some y \<longleftrightarrow> (\<exists>h. k = user_session_key u h \<and> map_option (Pair h) (live_at C V h) = Some y)"
    unfolding owned_def fst_conv by (metis (no_types, lifting) option.case_eq_if option.distinct(1) option.exhaust_sel option.sel)
  then show ?thesis by auto
qed

lemma owned_lists:
  assumes ok: "okv C V" and u: "user_id_ok u" and rows: "rows_of (prefix (u @ '':'')) (V User_Sessions) items"
  shows "\<exists>xs. List.map_filter (owned u C V) items = map (\<lambda>x. (s_hash x, x)) xs \<and> distinct xs
    \<and> set xs = {x. live_at C V (s_hash x) = Some x \<and> s_user_id x = u}"
proof -
  let ?l = "List.map_filter (owned u C V) items"
  have mem: "(h, x) \<in> set ?l \<longleftrightarrow> live_at C V h = Some x \<and> s_user_id x = u" for h x
  proof
    assume "(h, x) \<in> set ?l"
    then obtain k v where k: "V User_Sessions k = Some v" "k = user_session_key u h" "live_at C V h = Some x"
      unfolding rows_set [OF rows] by (auto simp: owned_Some)
    from okv_user [OF ok k(1)] obtain h' y where y: "live_at C V h' = Some y" "k = user_session_key (s_user_id y) h'" by blast
    have "CHR '':'' \<notin> set (s_user_id y)" using okv_live [OF ok y(1)] by (simp add: session_row_ok_def)
    then have "s_user_id y = u \<and> h' = h" using y(2) k(2) u user_session_key_inj [of u "s_user_id y" h h'] by (simp add: user_id_ok_def)
    then show "live_at C V h = Some x \<and> s_user_id x = u" using y(1) k(3) by simp
  next
    assume x: "live_at C V h = Some x \<and> s_user_id x = u"
    then obtain v where "V User_Sessions (user_session_key u h) = Some v" using okv_live [OF ok, of h x] by (auto simp: session_row_ok_def)
    moreover have "prefix (u @ '':'') (user_session_key u h)" by (simp add: user_session_key_def)
    moreover have "owned u C V (user_session_key u h, v) = Some (h, x)" using x by (simp add: owned_Some)
    ultimately show "(h, x) \<in> set ?l" unfolding rows_set [OF rows] by blast
  qed
  have d: "distinct ?l" by (rule rows_distinct [OF rows]) (auto simp: owned_Some)
  have "(\<lambda>y. (s_hash (snd y), snd y)) y = y" if "y \<in> set ?l" for y
    using that mem [of "fst y" "snd y"] live_hash [OF ok, of "fst y" "snd y"] by (cases y) auto
  then have eq: "map (\<lambda>x. (s_hash x, x)) (map snd ?l) = ?l" by (simp add: map_idI)
  have "distinct (map (\<lambda>x. (s_hash x, x)) (map snd ?l))" unfolding eq by (rule d)
  then have ds: "distinct (map snd ?l)" unfolding distinct_map [of "\<lambda>x. (s_hash x, x)"] by blast
  have "x \<in> set (map snd ?l) \<longleftrightarrow> (\<exists>h. (h, x) \<in> set ?l)" for x by force
  then have "set (map snd ?l) = {x. live_at C V (s_hash x) = Some x \<and> s_user_id x = u}"
    unfolding mem using live_hash [OF ok] by blast
  then show ?thesis using ds eq [symmetric] by blast
qed

lemma owned_retired_lists:
  assumes ok: "okv C V" and rows: "rows_of (\<lambda>_. True) (V Retired_Tokens) items"
  shows "distinct (List.map_filter (owned_retired u C) items)"
    "set (List.map_filter (owned_retired u C) items) = {r. retired_at C V (r_hash r) = Some r \<and> r_user_id r = u}"
proof -
  have o: "owned_retired u C (k, v) = Some r \<longleftrightarrow> dec_retired C v = Some r \<and> r_user_id r = u" for k v r
    by (auto simp: owned_retired_def split: option.splits if_splits)
  have row: "V Retired_Tokens k = Some v \<Longrightarrow> dec_retired C v = Some r \<Longrightarrow> r_hash r = k" for k v r
    using retired_hash [OF ok, of k r] by (simp add: retired_at_row)
  let ?f = "owned_retired u C"
  show "distinct (List.map_filter ?f items)" by (rule rows_distinct [OF rows]) (use row in \<open>unfold o; metis\<close>)
  show "set (List.map_filter ?f items) = {r. retired_at C V (r_hash r) = Some r \<and> r_user_id r = u}"
    unfolding rows_set [OF rows] o using row by (auto simp: retired_at_def bind_eq_Some_conv)
qed

lemma leads_remove_all:
  assumes H: "heed_ok (heed E)"
  shows "(\<And>b. Q b (rm_entries V (map ExpLive xs)) K) \<Longrightarrow>
      leads E (for_each (map (\<lambda>x. (s_hash x, x)) xs) (\<lambda>(h, x) _. remove_live_entry E h x) b0) V K Q"
    "(\<And>b. Q b (rm_entries V (map ExpRetired rs)) K) \<Longrightarrow>
      leads E (for_each rs (\<lambda>r _. remove_retired_entry E r) b0) V K Q"
proof -
  show "leads E (for_each (map (\<lambda>x. (s_hash x, x)) xs) (\<lambda>(h, x) _. remove_live_entry E h x) b0) V K Q"
    if "\<And>b. Q b (rm_entries V (map ExpLive xs)) K" using that
  proof (induction xs arbitrary: V b0)
    case Nil
    then show ?case by (simp add: leads_def)
  next
    case (Cons x xs)
    have "leads E (for_each (map (\<lambda>x. (s_hash x, x)) xs) (\<lambda>(h, x) _. remove_live_entry E h x) b) (rm_live V (s_hash x) x) K Q" for b
      using Cons.prems by (intro Cons.IH) (simp add: rm_entry_def)
    then show ?case by (auto intro!: leads_bindq leads_remove(1) [OF H])
  qed
  show "leads E (for_each rs (\<lambda>r _. remove_retired_entry E r) b0) V K Q"
    if "\<And>b. Q b (rm_entries V (map ExpRetired rs)) K" using that
  proof (induction rs arbitrary: V b0)
    case Nil
    then show ?case by (simp add: leads_def)
  next
    case (Cons r rs)
    have "leads E (for_each rs (\<lambda>r _. remove_retired_entry E r) b) (rm_retired V r) K Q" for b
      using Cons.prems by (intro Cons.IH) (simp add: rm_entry_def)
    then show ?case by (auto intro!: leads_bindq leads_remove(2) [OF H])
  qed
qed

lemma quiet_prod_arg [quiet_rules]: "(\<And>a b. quiet (f a b y)) \<Longrightarrow> quiet ((case p of (a, b) \<Rightarrow> f a b) y)"
  by (cases p) auto

lemma lmdb_revoke_all_law:
  assumes E: "lmdb_env_ok E" and i: "lmdb_inv E s" and u: "user_id_ok u" and run: "lmdb_revoke_all_user_sessions E u s = (r, s')"
  shows "lmdb_inv E s' \<and> (failed_clean (lmdb_abs E) r s s' \<or> lmdb_abs E s' = spec_revoke_user u (lmdb_abs E s)
    \<and> r = Ok (of_nat (card {h. \<exists>x. live (lmdb_abs E s) h = Some x \<and> s_user_id x = u})))"
proof -
  let ?C = "codec E" and ?V = "cv E s"
  let ?L = "{h. \<exists>x. live (lmdb_abs E s) h = Some x \<and> s_user_id x = u}"
  let ?Q = "\<lambda>n st. st = spec_revoke_user u (lmdb_abs E s) \<and> n = of_nat (card ?L)"
  have ok: "okv ?C ?V" and H: "heed_ok (heed E)" and ne: "u \<noteq> []"
    using i lmdb_env_okD(1) [OF E] u by (simp_all add: lmdb_inv_def user_id_ok_def)
  have "lmdb_inv E s' \<and> (failed_clean (lmdb_abs E) r s s' \<or> (\<exists>x. r = Ok x \<and> ?Q x (lmdb_abs E s')))"
  proof (rule spawn_law [OF run [unfolded lmdb_revoke_all_user_sessions_def assert_holds [OF ne]] i, where Q = ?Q], goal_cases)
    case 1
    show ?case by (intro clean_rules quiet_rules)
  next
    case 2
    show ?case
    proof (intro leads_seqq leads_store_err leads_begin leads_bindq leads_prefix_iter leads_iter H
        leads_for_items [OF leads_collect_user(1)] leads_for_items [OF leads_collect_user(2)], goal_cases)
      case (1 items items')
      obtain xs where xs: "List.map_filter (owned u ?C ?V) items = map (\<lambda>x. (s_hash x, x)) xs" "distinct xs"
          "set xs = {x. live_at ?C ?V (s_hash x) = Some x \<and> s_user_id x = u}"
        using owned_lists [OF ok u 1(1)] by blast
      note rs = owned_retired_lists [OF ok 1(2), of u]
      note rm = rm_lives_rets [OF ok xs(2,3) rs]
      have "?L = s_hash ` {x. live_at ?C ?V (s_hash x) = Some x \<and> s_user_id x = u}"
        unfolding lmdb_abs_def absv_simps using live_hash [OF ok] by blast
      then have "?L = set (map s_hash xs)" using xs(3) by simp
      moreover have "inj_on s_hash (set xs)" unfolding xs(3) by (rule inj_onI) simp
      then have "distinct (map s_hash xs)" using xs(2) by (simp add: distinct_map)
      ultimately have c: "card ?L = length xs" by (metis distinct_card length_map)
      show ?case unfolding fold_add_opt append_Nil xs(1) using c rm
        by (intro leads_remove_all H leads_rules) (simp add: spec_revoke_user_def lmdb_abs_def)
    qed
  qed
  then show ?thesis by auto
qed

end
