(* ===== verification/Lmdb_Sweep.thy ===== *)
theory Lmdb_Sweep
  imports Lmdb_Loops
begin

text \<open>
  The sweep of the LMDB adapter, which commits in batches: every run, a failing one included, has
  removed a prefix of the expired entries it collected and nothing else, and a run that succeeds
  has removed them all. With it the adapter's refinement theorem.
\<close>

section \<open>One batch\<close>

definition tidy :: "('d lmdb, 'e, 'a) prog \<Rightarrow> bool" where
  "tidy m \<longleftrightarrow> (\<forall>s r s'. m s = (r, s') \<longrightarrow> (\<exists>x. r = Ok x) \<or> committed s' = committed s)"

lemma tidy_bindq: "still m \<Longrightarrow> (\<And>x. tidy (f x)) \<Longrightarrow> tidy (bindq m f)"
  unfolding still_def tidy_def by (fastforce elim!: bindq_cases)

lemma tidy_commit: "tidy (seqq (commit_txn E) (ret x))"
  by (auto simp: tidy_def commit_txn_def heed_call_def and_then_def seqq_def bindq_def split: option.splits)

lemma still_delete_all: "still (delete_all E es n)"
  by (induction es arbitrary: n) (auto simp: delete_expired_def intro!: quiet_rules split: expired_entry.splits)

lemma leads_delete_all:
  "heed_ok (heed E) \<Longrightarrow> (\<And>m. Q m (rm_entries V es) K) \<Longrightarrow> leads E (delete_all E es n) V K Q"
proof (induction es arbitrary: V n)
  case Nil
  then show ?case by (simp add: leads_def)
next
  case (Cons e es)
  have ih: "leads E (delete_all E es m) (rm_entry V e) K Q" for m using Cons.prems by (intro Cons.IH) simp_all
  then show ?case using Cons.prems(1)
    by (cases e) (auto simp: delete_expired_def rm_entry_def intro!: leads_bindq leads_remove_live leads_remove_retired)
qed

lemma commit_batch_run:
  assumes H: "heed_ok (heed E)" and run: "commit_deletion_batch E batch s = (r, s')"
  shows "(\<exists>x. r = Ok x) \<and> cv E s' = rm_entries (cv E s) batch \<or> (\<forall>x. r \<noteq> Ok x) \<and> cv E s' = cv E s"
proof -
  have "tidy (commit_deletion_batch E batch)" unfolding commit_deletion_batch_def seqq_def [of "begin_txn E"]
    by (intro tidy_bindq tidy_commit still_heed still_delete_all)
  then have fail: "\<forall>x. r \<noteq> Ok x \<Longrightarrow> cv E s' = cv E s" using run unfolding tidy_def cv_def by metis
  have "leads E (commit_deletion_batch E batch) (vw E s) (cv E s) (\<lambda>_ _ K. K = rm_entries (cv E s) batch)"
    unfolding commit_deletion_batch_def by (intro leads_rules leads_delete_all H refl)
  from leadsD [OF this] have "r = Ok x \<Longrightarrow> cv E s' = rm_entries (cv E s) batch" for x using run by blast
  then show ?thesis using fail by blast
qed

lemma sweep_batch_run:
  assumes H: "heed_ok (heed E)"
  shows "sweep_batch E n rest width s = (r, s') \<Longrightarrow>
    (\<exists>removed w. r = Ok (removed, w) \<and> cv E s' = rm_entries (cv E s) (take w rest))
    \<or> (\<forall>x. r \<noteq> Ok x) \<and> (\<forall>e. r = Err e \<longrightarrow> (\<exists>d. e = StoreError d)) \<and> cv E s' = cv E s"
proof (induction n arbitrary: width s)
  case 0
  from 0 [unfolded sweep_batch.simps] show ?case
    by (cases rule: and_then_cases) (auto dest!: commit_batch_run [OF H])
next
  case (Suc n)
  from Suc.prems [unfolded sweep_batch.simps] show ?case
  proof (cases rule: and_then_cases)
    case (err e t)
    have t: "cv E t = cv E s" using commit_batch_run [OF H err(1)] by simp
    show ?thesis
    proof (cases "e = MapFull \<and> 1 < width")
      case True
      then show ?thesis using err(2) Suc.IH [of "max (width div 2) 1" t] t by simp
    next
      case False
      then have "(throw (StoreError (heed_display (heed E) e)) :: ('a, u64 \<times> nat) txn) t = (r, s')" using err(2) by (simp only: if_False)
      then show ?thesis using t by auto
    qed
  qed (auto dest!: commit_batch_run [OF H])
qed

lemma sweep_run:
  assumes H: "heed_ok (heed E)"
  shows "sweep E rest deleted s = (r, s') \<Longrightarrow> \<exists>n. cv E s' = rm_entries (cv E s) (take n rest)
    \<and> ((\<exists>x. r = Ok x) \<longrightarrow> take n rest = rest) \<and> (\<forall>e. r = Err e \<longrightarrow> (\<exists>d. e = StoreError d))"
proof (induction "length rest" arbitrary: rest deleted s rule: less_induct)
  case less
  show ?case
  proof (cases "rest = []")
    case True
    then show ?thesis using less.prems by (auto simp: sweep.simps)
  next
    case False
    let ?w0 = "min LMDB_CLEANUP_BATCH_SIZE (length rest)"
    obtain q t where q: "sweep_batch E CLEANUP_MAX_BATCH_HALVINGS rest ?w0 s = (q, t)" by fastforce
    show ?thesis
    proof (cases q)
      case (Ok x)
      obtain removed w where x: "x = (removed, w)" by fastforce
      have w: "0 < w" using sweep_batch_width [of ?w0 E CLEANUP_MAX_BATCH_HALVINGS rest s removed w t] q Ok x False
        by (simp add: LMDB_CLEANUP_BATCH_SIZE_def)
      have t: "cv E t = rm_entries (cv E s) (take w rest)" using sweep_batch_run [OF H q] Ok x by simp
      have "sweep E (drop w rest) (deleted + removed) t = (r, s')"
        using less.prems q Ok x False by (subst (asm) sweep.simps) simp
      from less.hyps [OF _ this] w False obtain n where
        "cv E s' = rm_entries (cv E t) (take n (drop w rest))" "(\<exists>x. r = Ok x) \<longrightarrow> take n (drop w rest) = drop w rest"
        "\<forall>e. r = Err e \<longrightarrow> (\<exists>d. e = StoreError d)" by auto
      then show ?thesis using t by (intro exI [of _ "w + n"]) (auto simp: take_add)
    qed (use less.prems q False sweep_batch_run [OF H q] in \<open>subst (asm) sweep.simps, auto intro: exI [of _ 0]\<close>)+
  qed
qed

section \<open>What the sweep collects\<close>

definition expired_live :: "lmdb_codec \<Rightarrow> instant \<Rightarrow> string \<times> string \<Rightarrow> expired_entry option" where
  "expired_live C now kv = (case dec_session C (snd kv) of Some x \<Rightarrow> if s_expires_at x \<le> now then Some (ExpLive x) else None | None \<Rightarrow> None)"

definition expired_ret :: "lmdb_codec \<Rightarrow> instant \<Rightarrow> string \<times> string \<Rightarrow> expired_entry option" where
  "expired_ret C now kv = (case dec_retired C (snd kv) of Some r \<Rightarrow> if r_expires_at r \<le> now then Some (ExpRetired r) else None | None \<Rightarrow> None)"

lemma leads_collect:
  "leads E (collect_live E now kv acc) V K (\<lambda>a V' K'. a = add_opt (expired_live (codec E) now) kv acc \<and> V' = V \<and> K' = K)"
  "leads E (collect_retired E now kv acc) V K (\<lambda>a V' K'. a = add_opt (expired_ret (codec E) now) kv acc \<and> V' = V \<and> K' = K)"
  unfolding collect_live_def collect_retired_def
  by (intro leads_rules; auto simp: add_opt_def expired_live_def expired_ret_def split: option.splits)+

definition expired_list :: "lmdb_codec \<Rightarrow> instant \<Rightarrow> view \<Rightarrow> expired_entry list \<Rightarrow> bool" where
  "expired_list C now V es \<longleftrightarrow> distinct es
     \<and> (\<forall>x. ExpLive x \<in> set es \<longleftrightarrow> live_at C V (s_hash x) = Some x \<and> s_expires_at x \<le> now)
     \<and> (\<forall>r. ExpRetired r \<in> set es \<longleftrightarrow> retired_at C V (r_hash r) = Some r \<and> r_expires_at r \<le> now)"

lemma expired_lists:
  assumes ok: "okv C V" and a: "rows_of (\<lambda>_. True) (V Sessions) items" and b: "rows_of (\<lambda>_. True) (V Retired_Tokens) items'"
  shows "expired_list C now V (List.map_filter (expired_live C now) items @ List.map_filter (expired_ret C now) items')"
proof -
  have l: "expired_live C now (k, v) = Some e \<longleftrightarrow> (\<exists>x. e = ExpLive x \<and> dec_session C v = Some x \<and> s_expires_at x \<le> now)" for k v e
    by (auto simp: expired_live_def split: option.splits if_splits)
  have r: "expired_ret C now (k, v) = Some e \<longleftrightarrow> (\<exists>x. e = ExpRetired x \<and> dec_retired C v = Some x \<and> r_expires_at x \<le> now)" for k v e
    by (auto simp: expired_ret_def split: option.splits if_splits)
  have hl: "V Sessions k = Some v \<Longrightarrow> dec_session C v = Some x \<Longrightarrow> s_hash x = k" for k v x
    using live_hash [OF ok, of k x] by (simp add: live_at_row)
  have hr: "V Retired_Tokens k = Some v \<Longrightarrow> dec_retired C v = Some x \<Longrightarrow> r_hash x = k" for k v x
    using retired_hash [OF ok, of k x] by (simp add: retired_at_row)
  have dl: "distinct (List.map_filter (expired_live C now) items)"
    by (rule rows_distinct [OF a]) (use hl in \<open>unfold l; metis expired_entry.inject(1)\<close>)
  have dr: "distinct (List.map_filter (expired_ret C now) items')"
    by (rule rows_distinct [OF b]) (use hr in \<open>unfold r; metis expired_entry.inject(2)\<close>)
  show ?thesis unfolding expired_list_def set_append
    using dl dr hl hr by (auto simp: rows_set [OF a] rows_set [OF b] l r live_at_def retired_at_def bind_eq_Some_conv)
qed

text \<open>The program up to the sweep, and after it.\<close>

definition collect_expired :: "'d lmdb_env \<Rightarrow> instant \<Rightarrow> ('d, expired_entry list) txn" where
  "collect_expired E now = seqq (store_err E (begin_txn E))
     (bindq (store_err E (h_iter E Sessions)) (\<lambda>items.
      bindq (for_items E items (collect_live E now) []) (\<lambda>exp1.
      bindq (store_err E (h_iter E Retired_Tokens)) (\<lambda>items'.
      for_items E items' (collect_retired E now) exp1))))"

definition sweep_singles :: "'d lmdb_env \<Rightarrow> instant \<Rightarrow> u64 \<Rightarrow> ('d, u64) txn" where
  "sweep_singles E now deleted = seqq (store_err E (begin_txn E))
      (bindq (store_err E (h_iter E Single_Use)) (\<lambda>singles.
      bindq (for_items E singles (collect_single_use E now) []) (\<lambda>keys.
      if keys = [] then ret deleted
      else
        seqq (store_err E (begin_txn E))
        (bindq (for_each keys (\<lambda>k _. store_err E (h_delete E Single_Use k)) True) (\<lambda>_.
         seqq (store_err E (commit_txn E)) (ret (deleted + of_nat (length keys))))))))"

lemma lmdb_cleanup_parts:
  "lmdb_cleanup E now = spawn_blocking (bindq (collect_expired E now) (\<lambda>expired. bindq (sweep E expired 0) (sweep_singles E now)))"
  unfolding lmdb_cleanup_def collect_expired_def sweep_singles_def seqq_def bindq_assoc by (rule refl)

lemma quiet_collect: "quiet (collect_expired E now)"
  unfolding collect_expired_def by (intro quiet_rules)

lemma leads_collect_expired:
  assumes "heed_ok (heed E)" "okv (codec E) K"
  shows "leads E (collect_expired E now) V K (\<lambda>es _ K'. K' = K \<and> expired_list (codec E) now K es)"
  unfolding collect_expired_def
proof (intro leads_seqq leads_store_err leads_begin leads_bindq leads_iter assms(1)
    leads_for_items [OF leads_collect(1)] leads_for_items [OF leads_collect(2)], goal_cases)
  case (1 items items')
  then show ?case using expired_lists [OF assms(2) 1] by (simp add: fold_add_opt)
qed

section \<open>Single-use records\<close>

definition expired_key :: "lmdb_codec \<Rightarrow> instant \<Rightarrow> string \<times> string \<Rightarrow> string option" where
  "expired_key C now kv = (case dec_time C (snd kv) of Some t \<Rightarrow> if t \<le> now then Some (fst kv) else None | None \<Rightarrow> None)"

lemma leads_collect_single:
  "leads E (collect_single_use E now kv acc) V K (\<lambda>a V' K'. a = add_opt (expired_key (codec E) now) kv acc \<and> V' = V \<and> K' = K)"
  unfolding collect_single_use_def by (intro leads_rules) (auto simp: add_opt_def expired_key_def)

definition del_keys :: "string list \<Rightarrow> (string \<Rightarrow> string option) \<Rightarrow> string \<Rightarrow> string option" where
  "del_keys ks m = (\<lambda>k. if k \<in> set ks then None else m k)"

lemma del_keys_simps [simp]: "del_keys [] m = m" "del_keys (k # ks) m = del_keys ks (m(k := None))"
  by (auto simp: del_keys_def)

lemma leads_delete_keys:
  "heed_ok (heed E) \<Longrightarrow> (\<And>b. Q b (V(Single_Use := del_keys ks (V Single_Use))) K) \<Longrightarrow>
     leads E (for_each ks (\<lambda>k _. store_err E (h_delete E Single_Use k)) b0) V K Q"
proof (induction ks arbitrary: V b0)
  case Nil
  then show ?case by (simp add: leads_def)
next
  case (Cons k ks)
  let ?W = "V(Single_Use := (V Single_Use)(k := None))"
  have "?W(Single_Use := del_keys ks (?W Single_Use)) = V(Single_Use := del_keys (k # ks) (V Single_Use))" by simp
  then have "leads E (for_each ks (\<lambda>k _. store_err E (h_delete E Single_Use k)) b) ?W K Q" for b
    by (intro Cons.IH [OF Cons.prems(1)]) (simp only: Cons.prems(2))
  then show ?case using Cons.prems(1) by (auto intro!: leads_bindq leads_store_err leads_delete)
qed

lemma singles_view:
  assumes ok: "okv C V" and ks: "set ks = {k. \<exists>b t. V Single_Use k = Some b \<and> dec_time C b = Some t \<and> t \<le> now}"
  defines "W \<equiv> V(Single_Use := del_keys ks (V Single_Use))"
  shows "okv C W \<and> absv C W = drop_single (\<lambda>t. t \<le> now) (absv C V)"
proof
  show "okv C W" unfolding W_def using okv_single [OF ok] by (intro okv_single_upd [OF ok]) (simp add: del_keys_def split: if_splits)
  have "Option.bind (del_keys ks (V Single_Use) k) (dec_time C)
      = Option.bind (Option.bind (V Single_Use k) (dec_time C)) (\<lambda>t. if t \<le> now then None else Some t)" for k
    using okv_single [OF ok, of k] by (cases "V Single_Use k") (auto simp: ks del_keys_def)
  then show "absv C W = drop_single (\<lambda>t. t \<le> now) (absv C V)"
    unfolding W_def absv_single_upd by (intro fam_store_eqI ext) (simp_all add: single_absv)
qed

lemma clean_singles: "clean (sweep_singles E now n)"
  unfolding sweep_singles_def by (intro clean_rules quiet_rules)

lemma leads_singles:
  assumes H: "heed_ok (heed E)" and ok: "okv (codec E) K"
  shows "leads E (sweep_singles E now n) V K (\<lambda>_ _ K'. okv (codec E) K' \<and> absv (codec E) K' = drop_single (\<lambda>t. t \<le> now) (absv (codec E) K))"
  unfolding sweep_singles_def
proof (intro leads_seqq leads_store_err leads_begin leads_bindq leads_iter H leads_for_items [OF leads_collect_single], goal_cases)
  case (1 items)
  let ?ks = "List.map_filter (expired_key (codec E) now) items"
  have key: "expired_key (codec E) now (k, b) = Some j \<longleftrightarrow> k = j \<and> (\<exists>t. dec_time (codec E) b = Some t \<and> t \<le> now)" for k b j
    by (auto simp: expired_key_def split: option.splits if_splits)
  have ks: "set ?ks = {k. \<exists>b t. K Single_Use k = Some b \<and> dec_time (codec E) b = Some t \<and> t \<le> now}"
    unfolding rows_set [OF 1] key by blast
  note v = singles_view [OF ok ks]
  have nil: "okv (codec E) K \<and> absv (codec E) K = drop_single (\<lambda>t. t \<le> now) (absv (codec E) K)" if "?ks = []"
    by (rule v [unfolded that del_keys_simps fun_upd_triv])
  show ?case unfolding fold_add_opt append_Nil
    by (intro leads_if leads_ret leads_seqq leads_store_err leads_begin leads_bindq leads_delete_keys leads_commit H) (rule nil, assumption, rule v)
qed

section \<open>The sweep's law\<close>

lemma sweep_view:
  assumes ok: "okv C V" and es: "expired_list C now V es"
  shows "okv C (rm_entries V (take n es))"
    "absv C (rm_entries V (take n es)) = drop_live (\<lambda>x. s_expires_at x \<le> now \<and> ExpLive x \<in> set (take n es))
       (drop_retired (\<lambda>r. r_expires_at r \<le> now \<and> ExpRetired r \<in> set (take n es)) (absv C V))"
    "take n es = es \<Longrightarrow> absv C (rm_entries V (take n es)) = drop_live (\<lambda>x. s_expires_at x \<le> now) (drop_retired (\<lambda>r. r_expires_at r \<le> now) (absv C V))"
proof -
  have sub: "e \<in> set (take n es) \<Longrightarrow> e \<in> set es" for e by (rule in_set_takeD)
  have "entry_in C V e" if "e \<in> set (take n es)" for e
    using sub [OF that] es by (auto simp: expired_list_def entry_in_def split: expired_entry.split)
  then have v: "okv C (rm_entries V (take n es)) \<and> absv C (rm_entries V (take n es)) = drop_entries (set (take n es)) (absv C V)"
    using es by (intro rm_entries_view [OF ok]) (auto simp: expired_list_def)
  then show "okv C (rm_entries V (take n es))" by simp
  have l: "ExpLive x \<in> set es \<longleftrightarrow> s_expires_at x \<le> now" if "live_at C V h = Some x" for h x
    using es that live_hash [OF ok that] by (auto simp: expired_list_def)
  have r: "ExpRetired x \<in> set es \<longleftrightarrow> r_expires_at x \<le> now" if "retired_at C V h = Some x" for h x
    using es that retired_hash [OF ok that] by (auto simp: expired_list_def)
  have "drop_entries (set (take n es)) (absv C V) = drop_live (\<lambda>x. s_expires_at x \<le> now \<and> ExpLive x \<in> set (take n es))
       (drop_retired (\<lambda>r. r_expires_at r \<le> now \<and> ExpRetired r \<in> set (take n es)) (absv C V))"
    by (rule drop_entries_cong) (use sub l in \<open>simp; blast\<close>, use sub r in \<open>simp; blast\<close>)
  then show "absv C (rm_entries V (take n es)) = drop_live (\<lambda>x. s_expires_at x \<le> now \<and> ExpLive x \<in> set (take n es))
       (drop_retired (\<lambda>r. r_expires_at r \<le> now \<and> ExpRetired r \<in> set (take n es)) (absv C V))" using v by simp
  assume "take n es = es"
  then have "drop_entries (set (take n es)) (absv C V) = drop_live (\<lambda>x. s_expires_at x \<le> now) (drop_retired (\<lambda>r. r_expires_at r \<le> now) (absv C V))"
    by (intro drop_entries_cong) (use l r in auto)
  then show "absv C (rm_entries V (take n es)) = drop_live (\<lambda>x. s_expires_at x \<le> now) (drop_retired (\<lambda>r. r_expires_at r \<le> now) (absv C V))"
    using v by simp
qed

definition swept :: "instant \<Rightarrow> fam_store \<Rightarrow> fam_store \<Rightarrow> bool" where
  "swept now st st' \<longleftrightarrow> (\<exists>A B D. st' = drop_live (\<lambda>x. s_expires_at x \<le> now \<and> A x) (drop_retired (\<lambda>x. r_expires_at x \<le> now \<and> B x)
          (drop_single (\<lambda>t. t \<le> now \<and> D t) st)))"

lemma sweptI: "st' = drop_live (\<lambda>x. s_expires_at x \<le> now \<and> A x) (drop_retired (\<lambda>x. r_expires_at x \<le> now \<and> B x)
          (drop_single (\<lambda>t. t \<le> now \<and> D t) st)) \<Longrightarrow> swept now st st'"
  unfolding swept_def by blast

lemma drop_none: "drop_live (\<lambda>_. False) st = st" "drop_retired (\<lambda>_. False) st = st" "drop_single (\<lambda>_. False) st = st"
  by (intro fam_store_eqI ext; simp split: Option.bind_splits)+

lemma drop_comm: "drop_single D (drop_live A (drop_retired B st)) = drop_live A (drop_retired B (drop_single D st))"
  by (intro fam_store_eqI ext) simp_all

lemma lmdb_cleanup_law:
  assumes E: "lmdb_env_ok E" and i: "lmdb_inv E s" and run: "lmdb_cleanup E now s = (r, s')"
  shows "lmdb_inv E s' \<and> swept now (lmdb_abs E s) (lmdb_abs E s')
    \<and> ((\<exists>d. r = Err (StoreError d)) \<or> (\<exists>n. r = Ok n) \<and> lmdb_abs E s' = drop_live (\<lambda>x. s_expires_at x \<le> now)
        (drop_retired (\<lambda>x. r_expires_at x \<le> now) (drop_single (\<lambda>t. t \<le> now) (lmdb_abs E s))))"
proof -
  let ?C = "codec E" and ?V = "cv E s"
  let ?Sw = "\<lambda>K. okv ?C K \<and> swept now (absv ?C ?V) (absv ?C K)"
  let ?full = "drop_live (\<lambda>x. s_expires_at x \<le> now) (drop_retired (\<lambda>x. r_expires_at x \<le> now) (drop_single (\<lambda>t. t \<le> now) (absv ?C ?V)))"
  have ok: "okv ?C ?V" and H: "heed_ok (heed E)" using i lmdb_env_okD(1) [OF E] by (simp_all add: lmdb_inv_def)
  have self: "swept now (absv ?C ?V) (absv ?C ?V)" by (rule sweptI [where A = "\<lambda>_. False" and B = "\<lambda>_. False" and D = "\<lambda>_. False"]) (simp add: drop_none)
  obtain q t where q: "bindq (collect_expired E now) (\<lambda>expired. bindq (sweep E expired 0) (sweep_singles E now)) s = (q, t)" by fastforce
  have st: "s' = t" "r = (case q of Panic p \<Rightarrow> Err (StoreError (''task panicked: '' @ p)) | Err e \<Rightarrow> Err e | Ok x \<Rightarrow> Ok x)"
    using run q by (auto simp: lmdb_cleanup_parts spawn_blocking_def split: outcome.splits)
  have main: "?Sw (cv E t) \<and> (\<forall>e. q = Err e \<longrightarrow> (\<exists>d. e = StoreError d)) \<and> ((\<exists>n. q = Ok n) \<longrightarrow> absv ?C (cv E t) = ?full)"
    using q
  proof (cases rule: bindq_cases)
    case (ok es u)
    have u: "cv E u = ?V" "expired_list ?C now ?V es" using leadsD [OF leads_collect_expired [OF H \<open>okv ?C ?V\<close>] ok(1)] by simp_all
    have part: "?Sw (rm_entries ?V (take n es))" for n
    proof (intro conjI sweptI)
      show "okv ?C (rm_entries ?V (take n es))" by (rule sweep_view(1) [OF \<open>okv ?C ?V\<close> u(2)])
      show "absv ?C (rm_entries ?V (take n es)) = drop_live (\<lambda>x. s_expires_at x \<le> now \<and> ExpLive x \<in> set (take n es))
         (drop_retired (\<lambda>r. r_expires_at r \<le> now \<and> ExpRetired r \<in> set (take n es)) (drop_single (\<lambda>t. t \<le> now \<and> False) (absv ?C ?V)))"
        unfolding sweep_view(2) [OF \<open>okv ?C ?V\<close> u(2)] by (simp add: drop_none)
    qed
    from ok(2) show ?thesis
    proof (cases rule: bindq_cases)
      case (ok m v)
      obtain n where n: "cv E v = rm_entries ?V (take n es)" "take n es = es" using sweep_run [OF H ok(1)] u(1) by auto
      then have okv': "okv ?C (cv E v)" using part [of n] by simp
      have av: "absv ?C (cv E v) = drop_live (\<lambda>x. s_expires_at x \<le> now) (drop_retired (\<lambda>x. r_expires_at x \<le> now) (absv ?C ?V))"
        using sweep_view(3) [OF \<open>okv ?C ?V\<close> u(2) n(2)] n(1) by simp
      show ?thesis
      proof (cases "\<exists>x. q = Ok x")
        case True
        then have "okv ?C (cv E t) \<and> absv ?C (cv E t) = ?full"
          using leadsD [OF leads_singles [OF H okv']] ok(2) av by (auto simp: drop_comm)
        then show ?thesis using True by (auto intro: sweptI [where A = "\<lambda>_. True" and B = "\<lambda>_. True" and D = "\<lambda>_. True"])
      next
        case False
        then have "committed t = committed v \<and> (\<forall>e. q = Err e \<longrightarrow> (\<exists>d. e = StoreError d))"
          using clean_singles [of E now m] ok(2) unfolding clean_def by blast
        moreover from this have "cv E t = cv E v" by (simp add: cv_def)
        ultimately show ?thesis using False part [of n] n(1) by auto
      qed
    next
      case (err e)
      obtain n where "cv E t = rm_entries ?V (take n es)" "\<exists>d. e = StoreError d" using sweep_run [OF H err(1)] u(1) by auto
      then show ?thesis using part [of n] err by simp
    next
      case (panic p)
      obtain n where "cv E t = rm_entries ?V (take n es)" using sweep_run [OF H panic(1)] u(1) by auto
      then show ?thesis using part [of n] panic by simp
    qed
  next
    case (err e)
    then have "committed t = committed s \<and> (\<exists>d. e = StoreError d)" using quiet_collect [of E now] unfolding quiet_def by blast
    then show ?thesis using err ok self by (auto simp: cv_def)
  next
    case (panic p)
    then have "committed t = committed s" using quiet_collect [of E now] unfolding quiet_def by blast
    then show ?thesis using panic ok self by (auto simp: cv_def)
  qed
  then show ?thesis using st by (cases q) (auto simp: lmdb_inv_def lmdb_abs_def)
qed

section \<open>The refinement\<close>

lemma lmdb_sweep_contract:
  assumes "lmdb_env_ok E" "lmdb_inv E s" "lmdb_cleanup E now s = (r, s')"
  shows "lmdb_inv E s' \<and> (\<exists>A B C. lmdb_abs E s' = drop_live (\<lambda>x. s_expires_at x \<le> now \<and> A x) (drop_retired (\<lambda>x. r_expires_at x \<le> now \<and> B x)
      (drop_single (\<lambda>t. t \<le> now \<and> C t) (lmdb_abs E s)))
    \<and> ((\<exists>d. r = Err (StoreError d)) \<or> (\<exists>n. r = Ok n) \<and> (\<forall>x. s_expires_at x < now \<longrightarrow> A x)
        \<and> (\<forall>x. r_expires_at x < now \<longrightarrow> B x) \<and> (\<forall>t. t < now \<longrightarrow> C t)))"
proof (cases "\<exists>d. r = Err (StoreError d)")
  case True
  then show ?thesis using lmdb_cleanup_law [OF assms] unfolding swept_def by blast
next
  case False
  then show ?thesis using lmdb_cleanup_law [OF assms]
    by (intro conjI exI [where x = "\<lambda>_. True"]) auto
qed

theorem lmdb_refines_sessions:
  assumes "lmdb_env_ok E"
  shows "session_repository (lmdb_port E) (lmdb_inv E) (lmdb_abs E) (reuse_retention_secs E)"
proof (unfold_locales, unfold lmdb_port_def session_port.simps, goal_cases)
  case 1 then show ?case by (rule lmdb_store_law [OF assms])
next
  case 2 then show ?case by (rule lmdb_get_law [OF assms])
next
  case 3 then show ?case by (rule lmdb_resolve_law [OF assms])
next
  case (4 s new h now rb s')
  then show ?case using lmdb_rotate_law [OF assms 4] by blast
next
  case 5 then show ?case by (rule lmdb_revoke_session_law [OF assms])
next
  case 6 then show ?case by (rule lmdb_revoke_family_law [OF assms])
next
  case 7 then show ?case by (rule lmdb_revoke_all_law [OF assms])
next
  case 8 then show ?case by (intro lmdb_list_law [OF assms])
next
  case 9 then show ?case by (rule lmdb_count_law [OF assms])
next
  case (10 s now rn s')
  then show ?case by (rule lmdb_sweep_contract [OF assms])
next
  case (11 s k now t rb s')
  then show ?case using lmdb_put_law [OF assms 11] by (auto simp: single_live_def less_imp_le)
next
  case (12 s k now rb s')
  then show ?case using lmdb_take_law [OF assms 12] by blast
qed

end
