(* ===== verification/Lmdb_Live.thy ===== *)
theory Lmdb_Live
  imports Lmdb_Sweep
begin

text \<open>
  The LMDB adapter makes progress: when no \<open>heed\<close> call faults and the encoders are total, an
  operation called as the port documents ends in a value. \<open>wins E m V K\<close> is the termination half of
  the calculus of \<open>Lmdb_Runs\<close>; its rule for sequencing takes what the first part leaves from \<open>leads\<close>.
\<close>

definition calm :: "'d lmdb_env \<Rightarrow> bool" where
  "calm E \<longleftrightarrow> (\<forall>n. kv_fault (heed E) n = None) \<and> (\<forall>x. enc_session (codec E) x \<noteq> None) \<and> (\<forall>r. enc_retired (codec E) r \<noteq> None)"

named_theorems wins_rules \<open>programs that end in a value\<close>

definition wins :: "'d lmdb_env \<Rightarrow> ('d lmdb, 'e, 'a) prog \<Rightarrow> view \<Rightarrow> view \<Rightarrow> bool" where
  "wins E m V K \<longleftrightarrow> (\<forall>s. vw E s = V \<longrightarrow> cv E s = K \<longrightarrow> (\<exists>x s'. m s = (Ok x, s')))"

lemma wins_bindq [wins_rules]: "wins E m V K \<Longrightarrow> leads E m V K (\<lambda>x V' K'. wins E (f x) V' K') \<Longrightarrow> wins E (bindq m f) V K"
  unfolding wins_def leads_def by (metis bindq_run(1))

lemma wins_seqq [wins_rules]: "wins E m V K \<Longrightarrow> leads E m V K (\<lambda>_ V' K'. wins E k V' K') \<Longrightarrow> wins E (seqq m k) V K"
  unfolding seqq_def by (rule wins_bindq)

lemma wins_basic [wins_rules]: "wins E (ret x) V K" "b \<Longrightarrow> wins E (assert_that b msg) V K"
  "v \<noteq> None \<Longrightarrow> wins E (ok_or v msg) V K" "\<exists>x. r = Ok x \<Longrightarrow> wins E (from_outcome r) V K"
  by (auto simp: wins_def ok_or_def)

lemma wins_if [wins_rules]: "(b \<Longrightarrow> wins E m V K) \<Longrightarrow> (\<not> b \<Longrightarrow> wins E k V K) \<Longrightarrow> wins E (if b then m else k) V K"
  by simp

lemma wins_option [wins_rules]:
  "(v = None \<Longrightarrow> wins E m V K) \<Longrightarrow> (\<And>y. v = Some y \<Longrightarrow> wins E (k y) V K) \<Longrightarrow> wins E (case v of None \<Rightarrow> m | Some y \<Rightarrow> k y) V K"
  by (cases v) auto

lemma wins_store_err [wins_rules]: "wins E m V K \<Longrightarrow> wins E (store_err E' m) V K"
  by (simp add: wins_def)

lemma wins_call: "calm E \<Longrightarrow> wins E (heed_call E) V K"
  by (simp add: wins_def heed_call_def calm_def)

lemma wins_heed [wins_rules]:
  assumes "calm E"
  shows "wins E (begin_txn E) V K" "wins E (commit_txn E) V K" "wins E (h_get E n k) V K" "wins E (h_put E n k v) V K"
    "wins E (h_delete E n k) V K" "wins E (h_iter E n) V K" "wins E (h_prefix_iter E n p) V K"
  using assms by (simp_all add: wins_def begin_txn_def commit_txn_def h_get_def h_put_def h_delete_def h_iter_def
      h_prefix_iter_def heed_call_def calm_def seqq_def bindq_def and_then_def)

lemma wins_decode [wins_rules]:
  "dec_session (codec E) b \<noteq> None \<Longrightarrow> wins E (decode_session E b) V K"
  "dec_retired (codec E) b \<noteq> None \<Longrightarrow> wins E (decode_retired E b) V K"
  unfolding decode_session_def decode_retired_def by (rule wins_basic(3), assumption)+

lemma wins_entries [wins_rules]:
  assumes "calm E" "heed_ok (heed E)"
  shows "wins E (remove_live_entry E h x) V K" "wins E (remove_retired_entry E r) V K" "wins E (install_live_entry E x) V K"
  using assms(1) unfolding remove_live_entry_def remove_live_entry_raw_def remove_retired_entry_def remove_retired_entry_raw_def
    install_live_entry_def
  by (intro wins_rules leads_rules assms; simp add: calm_def)+

lemma spawn_wins: "wins E m (vw E s) (cv E s) \<Longrightarrow> \<exists>x s'. spawn_blocking m s = (Ok x, s')"
  unfolding wins_def spawn_blocking_def by fastforce

section \<open>The operations\<close>

lemma lmdb_store_wins:
  assumes "calm E" "heed_ok (heed E)" "is_valid_family_id (s_family_id x)" "s_hash x \<noteq> []"
  shows "\<exists>u s'. lmdb_store_refresh_token E x s = (Ok u, s')"
  unfolding lmdb_store_refresh_token_def assert_holds [OF disjI2 [OF assms(3)]] assert_holds [OF assms(4)]
  by (rule spawn_wins [where E = E], intro wins_rules leads_rules assms; use assms in \<open>simp add: calm_def\<close>)

lemma lmdb_rotate_wins:
  assumes E: "calm E" "lmdb_env_ok E" and i: "lmdb_inv E s" and rt: "rotatable h old new (lmdb_abs E s)" "retired (lmdb_abs E s) (s_hash new) = None"
    and n: "is_valid_family_id (s_family_id new)" "s_hash new \<noteq> []"
    and d: "0 < reuse_retention_secs E" "dt_add (clib E) now (as_i64 (reuse_retention_secs E)) \<noteq> None"
  shows "\<exists>s'. lmdb_rotate E now h new s = (Ok True, s')"
proof -
  have ok: "okv (codec E) (cv E s)" and l: "live_at (codec E) (cv E s) h = Some old" and H: "heed_ok (heed E)"
    using i rt(1) lmdb_env_okD(1) [OF E(2)] by (simp_all add: lmdb_inv_def rotatable_def lmdb_abs_def)
  have f: "s_hash old = h" "s_family_id old = [] \<or> is_valid_family_id (s_family_id old)"
    using okv_live [OF ok l] by (simp_all add: session_row_ok_def)
  have hn: "h \<noteq> s_hash new" using rt(1) l by (auto simp: rotatable_def lmdb_abs_def)
  have nd: "cv E s Sessions (s_hash new) = None" "cv E s Retired_Tokens (s_hash new) = None"
    using rt no_row [OF ok] by (simp_all add: rotatable_def lmdb_abs_def)
  have row: "\<exists>b. cv E s Sessions h = Some b \<and> dec_session (codec E) b = Some old"
    using l by (auto simp: live_at_def bind_eq_Some_conv)
  have rec: "s_family_id old \<noteq> [] \<Longrightarrow> \<exists>r. retirement_record E h old new now = Ok r"
    using f d by (auto simp: retirement_record_def retention_deadline_def)
  have "\<exists>b s'. lmdb_rotate E now h new s = (Ok b, s')"
    unfolding lmdb_rotate_def assert_holds [OF n(1)] assert_holds [OF hn]
    by (rule spawn_wins [where E = E], intro wins_rules leads_rules E(1) H)
      (use row rt nd rec E(1) in \<open>auto simp: rotatable_def calm_def\<close>)
  then obtain b s' where r: "lmdb_rotate E now h new s = (Ok b, s')" by blast
  have "b" using lmdb_rotate_law [OF E(2) i n(1,2) not_sym [OF hn] r] l by (auto simp: failed_clean_def lmdb_abs_def)
  then show ?thesis using r by auto
qed

lemma lmdb_resolve_wins:
  assumes E: "calm E" "lmdb_env_ok E" and i: "lmdb_inv E s" and f: "fam_ok (lmdb_abs E s)" and h: "h \<noteq> []"
  shows "\<exists>s'. lmdb_resolve E now h s = (Ok (spec_resolve now h (lmdb_abs E s)), s')"
proof -
  have ok: "okv (codec E) (cv E s)" using i by (simp add: lmdb_inv_def)
  have fam: "s_family_id x = r_family_id r"
    if "cv E s Retired_Tokens h = Some b" "dec_retired (codec E) b = Some r"
      "cv E s Sessions (r_successor_hash r) = Some c" "dec_session (codec E) c = Some x" for b r c x
    using fam_ok_retired [OF f, of h r] that by (auto simp: lmdb_abs_def retired_at_row live_at_row)
  have "\<exists>r s'. lmdb_resolve E now h s = (Ok r, s')"
    unfolding lmdb_resolve_def assert_holds [OF h]
    by (rule spawn_wins [where E = E], intro wins_rules leads_rules E(1))
      (use okv_session [OF ok] okv_retired [OF ok] fam in \<open>auto\<close>)
  then obtain r s' where r: "lmdb_resolve E now h s = (Ok r, s')" by blast
  then show ?thesis using lmdb_resolve_law [OF E(2) i h r] by (auto simp: failed_clean_def)
qed

lemma lmdb_revoke_session_wins:
  assumes E: "calm E" "lmdb_env_ok E" and i: "lmdb_inv E s" and h: "h \<noteq> []"
  shows "\<exists>s'. lmdb_revoke_session E h s = (Ok (), s')"
proof -
  have ok: "okv (codec E) (cv E s)" using i by (simp add: lmdb_inv_def)
  have "\<exists>r s'. lmdb_revoke_session E h s = (Ok r, s')"
    unfolding lmdb_revoke_session_def assert_holds [OF h]
    by (rule spawn_wins [where E = E], intro wins_rules leads_rules E(1) lmdb_env_okD(1) [OF E(2)]) (use okv_session [OF ok] in auto)
  then show ?thesis by auto
qed

end
