(* ===== verification/Example_Env.thy ===== *)
theory Example_Env
  imports Refresh Assertion Lmdb_Live
begin

text \<open>
  A concrete environment: an executable stand-in for each crate the model takes as a parameter, with
  the behaviour its hypothesis asks for (a key-ordered association list for \<open>heed\<close>, self-delimiting
  record encodings for \<open>serde_json\<close>, hexadecimal for base64url, truncation for the digests). The
  session contract is interpreted on the LMDB port over it, and the properties with hypotheses are
  applied at runs of the service in it.
\<close>

section \<open>Encodings\<close>

fun hexval :: "char \<Rightarrow> int option" where
  "hexval c = (let k = byte c in
     if 48 \<le> k \<and> k \<le> 57 then Some (k - 48) else if 97 \<le> k \<and> k \<le> 102 then Some (k - 87) else None)"

definition nibble :: "int \<Rightarrow> char" where
  "nibble k = char_of (if k < 10 then k + 48 else k + 87)"

definition ex_hex :: "string \<Rightarrow> string" where
  "ex_hex s = concat (map (\<lambda>c. [nibble (byte c div 16), nibble (byte c mod 16)]) s)"

fun ex_unhex :: "string \<Rightarrow> string option" where
  "ex_unhex [] = Some []"
| "ex_unhex [c] = None"
| "ex_unhex (c # d # cs) = (case (hexval c, hexval d, ex_unhex cs) of
     (Some a, Some b, Some s) \<Rightarrow> Some (char_of (16 * a + b) # s) | _ \<Rightarrow> None)"

lemma byte_nibbles: "0 \<le> byte c div 16" "byte c div 16 < 16" "0 \<le> byte c mod 16" "byte c mod 16 < 16"
  using byte_less [of c] byte_nonneg [of c] by presburger+

lemma char_of_byte: "char_of (byte c) = c"
  by (simp add: byte_def)

lemma hexval_nibble: "0 \<le> k \<Longrightarrow> k < 16 \<Longrightarrow> hexval (nibble k) = Some k"
  by (auto simp: nibble_def Let_def)

lemma unhex_hex [simp]: "ex_unhex (ex_hex s) = Some s"
proof (induction s)
  case (Cons c s)
  have "hexval (nibble (byte c div 16)) = Some (byte c div 16)" "hexval (nibble (byte c mod 16)) = Some (byte c mod 16)"
    by (rule hexval_nibble; rule byte_nibbles)+
  moreover have "ex_unhex (ex_hex s) = Some s" by (rule Cons.IH)
  moreover have "16 * (byte c div 16) + byte c mod 16 = byte c" by simp
  ultimately show ?case by (simp add: ex_hex_def char_of_byte del: hexval.simps)
qed (simp add: ex_hex_def)

lemma nibble_dot: "0 \<le> k \<Longrightarrow> k < 16 \<Longrightarrow> nibble k \<noteq> CHR ''.''"
proof
  assume k: "0 \<le> k" "k < 16" and n: "nibble k = CHR ''.''"
  from hexval_nibble [OF k] show False unfolding n by (simp add: byte_def)
qed

lemma hex_text: "CHR ''.'' \<notin> set (ex_hex s)" "s \<noteq> [] \<Longrightarrow> ex_hex s \<noteq> []" "length (ex_hex s) = 2 * length s"
proof -
  have "CHR ''.'' \<noteq> nibble (byte c div 16) \<and> CHR ''.'' \<noteq> nibble (byte c mod 16)" for c
    using byte_nibbles [of c] nibble_dot by metis
  then show "CHR ''.'' \<notin> set (ex_hex s)" by (induction s) (auto simp: ex_hex_def)
  show "length (ex_hex s) = 2 * length s" by (induction s) (auto simp: ex_hex_def)
  then show "s \<noteq> [] \<Longrightarrow> ex_hex s \<noteq> []" by (cases s) (auto simp: ex_hex_def)
qed

text \<open>Records as lists of fields, each field framed so that it can be read back.\<close>

definition frame :: "string \<Rightarrow> string" where
  "frame s = concat (map (\<lambda>c. if c = CHR '';'' \<or> c = CHR ''.'' then [CHR ''.'', c] else [c]) s) @ '';''"

definition join_fields :: "string list \<Rightarrow> string" where
  "join_fields fs = concat (map frame fs)"

fun split_fields :: "string \<Rightarrow> string \<Rightarrow> string list" where
  "split_fields acc [] = []"
| "split_fields acc (c # cs) = (if c = CHR '';'' then rev acc # split_fields [] cs
     else if c = CHR ''.'' then (case cs of [] \<Rightarrow> [] | d # ds \<Rightarrow> split_fields (d # acc) ds)
     else split_fields (c # acc) cs)"

lemma split_frame: "split_fields acc (frame s @ t) = (rev acc @ s) # split_fields [] t"
  by (induction s arbitrary: acc) (auto simp: frame_def)

lemma split_join [simp]: "split_fields [] (join_fields fs) = fs"
  by (induction fs) (auto simp: join_fields_def split_frame)

function int_bits :: "int \<Rightarrow> string" where
  "int_bits k = (if k \<le> 0 then [] else (if k mod 2 = 1 then CHR ''1'' else CHR ''0'') # int_bits (k div 2))"
  by pat_completeness auto
termination by (relation "measure nat") auto
declare int_bits.simps [simp del]

primrec bits_val :: "string \<Rightarrow> int" where
  "bits_val [] = 0"
| "bits_val (c # cs) = of_bool (c = CHR ''1'') + 2 * bits_val cs"

lemma bits_val_int_bits: "0 \<le> k \<Longrightarrow> bits_val (int_bits k) = k"
proof (induction k rule: int_bits.induct)
  case (1 k)
  show ?case
  proof (cases "k = 0")
    case False
    then have "bits_val (int_bits (k div 2)) = k div 2" using 1 by simp
    then show ?thesis using False 1(2) by (subst int_bits.simps) (simp add: mod_2_eq_odd, presburger)
  qed (simp add: int_bits.simps)
qed

definition of_int_field :: "int \<Rightarrow> string" where
  "of_int_field k = (if k < 0 then CHR ''-'' # int_bits (- k) else CHR ''+'' # int_bits k)"

definition int_field :: "string \<Rightarrow> int" where
  "int_field s = (case s of [] \<Rightarrow> 0 | c # cs \<Rightarrow> if c = CHR ''-'' then - bits_val cs else bits_val cs)"

lemma int_field [simp]: "int_field (of_int_field k) = k"
  by (simp add: int_field_def of_int_field_def bits_val_int_bits)

definition of_opt_field :: "('a \<Rightarrow> string) \<Rightarrow> 'a option \<Rightarrow> string" where
  "of_opt_field f x = (case x of None \<Rightarrow> [] | Some y \<Rightarrow> CHR ''+'' # f y)"

definition opt_field :: "(string \<Rightarrow> 'a) \<Rightarrow> string \<Rightarrow> 'a option" where
  "opt_field g s = (case s of [] \<Rightarrow> None | _ # cs \<Rightarrow> Some (g cs))"

lemma opt_field [simp]: "(\<And>y. g (f y) = y) \<Longrightarrow> opt_field g (of_opt_field f x) = x"
  by (simp add: opt_field_def of_opt_field_def split: option.splits)

definition of_loc_field :: "session_location \<Rightarrow> string" where
  "of_loc_field l = join_fields [of_opt_field id (city l), of_opt_field id (region l), of_opt_field id (country l)]"

definition loc_field :: "string \<Rightarrow> session_location" where
  "loc_field s = (case split_fields [] s of
       [a, b, c] \<Rightarrow> \<lparr>city = opt_field id a, region = opt_field id b, country = opt_field id c\<rparr>
     | _ \<Rightarrow> \<lparr>city = None, region = None, country = None\<rparr>)"

lemma loc_field [simp]: "loc_field (of_loc_field l) = l"
  by (simp add: loc_field_def of_loc_field_def)

definition ex_enc_session :: "session \<Rightarrow> string" where
  "ex_enc_session x = join_fields [s_user_id x, s_hash x, s_family_id x, of_int_field (uint (s_generation x)), s_provider x,
     of_int_field (s_expires_at x), of_opt_field of_int_field (s_rotated_at x), of_opt_field id (s_device_id x),
     of_opt_field id (s_user_agent x), of_opt_field id (s_ip_address x), of_opt_field of_loc_field (s_location x), of_int_field (s_created_at x)]"

definition ex_dec_session :: "string \<Rightarrow> session option" where
  "ex_dec_session b = (case split_fields [] b of
       [u, h, f, g, p, e, r, d, a, i, l, c] \<Rightarrow> Some \<lparr>s_user_id = u, s_hash = h, s_family_id = f, s_generation = word_of_int (int_field g),
         s_provider = p, s_expires_at = int_field e, s_rotated_at = opt_field int_field r, s_device_id = opt_field id d,
         s_user_agent = opt_field id a, s_ip_address = opt_field id i, s_location = opt_field loc_field l, s_created_at = int_field c\<rparr>
     | _ \<Rightarrow> None)"

definition ex_enc_retired :: "retired_refresh_token \<Rightarrow> string" where
  "ex_enc_retired r = join_fields [r_hash r, r_family_id r, r_user_id r, r_successor_hash r, of_int_field (r_retired_at r), of_int_field (r_expires_at r)]"

definition ex_dec_retired :: "string \<Rightarrow> retired_refresh_token option" where
  "ex_dec_retired b = (case split_fields [] b of
       [h, f, u, s, t, e] \<Rightarrow> Some \<lparr>r_hash = h, r_family_id = f, r_user_id = u, r_successor_hash = s, r_retired_at = int_field t, r_expires_at = int_field e\<rparr>
     | _ \<Rightarrow> None)"

lemma dec_enc_session [simp]: "ex_dec_session (ex_enc_session x) = Some x"
  by (simp add: ex_dec_session_def ex_enc_session_def)

lemma dec_enc_retired [simp]: "ex_dec_retired (ex_enc_retired r) = Some r"
  by (simp add: ex_dec_retired_def ex_enc_retired_def)

section \<open>The crates\<close>

definition ex_lib :: lib where
  "ex_lib = \<lparr>sha256 = (\<lambda>s. take 32 (s @ replicate 32 (CHR 0x00))), sha384 = (\<lambda>s. take 48 (s @ replicate 48 (CHR 0x00))),
     sha512 = (\<lambda>s. take 64 (s @ replicate 64 (CHR 0x00))), hex_encode = ex_hex, b64url_encode = ex_hex, b64url_decode = ex_unhex,
     dt_add = (\<lambda>t s. Some (t + s * nanos)),
     dt_from_timestamp = (\<lambda>s. if in_range (s * nanos) then Some (s * nanos) else None),
     uc_lower = id, ct_eq = (=), debug_str = id\<rparr>"

definition ex_codec :: lmdb_codec where
  "ex_codec = \<lparr>enc_session = (\<lambda>x. Some (ex_enc_session x)), dec_session = ex_dec_session,
     enc_retired = (\<lambda>r. Some (ex_enc_retired r)), dec_retired = ex_dec_retired,
     enc_time = of_int_field, dec_time = (\<lambda>s. Some (int_field s))\<rparr>"

type_synonym alist = "(string \<times> string) list"

definition ex_heed :: "alist heed" where
  "ex_heed = \<lparr>kv_get = map_of, kv_put = (\<lambda>d k v. AList.update k v d),
     kv_delete = (\<lambda>d k. (map_of d k \<noteq> None, AList.delete k d)),
     kv_iter = (\<lambda>d. sort_key fst (AList.clearjunk d)),
     kv_prefix_iter = (\<lambda>d p. filter (\<lambda>(k, _). prefix p k) (sort_key fst (AList.clearjunk d))),
     kv_fault = (\<lambda>_. None), heed_display = (\<lambda>e. case e of MapFull \<Rightarrow> ''map full'' | OtherHeed m \<Rightarrow> m)\<rparr>"

definition ex_env :: "alist lmdb_env" where
  "ex_env = \<lparr>heed = ex_heed, codec = ex_codec, clib = ex_lib, reuse_retention_secs = 86400\<rparr>"

lemma ex_heed_ok: "heed_ok ex_heed"
proof -
  have "distinct (map fst (sort_key fst (AList.clearjunk d)))" for d :: alist
    by (metis distinct_clearjunk distinct_map distinct_sort inj_on_subset set_sort subset_refl)
  moreover have "(k, v) \<in> set (sort_key fst (AList.clearjunk d)) \<longleftrightarrow> map_of d k = Some v" for d :: alist and k v
    by (metis distinct_clearjunk map_of_clearjunk map_of_eq_Some_iff set_sort)
  ultimately show ?thesis by (simp add: heed_ok_def ex_heed_def update_conv' delete_conv')
qed

lemma ex_chrono_ok: "chrono_ok ex_lib"
  by (simp add: chrono_ok_def ex_lib_def)

lemma ex_b64_ok: "b64_ok ex_lib" "b64_text_ok ex_lib"
  using hex_text by (auto simp: b64_ok_def b64_text_ok_def ex_lib_def)

lemma ex_ct_ok: "ct_ok ex_lib"
  by (simp add: ct_ok_def ex_lib_def)

lemma ex_env_ok: "lmdb_env_ok ex_env"
  using ex_heed_ok ex_chrono_ok by (simp add: lmdb_env_ok_def lcodec_ok_def ex_env_def ex_codec_def)

interpretation lm: session_repository "lmdb_port ex_env" "lmdb_inv ex_env" "lmdb_abs ex_env" "reuse_retention_secs ex_env"
  by (rule lmdb_refines_sessions [OF ex_env_ok])

section \<open>The service\<close>

text \<open>The token structures; claims with custom members are the ones this writer rejects.\<close>

definition ex_claims_json :: "access_token_claims \<Rightarrow> string option" where
  "ex_claims_json c = (if c_custom c \<noteq> [] then None else Some (join_fields [c_sub c, c_iss c, c_aud c, c_sid c,
     of_int_field (uint (c_iat c)), of_int_field (uint (c_exp c))]))"

definition ex_json_claims :: "string \<Rightarrow> access_token_claims option" where
  "ex_json_claims j = (case split_fields [] j of
       [s, i, a, d, t, e] \<Rightarrow> Some \<lparr>c_sub = s, c_iss = i, c_aud = a, c_sid = d, c_iat = word_of_int (int_field t), c_exp = word_of_int (int_field e), c_custom = []\<rparr>
     | _ \<Rightarrow> None)"

definition ex_token_json :: token_codec where
  "ex_token_json = \<lparr>claims_to_json = ex_claims_json, claims_of_json = ex_json_claims,
     header_to_json = (\<lambda>h. Some (join_fields [h_alg h, h_typ h, h_kid h])),
     header_of_json = (\<lambda>j. case split_fields [] j of [a, t, k] \<Rightarrow> Some \<lparr>h_alg = a, h_typ = t, h_kid = k\<rparr> | _ \<Rightarrow> None),
     nbf_of_json = (\<lambda>_. Some None)\<rparr>"

lemma frame_nonempty [simp]: "join_fields (f # fs) \<noteq> []"
  by (simp add: join_fields_def frame_def)

lemma ex_token_json_ok: "token_json_ok ex_token_json"
  by (auto simp: token_json_ok_def ex_token_json_def ex_claims_json_def ex_json_claims_def
      intro!: exI [of _ "[]"] access_token_claims.equality split: if_splits)

definition ex_keys :: key_manager where
  "ex_keys = \<lparr>km_sign = (\<lambda>_ _. Ok ''sig''), km_verify = (\<lambda>_ _ s. Ok (s = ''sig'')), km_public_jwk = (\<lambda>_. Ok (JObject [])),
     km_algorithm = ''EdDSA'', km_key_id = ''k1''\<rparr>"

lemma ex_keys_ok: "keys_ok ex_keys"
  by (simp add: keys_ok_def ex_keys_def)

definition ex_cursor :: cursor_codec where
  "ex_cursor = \<lparr>wire_to_json = (\<lambda>(c, i). join_fields [c, i]),
     wire_from_json = (\<lambda>s. case split_fields [] s of [c, i] \<Rightarrow> Some (c, i) | _ \<Rightarrow> None),
     to_rfc3339 = of_int_field, parse_rfc3339 = (\<lambda>s. Some (int_field s))\<rparr>"

lemma ex_cursor_ok: "codec_ok ex_lib ex_cursor"
  using ex_b64_ok hex_text by (auto simp: codec_ok_def ex_cursor_def ex_lib_def)

definition ex_config :: config where
  "ex_config = \<lparr>cfg_issuer = ''https://iss'', cfg_audience = ''aud'', cfg_access_token_ttl = 900, cfg_refresh_token_ttl = 86400,
     cfg_custom_claims = None, cfg_refresh_rotation = True, cfg_refresh_rotation_grace = 10, cfg_emit_threshold = Info,
     cfg_blocking_threshold = Emergency, cfg_durability = Enforce, cfg_registration_mode = Open, cfg_domain_allowlist = None,
     cfg_max_assertion_lifetime = 600, cfg_nonce_ttl = 300\<rparr>"

definition ex_app :: "(alist lmdb, mock_users, unit) app_service" where
  "ex_app = \<lparr>user_repo = mock_user_port ex_lib ex_cursor, session_repo = lmdb_port ex_env, keys = ex_keys,
     audit_sink = (\<lambda>_ _. None), user_sync = (\<lambda>_ _. None),
     rate_limiter = \<lparr>check_and_consume = (\<lambda>_ _ s. (Ok Allow, s)), check = (\<lambda>_ _ s. (Ok Allow, s)), consume = (\<lambda>_ _ s. (Ok Allow, s))\<rparr>,
     providers = [], config = ex_config, lib = ex_lib, token_json = ex_token_json, ip_text = (\<lambda>_. ''192.0.2.1'')\<rparr>"

definition ex_user :: user where
  "ex_user = \<lparr>u_id = ''usr_1'', u_external_id = ''ext'', u_provider = ''p'', u_email = None, u_display_name = None, u_metadata = [],
     u_claims = [], u_status = Active, u_version = 1, u_created_at = 0, u_updated_at = 0\<rparr>"

definition ex_family :: string where
  "ex_family = ''fam_00000000000000000000000001''"

definition ex_session :: session where
  "ex_session = \<lparr>s_user_id = ''usr_1'', s_hash = sha256_hex ex_lib ''tok0'', s_family_id = ex_family, s_generation = 0,
     s_provider = ''p'', s_expires_at = 86400 * nanos, s_rotated_at = None, s_device_id = None, s_user_agent = None,
     s_ip_address = None, s_location = None, s_created_at = 0\<rparr>"

definition ex_empty :: "alist lmdb" where
  "ex_empty = \<lparr>committed = (\<lambda>_. []), working = (\<lambda>_. []), heed_calls = 0\<rparr>"

definition ex_store :: "alist lmdb" where
  "ex_store = snd (store_refresh_token (lmdb_port ex_env) ex_session ex_empty)"

text \<open>The clock stands still unless told otherwise; random bytes and ULIDs are numbered.\<close>

definition ex_world :: "instant \<Rightarrow> alist lmdb \<Rightarrow> (alist lmdb, mock_users, unit) world" where
  "ex_world t s = \<lparr>w_clock = (\<lambda>_. t), w_ticks = 0, w_random = (\<lambda>n. ''rnd'' @ replicate n (CHR ''0'')), w_draws = 0,
     w_ulid = (\<lambda>n. ''0123456789ABCDEFGHJKMNPQRS''), w_ulids = 0, w_sessions = s, w_users = \<lparr>mu_users = [(''usr_1'', ex_user)]\<rparr>,
     w_limits = (), w_audit = [], w_attempts = [], w_fallback = [], w_sync = [], w_fail_total = 0, w_fail_run = 0\<rparr>"

definition ex_request :: "string \<Rightarrow> refresh_request" where
  "ex_request tok = \<lparr>rq_refresh_token = tok, rq_client_addr = UnknownAddr, rq_user_agent = None, rq_device_id = None\<rparr>"

lemma ex_view_empty: "cv ex_env ex_empty = (\<lambda>_ _. None)"
  by (simp add: cv_def ex_env_def ex_heed_def ex_empty_def)

lemma ex_empty_ok: "lmdb_inv ex_env ex_empty" "lmdb_abs ex_env ex_empty = \<lparr>live = (\<lambda>_. None), retired = (\<lambda>_. None), single = (\<lambda>_. None)\<rparr>"
  by (simp_all add: lmdb_inv_def lmdb_abs_def ex_view_empty okv_def absv_def live_at_def [abs_def] retired_at_def [abs_def])

lemma ex_store_run: "fst (store_refresh_token (lmdb_port ex_env) ex_session ex_empty) = Ok ()"
  by code_simp

lemma ex_session_storable: "storable ex_session (lmdb_abs ex_env ex_empty)"
proof -
  have "is_valid_family_id (s_family_id ex_session)" "user_id_ok (s_user_id ex_session)" "s_hash ex_session \<noteq> []" by code_simp+
  then show ?thesis by (simp add: storable_def fresh_hash_def fresh_family_def ex_empty_ok)
qed

lemma ex_store_ok: "lmdb_inv ex_env ex_store" "fam_ok (lmdb_abs ex_env ex_store)"
  "lmdb_abs ex_env ex_store = \<lparr>live = [s_hash ex_session \<mapsto> ex_session], retired = (\<lambda>_. None), single = (\<lambda>_. None)\<rparr>"
proof -
  have run: "store_refresh_token (lmdb_port ex_env) ex_session ex_empty = (Ok (), ex_store)"
    using ex_store_run by (simp add: ex_store_def prod_eq_iff)
  note law = lm.store_law [OF ex_empty_ok(1) ex_session_storable run]
  then show "lmdb_inv ex_env ex_store"
    and st: "lmdb_abs ex_env ex_store = \<lparr>live = [s_hash ex_session \<mapsto> ex_session], retired = (\<lambda>_. None), single = (\<lambda>_. None)\<rparr>"
    by (simp_all add: failed_clean_def ex_empty_ok)
  have "fam_ok (lmdb_abs ex_env ex_empty)" by (simp add: ex_empty_ok fam_ok_def)
  from fam_ok_store [OF this ex_session_storable] show "fam_ok (lmdb_abs ex_env ex_store)"
    unfolding st by (simp add: ex_empty_ok)
qed

section \<open>Runs\<close>

definition succeeded :: "('e, 'a) outcome \<Rightarrow> bool" where
  "succeeded r = (case r of Ok _ \<Rightarrow> True | _ \<Rightarrow> False)"

lemma succeeded_run: "succeeded (fst (m w)) \<Longrightarrow> \<exists>x. m w = (Ok x, snd (m w))"
  by (cases "fst (m w)") (auto simp: succeeded_def prod_eq_iff)

lemma ex_calm: "calm ex_env"
  by (simp add: calm_def ex_env_def ex_heed_def ex_codec_def)

lemma ex_hash: "sha256_hex ex_lib ''tok0'' = s_hash ex_session" "length (s_hash ex_session) = 64"
  by (simp add: ex_session_def, code_simp)

lemma ex_resolve:
  "\<exists>s. lmdb_resolve ex_env nanos (s_hash ex_session) ex_store = (Ok (Live ex_session), s) \<and> lmdb_inv ex_env s
     \<and> lmdb_abs ex_env s = lmdb_abs ex_env ex_store"
proof -
  have h: "s_hash ex_session \<noteq> []" using ex_hash(2) by auto
  obtain s where s: "lmdb_resolve ex_env nanos (s_hash ex_session) ex_store = (Ok (spec_resolve nanos (s_hash ex_session) (lmdb_abs ex_env ex_store)), s)"
    using lmdb_resolve_wins [OF ex_calm ex_env_ok ex_store_ok(1,2) h] by blast
  then show ?thesis using lmdb_resolve_law [OF ex_env_ok ex_store_ok(1) h s]
    by (auto simp: failed_clean_def ex_store_ok(3) spec_resolve_def)
qed

text \<open>The next generation the example service mints for its stored session at \<open>t\<close>.\<close>

definition ex_raw :: string where "ex_raw = ex_hex ''rnd''"

definition ex_next :: "instant \<Rightarrow> session" where
  "ex_next t = ex_session\<lparr>s_hash := sha256_hex ex_lib ex_raw, s_generation := 1, s_rotated_at := Some t\<rparr>"

lemma ex_next_facts: "length (sha256_hex ex_lib ex_raw) = 64" "sha256_hex ex_lib ex_raw \<noteq> s_hash ex_session" "is_valid_family_id ex_family"
  by code_simp+

lemma ex_session_simps [simp]: "s_user_id ex_session = ''usr_1''" "s_family_id ex_session = ex_family" "s_expires_at ex_session = 86400 * nanos"
  "s_generation ex_session = 0" "u_status ex_user = Active" "u_id ex_user = ''usr_1''" "ex_family \<noteq> []"
  by (simp_all add: ex_session_def ex_user_def ex_family_def)

lemma ex_app_simps [simp]: "config ex_app = ex_config" "lib ex_app = ex_lib" "session_repo ex_app = lmdb_port ex_env"
  "keys ex_app = ex_keys" "token_json ex_app = ex_token_json" "user_repo ex_app = mock_user_port ex_lib ex_cursor" "audit_sink ex_app = (\<lambda>_ _. None)"
  by (simp_all add: ex_app_def)

lemma ex_mint:
  "mint_replacement ex_app ex_session (w\<lparr>w_random := (\<lambda>n. ''rnd'' @ replicate n (CHR ''0'')), w_draws := 0\<rparr>)
     = (Ok (ex_raw, ex_next (w_clock w (w_ticks w))), w\<lparr>w_random := (\<lambda>n. ''rnd'' @ replicate n (CHR ''0'')), w_draws := 1, w_ticks := Suc (w_ticks w)\<rparr>)"
proof -
  have "b64url_encode ex_lib ''rnd'' = ex_raw" by (simp add: ex_lib_def ex_raw_def)
  moreover have "s_hash ex_session \<noteq> []" using ex_hash(2) by auto
  ultimately show ?thesis using ex_next_facts
    by (simp add: mint_replacement_def Let_def REFRESH_HASH_HEX_LEN_def ex_next_def)
qed

lemma ex_rotate:
  assumes "lmdb_inv ex_env s" "lmdb_abs ex_env s = lmdb_abs ex_env ex_store"
  shows "\<exists>s'. lmdb_rotate ex_env t (s_hash ex_session) (ex_next u) s = (Ok True, s')"
proof -
  have h: "s_hash (ex_next u) \<noteq> s_hash ex_session" "s_hash (ex_next u) \<noteq> []" using ex_next_facts by (auto simp: ex_next_def)
  then have "rotatable (s_hash ex_session) ex_session (ex_next u) (lmdb_abs ex_env s)"
    unfolding assms(2) ex_store_ok(3) by (simp add: rotatable_def ex_next_def)
  moreover have "retired (lmdb_abs ex_env s) (s_hash (ex_next u)) = None" unfolding assms(2) ex_store_ok(3) by simp
  moreover have "is_valid_family_id (s_family_id (ex_next u))" using ex_next_facts by (simp add: ex_next_def)
  moreover have "0 < reuse_retention_secs ex_env" "dt_add (clib ex_env) t (as_i64 (reuse_retention_secs ex_env)) \<noteq> None"
    by (simp_all add: ex_env_def ex_lib_def)
  ultimately show ?thesis using h by (intro lmdb_rotate_wins [OF ex_calm ex_env_ok assms(1)])
qed

lemma ex_token: "succeeded (fst (build_access_token ex_app ex_user ex_family w))"
proof -
  obtain j where "ex_claims_json (token_claims ex_config ex_user ex_family (w_clock w (w_ticks w))) = Some j"
    by (simp add: ex_claims_json_def token_claims_def resolve_custom_claims_def ex_config_def ex_user_def merge_user_claims_def)
  then show ?thesis using ex_next_facts(3)
    by (simp add: build_access_token_def ex_token_json_def ex_keys_def Let_def succeeded_def)
qed

lemma ex_respond: "succeeded (fst (respond_tail ex_app ex_user (ex_next u) g raw req w))"
proof -
  obtain tok w' where b: "build_access_token ex_app ex_user ex_family w = (Ok tok, w')"
    using succeeded_run [where m = "build_access_token ex_app ex_user ex_family", OF ex_token] by blast
  have f: "s_family_id (ex_next u) = ex_family" by (simp add: ex_next_def)
  show ?thesis using ex_next_facts(3)
    by (cases tok) (simp add: respond_tail_def f b audit_successful_refresh_def emit_security_event_with_detail_def
        build_security_event_def emit_mandatory_audit_event_def audit_emit_def Let_def succeeded_def)
qed

lemma ex_refresh_run: "succeeded (fst (refresh ex_app (ex_request ''tok0'') (ex_world nanos ex_store)))"
proof -
  let ?w = "ex_world nanos ex_store"
  obtain s where s: "lmdb_resolve ex_env nanos (s_hash ex_session) ex_store = (Ok (Live ex_session), s)" "lmdb_inv ex_env s"
      "lmdb_abs ex_env s = lmdb_abs ex_env ex_store" using ex_resolve by blast
  obtain s' where s': "lmdb_rotate ex_env nanos (s_hash ex_session) (ex_next nanos) s = (Ok True, s')" using ex_rotate [OF s(2,3)] by blast
  have h: "s_hash ex_session \<noteq> []" using ex_hash(2) by auto
  let ?u = "ex_world nanos s"
  have g: "gate_session ex_app ex_session (ex_request ''tok0'') (?u\<lparr>w_ticks := Suc 0\<rparr>) = (Ok ex_user, ?u\<lparr>w_ticks := Suc (Suc 0)\<rparr>)"
    by (simp add: gate_session_def ex_world_def on_users_def mock_user_port_def mock_get_user_by_id_def hm_get_def nanos_def)
  have m: "mint_replacement ex_app ex_session (?u\<lparr>w_ticks := Suc (Suc 0)\<rparr>) = (Ok (ex_raw, ex_next nanos), ?u\<lparr>w_ticks := 3, w_draws := 1\<rparr>)"
    using ex_mint [of "?u\<lparr>w_ticks := Suc (Suc 0)\<rparr>"] by (simp add: ex_world_def numeral_3_eq_3)
  have "rotate_and_respond ex_app ex_session False (ex_request ''tok0'') (?u\<lparr>w_ticks := Suc 0\<rparr>)
     = respond_tail ex_app ex_user (ex_next nanos) False (Some ex_raw) (ex_request ''tok0'') (?u\<lparr>w_ticks := 4, w_draws := 1, w_sessions := s'\<rparr>)"
    using h g m s' by (simp add: rotate_and_respond_def on_sessions_def lmdb_port_def ex_world_def)
  moreover have "refresh ex_app (ex_request ''tok0'') ?w = rotate_and_respond ex_app ex_session False (ex_request ''tok0'') (?u\<lparr>w_ticks := Suc 0\<rparr>)"
    using s(1) ex_hash by (simp add: refresh_def ex_request_def REFRESH_HASH_HEX_LEN_def redeem_def on_sessions_def lmdb_port_def ex_world_def ex_config_def)
  ultimately show ?thesis using ex_respond by simp
qed

section \<open>Witnesses of the redemption properties\<close>

theorem refresh_rotates_witness:
  "\<exists>x w'. refresh ex_app (ex_request ''tok0'') (ex_world nanos ex_store) = (Ok x, w') \<and>
    (\<exists>l t raw new n. rotatable (s_hash l) l new (lmdb_abs ex_env ex_store)
      \<and> answered ex_app (w_users (ex_world nanos ex_store)) (w_clock (ex_world nanos ex_store) n) l (s_family_id new) (Some raw) x
      \<and> lmdb_abs ex_env (w_sessions w') = spec_rotate t (reuse_retention_secs ex_env) l new (lmdb_abs ex_env ex_store))"
proof -
  let ?w = "ex_world nanos ex_store"
  obtain x w' where r: "refresh ex_app (ex_request ''tok0'') ?w = (Ok x, w')"
    using succeeded_run [where m = "refresh ex_app (ex_request ''tok0'')", OF ex_refresh_run] by blast
  have s: "w_sessions ?w = ex_store" "cfg_refresh_rotation (config ex_app)" by (simp_all add: ex_world_def ex_config_def)
  from refresh_rotates [where A = ex_app and w = ?w, OF _ _ _ s(2) r refl, of "lmdb_inv ex_env" "lmdb_abs ex_env" "reuse_retention_secs ex_env"]
  show ?thesis using r lm.session_repository_axioms ex_store_ok(1,2) unfolding s(1) ex_app_simps(3) by blast
qed

theorem refresh_single_live_witness:
  "\<exists>r w'. refresh ex_app (ex_request ''tok0'') (ex_world nanos ex_store) = (r, w') \<and> fam_ok (lmdb_abs ex_env (w_sessions w'))"
proof -
  let ?w = "ex_world nanos ex_store"
  obtain r w' where r: "refresh ex_app (ex_request ''tok0'') ?w = (r, w')" by fastforce
  have s: "w_sessions ?w = ex_store" by (simp add: ex_world_def)
  have raw: "b64url_encode ex_lib ''rnd'' = ex_raw" by (simp add: ex_lib_def ex_raw_def)
  have "sha256_hex ex_lib ex_raw \<noteq> []" using ex_next_facts(1) by auto
  then have f: "fresh_hash (sha256_hex (lib ex_app) (b64url_encode (lib ex_app) (w_random ?w (w_draws ?w)))) (lmdb_abs ex_env ex_store)"
    using ex_next_facts raw unfolding ex_store_ok(3) by (simp add: fresh_hash_def ex_world_def)
  have "new_family_id ex_lib ''0123456789ABCDEFGHJKMNPQRS'' \<noteq> ex_family" by code_simp
  then have g: "fresh_family (new_family_id (lib ex_app) (w_ulid ?w (w_ulids ?w))) (lmdb_abs ex_env ex_store)"
    unfolding ex_store_ok(3) by (auto simp: fresh_family_def ex_world_def split: if_splits)
  from refresh_single_live_generation [where A = ex_app and w = ?w, of "lmdb_inv ex_env" "lmdb_abs ex_env" "reuse_retention_secs ex_env", OF _ _ _ r]
  show ?thesis using r lm.session_repository_axioms ex_store_ok(1,2) f g unfolding s ex_app_simps(3) by blast
qed

text \<open>After one rotation the first token is superseded; past the grace window its use is reuse.\<close>

lemma ex_rotated:
  "\<exists>s. lmdb_inv ex_env s \<and> lmdb_abs ex_env s = spec_rotate nanos (reuse_retention_secs ex_env) ex_session (ex_next nanos) (lmdb_abs ex_env ex_store)"
proof -
  obtain s where s: "lmdb_rotate ex_env nanos (s_hash ex_session) (ex_next nanos) ex_store = (Ok True, s)"
    using ex_rotate [OF ex_store_ok(1) refl] by blast
  have n: "is_valid_family_id (s_family_id (ex_next nanos))" "s_hash (ex_next nanos) \<noteq> []" "s_hash (ex_next nanos) \<noteq> s_hash ex_session"
    using ex_next_facts by (auto simp: ex_next_def)
  from lmdb_rotate_law [OF ex_env_ok ex_store_ok(1) n s] have "lmdb_inv ex_env s"
    "\<exists>old. rotatable (s_hash ex_session) old (ex_next nanos) (lmdb_abs ex_env ex_store)
        \<and> lmdb_abs ex_env s = spec_rotate nanos (reuse_retention_secs ex_env) old (ex_next nanos) (lmdb_abs ex_env ex_store)"
    by (auto simp: failed_clean_def)
  then show ?thesis unfolding rotatable_def ex_store_ok(3) by auto
qed

theorem reuse_revokes_family_witness:
  "\<exists>s r w'. refresh ex_app (ex_request ''tok0'') (ex_world (60 * nanos) s) = (r, w') \<and> (\<forall>x. r \<noteq> Ok x)
    \<and> live (lmdb_abs ex_env s) (s_hash (ex_next nanos)) \<noteq> None"
proof -
  obtain s where i: "lmdb_inv ex_env s"
    and st: "lmdb_abs ex_env s = spec_rotate nanos (reuse_retention_secs ex_env) ex_session (ex_next nanos) (lmdb_abs ex_env ex_store)"
    using ex_rotated by blast
  let ?w = "ex_world (60 * nanos) s"
  obtain r w' where r: "refresh ex_app (ex_request ''tok0'') ?w = (r, w')" by fastforce
  have h: "s_hash (ex_next nanos) \<noteq> s_hash ex_session" "s_expires_at (ex_next nanos) = 86400 * nanos" using ex_next_facts by (auto simp: ex_next_def)
  have ret: "as_i64 (reuse_retention_secs ex_env) = 86400" "as_i64 (cfg_refresh_rotation_grace (config ex_app)) = 10" by code_simp+
  have l: "live (lmdb_abs ex_env s) (s_hash (ex_next nanos)) = Some (ex_next nanos)"
    "live (lmdb_abs ex_env s) (s_hash ex_session) = None"
    "retired (lmdb_abs ex_env s) (s_hash ex_session) = Some (retention_record nanos (reuse_retention_secs ex_env) ex_session (ex_next nanos))"
    using h unfolding st by (simp_all)
  have R: "spec_resolve (w_clock ?w (w_ticks ?w)) (sha256_hex (lib ex_app) (rq_refresh_token (ex_request ''tok0''))) (lmdb_abs ex_env (w_sessions ?w))
      = Superseded (ex_next nanos) nanos"
    using l ex_hash(1) h(2) ret by (simp add: spec_resolve_def ex_world_def ex_request_def nanos_def)
  have late: "\<not> in_grace ex_app nanos (w_clock ?w (Suc (w_ticks ?w)))" using ret by (simp add: in_grace_def ex_world_def nanos_def)
  have c: "cfg_refresh_rotation (config ex_app)" "lmdb_inv ex_env (w_sessions ?w)" using i by (simp_all add: ex_config_def ex_world_def)
  have "session_repository (session_repo ex_app) (lmdb_inv ex_env) (lmdb_abs ex_env) (reuse_retention_secs ex_env)"
    using lm.session_repository_axioms by simp
  from reuse_revokes_family [OF this c(2,1) r R, of "s_family_id (ex_next nanos)"] late have "\<forall>x. r \<noteq> Ok x" by blast
  then show ?thesis using r l by (intro exI [of _ s]) simp
qed

end
