(* ===== verification/Durations.thy ===== *)
theory Durations
  imports Third_Party
begin

text \<open>
  \<open>parse_duration_secs\<close> of \<open>crates/core/src/service/mod.rs\<close>: the one parser of every configured
  duration. Its \<open>assert_eq!\<close> postconditions are branches of the model.
\<close>

definition SECONDS_PER_MINUTE :: u64 where
  "SECONDS_PER_MINUTE = 60"

definition SECONDS_PER_HOUR :: u64 where
  "SECONDS_PER_HOUR = 60 * SECONDS_PER_MINUTE"

definition SECONDS_PER_DAY :: u64 where
  "SECONDS_PER_DAY = 24 * SECONDS_PER_HOUR"

text \<open>
  \<open>str::parse::<u64>\<close>: an optional \<open>+\<close>, then at least one ASCII digit and nothing else, and
  the value has to fit.
\<close>

definition digits_value :: "string \<Rightarrow> int" where
  "digits_value ds = foldl (\<lambda>n d. 10 * n + (byte d - 48)) 0 ds"

definition parse_u64 :: "string \<Rightarrow> u64 option" where
  "parse_u64 s = (let ds = (case s of c # cs \<Rightarrow> if c = CHR ''+'' then cs else s | [] \<Rightarrow> s) in
     if ds \<noteq> [] \<and> list_all is_ascii_digit ds \<and> digits_value ds < 2 ^ 64
     then Some (word_of_int (digits_value ds)) else None)"

definition parse_duration_secs :: "'x lib_scheme \<Rightarrow> string \<Rightarrow> u64 result" where
  "parse_duration_secs L s0 =
     (let s = trim s0 in
      if s = [] then Err (ConfigError ''empty duration string'')
      else
        let suffix_char = last (utf8_chars s);
            split_at = length s - length suffix_char;
            num_str = take split_at s;
            suffix = drop split_at s
        in
        if length num_str + length suffix \<noteq> length s then Panic ''split_at must partition the whole string''
        else if length (utf8_chars suffix) \<noteq> 1 then Panic ''suffix must be exactly one character''
        else case parse_u64 num_str of
               None \<Rightarrow> Err (ConfigError (''invalid duration number in '' @ debug_str L s @ '': '' @ num_str))
             | Some v \<Rightarrow>
                 let overflow = Err (ConfigError (''duration value overflows seconds when parsing '' @ debug_str L s));
                     checked = (\<lambda>r. case r of None \<Rightarrow> overflow | Some n \<Rightarrow> Ok n)
                 in
                 if suffix = ''s'' then Ok v
                 else if suffix = ''m'' then checked (checked_mul_u64 v SECONDS_PER_MINUTE)
                 else if suffix = ''h'' then checked (checked_mul_u64 v SECONDS_PER_HOUR)
                 else if suffix = ''d'' then checked (checked_mul_u64 v SECONDS_PER_DAY)
                 else Err (ConfigError (''unknown duration suffix in '' @ debug_str L s @ '': '' @ suffix)))"

section \<open>Lemmas\<close>

lemma unit_values [simp]:
  "uint SECONDS_PER_MINUTE = 60" "uint SECONDS_PER_HOUR = 3600" "uint SECONDS_PER_DAY = 86400"
  by (simp_all add: SECONDS_PER_MINUTE_def SECONDS_PER_HOUR_def SECONDS_PER_DAY_def)

lemma digits_value_snoc [simp]: "digits_value (ds @ [d]) = 10 * digits_value ds + (byte d - 48)"
  by (simp add: digits_value_def)

lemma digits_value_show_nat [simp]: "digits_value (show_nat n) = int n"
proof (induction n rule: show_nat.induct)
  case (1 n)
  show ?case
  proof (cases "n < 10")
    case True
    then show ?thesis by (subst show_nat.simps) (simp add: digits_value_def)
  next
    case False
    moreover have "n mod 10 < 10" by simp
    ultimately show ?thesis using 1 by (subst show_nat.simps) (simp add: zdiv_int zmod_int)
  qed
qed

lemma show_nat_hd: "\<exists>c cs. show_nat n = c # cs \<and> is_ascii_digit c"
  using show_nat_digits [of n] show_nat_nonempty [of n] by (cases "show_nat n") auto

lemma parse_u64_show_nat: "n < 2 ^ 64 \<Longrightarrow> parse_u64 (show_nat n) = Some (word_of_nat n)"
proof -
  assume n: "n < 2 ^ 64"
  obtain c cs where c: "show_nat n = c # cs" "is_ascii_digit c" using show_nat_hd by blast
  then have "c \<noteq> CHR ''+''" by (auto simp: is_ascii_digit_def byte_def)
  then show ?thesis using n c show_nat_digits [of n] digits_value_show_nat [of n]
    by (simp add: parse_u64_def)
qed

text \<open>The unit of a suffix, in seconds.\<close>

definition unit_secs :: "string \<Rightarrow> int option" where
  "unit_secs u = (if u = ''s'' then Some 1 else if u = ''m'' then Some 60
     else if u = ''h'' then Some 3600 else if u = ''d'' then Some 86400 else None)"

lemma last_utf8_chars_suffix:
  assumes "s \<noteq> []"
  shows "s = take (length s - length (last (utf8_chars s))) s @ last (utf8_chars s)"
proof -
  have ne: "utf8_chars s \<noteq> []" using assms by (cases s) auto
  then have "s = concat (butlast (utf8_chars s)) @ last (utf8_chars s)"
    by (metis append_butlast_last_id concat.simps concat_append concat_utf8_chars append_Nil2)
  then show ?thesis by (metis append_eq_conv_conj diff_add_inverse2 length_append)
qed

lemma list_all_trim_chars: "list_all P cs \<Longrightarrow> list_all P (trim_chars cs)"
  using set_trim_chars [of cs] by (auto simp: list_all_iff)

lemma valid_utf8_trim: "valid_utf8 s \<Longrightarrow> valid_utf8 (trim s)"
  by (simp add: trim_def valid_utf8_def valid_utf8_concat [unfolded valid_utf8_def] list_all_trim_chars)

lemma last_char_single:
  assumes "valid_utf8 s" "s \<noteq> []"
  shows "utf8_chars (last (utf8_chars s)) = [last (utf8_chars s)]"
proof -
  have "utf8_chars s \<noteq> []" using assms(2) by (cases s) auto
  then have "wf_char (last (utf8_chars s))" using assms(1) by (simp add: valid_utf8_def list_all_iff)
  then show ?thesis using utf8_chars_concat [of "[last (utf8_chars s)]"] by simp
qed

lemma parse_duration_Ok:
  assumes "parse_duration_secs L s = Ok n"
  obtains num suf v k where "trim s = num @ suf" "parse_u64 num = Some v" "unit_secs suf = Some k"
    "uint n = uint v * k"
proof -
  define t where "t = trim s"
  define suf where "suf = drop (length t - length (last (utf8_chars t))) t"
  define num where "num = take (length t - length (last (utf8_chars t))) t"
  have ne: "t \<noteq> []" using assms by (auto simp: parse_duration_secs_def t_def Let_def)
  have t: "t = num @ suf" by (simp add: num_def suf_def)
  obtain v where v: "parse_u64 num = Some v"
    using assms ne by (auto simp: parse_duration_secs_def Let_def t_def [symmetric] num_def [symmetric]
        suf_def [symmetric] split: if_splits option.splits)
  have "\<exists>k. unit_secs suf = Some k \<and> uint n = uint v * k"
    using assms ne v by (auto simp: parse_duration_secs_def Let_def t_def [symmetric] num_def [symmetric]
        suf_def [symmetric] unit_secs_def checked_mul_u64_Some split: if_splits option.splits)
  then show thesis using that t v t_def by metis
qed

lemma parse_duration_no_panic:
  assumes "valid_utf8 s" shows "parse_duration_secs L s \<noteq> Panic p"
proof -
  define t where "t = trim s"
  have t: "valid_utf8 t" using assms by (simp add: t_def valid_utf8_trim)
  show ?thesis
  proof (cases "t = []")
    case False
    let ?c = "last (utf8_chars t)"
    have "t = take (length t - length ?c) t @ ?c" by (rule last_utf8_chars_suffix [OF False])
    then have "drop (length t - length ?c) t = ?c" by (metis append_take_drop_id same_append_eq)
    then show ?thesis using last_char_single [OF t False] False
      by (auto simp: parse_duration_secs_def Let_def t_def [symmetric] split: option.splits)
  qed (simp add: parse_duration_secs_def t_def [symmetric])
qed

lemma parse_duration_error_class:
  "parse_duration_secs L s = Err e \<Longrightarrow> \<exists>d. e = ConfigError d"
  by (auto simp: parse_duration_secs_def Let_def split: if_splits option.splits)

end
