(* ===== verification/Properties.thy ===== *)
theory Properties
  imports Example_Env Durations
begin

text \<open>
  The properties of the storage adapter, of access tokens, of assertion binding, of audit emission
  and of the pure domain functions, stated over the model's definitions; each one with hypotheses is
  followed by its application in the environment of \<open>Example_Env\<close>.
\<close>

section \<open>The LMDB adapter\<close>

text \<open>C4. The LMDB adapter refines the abstract family store: on databases that satisfy its
  invariant, every operation of its port keeps the invariant and either reports a store error and
  leaves the families as they were, or has exactly the abstract effect and the abstract answer (the
  twelve laws of the session contract), whatever faults the storage engine injects. The engine is a
  finite map per database with transactions, and the record encodings are inverted by their readers.\<close>

theorem lmdb_meets_session_contract:
  assumes "lmdb_env_ok E"
  shows "session_repository (lmdb_port E) (lmdb_inv E) (lmdb_abs E) (reuse_retention_secs E)"
  by (rule lmdb_refines_sessions [OF assms])

theorem lmdb_meets_session_contract_witness:
  "session_repository (lmdb_port ex_env) (lmdb_inv ex_env) (lmdb_abs ex_env) (reuse_retention_secs ex_env)"
  by (rule lmdb_meets_session_contract [OF ex_env_ok])

text \<open>C5. Rotation makes progress: with no storage fault, total encoders and a retention window the
  clock can represent, the swap of a live generation for a fresh replacement of its family and user
  succeeds, and the store is then the abstract swap.\<close>

theorem lmdb_rotation_progress:
  assumes "calm E" "lmdb_env_ok E" "lmdb_inv E s" "rotatable h old new (lmdb_abs E s)" "retired (lmdb_abs E s) (s_hash new) = None"
    and "is_valid_family_id (s_family_id new)" "s_hash new \<noteq> []"
    and "0 < reuse_retention_secs E" "dt_add (clib E) now (as_i64 (reuse_retention_secs E)) \<noteq> None"
  shows "\<exists>s'. lmdb_rotate E now h new s = (Ok True, s')
    \<and> lmdb_abs E s' = spec_rotate now (reuse_retention_secs E) old new (lmdb_abs E s)"
proof -
  obtain s' where s': "lmdb_rotate E now h new s = (Ok True, s')" using lmdb_rotate_wins [OF assms] by blast
  have "s_hash new \<noteq> h" using assms(4) by (auto simp: rotatable_def)
  from lmdb_rotate_law [OF assms(2,3,6,7) this s'] show ?thesis using s' assms(4)
    by (auto simp: failed_clean_def rotatable_def)
qed

theorem lmdb_rotation_progress_witness:
  "\<exists>s'. lmdb_rotate ex_env nanos (s_hash ex_session) (ex_next nanos) ex_store = (Ok True, s')"
proof -
  have n: "s_hash (ex_next nanos) \<noteq> s_hash ex_session" "s_hash (ex_next nanos) \<noteq> []" "is_valid_family_id (s_family_id (ex_next nanos))"
    using ex_next_facts by (auto simp: ex_next_def)
  then have "rotatable (s_hash ex_session) ex_session (ex_next nanos) (lmdb_abs ex_env ex_store)"
    unfolding ex_store_ok(3) by (simp add: rotatable_def ex_next_def)
  moreover have "retired (lmdb_abs ex_env ex_store) (s_hash (ex_next nanos)) = None" unfolding ex_store_ok(3) by simp
  ultimately show ?thesis using lmdb_rotation_progress [OF ex_calm ex_env_ok ex_store_ok(1), of "s_hash ex_session" ex_session "ex_next nanos" nanos] n
    by (auto simp: ex_env_def ex_lib_def)
qed



section \<open>Access tokens\<close>

text \<open>C11. What the validator accepts: three non-empty segments; a header pinned to this service's
  algorithm, key and token type; a signature the key manager verified over exactly the first two
  segments; this issuer and audience; not expired, not issued in the future and not before its
  not-before time, each within sixty seconds; a subject and a session identifier. Validation leaves
  the stores alone.\<close>

theorem validated_token_is_established:
  assumes "validate_access_token A token w = (Ok c, w')"
  shows "token_established A token (secs_u64 (w_clock w (w_ticks w))) (Suc (w_ticks w)) c \<and> keeps_stores w w'"
  using validate_access_token_Ok [OF assms] keepsD [OF keeps_access_token(2) assms] by blast

text \<open>C12. A token the service mints validates with the claims it was minted with, at every instant
  from its issue to its expiry: base64url has no dot and decodes, the JSON readers invert the writers
  on claims whose custom part names no reserved claim, and the key manager verifies what it signs.\<close>

theorem minted_token_validates:
  assumes "build_access_token A u f w = (Ok (tok, ttl), w')"
    and "b64_text_ok (lib A)" "token_json_ok (token_json A)" "keys_ok (keys A)"
    and "trim (u_id u) \<noteq> []" "trim f \<noteq> []" "cfg_issuer (config A) \<noteq> []"
    and "0 \<le> timestamp (w_clock w (w_ticks w))" "timestamp (w_clock w (w_ticks w)) \<le> timestamp (w_clock v (w_ticks v))"
    and "timestamp (w_clock v (w_ticks v)) \<le> timestamp (w_clock w (w_ticks w)) + uint ttl"
    and "timestamp (w_clock w (w_ticks w)) + uint ttl < 2 ^ 64"
  shows "\<exists>c v'. validate_access_token A tok v = (Ok c, v') \<and> c_sub c = u_id u \<and> c_sid c = f
    \<and> c_iss c = cfg_issuer (config A) \<and> c_aud c = cfg_audience (config A)
    \<and> hm_get (c_custom c) = hm_get (resolve_custom_claims (cfg_custom_claims (config A)) u)"
proof -
  have ttl: "ttl = cfg_access_token_ttl (config A)" using assms(1) by (rule build_access_token_Ok)
  have cur: "claims_current (token_claims (config A) u f (w_clock w (w_ticks w))) None (secs_u64 (w_clock v (w_ticks v)))"
    by (rule token_claims_current) (use assms(8-11) ttl in auto)
  from mint_then_validate [OF assms(1-7) cur] show ?thesis by (fastforce simp: token_claims_def)
qed

lemma ex_minted:
  "\<exists>tok w'. build_access_token ex_app ex_user ex_family (ex_world nanos ex_store) = (Ok (tok, 900), w')"
proof -
  obtain x w' where b: "build_access_token ex_app ex_user ex_family (ex_world nanos ex_store) = (Ok x, w')"
    using succeeded_run [where m = "build_access_token ex_app ex_user ex_family", OF ex_token] by blast
  obtain tok ttl where x: "x = (tok, ttl)" by (cases x)
  have "ttl = 900" using b [unfolded x] by (rule build_access_token_Ok) (simp add: ex_config_def)
  then show ?thesis using b x by blast
qed

lemma ex_trims: "trim (u_id ex_user) \<noteq> []" "trim ex_family \<noteq> []" "cfg_issuer (config ex_app) \<noteq> []"
  by code_simp+

theorem minted_token_validates_witness:
  "\<exists>tok c v'. validate_access_token ex_app tok (ex_world (2 * nanos) ex_store) = (Ok c, v') \<and> c_sub c = ''usr_1''"
proof -
  obtain tok w' where b: "build_access_token ex_app ex_user ex_family (ex_world nanos ex_store) = (Ok (tok, 900), w')"
    using ex_minted by blast
  have "timestamp nanos = 1" "timestamp (2 * nanos) = 2" by (simp_all add: timestamp_def nanos_def)
  then show ?thesis
    using minted_token_validates [OF b, of "ex_world (2 * nanos) ex_store"] ex_b64_ok ex_token_json_ok ex_keys_ok ex_trims
    by (auto simp: ex_world_def)
qed

theorem validated_token_is_established_witness:
  "\<exists>tok c v'. validate_access_token ex_app tok (ex_world (2 * nanos) ex_store) = (Ok c, v')
     \<and> token_established ex_app tok (secs_u64 (2 * nanos)) (Suc 0) c"
proof -
  obtain tok c v' where v: "validate_access_token ex_app tok (ex_world (2 * nanos) ex_store) = (Ok c, v')"
  proof -
    obtain tok w' where b: "build_access_token ex_app ex_user ex_family (ex_world nanos ex_store) = (Ok (tok, 900), w')"
      using ex_minted by blast
    have t: "timestamp nanos = 1" "timestamp (2 * nanos) = 2" by (simp_all add: timestamp_def nanos_def)
    have "claims_current (token_claims (config ex_app) ex_user ex_family nanos) None (secs_u64 (2 * nanos))"
      by (rule token_claims_current) (simp_all add: t ex_config_def)
    from mint_then_validate [OF b, of "ex_world (2 * nanos) ex_store"] this ex_b64_ok ex_token_json_ok ex_keys_ok ex_trims
    show thesis using that by (fastforce simp: ex_world_def)
  qed
  from validated_token_is_established [OF this] show ?thesis using v by (auto simp: ex_world_def)
qed

section \<open>Assertions\<close>


text \<open>C16. A binding that requires a nonce burns it: the nonce was minted by this service and still
  in force when the assertion was checked, and no record of it is left.\<close>

theorem bound_assertion_burns_nonce:
  assumes "session_repository (session_repo A) I absf reten" "I (w_sessions w)" "bind A c x w = (Ok (), w')" "ax_require_nonce x"
  shows "\<exists>n. nonempty (str_claim c ''nonce'') = Some n
    \<and> single_live (w_clock w (Suc (w_ticks w))) (NONCE_KEY_PREFIX @ sha256_hex (lib A) n) (absf (w_sessions w))
    \<and> single (absf (w_sessions w')) (NONCE_KEY_PREFIX @ sha256_hex (lib A) n) = None"
  using session_repository.bind_Ok [OF assms(1) refl assms(2,3)] assms(4) by metis

text \<open>The lifetime ceiling: an accepted assertion expires strictly after the instant it is
  checked at, at most the configured number of seconds later, and its marker's deadline is exactly
  its \<open>exp\<close>; the subtraction in \<open>i64\<close> cannot wrap an out-of-range \<open>exp\<close> into the window.\<close>

theorem assertion_lifetime_bounds:
  assumes "check_lifetime L c now m = Ok t" "chrono_ok L" "in_range now"
  shows "\<exists>e. Option.bind (hm_get (ic_raw_claims c) ''exp'') number_as_i64 = Some e \<and> t = e * nanos
    \<and> timestamp now < e \<and> e \<le> timestamp now + as_i64 m \<and> now < t"
  using check_lifetime_Ok [OF assms] by metis

text \<open>The branch-free comparison of \<open>at_hash\<close> decides equality of byte strings.\<close>

theorem constant_time_eq_equality: "constant_time_eq a b \<longleftrightarrow> a = b"
  by (rule constant_time_eq_iff)

definition ex_claims :: identity_claims where
  "ex_claims = \<lparr>ic_subject = ''sub'', ic_email = None, ic_email_verified = None, ic_name = None, ic_is_private_email = None,
     ic_signing_alg = ''RS256'', ic_raw_claims = [(''exp'', JInt 100), (''nonce'', JString ''n0'')]\<rparr>"

definition ex_context :: "bool \<Rightarrow> assertion_context" where
  "ex_context b = \<lparr>ax_provider_id = ''p'', ax_client_id = ''client'', ax_access_token = None, ax_compact_jwt = ''jwt'',
     ax_require_nonce = b, ax_max_assertion_secs = 600\<rparr>"

definition ex_nonce_key :: string where
  "ex_nonce_key = NONCE_KEY_PREFIX @ sha256_hex ex_lib ''n0''"

definition ex_nonce_store :: "alist lmdb" where
  "ex_nonce_store = snd (put_single_use (lmdb_port ex_env) 0 ex_nonce_key (300 * nanos) ex_empty)"

lemma ex_nonce_store_ok: "lmdb_inv ex_env ex_nonce_store"
proof -
  have "ex_nonce_key \<noteq> []" by (simp add: ex_nonce_key_def NONCE_KEY_PREFIX_def)
  then show ?thesis using lm.put_law [OF ex_empty_ok(1), of ex_nonce_key 0 "300 * nanos"] unfolding ex_nonce_store_def
    by (metis prod.collapse)
qed

lemma ex_bind_runs:
  "fst (bind ex_app ex_claims (ex_context False) (ex_world nanos ex_empty)) = Ok ()"
  "fst (bind ex_app ex_claims (ex_context True) (ex_world nanos ex_nonce_store)) = Ok ()"
  by code_simp+

lemma ex_repo: "session_repository (session_repo ex_app) (lmdb_inv ex_env) (lmdb_abs ex_env) (reuse_retention_secs ex_env)"
  using lm.session_repository_axioms by simp

lemma ex_world_sessions [simp]: "w_sessions (ex_world t s) = s"
  by (simp add: ex_world_def)


theorem bound_assertion_burns_nonce_witness:
  "\<exists>w'. bind ex_app ex_claims (ex_context True) (ex_world nanos ex_nonce_store) = (Ok (), w')
     \<and> single (lmdb_abs ex_env (w_sessions w')) ex_nonce_key = None"
proof -
  let ?w = "ex_world nanos ex_nonce_store"
  have b: "bind ex_app ex_claims (ex_context True) ?w = (Ok (), snd (bind ex_app ex_claims (ex_context True) ?w))"
    using ex_bind_runs(2) by (metis prod.collapse)
  have "nonempty (str_claim ex_claims ''nonce'') = Some ''n0''" "ax_require_nonce (ex_context True)" by code_simp+
  with bound_assertion_burns_nonce [OF ex_repo _ b] show ?thesis using b ex_nonce_store_ok by (auto simp: ex_nonce_key_def)
qed

theorem assertion_lifetime_bounds_witness:
  "check_lifetime ex_lib ex_claims nanos 600 = Ok (100 * nanos) \<and> nanos < 100 * nanos"
proof -
  have c: "check_lifetime ex_lib ex_claims nanos 600 = Ok (100 * nanos)" by code_simp
  have "in_range nanos" by code_simp
  from assertion_lifetime_bounds [OF c ex_chrono_ok this] c show ?thesis by simp
qed

section \<open>Audit\<close>

text \<open>C20. A mandatory audit event is attempted exactly once, and success means durable or
  permitted: the call succeeds with the event appended to the log and the run of consecutive failures
  cleared, or the sink refused it, the saturating failure count grew, and the call succeeds only
  under the observing policy; under the enforcing policy it fails with the durability error.\<close>

theorem mandatory_audit_durability:
  assumes "emit_mandatory_audit_event A ev w = (r, w')"
  shows "w_attempts w' = w_attempts w @ [ev] \<and>
    (r = Ok () \<and> w_audit w' = w_audit w @ [ev] \<and> w_fail_run w' = 0
     \<or> w_audit w' = w_audit w \<and> w_fail_run w' = saturating_add_u64 (w_fail_run w) 1 \<and>
       (r = Ok () \<and> cfg_durability (config A) = Observe
        \<or> (\<exists>d. r = Err (SecurityAuditDurability d)) \<and> cfg_durability (config A) = Enforce))"
  by (rule emit_mandatory_cases [OF assms])

theorem mandatory_audit_durability_witness:
  "\<exists>r w'. emit_mandatory_audit_event ex_app (into_audit_event (\<lambda>_. []) ''id'' 0 RefreshTokenReuse Success None None UnknownAddr None)
       (ex_world nanos ex_empty) = (r, w') \<and> length (w_attempts w') = 1"
proof -
  obtain r w' where r: "emit_mandatory_audit_event ex_app (into_audit_event (\<lambda>_. []) ''id'' 0 RefreshTokenReuse Success None None UnknownAddr None)
       (ex_world nanos ex_empty) = (r, w')" by fastforce
  from mandatory_audit_durability [OF this] r show ?thesis by (auto simp: ex_world_def)
qed

text \<open>The wire form of an audit outcome round-trips: reading back what was written gives the
  same outcome, for success and for every failure kind.\<close>

theorem audit_outcome_roundtrip: "outcome_deserialize (outcome_serialize oc) = Ok oc"
  by (rule outcome_roundtrip)

end
