(* ===== verification/Service_Wp.thy ===== *)
theory Service_Wp
  imports Service
begin

text \<open>
  A weakest-precondition calculus for the programs of the service. \<open>wp m Q w\<close> says that the run of
  \<open>m\<close> from \<open>w\<close>, whatever it ends in, satisfies \<open>Q\<close> on its outcome and its final world; programs are
  deterministic and total, so this is total correctness. The rules of \<open>wp_simps\<close> push it through the
  combinators. The context of a session repository adds one rule per port operation, with one case
  for the store error that leaves the families alone and one per abstract effect; \<open>emitted\<close> is what a
  mandatory emission leaves behind.
\<close>

section \<open>The calculus\<close>

named_theorems wp_simps \<open>weakest preconditions of the combinators\<close>

definition wp :: "('w, 'e, 'a) prog \<Rightarrow> (('e, 'a) outcome \<Rightarrow> 'w \<Rightarrow> bool) \<Rightarrow> 'w \<Rightarrow> bool" where
  "wp m Q w \<longleftrightarrow> (case m w of (r, w') \<Rightarrow> Q r w')"

lemma wpD: "wp m Q w \<Longrightarrow> m w = (r, w') \<Longrightarrow> Q r w'"
  by (simp add: wp_def)

lemma wpI: "(\<And>r w'. m w = (r, w') \<Longrightarrow> Q r w') \<Longrightarrow> wp m Q w"
  by (simp add: wp_def split: prod.splits)

lemma wp_mono: "wp m P w \<Longrightarrow> (\<And>r w'. P r w' \<Longrightarrow> Q r w') \<Longrightarrow> wp m Q w"
  by (simp add: wp_def split: prod.splits)

lemma wp_keeps: "keeps R m \<Longrightarrow> (\<And>r w'. R w w' \<Longrightarrow> Q r w') \<Longrightarrow> wp m Q w"
  by (auto intro!: wpI dest: keepsD)

lemma wp_pure [wp_simps]:
  "wp (ret x) Q w = Q (Ok x) w" "wp (throw e) Q w = Q (Err e) w" "wp (panic p) Q w = Q (Panic p) w"
  "wp (from_outcome r) Q w = Q r w" "wp (reads f) Q w = Q (Ok (f w)) w" "wp (writes g) Q' w = Q' (Ok ()) (g w)"
  "wp (assert_that b msg) Q' w = Q' (if b then Ok () else Panic msg) w"
  by (simp_all add: wp_def)

lemma wp_and_then [wp_simps]:
  "wp (and_then m f h) Q w = wp m (\<lambda>r w'. case r of Ok x \<Rightarrow> wp (f x) Q w' | Err e \<Rightarrow> wp (h e) Q w' | Panic p \<Rightarrow> Q (Panic p) w') w"
  by (auto simp: wp_def and_then_def split: prod.splits outcome.splits)

lemma wp_bindq [wp_simps]:
  "wp (bindq m f) Q w = wp m (\<lambda>r w'. case r of Ok x \<Rightarrow> wp (f x) Q w' | Err e \<Rightarrow> Q (Err e) w' | Panic p \<Rightarrow> Q (Panic p) w') w"
  by (auto simp: wp_def bindq_def and_then_def split: prod.splits outcome.splits)

lemma wp_seqq [wp_simps]:
  "wp (seqq m k) Q w = wp m (\<lambda>r w'. case r of Ok x \<Rightarrow> wp k Q w' | Err e \<Rightarrow> Q (Err e) w' | Panic p \<Rightarrow> Q (Panic p) w') w"
  by (simp add: seqq_def wp_bindq)

lemma wp_branch [wp_simps]:
  "wp (if b then m else k) Q w = (if b then wp m Q w else wp k Q w)"
  "wp (case x of None \<Rightarrow> m | Some y \<Rightarrow> f y) Q w = (case x of None \<Rightarrow> wp m Q w | Some y \<Rightarrow> wp (f y) Q w)"
  "wp (case p of (a, c) \<Rightarrow> g a c) Q w = (case p of (a, c) \<Rightarrow> wp (g a c) Q w)"
  "wp (Let z h) Q w = wp (h z) Q w"
  by (auto split: option.splits prod.splits)

lemma wp_env [wp_simps]:
  "wp utc_now Qi w = Qi (Ok (w_clock w (w_ticks w))) (w\<lparr>w_ticks := Suc (w_ticks w)\<rparr>)"
  "wp gen_ulid Qs w = Qs (Ok (w_ulid w (w_ulids w))) (w\<lparr>w_ulids := Suc (w_ulids w)\<rparr>)"
  "wp random_bytes Qs w = Qs (Ok (w_random w (w_draws w))) (w\<lparr>w_draws := Suc (w_draws w)\<rparr>)"
  "wp (outside f) Q w = Q (Ok (f (w_ticks w))) (w\<lparr>w_ticks := Suc (w_ticks w)\<rparr>)"
  "wp (outside_result g) Q' w = Q' (g (w_ticks w)) (w\<lparr>w_ticks := Suc (w_ticks w)\<rparr>)"
  by (simp_all add: wp_def)

section \<open>Frames\<close>

text \<open>
  \<open>steady\<close>: the sources of time and randomness are the same and no token bytes were drawn;
  \<open>silent\<close>: nothing was audited, synchronised or written to the user store.
\<close>

definition steady :: "('s, 'u, 'r) world \<Rightarrow> ('s, 'u, 'r) world \<Rightarrow> bool" where
  "steady w w' \<longleftrightarrow> w_clock w' = w_clock w \<and> w_random w' = w_random w \<and> w_ulid w' = w_ulid w
     \<and> w_draws w' = w_draws w \<and> w_ulids w \<le> w_ulids w'"

definition silent :: "('s, 'u, 'r) world \<Rightarrow> ('s, 'u, 'r) world \<Rightarrow> bool" where
  "silent w w' \<longleftrightarrow> w_attempts w' = w_attempts w \<and> w_audit w' = w_audit w \<and> w_sync w' = w_sync w \<and> w_users w' = w_users w"

lemma preorder_more [simp]: "preorderp steady" "preorderp silent"
  by (auto simp: preorderp_def steady_def silent_def)

lemma keeps_steady [keeps_rules]:
  "keeps steady utc_now" "keeps steady gen_ulid" "keeps steady (outside f)" "keeps steady (outside_result g)"
  "keeps steady (on_sessions fs)" "keeps steady (on_users fu)" "keeps steady (on_limits fl)"
  "keeps steady (audit_emit A ev)" "keeps steady (notify_sync A call)"
  "keeps steady (writes record_mandatory_audit_success)" "keeps steady (writes record_mandatory_audit_failure)"
  "keeps steady (writes (log_audit_fallback ev))"
  by (simp_all add: keeps_def steady_def on_users_run on_limits_run on_sessions_run audit_emit_def Let_def notify_sync_def
      record_mandatory_audit_success_def record_mandatory_audit_failure_def log_audit_fallback_def split: option.splits)

lemma keeps_steady_emit [keeps_rules]:
  "keeps steady (emit_audit A ev)" "keeps steady (emit_mandatory_audit_event A ev)"
  "keeps steady (build_security_event A sev outc actor provider addr ua)"
  "keeps steady (emit_security_event_with_detail A sev outc actor provider addr ua d)"
  "keeps steady (emit_security_event A sev outc actor provider addr ua)"
  "keeps steady (create_audit_event A ty lvl outc actor provider addr ua)"
  unfolding emit_audit_def emit_mandatory_audit_event_def build_security_event_def create_audit_event_def
    emit_security_event_with_detail_def emit_security_event_def
  by (intro keeps_rules preorder_more)+

lemma keeps_silent [keeps_rules]:
  "keeps silent utc_now" "keeps silent gen_ulid" "keeps silent random_bytes" "keeps silent (outside f)"
  "keeps silent (outside_result g)" "keeps silent (on_sessions fs)" "keeps silent (on_limits fl)"
  by (simp_all add: keeps_def silent_def on_limits_run on_sessions_run)

section \<open>Mandatory emission\<close>

text \<open>
  What an emission leaves: one attempt, the stores untouched, and success only when the event is in
  the durable log or the policy only observes.
\<close>

definition emitted ::
  "('s, 'u, 'r) app_service \<Rightarrow> (audit_event \<Rightarrow> bool) \<Rightarrow> ('s, 'u, 'r) world \<Rightarrow> unit result \<Rightarrow> ('s, 'u, 'r) world \<Rightarrow> bool" where
  "emitted A P w r w' \<longleftrightarrow> keeps_stores w w' \<and> (\<exists>e. P e \<and> w_attempts w' = w_attempts w @ [e] \<and>
     (r = Ok () \<and> w_audit w' = w_audit w @ [e] \<or> w_audit w' = w_audit w \<and>
       (r = Ok () \<and> cfg_durability (config A) = Observe
        \<or> (\<exists>x. r = Err (SecurityAuditDurability x)) \<and> cfg_durability (config A) = Enforce)))"

text \<open>The event a security event is recorded as.\<close>

definition records :: "security_event \<Rightarrow> audit_outcome \<Rightarrow> string option \<Rightarrow> json hashmap \<Rightarrow> operator_principal option \<Rightarrow> audit_event \<Rightarrow> bool" where
  "records ev outc actor d op e \<longleftrightarrow> ae_type e = se_event_type ev \<and> ae_severity e = se_severity ev
     \<and> ae_outcome e = outc \<and> ae_actor e = actor \<and> ae_detail e = d \<and> ae_operator e = op"

lemma emittedE:
  assumes "emitted A P w r w'"
  obtains e where "P e" "keeps_stores w w'" "w_attempts w' = w_attempts w @ [e]"
    "r = Ok () \<and> w_audit w' = w_audit w @ [e] \<or> r = Ok () \<and> w_audit w' = w_audit w \<and> cfg_durability (config A) = Observe
     \<or> (\<exists>x. r = Err (SecurityAuditDurability x)) \<and> w_audit w' = w_audit w \<and> cfg_durability (config A) = Enforce"
  using assms by (auto simp: emitted_def)

lemma emitted_outcome: "emitted A P w r w' \<Longrightarrow> r = Ok () \<or> (\<exists>x. r = Err (SecurityAuditDurability x)) \<and> cfg_durability (config A) = Enforce"
  by (auto simp: emitted_def)

lemma emitted_stores:
  "emitted A P w r w' \<Longrightarrow> w_sessions w' = w_sessions w \<and> w_users w' = w_users w \<and> w_limits w' = w_limits w \<and> w_sync w' = w_sync w"
  by (auto simp: emitted_def keeps_stores_def)

lemma emitted_one: "emitted A P w r w' \<Longrightarrow> length (w_attempts w') = Suc (length (w_attempts w))"
  by (auto simp: emitted_def)

lemma emit_mandatory_emitted:
  assumes "P ev" shows "wp (emit_mandatory_audit_event A ev) (emitted A P w) w"
proof (rule wpI)
  fix r w' assume r: "emit_mandatory_audit_event A ev w = (r, w')"
  show "emitted A P w r w'" unfolding emitted_def
    using emit_mandatory_cases [OF r] keepsD [OF keeps_emit(3) r] assms by blast
qed

lemma emit_detail_emitted:
  "wp (emit_security_event_with_detail A ev outc actor provider addr ua d) (emitted A (records ev outc actor d None) w) w"
proof (rule wpI)
  fix r w' assume r: "emit_security_event_with_detail A ev outc actor provider addr ua d w = (r, w')"
  show "emitted A (records ev outc actor d None) w r w'"
    using r by (rule emit_security_cases)
      (use keepsD [OF keeps_emit_security(3) r] in \<open>auto simp: emitted_def records_def\<close>)
qed

lemma emit_emitted:
  "wp (emit_security_event A ev outc actor provider addr ua) (emitted A (records ev outc actor [] None) w) w"
  unfolding emit_security_event_def by (rule emit_detail_emitted)

section \<open>Session repositories\<close>

context session_repository
begin

lemma wp_get_session:
  assumes "inv (w_sessions w)"
    and "\<And>d s. inv s \<Longrightarrow> absf s = absf (w_sessions w) \<Longrightarrow> Q (Err (StoreError d)) (w\<lparr>w_sessions := s\<rparr>)"
    and "\<And>s. inv s \<Longrightarrow> absf s = absf (w_sessions w) \<Longrightarrow> Q (Ok (live (absf (w_sessions w)) h)) (w\<lparr>w_sessions := s\<rparr>)"
  shows "wp (on_sessions (get_session_by_refresh_token P h)) Q w"
  using assms get_law [OF assms(1)] by (fastforce intro!: wpI elim!: on_sessionsE simp: failed_clean_def)

lemma wp_revoke_session:
  assumes "inv (w_sessions w)" "h \<noteq> []"
    and "\<And>d s. inv s \<Longrightarrow> absf s = absf (w_sessions w) \<Longrightarrow> Q (Err (StoreError d)) (w\<lparr>w_sessions := s\<rparr>)"
    and "\<And>s. inv s \<Longrightarrow> absf s = (absf (w_sessions w))\<lparr>live := (live (absf (w_sessions w)))(h := None)\<rparr> \<Longrightarrow>
      Q (Ok ()) (w\<lparr>w_sessions := s\<rparr>)"
  shows "wp (on_sessions (revoke_session P h)) Q w"
  using assms revoke_session_law [OF assms(1,2)] by (fastforce intro!: wpI elim!: on_sessionsE simp: failed_clean_def)

lemma wp_revoke_family:
  assumes "inv (w_sessions w)" "is_valid_family_id f"
    and "\<And>d s. inv s \<Longrightarrow> absf s = absf (w_sessions w) \<Longrightarrow> Q (Err (StoreError d)) (w\<lparr>w_sessions := s\<rparr>)"
    and "\<And>s n. inv s \<Longrightarrow> absf s = spec_revoke_family f (absf (w_sessions w)) \<Longrightarrow>
      n = of_nat (card {h. \<exists>x. live (absf (w_sessions w)) h = Some x \<and> s_family_id x = f}
            + card {h. \<exists>x. retired (absf (w_sessions w)) h = Some x \<and> r_family_id x = f}) \<Longrightarrow> Q (Ok n) (w\<lparr>w_sessions := s\<rparr>)"
  shows "wp (on_sessions (revoke_family P f)) Q w"
  using assms revoke_family_law [OF assms(1,2)] by (fastforce intro!: wpI elim!: on_sessionsE simp: failed_clean_def)

lemma wp_revoke_all:
  assumes "inv (w_sessions w)" "user_id_ok u"
    and "\<And>d s. inv s \<Longrightarrow> absf s = absf (w_sessions w) \<Longrightarrow> Q (Err (StoreError d)) (w\<lparr>w_sessions := s\<rparr>)"
    and "\<And>s n. inv s \<Longrightarrow> absf s = spec_revoke_user u (absf (w_sessions w)) \<Longrightarrow>
      n = of_nat (card {h. \<exists>x. live (absf (w_sessions w)) h = Some x \<and> s_user_id x = u}) \<Longrightarrow> Q (Ok n) (w\<lparr>w_sessions := s\<rparr>)"
  shows "wp (on_sessions (revoke_all_user_sessions P u)) Q w"
  using assms revoke_all_law [OF assms(1,2)] by (fastforce intro!: wpI elim!: on_sessionsE simp: failed_clean_def)

lemma wp_list_live:
  assumes "inv (w_sessions w)" "user_id_ok u" "n < 2 ^ 63"
    and "\<And>d s. inv s \<Longrightarrow> absf s = absf (w_sessions w) \<Longrightarrow> Q (Err (StoreError d)) (w\<lparr>w_sessions := s\<rparr>)"
    and "\<And>s xs. inv s \<Longrightarrow> absf s = absf (w_sessions w) \<Longrightarrow> distinct xs \<Longrightarrow>
      set xs = {x. live (absf (w_sessions w)) (s_hash x) = Some x \<and> s_user_id x = u \<and> now < s_expires_at x} \<Longrightarrow>
      sorted_wrt (\<lambda>a b. s_created_at b \<le> s_created_at a) xs \<Longrightarrow> Q (Ok (take n xs)) (w\<lparr>w_sessions := s\<rparr>)"
  shows "wp (on_sessions (list_live_sessions P u now n)) Q w"
proof (rule wpI)
  fix r w' assume "on_sessions (list_live_sessions P u now n) w = (r, w')"
  then obtain s where s: "list_live_sessions P u now n (w_sessions w) = (r, s)" "w' = w\<lparr>w_sessions := s\<rparr>"
    by (rule on_sessionsE)
  from list_law [OF assms(1,2,3) s(1)] show "Q r w'"
    using assms(4,5) s(2) by (auto simp: failed_clean_def)
qed

lemma wp_store:
  assumes "inv (w_sessions w)" "storable x (absf (w_sessions w))"
    and "\<And>d s. inv s \<Longrightarrow> absf s = absf (w_sessions w) \<Longrightarrow> Q (Err (StoreError d)) (w\<lparr>w_sessions := s\<rparr>)"
    and "\<And>s. inv s \<Longrightarrow> absf s = (absf (w_sessions w))\<lparr>live := (live (absf (w_sessions w)))(s_hash x \<mapsto> x)\<rparr> \<Longrightarrow>
      Q (Ok ()) (w\<lparr>w_sessions := s\<rparr>)"
  shows "wp (on_sessions (store_refresh_token P x)) Q w"
  using assms store_law [OF assms(1,2)] by (fastforce intro!: wpI elim!: on_sessionsE simp: failed_clean_def)

end

section \<open>User repositories\<close>

context user_repository
begin

lemma wp_get_user:
  assumes "inv (w_users w)"
    and "\<And>e s. inv s \<Longrightarrow> umap s = umap (w_users w) \<Longrightarrow> Q (Err e) (w\<lparr>w_users := s\<rparr>)"
    and "\<And>s. inv s \<Longrightarrow> umap s = umap (w_users w) \<Longrightarrow> Q (Ok (umap (w_users w) i)) (w\<lparr>w_users := s\<rparr>)"
  shows "wp (on_users (get_user_by_id P i)) Q w"
  using assms get_law [OF assms(1)] by (fastforce intro!: wpI elim!: on_usersE simp: user_failed_def)

lemma wp_get_external:
  assumes "inv (w_users w)"
    and "\<And>e s. inv s \<Longrightarrow> umap s = umap (w_users w) \<Longrightarrow> Q (Err e) (w\<lparr>w_users := s\<rparr>)"
    and "\<And>s. inv s \<Longrightarrow> umap s = umap (w_users w) \<Longrightarrow>
      \<forall>i u. umap s i = Some u \<longrightarrow> \<not> (u_external_id u = x \<and> u_provider u = prv \<and> u_status u \<noteq> Deleted) \<Longrightarrow> Q (Ok None) (w\<lparr>w_users := s\<rparr>)"
    and "\<And>s u. inv s \<Longrightarrow> umap s = umap (w_users w) \<Longrightarrow> umap s (u_id u) = Some u \<Longrightarrow> u_external_id u = x \<Longrightarrow>
      u_provider u = prv \<Longrightarrow> u_status u \<noteq> Deleted \<Longrightarrow> Q (Ok (Some u)) (w\<lparr>w_users := s\<rparr>)"
  shows "wp (on_users (get_user_by_external_id P x prv)) Q w"
proof (rule wpI)
  fix r w' assume "on_users (get_user_by_external_id P x prv) w = (r, w')"
  then obtain s where s: "get_user_by_external_id P x prv (w_users w) = (r, s)" "w' = w\<lparr>w_users := s\<rparr>" by (rule on_usersE)
  from ext_law [OF assms(1) s(1)] show "Q r w'" using assms(2-4) s(2) by auto
qed

lemma wp_create:
  assumes "inv (w_users w)" "ulid_ok ulid"
    and "\<And>e s. inv s \<Longrightarrow> umap s = umap (w_users w) \<Longrightarrow> Q (Err e) (w\<lparr>w_users := s\<rparr>)"
    and "\<And>s u. inv s \<Longrightarrow> umap s = (umap (w_users w))(u_id u \<mapsto> u) \<Longrightarrow> u_external_id u = nu_external_id nu \<Longrightarrow>
      u_provider u = nu_provider nu \<Longrightarrow> u_status u = Active \<Longrightarrow> Q (Ok u) (w\<lparr>w_users := s\<rparr>)"
  shows "wp (on_users (create_user P now ulid nu)) Q w"
proof (rule wpI)
  fix r w' assume "on_users (create_user P now ulid nu) w = (r, w')"
  then obtain s where s: "create_user P now ulid nu (w_users w) = (r, s)" "w' = w\<lparr>w_users := s\<rparr>" by (rule on_usersE)
  from create_law [OF assms(1,2) s(1)] show "Q r w'" using assms(3,4) s(2) by (auto simp: user_failed_def)
qed

lemma wp_update:
  assumes "inv (w_users w)"
    and "\<And>e s. inv s \<Longrightarrow> umap s = umap (w_users w) \<Longrightarrow> Q (Err e) (w\<lparr>w_users := s\<rparr>)"
    and "\<And>s u. inv s \<Longrightarrow> umap (w_users w) i = Some u \<Longrightarrow> umap s = (umap (w_users w))(i \<mapsto> patch_user now p u) \<Longrightarrow>
      Q (Ok (patch_user now p u)) (w\<lparr>w_users := s\<rparr>)"
  shows "wp (on_users (update_user P now i p)) Q w"
proof (rule wpI)
  fix r w' assume "on_users (update_user P now i p) w = (r, w')"
  then obtain s where s: "update_user P now i p (w_users w) = (r, s)" "w' = w\<lparr>w_users := s\<rparr>" by (rule on_usersE)
  from update_law [OF assms(1) s(1)] show "Q r w'" using assms(2,3) s(2) by (auto simp: user_failed_def)
qed

end

section \<open>Both stores\<close>

locale service_stores = session_repository P inv absf reten + U: user_repository UP uinv umap
  for P :: "'s session_port" and inv absf reten and UP :: "'u user_port" and uinv umap

end
