(* ===== verification/Revoke.thy ===== *)
theory Revoke
  imports Access_Token Service_Wp
begin

text \<open>
  Token revocation (\<open>crates/core/src/service/revoke.rs\<close>) and the shared expiry sweep
  (\<open>service/maintenance.rs\<close>). An access token revokes the one family its session claim names, a
  refresh token the one generation its hash names; whatever the state of the token, the client is
  told the same.
\<close>

section \<open>Operations\<close>

definition TOKEN_HASH_HEX_LEN :: nat where
  "TOKEN_HASH_HEX_LEN = 64"

record revoke_request =
  rv_token :: string
  rv_token_type_hint :: "string option"
  rv_client_addr :: client_addr
  rv_user_agent :: "string option"
  rv_device_id :: "string option"

definition emit_revoke_rejection ::
  "('s, 'u, 'r) app_service \<Rightarrow> client_addr \<Rightarrow> string option \<Rightarrow> ('s, 'u, 'r, unit) svc" where
  "emit_revoke_rejection A addr ua =
     emit_security_event A AuthenticationFailed (Failure AF_AuthenticationFailed) None None addr ua"

definition revoke_access_token ::
  "('s, 'u, 'r) app_service \<Rightarrow> revoke_request \<Rightarrow> client_addr \<Rightarrow> string option \<Rightarrow> ('s, 'u, 'r, unit) svc" where
  "revoke_access_token A req addr ua =
     and_then (validate_access_token A (rv_token req))
       (\<lambda>claims.
         seqq (assert_that (c_sid claims \<noteq> []) ''revoke: validated access token must carry a non-empty sid'')
         (if \<not> is_valid_family_id (c_sid claims) then emit_revoke_rejection A addr ua
          else
            seqq (assert_that (c_sub claims \<noteq> []) ''revoke: verified token sub claim must not be empty'')
            (bindq (on_sessions (revoke_family (session_repo A) (c_sid claims))) (\<lambda>sessions_revoked.
             bindq (build_security_event A SessionRevoked Success (Some (c_sub claims)) None addr ua) (\<lambda>event.
             emit_mandatory_audit_event A (event\<lparr>ae_detail :=
               [(''family_id'', JString (c_sid claims)), (''sessions_revoked'', JInt (uint sessions_revoked))]\<rparr>))))))
       (\<lambda>_. emit_revoke_rejection A addr ua)"

definition revoke_refresh_token ::
  "('s, 'u, 'r) app_service \<Rightarrow> revoke_request \<Rightarrow> client_addr \<Rightarrow> string option \<Rightarrow> ('s, 'u, 'r, unit) svc" where
  "revoke_refresh_token A req addr ua =
     (let token_hash = sha256_hex (lib A) (rv_token req) in
      seqq (assert_that (length token_hash = TOKEN_HASH_HEX_LEN) ''revoke: SHA-256 hex digest must be 64 characters'')
      (bindq (on_sessions (get_session_by_refresh_token (session_repo A) token_hash)) (\<lambda>existing.
       case existing of
         Some session \<Rightarrow>
           seqq (assert_that (s_user_id session \<noteq> []) ''revoke: stored session must have a non-empty user_id'')
           (seqq (assert_that (secret_eq (lib A) (s_hash session) token_hash) ''revoke: hash-keyed lookup must return the matching session'')
           (seqq (on_sessions (revoke_session (session_repo A) token_hash))
           (emit_security_event A SessionRevoked Success (Some (s_user_id session)) None addr ua)))
       | None \<Rightarrow> emit_revoke_rejection A addr ua)))"

definition revoke :: "('s, 'u, 'r) app_service \<Rightarrow> revoke_request \<Rightarrow> ('s, 'u, 'r, unit) svc" where
  "revoke A req =
     seqq (assert_that (rv_token req \<noteq> []) ''revoke: token must not be empty'')
     (if rv_token_type_hint req = Some ''access_token''
      then revoke_access_token A req (rv_client_addr req) (rv_user_agent req)
      else revoke_refresh_token A req (rv_client_addr req) (rv_user_agent req))"

text \<open>The adapter reads the clock; the service only passes the call on.\<close>

definition service_cleanup_expired_sessions :: "('s, 'u, 'r) app_service \<Rightarrow> ('s, 'u, 'r, u64) svc" where
  "service_cleanup_expired_sessions A =
     bindq utc_now (\<lambda>t. on_sessions (cleanup_expired_sessions (session_repo A) t))"

section \<open>Lemmas\<close>

text \<open>
  How a revocation ends: with the families as they were and a store error, or after one mandatory
  emission whose outcome is the answer.
\<close>

definition revoked_to :: "('s, 'u, 'r) app_service \<Rightarrow> ('s \<Rightarrow> bool) \<Rightarrow> ('s \<Rightarrow> fam_store) \<Rightarrow> ('s, 'u, 'r) world
    \<Rightarrow> fam_store \<Rightarrow> unit result \<Rightarrow> ('s, 'u, 'r) world \<Rightarrow> bool" where
  "revoked_to A I absf w st r w' \<longleftrightarrow> I (w_sessions w') \<and> absf (w_sessions w') = st \<and> w_users w' = w_users w
     \<and> length (w_attempts w') = Suc (length (w_attempts w))
     \<and> (r = Ok () \<or> (\<exists>x. r = Err (SecurityAuditDurability x)) \<and> cfg_durability (config A) = Enforce)"

definition revoke_stopped :: "('s \<Rightarrow> bool) \<Rightarrow> ('s \<Rightarrow> fam_store) \<Rightarrow> ('s, 'u, 'r) world \<Rightarrow> unit result \<Rightarrow> ('s, 'u, 'r) world \<Rightarrow> bool" where
  "revoke_stopped I absf w r w' \<longleftrightarrow> I (w_sessions w') \<and> absf (w_sessions w') = absf (w_sessions w) \<and> w_users w' = w_users w
     \<and> w_attempts w' = w_attempts w \<and> ((\<exists>d. r = Err (StoreError d)) \<or> (\<exists>p. r = Panic p))"

lemma validate_attempts: "validate_access_token A t w = (r, w') \<Longrightarrow> w_attempts w' = w_attempts w"
proof -
  have "keeps (\<lambda>w w'. w_attempts w' = w_attempts w) (validate_access_token A t)"
    unfolding validate_access_token_def read_claims_def
    by (intro keeps_rules preorderpI) (simp_all add: keeps_def)
  then show "validate_access_token A t w = (r, w') \<Longrightarrow> w_attempts w' = w_attempts w" by (rule keepsD)
qed

lemma emitted_revoked:
  assumes "emitted A P v r w'" "I (w_sessions v)" "absf (w_sessions v) = st" "w_users v = w_users w" "w_attempts v = w_attempts w"
  shows "revoked_to A I absf w st r w'"
  using emitted_outcome [OF assms(1)] emitted_stores [OF assms(1)] emitted_one [OF assms(1)] assms(2-5)
  by (auto simp: revoked_to_def)

lemma wp_rejection:
  assumes "I (w_sessions v)" "absf (w_sessions v) = st" "w_users v = w_users w" "w_attempts v = w_attempts w"
  shows "wp (emit_revoke_rejection A addr ua) (revoked_to A I absf w st) v"
  unfolding emit_revoke_rejection_def
  by (rule wp_mono [OF emit_emitted]) (erule emitted_revoked; fact assms)

context session_repository
begin

lemma revoke_refresh_wp:
  assumes P: "session_repo A = P" and i: "inv (w_sessions w)" and h: "h = sha256_hex (lib A) (rv_token req)"
  shows "wp (revoke_refresh_token A req addr ua) (\<lambda>r w'. revoke_stopped inv absf w r w'
    \<or> revoked_to A inv absf w (absf (w_sessions w)\<lparr>live := (live (absf (w_sessions w)))(h := None)\<rparr>) r w') w" (is "wp _ ?Q w")
proof (cases "length h = TOKEN_HASH_HEX_LEN")
  case False
  then show ?thesis using i h by (simp add: revoke_refresh_token_def wp_simps revoke_stopped_def)
next
  case len: True
  then have ne: "h \<noteq> []" by (auto simp: TOKEN_HASH_HEX_LEN_def)
  have gone: "absf s = (absf (w_sessions w))\<lparr>live := (live (absf (w_sessions w)))(h := None)\<rparr>"
    if "live (absf (w_sessions w)) h = None" "absf s = absf (w_sessions w)" for s
    using that by (simp add: fun_upd_idem)
  have kill: "wp (seqq (on_sessions (revoke_session P h)) (emit_security_event A SessionRevoked Success actor None addr ua)) ?Q
      (w\<lparr>w_sessions := s\<rparr>)" if s: "inv s" "absf s = absf (w_sessions w)" for s actor
    unfolding wp_simps
  proof (rule wp_revoke_session)
    fix t assume "inv t" "absf t = (absf (w_sessions (w\<lparr>w_sessions := s\<rparr>)))\<lparr>live := (live (absf (w_sessions (w\<lparr>w_sessions := s\<rparr>))))(h := None)\<rparr>"
    then show "case Ok () of Ok x \<Rightarrow> wp (emit_security_event A SessionRevoked Success actor None addr ua) ?Q
        (w\<lparr>w_sessions := s, w_sessions := t\<rparr>) | Err e \<Rightarrow> ?Q (Err e) (w\<lparr>w_sessions := s, w_sessions := t\<rparr>)
        | Panic p \<Rightarrow> ?Q (Panic p) (w\<lparr>w_sessions := s, w_sessions := t\<rparr>)"
      using s by (auto intro!: wp_mono [OF emit_emitted] emitted_revoked)
  qed (use s ne in \<open>auto simp: revoke_stopped_def\<close>)
  show ?thesis unfolding revoke_refresh_token_def Let_def wp_simps P h [symmetric]
  proof (simp add: len, rule wp_get_session [OF i], goal_cases)
    case (1 d s)
    then show ?case by (simp add: revoke_stopped_def)
  next
    case (2 s)
    show ?case
    proof (cases "live (absf (w_sessions w)) h")
      case None
      then show ?thesis using 2 gone by (auto intro!: wp_mono [OF wp_rejection [where I = inv and absf = absf and w = w]] simp: fun_upd_idem)
    next
      case (Some x)
      have stop: "?Q (Panic p) (w\<lparr>w_sessions := s\<rparr>)" for p using 2 by (simp add: revoke_stopped_def)
      show ?thesis using kill [OF 2, of "Some (s_user_id x)"] stop by (simp add: Some wp_pure wp_seqq)
    qed
  qed
qed

lemma revoke_access_wp:
  assumes P: "session_repo A = P" and i: "inv (w_sessions w)"
  shows "wp (revoke_access_token A req addr ua) (\<lambda>r w'. revoke_stopped inv absf w r w'
    \<or> (case fst (validate_access_token A (rv_token req) w) of
         Ok c \<Rightarrow> revoked_to A inv absf w (if is_valid_family_id (c_sid c) then spec_revoke_family (c_sid c) (absf (w_sessions w))
                   else absf (w_sessions w)) r w'
       | _ \<Rightarrow> revoked_to A inv absf w (absf (w_sessions w)) r w')) w" (is "wp _ ?Q w")
proof -
  obtain rv v where v: "validate_access_token A (rv_token req) w = (rv, v)" by fastforce
  have s: "w_sessions v = w_sessions w" "w_users v = w_users w" "w_attempts v = w_attempts w"
    using keepsD [OF keeps_access_token(2) v] validate_attempts [OF v] by (simp_all add: keeps_stores_def)
  have rej: "wp (emit_revoke_rejection A addr ua) (revoked_to A inv absf w (absf (w_sessions w))) v"
    by (rule wp_rejection) (use i s in auto)
  have run: "wp (revoke_access_token A req addr ua) ?Q w = (case rv of
      Ok c \<Rightarrow> wp (seqq (assert_that (c_sid c \<noteq> []) ''revoke: validated access token must carry a non-empty sid'')
         (if \<not> is_valid_family_id (c_sid c) then emit_revoke_rejection A addr ua
          else seqq (assert_that (c_sub c \<noteq> []) ''revoke: verified token sub claim must not be empty'')
            (bindq (on_sessions (revoke_family P (c_sid c))) (\<lambda>sessions_revoked.
             bindq (build_security_event A SessionRevoked Success (Some (c_sub c)) None addr ua) (\<lambda>event.
             emit_mandatory_audit_event A (event\<lparr>ae_detail :=
               [(''family_id'', JString (c_sid c)), (''sessions_revoked'', JInt (uint sessions_revoked))]\<rparr>)))))) ?Q v
    | Err e \<Rightarrow> wp (emit_revoke_rejection A addr ua) ?Q v | Panic p \<Rightarrow> ?Q (Panic p) v)"
    unfolding revoke_access_token_def wp_and_then P by (simp add: v wp_def [of "validate_access_token _ _"] split del: if_split)
  show ?thesis
  proof (cases rv)
    case (Ok c)
    have em: "wp (bindq (build_security_event A SessionRevoked Success (Some (c_sub c)) None addr ua) (\<lambda>event.
             emit_mandatory_audit_event A (event\<lparr>ae_detail := d\<rparr>)))
        (revoked_to A inv absf w (spec_revoke_family (c_sid c) (absf (w_sessions w)))) (v\<lparr>w_sessions := t\<rparr>)"
      if "inv t" "absf t = spec_revoke_family (c_sid c) (absf (w_sessions w))" for t d
      unfolding emit_security_event_with_detail_def [symmetric]
      by (rule wp_mono [OF emit_detail_emitted]) (erule emitted_revoked; use that s in simp)
    show ?thesis
    proof (cases "is_valid_family_id (c_sid c)")
      case True
      then show ?thesis unfolding run Ok using v Ok
        by (auto simp: wp_seqq wp_pure wp_branch wp_bindq [of "on_sessions _"] i s revoke_stopped_def is_valid_family_id_nonempty
            intro!: wp_revoke_family wp_mono [OF em])
    next
      case False
      then show ?thesis unfolding run Ok using v Ok i s
        by (auto simp: wp_seqq wp_pure wp_branch revoke_stopped_def intro!: wp_mono [OF rej])
    qed
  qed (use run v i s in \<open>auto simp: revoke_stopped_def intro!: wp_mono [OF rej]\<close>)
qed

text \<open>Every run of a revocation.\<close>

lemma revoke_run:
  assumes P: "session_repo A = P" and i: "inv (w_sessions w)" and b: "revoke A req w = (r, w')"
  obtains (stopped) "revoke_stopped inv absf w r w'"
  | (refresh) "rv_token_type_hint req \<noteq> Some ''access_token''"
      "revoked_to A inv absf w (absf (w_sessions w)\<lparr>live := (live (absf (w_sessions w)))(sha256_hex (lib A) (rv_token req) := None)\<rparr>) r w'"
  | (family) c where "rv_token_type_hint req = Some ''access_token''" "fst (validate_access_token A (rv_token req) w) = Ok c"
      "is_valid_family_id (c_sid c)" "revoked_to A inv absf w (spec_revoke_family (c_sid c) (absf (w_sessions w))) r w'"
  | (rejected) "rv_token_type_hint req = Some ''access_token''"
      "\<forall>c. fst (validate_access_token A (rv_token req) w) = Ok c \<longrightarrow> \<not> is_valid_family_id (c_sid c)"
      "revoked_to A inv absf w (absf (w_sessions w)) r w'"
proof (cases "rv_token req = []")
  case True
  then show thesis using b i by (intro stopped) (auto simp: revoke_def revoke_stopped_def)
next
  case False
  show thesis
  proof (cases "rv_token_type_hint req = Some ''access_token''")
    case True
    then have "revoke_access_token A req (rv_client_addr req) (rv_user_agent req) w = (r, w')"
      using b False by (simp add: revoke_def)
    from wpD [OF revoke_access_wp [OF P i] this] show thesis using True stopped family rejected
      by (cases "fst (validate_access_token A (rv_token req) w)") (auto split: if_splits)
  next
    case hint: False
    then have "revoke_refresh_token A req (rv_client_addr req) (rv_user_agent req) w = (r, w')"
      using b False by (simp add: revoke_def)
    from wpD [OF revoke_refresh_wp [OF P i refl] this] show thesis using hint stopped refresh by blast
  qed
qed

end

end
