(* ===== verification/Exchange.thy ===== *)
theory Exchange
  imports Assertion Refresh Service_Wp
begin

text \<open>
  The exchange of a provider credential for local tokens (\<open>crates/core/src/service/exchange.rs\<close>):
  provider and limits, validated claims, assertion binding, the registration policy and first-login
  creation with its race, the session that opens a refresh-token family, the access token, and the
  one terminal audit event of every run.
\<close>

section \<open>Requests\<close>

datatype exchange_credential =
    AuthorizationCode (xc_code: string) (xc_redirect_uri: string)
  | IdTokenAssertion (xc_id_token: string)

record exchange_request =
  xr_credential :: exchange_credential
  xr_provider :: string
  xr_provider_access_token :: "string option"
  xr_client_addr :: client_addr
  xr_user_agent :: "string option"
  xr_device_id :: "string option"
  xr_location :: "session_location option"

section \<open>Registration policy\<close>

definition rsplit_once :: "char \<Rightarrow> string \<Rightarrow> (string \<times> string) option" where
  "rsplit_once c s = (case dropWhile (\<lambda>x. x \<noteq> c) (rev s) of
       [] \<Rightarrow> None
     | _ # front \<Rightarrow> Some (rev front, rev (takeWhile (\<lambda>x. x \<noteq> c) (rev s))))"

definition matches_domain_allowlist :: "'x lib_scheme \<Rightarrow> string \<Rightarrow> string list \<Rightarrow> bool" where
  "matches_domain_allowlist L email allowlist = (case rsplit_once (CHR ''@'') email of
       None \<Rightarrow> False
     | Some (_, domain) \<Rightarrow>
         let domain_lower = to_lowercase L domain in
         list_ex (\<lambda>entry.
           let entry_lower = to_lowercase L entry in
           case strip_prefix ''*'' entry_lower of
             Some sfx \<Rightarrow> ends_with domain_lower sfx \<and> length domain_lower > length sfx
           | None \<Rightarrow> domain_lower = entry_lower) allowlist)"

definition registration_policy_reason ::
  "'x lib_scheme \<Rightarrow> string option \<Rightarrow> bool option \<Rightarrow> string list option \<Rightarrow> string option" where
  "registration_policy_reason L email email_verified allowlist = (case email of
       None \<Rightarrow> Some ''verified email required for registration''
     | Some e \<Rightarrow>
         if email_verified \<noteq> Some True then Some ''verified email required for registration''
         else (case allowlist of
             None \<Rightarrow> None
           | Some al \<Rightarrow> if \<not> matches_domain_allowlist L e al then Some ''email domain not in allowlist'' else None))"

section \<open>The flow\<close>

datatype exchange_flow_error =
    Binding (fe_check: string) (fe_reason: string)
  | Attributed (fe_error: error) (fe_actor: string)
  | Other (fe_error: error)

record exchange_success =
  xs_response :: token_response
  xs_user_id :: "string option"
  xs_refresh_token_hash :: string

text \<open>\<open>From<Error>\<close>, as the \<open>?\<close> operator applies it.\<close>

definition flow :: "('w, error, 'a) prog \<Rightarrow> ('w, exchange_flow_error, 'a) prog" where
  "flow m = and_then m ret (\<lambda>e. throw (Other e))"

fun exchange_terminal_event :: "error \<Rightarrow> security_event \<times> audit_outcome \<times> string option" where
  "exchange_terminal_event (AccessDenied _) = (RegistrationDenied, Failure AF_RegistrationDenied, None)"
| "exchange_terminal_event (UserSuspended u) = (PrincipalSuspended, Failure AF_PrincipalSuspended, Some u)"
| "exchange_terminal_event (ProviderError _ _) = (ProviderRejected, Failure AF_ProviderRejected, None)"
| "exchange_terminal_event (ProviderTimeout _) = (ProviderRejected, Failure AF_ProviderRejected, None)"
| "exchange_terminal_event (TooManyRequests _) = (ThrottleExceeded, Failure AF_ThrottleExceeded, None)"
| "exchange_terminal_event _ = (AuthenticationFailed, Failure AF_AuthenticationFailed, None)"

definition consume_limit :: "('s, 'u, 'r) app_service \<Rightarrow> rl_key option \<Rightarrow> ('s, 'u, 'r, unit) svc" where
  "consume_limit A key = (case key of
       None \<Rightarrow> throw (InvalidRequest ''invalid provider identifier'')
     | Some k \<Rightarrow>
         bindq utc_now (\<lambda>t.
         and_then (on_limits (check_and_consume (rate_limiter A) t k))
           (\<lambda>d. case d of Allow \<Rightarrow> ret () | Deny n \<Rightarrow> throw (TooManyRequests n))
           (\<lambda>_. ret ())))"

definition enforce_assertion_binding ::
  "('s, 'u, 'r) app_service \<Rightarrow> identity_claims \<Rightarrow> assertion_context \<Rightarrow> (('s, 'u, 'r) world, exchange_flow_error, unit) prog" where
  "enforce_assertion_binding A claims ctx = and_then (bind A claims ctx) ret
     (\<lambda>e. throw (case e of BindStore err \<Rightarrow> Other err | Rejected control reason \<Rightarrow> Binding control reason))"

text \<open>Step 2: the claims, the compact JWT they came in, and the access token that can anchor \<open>at_hash\<close>.\<close>

definition validated_claims ::
  "('s, 'u, 'r) app_service \<Rightarrow> identity_provider \<Rightarrow> exchange_request \<Rightarrow> ('s, 'u, 'r, identity_claims \<times> string \<times> string option) svc" where
  "validated_claims A provider req = (case xr_credential req of
       AuthorizationCode code redirect_uri \<Rightarrow>
         bindq (outside_result (\<lambda>n. ip_exchange_code provider n code redirect_uri)) (\<lambda>tokens.
         seqq (assert_that (pt_id_token tokens \<noteq> []) ''exchange: IdentityProvider::exchange_code returned an empty id_token, violating the port contract'')
         (bindq (outside_result (\<lambda>n. ip_validate_id_token provider n (pt_id_token tokens))) (\<lambda>claims.
         ret (claims, pt_id_token tokens, pt_access_token tokens))))
     | IdTokenAssertion id_token \<Rightarrow>
         bindq (outside_result (\<lambda>n. ip_validate_id_token provider n id_token)) (\<lambda>claims.
         ret (claims, id_token, xr_provider_access_token req)))"

definition exchange_context ::
  "config \<Rightarrow> identity_provider \<Rightarrow> exchange_request \<Rightarrow> string \<Rightarrow> string option \<Rightarrow> assertion_context" where
  "exchange_context C provider req jwt tok = \<lparr>ax_provider_id = ip_provider_id provider, ax_client_id = ip_client_id provider,
     ax_access_token = tok, ax_compact_jwt = jwt,
     ax_require_nonce = (case xr_credential req of IdTokenAssertion _ \<Rightarrow> True | AuthorizationCode _ _ \<Rightarrow> False),
     ax_max_assertion_secs = cfg_max_assertion_lifetime C\<rparr>"

text \<open>The gate on a known principal; the source writes it out on both branches that find one.\<close>

definition admit_existing ::
  "('s, 'u, 'r) app_service \<Rightarrow> identity_claims \<Rightarrow> user \<Rightarrow> (exchange_flow_error, user) outcome" where
  "admit_existing A claims user =
     (if u_status user \<noteq> Active then Err (Other (UserSuspended (u_id user)))
      else case registration_policy_reason (lib A) (ic_email claims) (ic_email_verified claims) (cfg_domain_allowlist (config A)) of
             Some reason \<Rightarrow> Err (Attributed (AccessDenied reason) (u_id user))
           | None \<Rightarrow> Ok user)"

definition register_user ::
  "('s, 'u, 'r) app_service \<Rightarrow> exchange_request \<Rightarrow> identity_claims \<Rightarrow> (('s, 'u, 'r) world, exchange_flow_error, user) prog" where
  "register_user A req claims =
     bindq utc_now (\<lambda>t. bindq gen_ulid (\<lambda>ulid.
     and_then (on_users (create_user (user_repo A) t ulid \<lparr>nu_external_id = ic_subject claims, nu_provider = xr_provider req,
                 nu_email = ic_email claims, nu_display_name = ic_name claims\<rparr>))
       (\<lambda>created.
         seqq (flow (emit_security_event A PrincipalCreated Success (Some (u_id created)) (Some (xr_provider req))
                 (xr_client_addr req) (xr_user_agent req)))
         (seqq (flow (best_effort (notify_sync A (SyncCreated created)))) (ret created)))
       (\<lambda>e. case e of
           Conflict _ \<Rightarrow>
             bindq (flow (on_users (get_user_by_external_id (user_repo A) (ic_subject claims) (xr_provider req)))) (\<lambda>winner.
             case winner of
               Some user \<Rightarrow> from_outcome (admit_existing A claims user)
             | None \<Rightarrow> throw (Other (StoreError (''create_user conflicted for provider='' @ xr_provider req @
                 '' external_id='' @ ic_subject claims @ '' but re-lookup found no user''))))
         | other \<Rightarrow> throw (Other other))))"

definition resolve_principal ::
  "('s, 'u, 'r) app_service \<Rightarrow> exchange_request \<Rightarrow> identity_claims \<Rightarrow> (('s, 'u, 'r) world, exchange_flow_error, user) prog" where
  "resolve_principal A req claims =
     bindq (flow (on_users (get_user_by_external_id (user_repo A) (ic_subject claims) (xr_provider req)))) (\<lambda>found.
     case found of
       Some user \<Rightarrow> from_outcome (admit_existing A claims user)
     | None \<Rightarrow>
         (case registration_policy_reason (lib A) (ic_email claims) (ic_email_verified claims) (cfg_domain_allowlist (config A)) of
            Some reason \<Rightarrow> throw (Other (AccessDenied reason))
          | None \<Rightarrow>
              (case cfg_registration_mode (config A) of
                 ExistingUsersOnly \<Rightarrow> throw (Other (AccessDenied ''registration is restricted to existing users only''))
               | Open \<Rightarrow> register_user A req claims)))"

text \<open>Steps 5 to 8: mint the refresh token and store generation 0 of a new family.\<close>

definition open_session ::
  "('s, 'u, 'r) app_service \<Rightarrow> exchange_request \<Rightarrow> user \<Rightarrow> ('s, 'u, 'r, string \<times> session) svc" where
  "open_session A req user =
     bindq random_bytes (\<lambda>token_bytes.
     let refresh_token = b64url_encode (lib A) token_bytes; token_hash = sha256_hex (lib A) refresh_token in
     bindq utc_now (\<lambda>now.
     case dt_add (lib A) now (as_i64 (cfg_refresh_token_ttl (config A))) of
       None \<Rightarrow> panic ''`DateTime + TimeDelta` overflowed''
     | Some expires_at \<Rightarrow>
         bindq gen_ulid (\<lambda>ulid.
         let family_id = new_family_id (lib A) ulid in
         seqq (assert_that (is_valid_family_id family_id) ''exchange: minted family id must be well-formed'')
         (bindq utc_now (\<lambda>created.
         let session = \<lparr>s_user_id = u_id user, s_hash = token_hash, s_family_id = family_id, s_generation = 0,
               s_provider = xr_provider req, s_expires_at = expires_at, s_rotated_at = None,
               s_device_id = xr_device_id req, s_user_agent = xr_user_agent req,
               s_ip_address = audit_address (ip_text A) (xr_client_addr req),
               s_location = Option.bind (xr_location req) (\<lambda>l. session_location_new (city l) (region l) (country l)),
               s_created_at = created\<rparr> in
         seqq (on_sessions (store_refresh_token (session_repo A) session)) (ret (refresh_token, session)))))))"

definition issue_tokens ::
  "('s, 'u, 'r) app_service \<Rightarrow> user \<Rightarrow> string \<times> session \<Rightarrow> ('s, 'u, 'r, exchange_success) svc" where
  "issue_tokens A user = (\<lambda>(refresh_token, session).
     bindq (build_access_token A user (s_family_id session)) (\<lambda>(access_token, access_ttl_secs).
     seqq (assert_that (access_token \<noteq> []) ''exchange: success response must carry a non-empty access token'')
     (seqq (assert_that (access_ttl_secs > 0) ''exchange: success response must carry a positive expires_in, got 0'')
     (ret \<lparr>xs_response = \<lparr>tr_access_token = access_token, tr_refresh_token = Some refresh_token,
              tr_token_type = ''Bearer'', tr_expires_in = access_ttl_secs\<rparr>,
           xs_user_id = Some (u_id user), xs_refresh_token_hash = s_hash session\<rparr>))))"

text \<open>Steps 1 to 3: a provider, its limit, validated claims, the subject's limit, and the bound assertion.\<close>

definition authenticate ::
  "('s, 'u, 'r) app_service \<Rightarrow> exchange_request \<Rightarrow> (('s, 'u, 'r) world, exchange_flow_error, identity_claims) prog" where
  "authenticate A req = (case hm_get (providers A) (xr_provider req) of
       None \<Rightarrow> throw (Other (UnknownProvider (xr_provider req)))
     | Some provider \<Rightarrow>
         seqq (flow (consume_limit A (key_provider (xr_provider req))))
         (bindq (flow (validated_claims A provider req)) (\<lambda>(claims, compact_jwt, binding_access_token).
          seqq (assert_that (ic_subject claims \<noteq> []) ''exchange: IdentityProvider::validate_id_token returned an empty subject, violating the port contract'')
          (seqq (flow (consume_limit A (key_subject (lib A) (Some (xr_provider req)) (ic_subject claims))))
          (seqq (enforce_assertion_binding A claims (exchange_context (config A) provider req compact_jwt binding_access_token))
          (ret claims))))))"

definition exchange_inner ::
  "('s, 'u, 'r) app_service \<Rightarrow> exchange_request \<Rightarrow> (('s, 'u, 'r) world, exchange_flow_error, exchange_success) prog" where
  "exchange_inner A req =
     bindq (authenticate A req) (\<lambda>claims.
     bindq (resolve_principal A req claims) (\<lambda>user.
     bindq (flow (open_session A req user)) (\<lambda>opened.
     flow (issue_tokens A user opened))))"

text \<open>The wrapper: one terminal event, and no live session behind an unreported success.\<close>

definition exchange_succeeded ::
  "('s, 'u, 'r) app_service \<Rightarrow> exchange_request \<Rightarrow> exchange_success \<Rightarrow> ('s, 'u, 'r, token_response) svc" where
  "exchange_succeeded A req success =
     and_then (emit_security_event A (AuthenticationSucceeded AK_Exchange) Success (xs_user_id success)
                 (Some (xr_provider req)) (xr_client_addr req) (xr_user_agent req))
       (\<lambda>_. ret (xs_response success))
       (\<lambda>e. if is_enforce (cfg_durability (config A))
            then seqq (on_sessions (revoke_session (session_repo A) (xs_refresh_token_hash success))) (throw e)
            else throw e)"

definition exchange_failed ::
  "('s, 'u, 'r) app_service \<Rightarrow> exchange_request \<Rightarrow> exchange_flow_error \<Rightarrow> ('s, 'u, 'r, token_response) svc" where
  "exchange_failed A req fe = (case fe of
       Binding control reason \<Rightarrow>
         bindq (build_security_event A AuthenticationFailed (Failure AF_AuthenticationFailed) None
                  (Some (xr_provider req)) (xr_client_addr req) (xr_user_agent req)) (\<lambda>event.
         seqq (emit_mandatory_audit_event A (event\<lparr>ae_detail :=
                 hm_insert ''reason'' (JString reason) (hm_insert ''check'' (JString control) (ae_detail event))\<rparr>))
         (throw (InvalidGrant reason)))
     | Attributed e actor \<Rightarrow>
         (case exchange_terminal_event e of (event, outc, _) \<Rightarrow>
            seqq (emit_security_event A event outc (Some actor) (Some (xr_provider req)) (xr_client_addr req) (xr_user_agent req))
            (throw e))
     | Other e \<Rightarrow>
         (case e of
            StoreError detail \<Rightarrow>
              bindq (create_audit_event A ET_StoreError SevError (Failure AF_StoreError) None (Some (xr_provider req))
                       (xr_client_addr req) (xr_user_agent req)) (\<lambda>event.
              seqq (best_effort (emit_audit A (event\<lparr>ae_detail := hm_insert ''store_detail'' (JString detail) (ae_detail event)\<rparr>)))
              (throw (StoreError detail)))
          | _ \<Rightarrow>
              (case exchange_terminal_event e of (event, outc, actor) \<Rightarrow>
                 seqq (emit_security_event A event outc actor (Some (xr_provider req)) (xr_client_addr req) (xr_user_agent req))
                 (throw e))))"

definition exchange :: "('s, 'u, 'r) app_service \<Rightarrow> exchange_request \<Rightarrow> ('s, 'u, 'r, token_response) svc" where
  "exchange A req = and_then (exchange_inner A req) (exchange_succeeded A req) (exchange_failed A req)"

end
