(* ===== verification/Exchange_Runs.thy ===== *)
theory Exchange_Runs
  imports Exchange
begin

text \<open>
  The runs of an exchange over a session repository and a user repository, phase by phase: what
  authentication has checked when it answers claims, what resolving the principal does to the users
  and the log, how the session is opened, and the terminal event.
\<close>

section \<open>The registration policy, declaratively\<close>

lemma rsplit_once_Some: "rsplit_once c s = Some (a, b) \<longleftrightarrow> s = a @ c # b \<and> c \<notin> set b"
proof
  assume r: "rsplit_once c s = Some (a, b)"
  then obtain x where d: "dropWhile (\<lambda>x. x \<noteq> c) (rev s) = x # rev a" and b: "b = rev (takeWhile (\<lambda>x. x \<noteq> c) (rev s))"
    by (auto simp: rsplit_once_def split: list.splits)
  have "x = c" using d by (metis (mono_tags) hd_dropWhile list.distinct(1) list.sel(1))
  have "rev s = takeWhile (\<lambda>x. x \<noteq> c) (rev s) @ c # rev a" using d \<open>x = c\<close> by (metis takeWhile_dropWhile_id)
  then have "s = a @ c # b" unfolding b by (metis append.assoc append_Cons append_Nil rev.simps(2) rev_append rev_rev_ident)
  moreover have "c \<notin> set b" unfolding b by (auto dest: set_takeWhileD)
  ultimately show "s = a @ c # b \<and> c \<notin> set b" ..
next
  assume s: "s = a @ c # b \<and> c \<notin> set b"
  then have "dropWhile (\<lambda>x. x \<noteq> c) (rev s) = c # rev a" "takeWhile (\<lambda>x. x \<noteq> c) (rev s) = rev b"
    by (auto simp: dropWhile_append takeWhile_append takeWhile_eq_all_conv)
  then show "rsplit_once c s = Some (a, b)" by (simp add: rsplit_once_def)
qed

text \<open>One entry and one domain: a wildcard needs at least one byte before its suffix.\<close>

definition domain_allowed :: "'x lib_scheme \<Rightarrow> string \<Rightarrow> string \<Rightarrow> bool" where
  "domain_allowed L domain entry \<longleftrightarrow> (case to_lowercase L entry of
       [] \<Rightarrow> to_lowercase L domain = []
     | c # sfx \<Rightarrow> if c = CHR ''*'' then (\<exists>p. p \<noteq> [] \<and> to_lowercase L domain = p @ sfx)
                else to_lowercase L domain = c # sfx)"

lemma wildcard_suffix: "ends_with d sfx \<and> length d > length sfx \<longleftrightarrow> (\<exists>p. p \<noteq> [] \<and> d = p @ sfx)"
  by (auto simp: ends_with_def suffix_def)

lemma matches_domain_allowlist_iff:
  "matches_domain_allowlist L email al \<longleftrightarrow>
     (\<exists>local domain. email = local @ ''@'' @ domain \<and> CHR ''@'' \<notin> set domain \<and> (\<exists>entry \<in> set al. domain_allowed L domain entry))"
proof -
  have entry: "(case strip_prefix ''*'' e of Some sfx \<Rightarrow> ends_with d sfx \<and> length d > length sfx | None \<Rightarrow> d = e)
      \<longleftrightarrow> (case e of [] \<Rightarrow> d = [] | c # sfx \<Rightarrow> if c = CHR ''*'' then (\<exists>p. p \<noteq> [] \<and> d = p @ sfx) else d = c # sfx)" for d e
    using wildcard_suffix [of d "tl e"] by (cases e) (auto simp: strip_prefix_def)
  show ?thesis
  proof (cases "rsplit_once (CHR ''@'') email")
    case None
    have "\<not> (email = a @ CHR ''@'' # b \<and> CHR ''@'' \<notin> set b)" for a b using None rsplit_once_Some [of "CHR ''@''" email a b] by simp
    then show ?thesis using None by (auto simp: matches_domain_allowlist_def)
  next
    case (Some ld)
    obtain l d where ld: "ld = (l, d)" by (cases ld)
    have uniq: "email = a @ CHR ''@'' # b \<and> CHR ''@'' \<notin> set b \<longleftrightarrow> a = l \<and> b = d" for a b
      using Some ld rsplit_once_Some [of "CHR ''@''" email a b] by auto
    have "matches_domain_allowlist L email al \<longleftrightarrow> (\<exists>entry \<in> set al. domain_allowed L d entry)"
      using Some ld by (simp add: matches_domain_allowlist_def Let_def list_ex_iff entry domain_allowed_def)
    then show ?thesis using uniq by (metis append_Cons append_Nil)
  qed
qed

lemma policy_None:
  "registration_policy_reason L email v al = None \<longleftrightarrow> v = Some True \<and>
     (\<exists>e. email = Some e \<and> (\<forall>l. al = Some l \<longrightarrow> matches_domain_allowlist L e l))"
  by (auto simp: registration_policy_reason_def split: option.splits if_splits)

section \<open>Frames of the phases\<close>

lemma flow_Ok [simp]: "flow m w = (Ok x, w') \<longleftrightarrow> m w = (Ok x, w')"
  by (auto simp: flow_def and_then_def split: prod.splits outcome.splits)

lemma wp_flow [wp_simps]:
  "wp (flow m) Q w = wp m (\<lambda>r w'. case r of Ok x \<Rightarrow> Q (Ok x) w' | Err e \<Rightarrow> Q (Err (Other e)) w' | Panic p \<Rightarrow> Q (Panic p) w') w"
  by (auto simp: flow_def wp_def and_then_def split: prod.splits outcome.splits)

lemma keeps_flow [keeps_rules]: "preorderp R \<Longrightarrow> keeps R m \<Longrightarrow> keeps R (flow m)"
  unfolding flow_def by (intro keeps_rules)

lemma keeps_best_effort [keeps_rules]: "preorderp R \<Longrightarrow> keeps R m \<Longrightarrow> keeps R (best_effort m)"
  unfolding best_effort_def by (intro keeps_rules)

lemma keeps_exchange_cases [keeps_rules]:
  "(\<And>a b. keeps R (f a b)) \<Longrightarrow> (\<And>i. keeps R (g i)) \<Longrightarrow> keeps R (case c of AuthorizationCode a b \<Rightarrow> f a b | IdTokenAssertion i \<Rightarrow> g i)"
  "keeps R m \<Longrightarrow> (\<And>n. keeps R (k n)) \<Longrightarrow> keeps R (case d of Allow \<Rightarrow> m | Deny n \<Rightarrow> k n)"
  by (cases c; simp) (cases d; simp)

lemma bind_frames [keeps_rules]: "keeps silent (bind A c x)" "keeps steady (bind A c x)"
  unfolding bind_def consume_nonce_def claim_assertion_marker_def by (intro keeps_rules preorder_more)+

lemma authenticate_frames: "keeps silent (authenticate A req)" "keeps steady (authenticate A req)"
  unfolding authenticate_def consume_limit_def validated_claims_def enforce_assertion_binding_def
  by (intro keeps_rules preorder_more)+

lemma access_token_frames [keeps_rules]: "keeps silent (build_access_token A u f)" "keeps steady (build_access_token A u f)"
  unfolding build_access_token_def by (intro keeps_rules preorder_more)+

lemma issue_frames: "keeps silent (issue_tokens A u p)" "keeps keeps_stores (issue_tokens A u p)"
  unfolding issue_tokens_def by (intro keeps_rules preorder_more preorder_frames)+

section \<open>Authentication\<close>

text \<open>What stands when authentication answers claims: they came from this provider's validator on
  the presented credential, they passed every binding control, and their marker is claimed.\<close>

definition authenticated :: "('s, 'u, 'r) app_service \<Rightarrow> exchange_request \<Rightarrow> identity_claims \<Rightarrow> fam_store \<Rightarrow> bool" where
  "authenticated A req claims st \<longleftrightarrow> (\<exists>prov n jwt tok now t. hm_get (providers A) (xr_provider req) = Some prov
     \<and> ip_validate_id_token prov n jwt = Ok claims
     \<and> (case xr_credential req of IdTokenAssertion i \<Rightarrow> jwt = i
        | AuthorizationCode c u \<Rightarrow> \<exists>m tk. ip_exchange_code prov m c u = Ok tk \<and> jwt = pt_id_token tk \<and> jwt \<noteq> [])
     \<and> ic_subject claims \<noteq> []
     \<and> check_lifetime (lib A) claims now (cfg_max_assertion_lifetime (config A)) = Ok t
     \<and> check_azp claims (exchange_context (config A) prov req jwt tok) = Ok ()
     \<and> check_at_hash (lib A) claims (exchange_context (config A) prov req jwt tok) = Ok ()
     \<and> single st (assertion_marker_key (lib A) (exchange_context (config A) prov req jwt tok) claims) = Some t)"

lemma validated_claims_Ok:
  assumes "validated_claims A prov req w = (Ok (claims, jwt, tok), w')"
  shows "(\<exists>n. ip_validate_id_token prov n jwt = Ok claims)
     \<and> (case xr_credential req of IdTokenAssertion i \<Rightarrow> jwt = i
        | AuthorizationCode c u \<Rightarrow> \<exists>m tk. ip_exchange_code prov m c u = Ok tk \<and> jwt = pt_id_token tk \<and> jwt \<noteq> [])"
  using assms by (auto simp: validated_claims_def elim!: bindq_okE seqq_okE split: exchange_credential.splits if_splits) blast

context session_repository
begin

lemma authenticate_inv:
  assumes P: "session_repo A = P" and i: "inv (w_sessions w)" and b: "authenticate A req w = (r, w')"
  shows "inv (w_sessions w') \<and> same_families (absf (w_sessions w)) (absf (w_sessions w'))"
proof -
  have "keeps (\<lambda>w w'. inv (w_sessions w) \<longrightarrow> inv (w_sessions w') \<and> same_families (absf (w_sessions w)) (absf (w_sessions w')))
      (authenticate A req)" (is "keeps ?R _")
  proof -
  have pre: "preorderp ?R" by (rule preorderpI) (auto simp: same_families_def)
  have base: "keeps ?R utc_now" "\<And>f. keeps ?R (on_limits f)" "\<And>f. keeps ?R (outside_result f)"
    by (simp_all add: keeps_def on_limits_run same_families_def)
  have bind: "keeps ?R (bind A c x)" for c x by (rule keepsI) (use bind_run [OF P] in blast)
  show ?thesis
    unfolding authenticate_def consume_limit_def validated_claims_def enforce_assertion_binding_def
    by (intro keeps_rules pre base bind)
  qed
  from keepsD [OF this b] i show ?thesis by simp
qed

lemma authenticate_Ok:
  assumes P: "session_repo A = P" and i: "inv (w_sessions w)" and b: "authenticate A req w = (Ok claims, w')"
  shows "authenticated A req claims (absf (w_sessions w'))"
proof -
  obtain prov where prov: "hm_get (providers A) (xr_provider req) = Some prov"
    using b by (auto simp: authenticate_def split: option.splits)
  from b prov obtain w1 w2 w3 jwt tok where l: "flow (consume_limit A (key_provider (xr_provider req))) w = (Ok (), w1)"
    and v: "validated_claims A prov req w1 = (Ok (claims, jwt, tok), w2)" and ne: "ic_subject claims \<noteq> []"
    and l2: "flow (consume_limit A (key_subject (lib A) (Some (xr_provider req)) (ic_subject claims))) w2 = (Ok (), w3)"
    and e: "enforce_assertion_binding A claims (exchange_context (config A) prov req jwt tok) w3 = (Ok (), w')"
    unfolding authenticate_def by (auto elim!: bindq_okE seqq_okE split: if_splits)
  have "keeps keeps_sessions (flow (consume_limit A k))" for k :: "rl_key option"
    unfolding consume_limit_def by (intro keeps_rules preorder_frames)
  moreover have "keeps keeps_sessions (validated_claims A prov req)"
    unfolding validated_claims_def by (intro keeps_rules preorder_frames)
  ultimately have s: "w_sessions w3 = w_sessions w"
    using l v l2 by (metis keepsD keeps_sessions_def)
  from e have "bind A claims (exchange_context (config A) prov req jwt tok) w3 = (Ok (), w')"
    unfolding enforce_assertion_binding_def by (auto elim!: and_then_cases split: bind_error.splits)
  from bind_Ok [OF P _ this] i s obtain t now where
      "check_lifetime (lib A) claims now (ax_max_assertion_secs (exchange_context (config A) prov req jwt tok)) = Ok t"
      "check_azp claims (exchange_context (config A) prov req jwt tok) = Ok ()"
      "check_at_hash (lib A) claims (exchange_context (config A) prov req jwt tok) = Ok ()"
      "single (absf (w_sessions w')) (assertion_marker_key (lib A) (exchange_context (config A) prov req jwt tok) claims) = Some t"
    by metis
  moreover have "ax_max_assertion_secs (exchange_context (config A) prov req jwt tok) = cfg_max_assertion_lifetime (config A)"
    by (simp add: exchange_context_def)
  moreover obtain n where "ip_validate_id_token prov n jwt = Ok claims" using validated_claims_Ok [OF v] by blast
  ultimately show ?thesis unfolding authenticated_def
    by (intro exI [of _ prov] exI [of _ n] exI [of _ jwt] exI [of _ tok] exI [of _ now] exI [of _ t])
      (use prov validated_claims_Ok [OF v] ne in simp)
qed

end

section \<open>The principal\<close>

definition policy_ok :: "('s, 'u, 'r) app_service \<Rightarrow> identity_claims \<Rightarrow> bool" where
  "policy_ok A claims \<longleftrightarrow>
     registration_policy_reason (lib A) (ic_email claims) (ic_email_verified claims) (cfg_domain_allowlist (config A)) = None"

definition admitted :: "('s, 'u, 'r) app_service \<Rightarrow> exchange_request \<Rightarrow> identity_claims \<Rightarrow> (string \<rightharpoonup> user) \<Rightarrow> user \<Rightarrow> bool" where
  "admitted A req claims um user \<longleftrightarrow> um (u_id user) = Some user \<and> u_external_id user = ic_subject claims
     \<and> u_provider user = xr_provider req \<and> u_status user = Active \<and> policy_ok A claims"

text \<open>The two things that can happen to the users: nothing, or one registration.\<close>

definition registered :: "('s, 'u, 'r) app_service \<Rightarrow> exchange_request \<Rightarrow> identity_claims \<Rightarrow> (string \<rightharpoonup> user) \<Rightarrow> (string \<rightharpoonup> user)
    \<Rightarrow> ('s, 'u, 'r) world \<Rightarrow> ('s, 'u, 'r) world \<Rightarrow> bool" where
  "registered A req claims um um' w w' \<longleftrightarrow> cfg_registration_mode (config A) = Open \<and> policy_ok A claims
     \<and> (\<forall>i u. um i = Some u \<longrightarrow> \<not> live_identity (ic_subject claims) (xr_provider req) u)
     \<and> (\<exists>u e. um' = um(u_id u \<mapsto> u) \<and> live_identity (ic_subject claims) (xr_provider req) u \<and> u_status u = Active
          \<and> w_attempts w' = w_attempts w @ [e] \<and> records PrincipalCreated Success (Some (u_id u)) [] None e
          \<and> (w_sync w' = w_sync w \<or> w_sync w' = w_sync w @ [SyncCreated u]))"

definition unregistered :: "(string \<rightharpoonup> user) \<Rightarrow> (string \<rightharpoonup> user) \<Rightarrow> ('s, 'u, 'r) world \<Rightarrow> ('s, 'u, 'r) world \<Rightarrow> bool" where
  "unregistered um um' w w' \<longleftrightarrow> um' = um \<and> w_attempts w' = w_attempts w \<and> w_sync w' = w_sync w"

lemma admit_existing_Ok:
  "admit_existing A claims user = Ok u \<longleftrightarrow> u = user \<and> u_status user = Active \<and> policy_ok A claims"
  by (auto simp: admit_existing_def policy_ok_def split: option.splits)

lemma resolve_frames: "keeps keeps_sessions (resolve_principal A req claims)" "keeps steady (resolve_principal A req claims)"
proof -
  have c: "keeps R (case e of Conflict d \<Rightarrow> m d | other \<Rightarrow> throw (Other other))" if "preorderp R" "\<And>d. keeps R (m d)"
    for R and e and m :: "string \<Rightarrow> (('s, 'u, 'r) world, exchange_flow_error, user) prog"
    using that keeps_pure(2) [OF that(1)] by (cases e) auto
  have m: "keeps R (case x of Open \<Rightarrow> m | ExistingUsersOnly \<Rightarrow> k)" if "keeps R m" "keeps R k"
    for R x and m k :: "(('s, 'u, 'r) world, exchange_flow_error, user) prog"
    using that by (cases x) auto
  have s: "keeps keeps_sessions (emit_security_event A ev outc actor provider addr ua)"
    "keeps keeps_sessions (notify_sync A call)" for ev outc actor provider addr ua call
    by (rule keeps_stores_sessions [OF keeps_emit_security(4)]) (simp add: keeps_def keeps_sessions_def notify_sync_def)
  show "keeps keeps_sessions (resolve_principal A req claims)" "keeps steady (resolve_principal A req claims)"
    unfolding resolve_principal_def register_user_def by (intro keeps_rules c m s preorder_frames preorder_more)+
qed

context user_repository
begin

lemma admit_wp:
  assumes "inv s" "umap s = um" "umap s (u_id u) = Some u" "live_identity (ic_subject claims) (xr_provider req) u"
    and "w_users v = s" "w_attempts v = w_attempts w" "w_sync v = w_sync w"
  shows "inv (w_users v) \<and> (unregistered um (umap (w_users v)) w v \<or> registered A req claims um (umap (w_users v)) w v)
    \<and> (\<forall>user. admit_existing A claims u = Ok user \<longrightarrow> admitted A req claims (umap (w_users v)) user)"
  using assms by (auto simp: unregistered_def admit_existing_Ok admitted_def live_identity_def)

lemma register_wp:
  assumes P: "user_repo A = P" and i: "inv (w_users v)" and u: "ulid_ok (w_ulid v (w_ulids v))"
    and v: "w_attempts v = w_attempts w" "w_sync v = w_sync w" "umap (w_users v) = um"
    and ok: "cfg_registration_mode (config A) = Open" "policy_ok A claims"
      "\<forall>i u. um i = Some u \<longrightarrow> \<not> live_identity (ic_subject claims) (xr_provider req) u"
  shows "wp (register_user A req claims) (\<lambda>r w'. inv (w_users w')
    \<and> (unregistered um (umap (w_users w')) w w' \<or> registered A req claims um (umap (w_users w')) w w')
    \<and> (\<forall>user. r = Ok user \<longrightarrow> admitted A req claims (umap (w_users w')) user)) v" (is "wp _ ?Q v")
proof -
  have fail: "?Q (Err e) x" "?Q (Panic p) x" if "inv (w_users x)" "umap (w_users x) = um" "w_attempts x = w_attempts w" "w_sync x = w_sync w" for e p x
    using that by (simp_all add: unregistered_def)
  have made: "wp (seqq (flow (emit_security_event A PrincipalCreated Success (Some (u_id c)) (Some (xr_provider req))
        (xr_client_addr req) (xr_user_agent req))) (seqq (flow (best_effort (notify_sync A (SyncCreated c)))) (ret c))) ?Q x"
    if c: "inv (w_users x)" "umap (w_users x) = um(u_id c \<mapsto> c)" "live_identity (ic_subject claims) (xr_provider req) c" "u_status c = Active"
      and x: "w_attempts x = w_attempts w" "w_sync x = w_sync w" for c x
    unfolding wp_simps
    by (rule wp_mono [OF emit_emitted], erule emittedE)
      (use c x ok in \<open>auto simp: wp_def keeps_stores_def registered_def admitted_def live_identity_def flow_def\<close>)
  show ?thesis unfolding register_user_def P
  proof (simp add: wp_simps, rule wp_create, goal_cases)
    case 1 then show ?case using i by simp
  next
    case 2 then show ?case using u by simp
  next
    case (3 e s)
    then have s: "inv s" "umap s = um" using v by auto
    show ?case
    proof (cases "\<exists>d. e = Conflict d")
      case True
      then show ?thesis unfolding wp_simps
        by (auto simp: wp_simps intro!: wp_get_external fail(1) [simplified] split: option.splits)
           (use s v in \<open>auto simp: unregistered_def admit_existing_Ok admitted_def\<close>)
    next
      case False
      then show ?thesis using s v fail(1) by (cases e) (auto simp: wp_simps)
    qed
  next
    case (4 s c)
    then show ?case using made [of "v\<lparr>w_ticks := Suc (w_ticks v), w_ulids := Suc (w_ulids v), w_users := s\<rparr>" c] v
      by (simp add: live_identity_def)
  qed
qed

lemma resolve_wp:
  assumes P: "user_repo A = P" and i: "inv (w_users w)" and u: "\<forall>k \<ge> w_ulids w. ulid_ok (w_ulid w k)"
  shows "wp (resolve_principal A req claims) (\<lambda>r w'. inv (w_users w')
    \<and> (unregistered (umap (w_users w)) (umap (w_users w')) w w' \<or> registered A req claims (umap (w_users w)) (umap (w_users w')) w w')
    \<and> (\<forall>user. r = Ok user \<longrightarrow> admitted A req claims (umap (w_users w')) user)) w" (is "wp _ ?Q w")
  unfolding resolve_principal_def P
proof (simp add: wp_simps, rule wp_get_external [OF i], goal_cases)
  case (1 e s)
  then show ?case by (simp add: unregistered_def)
next
  case (2 s)
  let ?v = "w\<lparr>w_users := s\<rparr>"
  have stop: "?Q (Err e) ?v" for e using 2 by (simp add: unregistered_def)
  have "wp (register_user A req claims) ?Q ?v"
    if "cfg_registration_mode (config A) = Open" "policy_ok A claims"
    by (rule register_wp [OF P]) (use 2 u that in \<open>auto simp: live_identity_def\<close>)
  then show ?case using stop
    by (cases "cfg_registration_mode (config A)") (auto simp: wp_simps policy_ok_def split: option.splits)
next
  case (3 s u)
  then show ?case using admit_wp [of s "umap (w_users w)" u claims req "w\<lparr>w_users := s\<rparr>" w A]
    by (simp add: wp_simps live_identity_def)
qed

end

section \<open>The session\<close>

text \<open>The session an exchange opens, and the success it reports.\<close>

definition opened :: "('s, 'u, 'r) app_service \<Rightarrow> exchange_request \<Rightarrow> ('s, 'u, 'r) world \<Rightarrow> user \<Rightarrow> string \<Rightarrow> session \<Rightarrow> bool" where
  "opened A req w user raw s \<longleftrightarrow> raw = b64url_encode (lib A) (w_random w (w_draws w)) \<and> s_hash s = sha256_hex (lib A) raw
     \<and> s_user_id s = u_id user \<and> s_provider s = xr_provider req \<and> s_generation s = 0 \<and> s_rotated_at s = None
     \<and> is_valid_family_id (s_family_id s) \<and> (\<exists>k \<ge> w_ulids w. s_family_id s = new_family_id (lib A) (w_ulid w k))
     \<and> (\<exists>n. dt_add (lib A) (w_clock w n) (as_i64 (cfg_refresh_token_ttl (config A))) = Some (s_expires_at s))"

definition issued :: "('s, 'u, 'r) app_service \<Rightarrow> user \<Rightarrow> string \<Rightarrow> session \<Rightarrow> exchange_success \<Rightarrow> bool" where
  "issued A user raw s x \<longleftrightarrow> xs_user_id x = Some (u_id user) \<and> xs_refresh_token_hash x = s_hash s
     \<and> tr_refresh_token (xs_response x) = Some raw \<and> tr_token_type (xs_response x) = ''Bearer'' \<and> tr_expires_in (xs_response x) > 0
     \<and> (\<exists>v v'. build_access_token A user (s_family_id s) v = (Ok (tr_access_token (xs_response x), tr_expires_in (xs_response x)), v'))"

lemma issue_tokens_Ok: "issue_tokens A user (raw, s) w = (Ok x, w') \<Longrightarrow> issued A user raw s x"
  unfolding issue_tokens_def issued_def by (fastforce elim!: bindq_okE seqq_okE split: if_splits)

text \<open>What the draws of the run owe the store: the token hash is new, and so is every family still to be named.\<close>

definition fresh_draws :: "('s, 'u, 'r) app_service \<Rightarrow> fam_store \<Rightarrow> ('s, 'u, 'r) world \<Rightarrow> bool" where
  "fresh_draws A st w \<longleftrightarrow> fresh_hash (sha256_hex (lib A) (b64url_encode (lib A) (w_random w (w_draws w)))) st
     \<and> (\<forall>k \<ge> w_ulids w. ulid_ok (w_ulid w k) \<and> fresh_family (new_family_id (lib A) (w_ulid w k)) st)"

lemma fresh_draws_steady:
  assumes "fresh_draws A st w" "steady w w'" "same_families st st'"
  shows "fresh_draws A st' w'"
  using assms by (auto simp: fresh_draws_def steady_def fresh_hash_def fresh_family_def same_families_def)

lemma opened_steady: "opened A req w' user raw s \<Longrightarrow> steady w w' \<Longrightarrow> opened A req w user raw s"
  by (auto simp: opened_def steady_def) (metis le_trans)

lemma open_session_silent: "keeps silent (open_session A req user)"
  unfolding open_session_def by (intro keeps_rules preorder_more)

context session_repository
begin

lemma open_session_wp:
  assumes P: "session_repo A = P" and i: "inv (w_sessions w)" and u: "user_id_ok (u_id user)"
    and f: "fresh_draws A (absf (w_sessions w)) w"
  shows "wp (open_session A req user) (\<lambda>r w'. inv (w_sessions w') \<and>
    (absf (w_sessions w') = absf (w_sessions w) \<and> (\<forall>x. r \<noteq> Ok x)
     \<or> (\<exists>raw s. r = Ok (raw, s) \<and> opened A req w user raw s
        \<and> absf (w_sessions w') = (absf (w_sessions w))\<lparr>live := (live (absf (w_sessions w)))(s_hash s \<mapsto> s)\<rparr>))) w"
    (is "wp _ ?Q w")
proof (cases "dt_add (lib A) (w_clock w (w_ticks w)) (as_i64 (cfg_refresh_token_ttl (config A)))")
  case None
  then show ?thesis using i by (simp add: open_session_def wp_simps)
next
  case (Some t)
  let ?raw = "b64url_encode (lib A) (w_random w (w_draws w))" and ?f = "new_family_id (lib A) (w_ulid w (w_ulids w))"
  show ?thesis
  proof (cases "is_valid_family_id ?f")
    case False
    then show ?thesis using i Some by (simp add: open_session_def wp_simps)
  next
    case True
    let ?s = "\<lparr>s_user_id = u_id user, s_hash = sha256_hex (lib A) ?raw, s_family_id = ?f, s_generation = 0,
       s_provider = xr_provider req, s_expires_at = t, s_rotated_at = None,
       s_device_id = xr_device_id req, s_user_agent = xr_user_agent req,
       s_ip_address = audit_address (ip_text A) (xr_client_addr req),
       s_location = Option.bind (xr_location req) (\<lambda>l. session_location_new (city l) (region l) (country l)),
       s_created_at = w_clock w (Suc (w_ticks w))\<rparr>"
    have st: "storable ?s (absf (w_sessions w))" using f u True by (simp add: storable_def fresh_draws_def)
    have op: "opened A req w user ?raw ?s" using True Some by (auto simp: opened_def)
    show ?thesis unfolding open_session_def P using Some True
      by (simp add: wp_simps, intro wp_store) (use i st op in \<open>auto simp: wp_simps\<close>)
  qed
qed

end

section \<open>Every run\<close>

lemma flow_run: "flow m w = (r, w') \<Longrightarrow> \<exists>r0. m w = (r0, w') \<and> (\<forall>x. r = Ok x \<longleftrightarrow> r0 = Ok x)"
  by (auto simp: flow_def and_then_def split: prod.splits outcome.splits)

lemma authenticated_single: "authenticated A req c st \<Longrightarrow> single st' = single st \<Longrightarrow> authenticated A req c st'"
  by (simp add: authenticated_def)

lemma same_families_eqs: "same_families st st' \<longleftrightarrow> live st' = live st \<and> retired st' = retired st"
  by (auto simp: same_families_def)

text \<open>The inner flow: the families as they were and no success, or one session opened for an
  authenticated and admitted principal.\<close>

definition session_opened :: "('s, 'u, 'r) app_service \<Rightarrow> exchange_request \<Rightarrow> fam_store \<Rightarrow> ('s, 'u, 'r) world \<Rightarrow> fam_store \<Rightarrow> (string \<rightharpoonup> user)
    \<Rightarrow> user \<Rightarrow> string \<Rightarrow> session \<Rightarrow> bool" where
  "session_opened A req st w st' um' user raw s \<longleftrightarrow> (\<exists>claims. authenticated A req claims st' \<and> admitted A req claims um' user)
     \<and> opened A req w user raw s \<and> live st' = (live st)(s_hash s \<mapsto> s) \<and> retired st' = retired st"

definition principal_step :: "('s, 'u, 'r) app_service \<Rightarrow> exchange_request \<Rightarrow> (string \<rightharpoonup> user) \<Rightarrow> (string \<rightharpoonup> user)
    \<Rightarrow> ('s, 'u, 'r) world \<Rightarrow> ('s, 'u, 'r) world \<Rightarrow> bool" where
  "principal_step A req um um' w w' \<longleftrightarrow> unregistered um um' w w' \<or> (\<exists>claims. registered A req claims um um' w w')"

lemma principal_step_frame:
  "principal_step A req um um' w v \<Longrightarrow> w_attempts v = w_attempts v' \<Longrightarrow> w_sync v = w_sync v' \<Longrightarrow> principal_step A req um um' w v'"
  by (auto simp: principal_step_def unregistered_def registered_def)

lemma step_from:
  "w_attempts v = w_attempts w \<Longrightarrow> w_sync v = w_sync w \<Longrightarrow> unregistered um um' v w' = unregistered um um' w w'"
  "w_attempts v = w_attempts w \<Longrightarrow> w_sync v = w_sync w \<Longrightarrow> registered A req c um um' v w' = registered A req c um um' w w'"
  by (simp_all add: unregistered_def registered_def)

context service_stores
begin

lemma finish_run:
  assumes P: "session_repo A = P" and i: "inv (w_sessions w)" and u: "user_id_ok (u_id user)"
    and f: "fresh_draws A (absf (w_sessions w)) w"
    and b: "bindq (flow (open_session A req user)) (\<lambda>opened. flow (issue_tokens A user opened)) w = (r, w')"
  shows "inv (w_sessions w') \<and> silent w w' \<and> (same_families (absf (w_sessions w)) (absf (w_sessions w'))
      \<and> single (absf (w_sessions w')) = single (absf (w_sessions w)) \<and> (\<forall>x. r \<noteq> Ok x)
    \<or> (\<exists>raw s. opened A req w user raw s \<and> absf (w_sessions w') = (absf (w_sessions w))\<lparr>live := (live (absf (w_sessions w)))(s_hash s \<mapsto> s)\<rparr>
        \<and> (\<forall>x. r = Ok x \<longrightarrow> issued A user raw s x)))"
proof -
  have op: "inv (w_sessions v) \<and> silent w v \<and> (absf (w_sessions v) = absf (w_sessions w) \<and> (\<forall>x. ro \<noteq> Ok x)
     \<or> (\<exists>raw s. ro = Ok (raw, s) \<and> opened A req w user raw s
        \<and> absf (w_sessions v) = (absf (w_sessions w))\<lparr>live := (live (absf (w_sessions w)))(s_hash s \<mapsto> s)\<rparr>))"
    if o: "flow (open_session A req user) w = (ro, v)" for ro v
  proof -
    obtain r0 where r0: "open_session A req user w = (r0, v)" "\<forall>x. ro = Ok x \<longleftrightarrow> r0 = Ok x" using flow_run [OF o] by blast
    show ?thesis using wpD [OF open_session_wp [OF P i u f] r0(1)] keepsD [OF open_session_silent r0(1)] r0(2) by auto
  qed
  from b show ?thesis
  proof (cases rule: bindq_cases)
    case (ok p v)
    obtain r0 where r0: "issue_tokens A user p v = (r0, w')" "\<forall>x. r = Ok x \<longleftrightarrow> r0 = Ok x" using flow_run [OF ok(2)] by blast
    have k: "silent v w'" "w_sessions w' = w_sessions v"
      using keepsD [OF issue_frames(1) r0(1)] keepsD [OF issue_frames(2) r0(1)] by (auto simp: keeps_stores_def)
    from op [OF ok(1)] k obtain raw s where o: "p = (raw, s)" "opened A req w user raw s" "inv (w_sessions w')" "silent w w'"
        "absf (w_sessions w') = (absf (w_sessions w))\<lparr>live := (live (absf (w_sessions w)))(s_hash s \<mapsto> s)\<rparr>"
      by (auto simp: silent_def)
    have "\<forall>x. r = Ok x \<longrightarrow> issued A user raw s x" using r0 issue_tokens_Ok o(1) by auto
    then show ?thesis using o by blast
  qed (use op in \<open>fastforce simp: same_families_eqs\<close>)+
qed

lemma exchange_inner_run:
  assumes P: "session_repo A = P" "user_repo A = UP" and i: "inv (w_sessions w)" "uinv (w_users w)"
    and f: "fresh_draws A (absf (w_sessions w)) w" and b: "exchange_inner A req w = (r, w')"
  shows "inv (w_sessions w') \<and> uinv (w_users w') \<and> principal_step A req (umap (w_users w)) (umap (w_users w')) w w' \<and>
    (same_families (absf (w_sessions w)) (absf (w_sessions w')) \<and> (\<forall>x. r \<noteq> Ok x)
     \<or> (\<exists>user raw s. session_opened A req (absf (w_sessions w)) w (absf (w_sessions w')) (umap (w_users w')) user raw s
         \<and> (\<forall>x. r = Ok x \<longrightarrow> issued A user raw s x)))"
proof -
  have stop: "inv (w_sessions v) \<and> uinv (w_users v) \<and> principal_step A req (umap (w_users w)) (umap (w_users v)) w v
      \<and> same_families (absf (w_sessions w)) (absf (w_sessions v))" if "authenticate A req w = (ra, v)" for ra v
    using authenticate_inv [OF P(1) i(1) that] keepsD [OF authenticate_frames(1) that] i
    by (simp add: principal_step_def unregistered_def silent_def)
  from b show ?thesis unfolding exchange_inner_def
  proof (cases rule: bindq_cases)
  case (ok claims w1)
  have a: "inv (w_sessions w1)" "same_families (absf (w_sessions w)) (absf (w_sessions w1))" "silent w w1" "steady w w1"
      "authenticated A req claims (absf (w_sessions w1))"
    using authenticate_inv [OF P(1) i(1) ok(1)] keepsD [OF authenticate_frames(1) ok(1)]
      keepsD [OF authenticate_frames(2) ok(1)] authenticate_Ok [OF P(1) i(1) ok(1)] by auto
  have f1: "fresh_draws A (absf (w_sessions w1)) w1" using fresh_draws_steady [OF f a(4,2)] .
  have u1: "uinv (w_users w1)" "w_users w1 = w_users w" "w_attempts w1 = w_attempts w" "w_sync w1 = w_sync w"
    using a(3) i(2) by (auto simp: silent_def)
  have res: "uinv (w_users v) \<and> principal_step A req (umap (w_users w)) (umap (w_users v)) w v
      \<and> (\<forall>user. rp = Ok user \<longrightarrow> admitted A req claims (umap (w_users v)) user) \<and> w_sessions v = w_sessions w1 \<and> steady w1 v"
    if o: "resolve_principal A req claims w1 = (rp, v)" for rp v
  proof -
    have ul: "\<forall>k \<ge> w_ulids w1. ulid_ok (w_ulid w1 k)" using f1 by (simp add: fresh_draws_def)
    show ?thesis using wpD [OF U.resolve_wp [OF P(2) u1(1) ul] o] keepsD [OF resolve_frames(1) o] keepsD [OF resolve_frames(2) o] u1
      by (auto simp: principal_step_def step_from [OF u1(3,4)] keeps_sessions_def)
  qed
  from ok(2) show ?thesis
  proof (cases rule: bindq_cases)
    case (ok user w2)
    note R = res [OF ok(1)]
    have f2: "fresh_draws A (absf (w_sessions w2)) w2" using fresh_draws_steady [OF f1, of w2 "absf (w_sessions w2)"] R by (simp add: same_families_def)
    have adm: "admitted A req claims (umap (w_users w2)) user" using R by simp
    then have uid: "user_id_ok (u_id user)" using U.keyed R by (auto simp: admitted_def)
    have i2: "inv (w_sessions w2)" using a(1) R by simp
    note F = finish_run [OF P(1) i2 uid f2 ok(2)]
    have pst: "uinv (w_users w')" "principal_step A req (umap (w_users w)) (umap (w_users w')) w w'" "w_users w' = w_users w2"
      using F R principal_step_frame [of A req "umap (w_users w)" "umap (w_users w2)" w w2 w'] by (auto simp: silent_def)
    show ?thesis
    proof (cases "same_families (absf (w_sessions w2)) (absf (w_sessions w')) \<and> (\<forall>x. r \<noteq> Ok x)")
      case True
      then show ?thesis using F pst a(2) R by (auto simp: same_families_eqs)
    next
      case False
      then obtain raw s where s: "opened A req w2 user raw s" "\<forall>x. r = Ok x \<longrightarrow> issued A user raw s x"
          "absf (w_sessions w') = (absf (w_sessions w2))\<lparr>live := (live (absf (w_sessions w2)))(s_hash s \<mapsto> s)\<rparr>"
        using F by blast
      have "authenticated A req claims (absf (w_sessions w'))" by (rule authenticated_single [OF a(5)]) (use s(3) R in simp)
      moreover have "opened A req w user raw s" using opened_steady [OF opened_steady [OF s(1)]] R a(4) by blast
      ultimately have "session_opened A req (absf (w_sessions w)) w (absf (w_sessions w')) (umap (w_users w')) user raw s"
        using s(3) a(2) adm pst(3) R unfolding session_opened_def by (auto simp: same_families_eqs)
      then show ?thesis using F pst s(2) by blast
    qed
  qed (use res a in \<open>auto simp: same_families_eqs\<close>)
  qed (use stop in auto)
qed

end

section \<open>The terminal event\<close>

definition is_infra :: "'a result \<Rightarrow> bool" where
  "is_infra r \<longleftrightarrow> (\<exists>d. r = Err (StoreError d)) \<or> (\<exists>p. r = Panic p)"

text \<open>What the wrapper adds to the log: at most one terminal event, and exactly one unless a store
  fault or a panic ended the run.\<close>

definition terminal :: "('s, 'u, 'r) world \<Rightarrow> 'a result \<Rightarrow> ('s, 'u, 'r) world \<Rightarrow> (audit_event \<Rightarrow> bool) \<Rightarrow> bool" where
  "terminal w r w' P \<longleftrightarrow> (\<exists>tm. w_attempts w' = w_attempts w @ tm \<and> length tm \<le> 1 \<and> (\<not> is_infra r \<longrightarrow> (\<exists>e. tm = [e] \<and> P e)))"

lemma emit_audit_attempts:
  "wp (emit_audit A ev) (\<lambda>r w'. keeps_stores w w' \<and> (\<exists>tm. w_attempts w' = w_attempts w @ tm \<and> length tm \<le> 1)) w"
  by (auto simp: wp_def emit_audit_def and_then_def audit_emit_def Let_def keeps_stores_def seqq_def bindq_def
      log_audit_fallback_def split: option.splits)

lemma terminal_event_failure: "exchange_terminal_event e = (ev, outc, actor) \<Longrightarrow> outc \<noteq> Success"
  by (cases e) auto

lemma emit_then_throw:
  assumes "wp m (emitted A (\<lambda>e. ae_outcome e \<noteq> Success) w) w"
  shows "wp (seqq m (throw x)) (\<lambda>r w'. keeps_stores w w' \<and> (\<forall>y. r \<noteq> Ok y) \<and> terminal w r w' (\<lambda>e. ae_outcome e \<noteq> Success)) w"
  unfolding wp_simps by (rule wp_mono [OF assms]) (auto simp: emitted_def terminal_def wp_simps split: outcome.splits)

lemma emit_failure_emitted:
  assumes "outc \<noteq> Success"
  shows "wp (emit_security_event_with_detail A ev outc actor provider addr ua d) (emitted A (\<lambda>e. ae_outcome e \<noteq> Success) w) w"
  by (rule wp_mono [OF emit_detail_emitted]) (use assms in \<open>auto simp: emitted_def records_def\<close>)

lemma binding_event:
  "bindq (build_security_event A AuthenticationFailed outc None provider addr ua) (\<lambda>event.
     seqq (emit_mandatory_audit_event A (event\<lparr>ae_detail := hm_insert k v (hm_insert k' v' (ae_detail event))\<rparr>)) m)
   = seqq (emit_security_event_with_detail A AuthenticationFailed outc None provider addr ua (hm_insert k v (hm_insert k' v' []))) m"
  by (rule ext) (simp add: emit_security_event_with_detail_def seqq_def bindq_assoc build_security_event_def into_audit_event_def)

lemma exchange_failed_wp:
  "wp (exchange_failed A req fe) (\<lambda>r w'. keeps_stores w w' \<and> (\<forall>y. r \<noteq> Ok y) \<and> terminal w r w' (\<lambda>e. ae_outcome e \<noteq> Success)) w"
  (is "wp _ ?Q w")
proof -
  have plain: "wp (case exchange_terminal_event e of (event, outc, a) \<Rightarrow>
      seqq (emit_security_event A event outc (f a) (Some (xr_provider req)) (xr_client_addr req) (xr_user_agent req)) (throw e)) ?Q w" for e f
  proof -
    obtain ev outc a where t: "exchange_terminal_event e = (ev, outc, a)" by (metis prod_cases3)
    show ?thesis unfolding t prod.case emit_security_event_def
      by (rule emit_then_throw [OF emit_failure_emitted]) (rule terminal_event_failure [OF t])
  qed
  have store: "wp (bindq (create_audit_event A ET_StoreError SevError (Failure AF_StoreError) None (Some (xr_provider req))
        (xr_client_addr req) (xr_user_agent req)) (\<lambda>event.
      seqq (best_effort (emit_audit A (event\<lparr>ae_detail := hm_insert ''store_detail'' (JString d) (ae_detail event)\<rparr>))) (throw (StoreError d)))) ?Q w" for d
    unfolding create_audit_event_def best_effort_def
    by (simp add: wp_simps, rule wp_mono [OF emit_audit_attempts])
      (auto simp: wp_simps terminal_def is_infra_def keeps_stores_def split: outcome.splits)
  show ?thesis
  proof (cases fe)
    case (Binding control reason)
    show ?thesis unfolding exchange_failed_def Binding
      by (simp add: binding_event emit_then_throw [OF emit_failure_emitted])
  next
    case (Attributed e actor)
    then show ?thesis using plain [where e = e and f = "\<lambda>_. Some actor"] by (simp add: exchange_failed_def)
  next
    case (Other e)
    then show ?thesis using plain [where e = e and f = "\<lambda>a. a"] store by (cases e) (simp_all add: exchange_failed_def)
  qed
qed

section \<open>The exchange\<close>

context session_repository
begin

text \<open>A success that cannot be recorded durably takes its session back.\<close>

lemma exchange_succeeded_wp:
  assumes P: "session_repo A = P" and i: "inv (w_sessions w)" and h: "xs_refresh_token_hash x \<noteq> []"
  shows "wp (exchange_succeeded A req x) (\<lambda>r w'. inv (w_sessions w') \<and> w_users w' = w_users w \<and>
      (\<exists>e. w_attempts w' = w_attempts w @ [e] \<and> records (AuthenticationSucceeded AK_Exchange) Success (xs_user_id x) [] None e
        \<and> (r = Ok (xs_response x) \<and> absf (w_sessions w') = absf (w_sessions w)
             \<and> (cfg_durability (config A) = Enforce \<longrightarrow> w_audit w' = w_audit w @ [e])
           \<or> (\<exists>d. r = Err (SecurityAuditDurability d)) \<and> absf (w_sessions w') =
               (absf (w_sessions w))\<lparr>live := (live (absf (w_sessions w)))(xs_refresh_token_hash x := None)\<rparr>
           \<or> (\<exists>d. r = Err (StoreError d)) \<and> absf (w_sessions w') = absf (w_sessions w)))) w"
  (is "wp _ ?Q w")
  unfolding exchange_succeeded_def wp_and_then P
proof (rule wp_mono [OF emit_emitted], erule emittedE, goal_cases)
  case (1 r v e)
  show ?case
  proof (cases r)
    case (Ok u)
    then show ?thesis using 1 i by (auto simp: wp_simps keeps_stores_def)
  next
    case (Err d)
    then have "cfg_durability (config A) = Enforce" "\<exists>z. d = SecurityAuditDurability z" using 1 by auto
    then show ?thesis using Err 1 i h
      by (auto simp: wp_simps is_enforce_def keeps_stores_def intro!: wp_revoke_session)
  qed (use 1 in auto)
qed

end

text \<open>The users after an exchange: as before, or one new active user that open registration admitted.\<close>

definition users_step :: "('s, 'u, 'r) app_service \<Rightarrow> exchange_request \<Rightarrow> (string \<rightharpoonup> user) \<Rightarrow> (string \<rightharpoonup> user) \<Rightarrow> bool" where
  "users_step A req um um' \<longleftrightarrow> um' = um \<or> cfg_registration_mode (config A) = Open
     \<and> (\<exists>claims u. policy_ok A claims \<and> (\<forall>i v. um i = Some v \<longrightarrow> \<not> live_identity (ic_subject claims) (xr_provider req) v)
          \<and> um' = um(u_id u \<mapsto> u) \<and> live_identity (ic_subject claims) (xr_provider req) u \<and> u_status u = Active)"

definition creation_events :: "audit_event list \<Rightarrow> bool" where
  "creation_events es \<longleftrightarrow> es = [] \<or> (\<exists>u e. es = [e] \<and> records PrincipalCreated Success (Some u) [] None e)"

lemma principal_step_users: "principal_step A req um um' w w' \<Longrightarrow> users_step A req um um'"
  unfolding principal_step_def users_step_def unregistered_def registered_def by blast

lemma principal_step_attempts:
  "principal_step A req um um' w w' \<Longrightarrow> \<exists>pre. w_attempts w' = w_attempts w @ pre \<and> creation_events pre"
  unfolding principal_step_def unregistered_def registered_def creation_events_def by auto

lemma fam_ok_same: "same_families st st' \<Longrightarrow> fam_ok st' = fam_ok st"
  by (simp add: fam_ok_def same_families_eqs)

lemma fam_ok_opened:
  assumes "fam_ok st" "fresh_draws A st w" "session_opened A req st w st' um user raw s" "user_id_ok (u_id user)"
  shows "fam_ok st'"
proof -
  have o: "opened A req w user raw s" "live st' = (live st)(s_hash s \<mapsto> s)" "retired st' = retired st"
    using assms(3) by (auto simp: session_opened_def)
  have "storable s st" using o(1) assms(2,4) by (auto simp: storable_def opened_def fresh_draws_def)
  note ok = fam_ok_store [OF assms(1) this]
  have "same_families (st\<lparr>live := (live st)(s_hash s \<mapsto> s)\<rparr>) st'" using o(2,3) by (simp add: same_families_eqs)
  from fam_ok_same [OF this] ok show ?thesis by simp
qed

context service_stores
begin

text \<open>
  The three ends of an exchange: refused with the families as they were; failed past the point where
  the session was stored; or authenticated, with the tokens answered or the session taken back.
\<close>

lemma exchange_run:
  assumes P: "session_repo A = P" "user_repo A = UP" and i: "inv (w_sessions w)" "uinv (w_users w)"
    and f: "fresh_draws A (absf (w_sessions w)) w" and b: "exchange A req w = (r, w')"
  obtains (refused) v where "principal_step A req (umap (w_users w)) (umap (w_users w')) w v" "inv (w_sessions w')" "uinv (w_users w')"
      "\<forall>x. r \<noteq> Ok x" "terminal v r w' (\<lambda>e. ae_outcome e \<noteq> Success)"
      "same_families (absf (w_sessions w)) (absf (w_sessions w'))
        \<or> (\<exists>user raw s. session_opened A req (absf (w_sessions w)) w (absf (w_sessions w')) (umap (w_users w')) user raw s)"
  | (answered) v x st user raw s e where "principal_step A req (umap (w_users w)) (umap (w_users w')) w v" "inv (w_sessions w')" "uinv (w_users w')"
      "session_opened A req (absf (w_sessions w)) w st (umap (w_users w')) user raw s" "issued A user raw s x"
      "w_attempts w' = w_attempts v @ [e]" "records (AuthenticationSucceeded AK_Exchange) Success (Some (u_id user)) [] None e"
      "r = Ok (xs_response x) \<and> absf (w_sessions w') = st \<and> (cfg_durability (config A) = Enforce \<longrightarrow> (\<exists>es. w_audit w' = es @ [e]))
       \<or> (\<exists>d. r = Err (SecurityAuditDurability d)) \<and> same_families (absf (w_sessions w)) (absf (w_sessions w'))
       \<or> (\<exists>d. r = Err (StoreError d)) \<and> absf (w_sessions w') = st"
  using b unfolding exchange_def
proof (cases rule: and_then_cases)
  case (ok x v)
  note R = exchange_inner_run [OF P i f ok(1)]
  then obtain user raw s where s: "session_opened A req (absf (w_sessions w)) w (absf (w_sessions v)) (umap (w_users v)) user raw s"
      "issued A user raw s x" "inv (w_sessions v)" by blast
  have fr: "fresh_hash (s_hash s) (absf (w_sessions w))" using s(1) f by (auto simp: session_opened_def opened_def fresh_draws_def)
  then have h: "xs_refresh_token_hash x \<noteq> []" "xs_refresh_token_hash x = s_hash s" "xs_user_id x = Some (u_id user)"
    using s(2) by (auto simp: issued_def fresh_hash_def)
  from wpD [OF exchange_succeeded_wp [OF P(1) s(3) h(1)] ok(2)] obtain e where
      e: "inv (w_sessions w')" "w_users w' = w_users v" "w_attempts w' = w_attempts v @ [e]"
        "records (AuthenticationSucceeded AK_Exchange) Success (xs_user_id x) [] None e"
        "r = Ok (xs_response x) \<and> absf (w_sessions w') = absf (w_sessions v)
             \<and> (cfg_durability (config A) = Enforce \<longrightarrow> w_audit w' = w_audit v @ [e])
         \<or> (\<exists>d. r = Err (SecurityAuditDurability d)) \<and> absf (w_sessions w') =
               (absf (w_sessions v))\<lparr>live := (live (absf (w_sessions v)))(xs_refresh_token_hash x := None)\<rparr>
         \<or> (\<exists>d. r = Err (StoreError d)) \<and> absf (w_sessions w') = absf (w_sessions v)" by blast
  have undone: "same_families (absf (w_sessions w)) ((absf (w_sessions v))\<lparr>live := (live (absf (w_sessions v)))(s_hash s := None)\<rparr>)"
    using s(1) fr by (auto simp: same_families_eqs session_opened_def fresh_hash_def fun_eq_iff)
  show thesis
    by (rule answered [where v = v and x = x and st = "absf (w_sessions v)" and user = user and raw = raw and s = s and e = e])
      (use R s e h undone in auto)
next
  case (err fe v)
  note R = exchange_inner_run [OF P i f err(1)]
  have k: "keeps_stores v w'" "\<forall>x. r \<noteq> Ok x" "terminal v r w' (\<lambda>e. ae_outcome e \<noteq> Success)"
    using wpD [OF exchange_failed_wp err(2)] by auto
  show thesis by (rule refused [of v]) (use R k in \<open>auto simp: keeps_stores_def\<close>)
next
  case (panic p)
  note R = exchange_inner_run [OF P i f panic(1)]
  show thesis by (rule refused [of w']) (use R panic(2) in \<open>auto simp: terminal_def is_infra_def\<close>)
qed

lemma exchange_Ok:
  assumes P: "session_repo A = P" "user_repo A = UP" and i: "inv (w_sessions w)" "uinv (w_users w)"
    and f: "fresh_draws A (absf (w_sessions w)) w" and b: "exchange A req w = (Ok y, w')"
  shows "\<exists>x user raw s. y = xs_response x \<and> issued A user raw s x
    \<and> session_opened A req (absf (w_sessions w)) w (absf (w_sessions w')) (umap (w_users w')) user raw s
    \<and> (cfg_durability (config A) = Enforce \<longrightarrow>
        (\<exists>es e. w_audit w' = es @ [e] \<and> records (AuthenticationSucceeded AK_Exchange) Success (Some (u_id user)) [] None e))"
  using P i f b
proof (cases rule: exchange_run)
  case (answered v x st user raw s e)
  then have "y = xs_response x" "absf (w_sessions w') = st" "cfg_durability (config A) = Enforce \<longrightarrow> (\<exists>es. w_audit w' = es @ [e])" by auto
  then show ?thesis using answered(4,5,7) by blast
qed auto

lemma exchange_invariants:
  assumes P: "session_repo A = P" "user_repo A = UP" and i: "inv (w_sessions w)" "uinv (w_users w)"
    and f: "fresh_draws A (absf (w_sessions w)) w" and b: "exchange A req w = (r, w')" and ok: "fam_ok (absf (w_sessions w))"
  shows "inv (w_sessions w') \<and> uinv (w_users w') \<and> fam_ok (absf (w_sessions w')) \<and> users_step A req (umap (w_users w)) (umap (w_users w'))"
proof -
  have so: "fam_ok st" if "session_opened A req (absf (w_sessions w)) w st (umap (w_users w')) user raw s" "uinv (w_users w')" for st user raw s
  proof -
    have "user_id_ok (u_id user)" using that U.keyed by (auto simp: session_opened_def admitted_def)
    from fam_ok_opened [OF ok f that(1) this] show ?thesis .
  qed
  from P i f b show ?thesis
  proof (cases rule: exchange_run)
    case (refused v)
    then show ?thesis using principal_step_users so ok fam_ok_same by blast
  next
    case (answered v x st user raw s e)
    then show ?thesis using principal_step_users so [OF answered(4,3)] ok fam_ok_same by metis
  qed
qed

lemma exchange_terminal:
  assumes P: "session_repo A = P" "user_repo A = UP" and i: "inv (w_sessions w)" "uinv (w_users w)"
    and f: "fresh_draws A (absf (w_sessions w)) w" and b: "exchange A req w = (r, w')"
  shows "\<exists>pre tm. w_attempts w' = w_attempts w @ pre @ tm \<and> creation_events pre \<and> length tm \<le> 1
    \<and> (\<not> is_infra r \<longrightarrow> (\<exists>e. tm = [e] \<and> (is_ok r \<longrightarrow> ae_type e = ET_TokenExchange \<and> ae_outcome e = Success)))
    \<and> (\<forall>e d. tm = [e] \<longrightarrow> ae_outcome e = Success \<longrightarrow> r = Err (SecurityAuditDurability d) \<longrightarrow>
         same_families (absf (w_sessions w)) (absf (w_sessions w')))"
  using P i f b
proof (cases rule: exchange_run)
  case (refused v)
  obtain pre where pre: "w_attempts v = w_attempts w @ pre" "creation_events pre" using principal_step_attempts [OF refused(1)] by blast
  from refused(5) obtain tm where tm: "w_attempts w' = w_attempts v @ tm" "length tm \<le> 1"
      "\<not> is_infra r \<longrightarrow> (\<exists>e. tm = [e] \<and> ae_outcome e \<noteq> Success)" unfolding terminal_def by blast
  have "\<not> is_infra (Err (SecurityAuditDurability d) :: token_response result)" for d by (simp add: is_infra_def)
  then show ?thesis using pre tm refused(4) by (intro exI [of _ pre] exI [of _ tm]) auto
next
  case (answered v x st user raw s e)
  obtain pre where pre: "w_attempts v = w_attempts w @ pre" "creation_events pre" using principal_step_attempts [OF answered(1)] by blast
  then show ?thesis using answered(6-8) by (intro exI [of _ pre] exI [of _ "[e]"]) (auto simp: records_def)
qed

end

end
