(* ===== verification/User_Admin.thy ===== *)
theory User_Admin
  imports Access_Token Service_Wp
begin

text \<open>
  The administrative operations on users and their sessions
  (\<open>crates/core/src/service/user_admin.rs\<close>): creation, patches through the status lifecycle, claims,
  session listing and revocation, statistics and paging; every mutation is audited under the acting
  operator's name through the mandatory path.
\<close>

section \<open>Attribution and reserved names\<close>

definition MAX_LISTED_SESSIONS :: nat where
  "MAX_LISTED_SESSIONS = 50"

definition SESSION_ID_DETAIL_KEY :: string where
  "SESSION_ID_DETAIL_KEY = ''session_id''"

definition SESSIONS_REVOKED_DETAIL_KEY :: string where
  "SESSIONS_REVOKED_DETAIL_KEY = ''sessions_revoked''"

definition CLAIMS_OPERATION_DETAIL_KEY :: string where
  "CLAIMS_OPERATION_DETAIL_KEY = ''operation''"

definition attributed :: "audit_event \<Rightarrow> operator_principal \<Rightarrow> audit_event result" where
  "attributed event operator = (case operator_assert_invariants operator of
       Err e \<Rightarrow> Err e
     | Panic p \<Rightarrow> Panic p
     | Ok () \<Rightarrow>
         if ae_operator event \<noteq> None then Panic ''attribution must be applied exactly once, by attributed()''
         else Ok (event\<lparr>ae_operator := Some operator\<rparr>))"

definition ensure_no_reserved_claims :: "'x lib_scheme \<Rightarrow> 'v hashmap \<Rightarrow> unit result" where
  "ensure_no_reserved_claims L claims = (case find_reserved_claim_key claims of
       Some key \<Rightarrow> Err (InvalidRequest (''claim name '' @ debug_str L key @ '' is reserved by the token protocol and cannot be written''))
     | None \<Rightarrow> Ok ())"

section \<open>Audit of a mutation\<close>

definition emit_admin_mutation_with_detail :: "('s, 'u, 'r) app_service \<Rightarrow> audit_event \<Rightarrow> ('s, 'u, 'r, unit) svc" where
  "emit_admin_mutation_with_detail A event = and_then (audit_emit A event)
     (\<lambda>_. writes record_mandatory_audit_success)
     (\<lambda>e. seqq (writes record_mandatory_audit_failure) (seqq (writes (log_audit_fallback event))
        (if is_enforce (cfg_durability (config A)) then throw (SecurityAuditDurability (display_error e)) else ret ())))"

text \<open>\<open>attributed(SecurityEvent::AdminMutation { kind }.into_audit_event(\<dots>), operator)\<close>.\<close>

definition admin_event ::
  "('s, 'u, 'r) app_service \<Rightarrow> admin_mutation_kind \<Rightarrow> user \<Rightarrow> audit_outcome \<Rightarrow> operator_principal \<Rightarrow> ('s, 'u, 'r, audit_event) svc" where
  "admin_event A kind user outc operator =
     bindq (build_security_event A (AdminMutation kind) outc (Some (u_id user)) (Some (u_provider user)) UnknownAddr None)
       (\<lambda>event. from_outcome (attributed event operator))"

definition emit_admin_mutation_audit_event ::
  "('s, 'u, 'r) app_service \<Rightarrow> admin_mutation_kind \<Rightarrow> user \<Rightarrow> audit_outcome \<Rightarrow> operator_principal \<Rightarrow> ('s, 'u, 'r, unit) svc" where
  "emit_admin_mutation_audit_event A kind user outc operator =
     bindq (admin_event A kind user outc operator) (emit_mandatory_audit_event A)"

definition emit_claims_audit_event ::
  "('s, 'u, 'r) app_service \<Rightarrow> operator_principal \<Rightarrow> user \<Rightarrow> string \<Rightarrow> ('s, 'u, 'r, unit) svc" where
  "emit_claims_audit_event A operator user operation =
     bindq (admin_event A AM_Updated user Success operator) (\<lambda>event.
     emit_admin_mutation_with_detail A (event\<lparr>ae_detail :=
       hm_insert CLAIMS_OPERATION_DETAIL_KEY (JString operation) (ae_detail event)\<rparr>))"

section \<open>Users\<close>

definition admin_create_user ::
  "('s, 'u, 'r) app_service \<Rightarrow> operator_principal \<Rightarrow> new_user \<Rightarrow> ('s, 'u, 'r, user) svc" where
  "admin_create_user A operator nu =
     bindq utc_now (\<lambda>t. bindq gen_ulid (\<lambda>ulid.
     bindq (on_users (create_user (user_repo A) t ulid nu)) (\<lambda>user.
     seqq (emit_admin_mutation_audit_event A AM_Created user Success operator)
     (seqq (best_effort (notify_sync A (SyncCreated user))) (ret user)))))"

definition admin_get_user :: "('s, 'u, 'r) app_service \<Rightarrow> string \<Rightarrow> ('s, 'u, 'r, user option) svc" where
  "admin_get_user A user_id = on_users (get_user_by_id (user_repo A) user_id)"

text \<open>The lookup behind every operation that needs the user to exist.\<close>

definition require_user :: "('s, 'u, 'r) app_service \<Rightarrow> string \<Rightarrow> ('s, 'u, 'r, user) svc" where
  "require_user A user_id = bindq (on_users (get_user_by_id (user_repo A) user_id)) (\<lambda>found.
     case found of None \<Rightarrow> throw (NotFound (''user not found: '' @ user_id)) | Some user \<Rightarrow> ret user)"

fun debug_status :: "user_status \<Rightarrow> string" where
  "debug_status Active = ''Active''"
| "debug_status Suspended = ''Suspended''"
| "debug_status Deleted = ''Deleted''"

definition entered_suspended_or_deleted :: "user_status option \<Rightarrow> user_status \<Rightarrow> bool" where
  "entered_suspended_or_deleted target current = (case target of
       Some t \<Rightarrow> t \<noteq> current \<and> (t = Suspended \<or> t = Deleted)
     | None \<Rightarrow> False)"

definition apply_validated_patch :: "('s, 'u, 'r) app_service \<Rightarrow> string \<Rightarrow> user_patch \<Rightarrow> ('s, 'u, 'r, user) svc" where
  "apply_validated_patch A user_id patch =
     seqq (from_outcome (case p_claims patch of None \<Rightarrow> Ok () | Some c \<Rightarrow> ensure_no_reserved_claims (lib A) c))
     (bindq (require_user A user_id) (\<lambda>current.
      seqq (case p_status patch of
              None \<Rightarrow> ret ()
            | Some target \<Rightarrow>
                if \<not> can_transition_to (u_status current) target
                then throw (InvalidRequest (''invalid status transition: '' @ debug_status (u_status current) @ '' -> '' @ debug_status target))
                else ret ())
      (bindq utc_now (\<lambda>t.
       bindq (on_users (update_user (user_repo A) t user_id patch)) (\<lambda>user.
       seqq (if entered_suspended_or_deleted (p_status patch) (u_status current)
             then bindq (on_sessions (revoke_all_user_sessions (session_repo A) user_id)) (\<lambda>_. ret ())
             else ret ())
       (ret user))))))"

definition changed_fields :: "user_patch \<Rightarrow> string list" where
  "changed_fields patch =
     (if p_email patch \<noteq> None then [''email''] else []) @
     (if p_display_name patch \<noteq> None then [''display_name''] else []) @
     (if p_metadata patch \<noteq> None then [''metadata''] else []) @
     (if p_claims patch \<noteq> None then [''claims''] else []) @
     (if p_status patch \<noteq> None then [''status''] else [])"

definition admin_update_user ::
  "('s, 'u, 'r) app_service \<Rightarrow> operator_principal \<Rightarrow> string \<Rightarrow> user_patch \<Rightarrow> ('s, 'u, 'r, user) svc" where
  "admin_update_user A operator user_id patch =
     bindq (apply_validated_patch A user_id patch) (\<lambda>user.
     seqq (emit_admin_mutation_audit_event A (if p_status patch = Some Suspended then AM_Suspended else AM_Updated) user Success operator)
     (seqq (best_effort (notify_sync A (SyncUpdated user (changed_fields patch)))) (ret user)))"

definition delete_patch :: user_patch where
  "delete_patch = \<lparr>p_email = None, p_display_name = None, p_metadata = None, p_claims = None, p_status = Some Deleted\<rparr>"

definition admin_delete_user :: "('s, 'u, 'r) app_service \<Rightarrow> operator_principal \<Rightarrow> string \<Rightarrow> ('s, 'u, 'r, unit) svc" where
  "admin_delete_user A operator user_id =
     bindq (apply_validated_patch A user_id delete_patch) (\<lambda>user.
     seqq (emit_admin_mutation_audit_event A AM_Deleted user Success operator)
     (best_effort (notify_sync A (SyncDeleted user_id))))"

section \<open>Claims\<close>

definition admin_get_claims :: "('s, 'u, 'r) app_service \<Rightarrow> string \<Rightarrow> ('s, 'u, 'r, json hashmap) svc" where
  "admin_get_claims A user_id = bindq (require_user A user_id) (\<lambda>user. ret (u_claims user))"

definition claims_patch :: "json hashmap \<Rightarrow> user_patch" where
  "claims_patch c = \<lparr>p_email = None, p_display_name = None, p_metadata = None, p_claims = Some c, p_status = None\<rparr>"

definition merge_claims :: "json hashmap \<Rightarrow> json hashmap \<Rightarrow> json hashmap" where
  "merge_claims old delta = fold (\<lambda>(k, v) m. hm_insert k v m) delta old"

text \<open>The three writers share the lookup, the one-field patch and the audit event.\<close>

definition write_claims ::
  "('s, 'u, 'r) app_service \<Rightarrow> operator_principal \<Rightarrow> string \<Rightarrow> (user \<Rightarrow> json hashmap) \<Rightarrow> string \<Rightarrow> ('s, 'u, 'r, unit) svc" where
  "write_claims A operator user_id new operation =
     bindq (require_user A user_id) (\<lambda>user.
     bindq utc_now (\<lambda>t.
     bindq (on_users (update_user (user_repo A) t user_id (claims_patch (new user)))) (\<lambda>_.
     emit_claims_audit_event A operator user operation)))"

definition admin_set_claims ::
  "('s, 'u, 'r) app_service \<Rightarrow> operator_principal \<Rightarrow> string \<Rightarrow> json hashmap \<Rightarrow> ('s, 'u, 'r, unit) svc" where
  "admin_set_claims A operator user_id claims =
     seqq (from_outcome (ensure_no_reserved_claims (lib A) claims))
     (write_claims A operator user_id (\<lambda>_. claims) ''set_claims'')"

definition admin_merge_claims ::
  "('s, 'u, 'r) app_service \<Rightarrow> operator_principal \<Rightarrow> string \<Rightarrow> json hashmap \<Rightarrow> ('s, 'u, 'r, unit) svc" where
  "admin_merge_claims A operator user_id claims =
     seqq (from_outcome (ensure_no_reserved_claims (lib A) claims))
     (write_claims A operator user_id (\<lambda>user. merge_claims (u_claims user) claims) ''merge_claims'')"

definition admin_clear_claims :: "('s, 'u, 'r) app_service \<Rightarrow> operator_principal \<Rightarrow> string \<Rightarrow> ('s, 'u, 'r, unit) svc" where
  "admin_clear_claims A operator user_id = write_claims A operator user_id (\<lambda>_. []) ''clear_claims''"

section \<open>Sessions\<close>

definition admin_list_user_sessions ::
  "('s, 'u, 'r) app_service \<Rightarrow> string \<Rightarrow> ('s, 'u, 'r, session_summary list option) svc" where
  "admin_list_user_sessions A user_id =
     bindq (on_users (get_user_by_id (user_repo A) user_id)) (\<lambda>found.
     case found of
       None \<Rightarrow> ret None
     | Some user \<Rightarrow>
         if u_status user = Deleted then ret None
         else bindq utc_now (\<lambda>now.
              bindq (on_sessions (list_live_sessions (session_repo A) user_id now MAX_LISTED_SESSIONS)) (\<lambda>sessions.
              ret (Some (map (summary_of (lib A)) (filter (\<lambda>s. s_family_id s \<noteq> []) sessions))))))"

definition load_live_user :: "('s, 'u, 'r) app_service \<Rightarrow> string \<Rightarrow> ('s, 'u, 'r, user) svc" where
  "load_live_user A user_id = bindq (on_users (get_user_by_id (user_repo A) user_id)) (\<lambda>found.
     case found of
       Some user \<Rightarrow> if u_status user \<noteq> Deleted then ret user else throw (NotFound (''user not found: '' @ user_id))
     | None \<Rightarrow> throw (NotFound (''user not found: '' @ user_id)))"

definition admin_revoke_user_session ::
  "('s, 'u, 'r) app_service \<Rightarrow> operator_principal \<Rightarrow> string \<Rightarrow> string \<Rightarrow> ('s, 'u, 'r, unit) svc" where
  "admin_revoke_user_session A operator user_id session_id =
     bindq (load_live_user A user_id) (\<lambda>user.
     let not_found = NotFound (''session not found: '' @ session_id) in
     bindq utc_now (\<lambda>now.
     bindq (on_sessions (list_live_sessions (session_repo A) user_id now MAX_LISTED_SESSIONS)) (\<lambda>sessions.
     case find (\<lambda>s. session_id_for_family (lib A) (s_family_id s) = session_id) (filter (\<lambda>s. s_family_id s \<noteq> []) sessions) of
       None \<Rightarrow> throw not_found
     | Some s \<Rightarrow>
         bindq (on_sessions (revoke_family (session_repo A) (s_family_id s))) (\<lambda>removed.
         if removed = 0 then throw not_found
         else bindq (admin_event A AM_SessionRevoked user Success operator) (\<lambda>event.
              emit_admin_mutation_with_detail A (event\<lparr>ae_detail :=
                hm_insert SESSION_ID_DETAIL_KEY (JString session_id) (ae_detail event)\<rparr>))))))"

definition admin_revoke_user_sessions ::
  "('s, 'u, 'r) app_service \<Rightarrow> operator_principal \<Rightarrow> string \<Rightarrow> ('s, 'u, 'r, u64) svc" where
  "admin_revoke_user_sessions A operator user_id =
     bindq (load_live_user A user_id) (\<lambda>user.
     bindq (on_sessions (revoke_all_user_sessions (session_repo A) user_id)) (\<lambda>revoked.
     bindq (admin_event A AM_SessionsRevoked user Success operator) (\<lambda>event.
     seqq (emit_admin_mutation_with_detail A (event\<lparr>ae_detail :=
             hm_insert SESSIONS_REVOKED_DETAIL_KEY (JInt (uint revoked)) (ae_detail event)\<rparr>))
     (ret revoked))))"

section \<open>Statistics and paging\<close>

record admin_stats =
  st_total :: u64
  st_active :: u64
  st_suspended :: u64
  st_deleted :: u64
  st_sessions_active :: u64

definition service_admin_stats :: "('s, 'u, 'r) app_service \<Rightarrow> ('s, 'u, 'r, admin_stats) svc" where
  "service_admin_stats A =
     bindq (on_users (count_by_status (user_repo A))) (\<lambda>user_counts.
     bindq utc_now (\<lambda>t.
     bindq (on_sessions (count_active_sessions (session_repo A) t)) (\<lambda>active_sessions.
     let count = (\<lambda>k. case hm_get user_counts k of None \<Rightarrow> 0 | Some n \<Rightarrow> n);
         active = count ''active''; suspended = count ''suspended''; deleted = count ''deleted'' in
     ret \<lparr>st_total = active + suspended + deleted, st_active = active, st_suspended = suspended, st_deleted = deleted,
          st_sessions_active = active_sessions\<rparr>)))"

definition admin_list_users :: "('s, 'u, 'r) app_service \<Rightarrow> string option \<Rightarrow> u32 option \<Rightarrow> ('s, 'u, 'r, user_page) svc" where
  "admin_list_users A cursor limit =
     bindq (from_outcome (case limit of Some requested \<Rightarrow> clamp_admin_page_limit requested | None \<Rightarrow> Ok DEFAULT_ADMIN_PAGE_SIZE)) (\<lambda>effective_limit.
     seqq (assert_that (effective_limit \<ge> 1) ''the resolved page limit must never fall below the documented minimum'')
     (seqq (assert_that (effective_limit \<le> MAX_ADMIN_PAGE_SIZE) ''the resolved page limit must never exceed MAX_ADMIN_PAGE_SIZE'')
     (bindq (on_users (list_users (user_repo A) cursor effective_limit)) (\<lambda>page.
      seqq (assert_that (length (page_users page) \<le> unat effective_limit) ''adapter returned more rows than the limit'')
      (ret page)))))"

section \<open>Lemmas\<close>

lemma emit_detail_is_mandatory: "emit_admin_mutation_with_detail A ev = emit_mandatory_audit_event A ev"
  by (simp add: emit_admin_mutation_with_detail_def emit_mandatory_audit_event_def)

lemma attributed_Ok:
  "attributed ev p = Ok ev' \<longleftrightarrow> operator_assert_invariants p = Ok () \<and> ae_operator ev = None \<and> ev' = ev\<lparr>ae_operator := Some p\<rparr>"
  by (auto simp: attributed_def split: outcome.splits unit.splits)

lemma attributed_no_err: "attributed ev p \<noteq> Err e"
  by (auto simp: attributed_def operator_assert_invariants_def split: outcome.splits unit.splits if_splits)

text \<open>A mutation's record: one attempt, under the operator's name, or a panic before it for a
  principal that violates its invariants.\<close>

definition attributed_record :: "admin_mutation_kind \<Rightarrow> user \<Rightarrow> operator_principal \<Rightarrow> audit_event \<Rightarrow> bool" where
  "attributed_record kind user operator e \<longleftrightarrow> ae_type e = se_event_type (AdminMutation kind) \<and> ae_actor e = Some (u_id user)
     \<and> ae_operator e = Some operator \<and> ae_outcome e = Success"

definition audited :: "('s, 'u, 'r) app_service \<Rightarrow> (audit_event \<Rightarrow> bool) \<Rightarrow> ('s, 'u, 'r) world \<Rightarrow> unit result \<Rightarrow> ('s, 'u, 'r) world \<Rightarrow> bool" where
  "audited A P w r w' \<longleftrightarrow> emitted A P w r w' \<or> (\<exists>p. r = Panic p) \<and> keeps_stores w w' \<and> w_attempts w' = w_attempts w"

lemma admin_event_wp:
  assumes "\<And>e. attributed_record kind user operator e \<Longrightarrow> attributed_record kind user operator (f e)"
  shows "wp (bindq (admin_event A kind user Success operator) (\<lambda>ev. emit_mandatory_audit_event A (f ev)))
    (audited A (attributed_record kind user operator) w) w"
proof -
  let ?v = "w\<lparr>w_ulids := Suc (w_ulids w), w_ticks := Suc (w_ticks w)\<rparr>"
  let ?e = "into_audit_event (ip_text A) (w_ulid w (w_ulids w)) (w_clock w (w_ticks w)) (AdminMutation kind) Success
      (Some (u_id user)) (Some (u_provider user)) UnknownAddr None"
  have run: "admin_event A kind user Success operator w = (attributed ?e operator, ?v)"
    by (simp add: admin_event_def build_security_event_def)
  show ?thesis
  proof (cases "attributed ?e operator")
    case (Ok ev)
    then have "attributed_record kind user operator (f ev)"
      by (intro assms) (auto simp: attributed_Ok attributed_record_def into_audit_event_def)
    from emit_mandatory_emitted [of "attributed_record kind user operator", OF this, where w = ?v]
    have "wp (emit_mandatory_audit_event A (f ev)) (audited A (attributed_record kind user operator) w) ?v"
      by (rule wp_mono) (auto simp: audited_def emitted_def keeps_stores_def)
    then show ?thesis using run Ok by (simp add: wp_def)
  next
    case (Panic p)
    then show ?thesis using run by (simp add: wp_def audited_def keeps_stores_def)
  qed (use attributed_no_err in blast)
qed

lemma audited_stores:
  "audited A P w r w' \<Longrightarrow> w_sessions w' = w_sessions w \<and> w_users w' = w_users w"
  by (auto simp: audited_def emitted_def keeps_stores_def)

lemma mutation_wp:
  "wp (emit_admin_mutation_audit_event A kind user Success operator) (audited A (attributed_record kind user operator) w) w"
  unfolding emit_admin_mutation_audit_event_def by (rule admin_event_wp)

lemma detail_wp:
  "wp (bindq (admin_event A kind user Success operator) (\<lambda>event. emit_admin_mutation_with_detail A (event\<lparr>ae_detail := d event\<rparr>)))
     (audited A (attributed_record kind user operator) w) w"
  unfolding emit_detail_is_mandatory by (rule admin_event_wp) (simp add: attributed_record_def)

section \<open>Mutations over the stores\<close>

text \<open>A patch that was let through: the user exists, the claims name no reserved claim, the status
  change is legal, and the stored user is the patched one.\<close>

definition patch_applied :: "string \<Rightarrow> user_patch \<Rightarrow> (string \<rightharpoonup> user) \<Rightarrow> (string \<rightharpoonup> user) \<Rightarrow> user \<Rightarrow> instant \<Rightarrow> bool" where
  "patch_applied i p um um' u t \<longleftrightarrow> um i = Some u \<and> um' = um(i \<mapsto> patch_user t p u)
     \<and> (\<forall>c. p_claims p = Some c \<longrightarrow> find_reserved_claim_key c = None)
     \<and> (\<forall>s. p_status p = Some s \<longrightarrow> can_transition_to (u_status u) s)"

text \<open>The sessions that go with it: all of the user's when the user was suspended or deleted by it.\<close>

definition patch_sessions :: "string \<Rightarrow> user_patch \<Rightarrow> user \<Rightarrow> fam_store \<Rightarrow> fam_store" where
  "patch_sessions i p u st = (if entered_suspended_or_deleted (p_status p) (u_status u) then spec_revoke_user i st else st)"

lemma ensure_Ok: "ensure_no_reserved_claims L c = Ok () \<longleftrightarrow> find_reserved_claim_key c = None"
  by (auto simp: ensure_no_reserved_claims_def split: option.splits)

context service_stores
begin

lemma require_user_wp:
  assumes "user_repo A = UP" "uinv (w_users w)"
    and "\<And>e s. uinv s \<Longrightarrow> umap s = umap (w_users w) \<Longrightarrow> Q (Err e) (w\<lparr>w_users := s\<rparr>)"
    and "\<And>u s. uinv s \<Longrightarrow> umap s = umap (w_users w) \<Longrightarrow> umap (w_users w) i = Some u \<Longrightarrow> Q (Ok u) (w\<lparr>w_users := s\<rparr>)"
  shows "wp (require_user A i) Q w"
  unfolding require_user_def wp_bindq assms(1)
  by (rule U.wp_get_user [OF assms(2)]) (use assms(3,4) in \<open>auto simp: wp_simps split: option.splits\<close>)

lemma apply_patch_wp:
  assumes P: "session_repo A = P" "user_repo A = UP" and i: "inv (w_sessions w)" "uinv (w_users w)"
  shows "wp (apply_validated_patch A i p) (\<lambda>r w'. inv (w_sessions w') \<and> uinv (w_users w') \<and> w_attempts w' = w_attempts w \<and>
    (umap (w_users w') = umap (w_users w) \<and> absf (w_sessions w') = absf (w_sessions w) \<and> (\<forall>x. r \<noteq> Ok x)
     \<or> (\<exists>u t. patch_applied i p (umap (w_users w)) (umap (w_users w')) u t \<and>
         (r = Ok (patch_user t p u) \<and> absf (w_sessions w') = patch_sessions i p u (absf (w_sessions w))
          \<or> (\<exists>d. r = Err (StoreError d)) \<and> absf (w_sessions w') = absf (w_sessions w)
             \<and> entered_suspended_or_deleted (p_status p) (u_status u))))) w" (is "wp _ ?Q w")
proof -
  have chk: "(case p_claims p of None \<Rightarrow> Ok () | Some c \<Rightarrow> ensure_no_reserved_claims (lib A) c) = Ok () \<longleftrightarrow>
      (\<forall>c. p_claims p = Some c \<longrightarrow> find_reserved_claim_key c = None)"
    by (auto simp: ensure_Ok split: option.splits)
  let ?e = "case p_claims p of None \<Rightarrow> Ok () | Some c \<Rightarrow> ensure_no_reserved_claims (lib A) c"
  have refused: "?Q (Err e) v" "?Q (Panic m) v" if "uinv (w_users v)" "umap (w_users v) = umap (w_users w)" "w_sessions v = w_sessions w" "w_attempts v = w_attempts w" for e m v
    using that i by simp_all
  show ?thesis
  proof (cases ?e)
    case (Ok _)
    then have cl: "\<forall>c. p_claims p = Some c \<longrightarrow> find_reserved_claim_key c = None" using chk by simp
    show ?thesis unfolding apply_validated_patch_def wp_seqq wp_pure Ok outcome.case wp_bindq [of "require_user A i"]
    proof (rule require_user_wp [OF P(2) i(2)], goal_cases)
      case (1 e s)
      then show ?case using i by simp
    next
      case (2 u s)
      let ?v = "w\<lparr>w_users := s\<rparr>"
      show ?case
      proof (cases "\<forall>t. p_status p = Some t \<longrightarrow> can_transition_to (u_status u) t")
        case False
        then show ?thesis using 2 refused(1) [of ?v] by (auto simp: wp_simps)
      next
        case True
        then have ok: "(case p_status p of None \<Rightarrow> ret () | Some target \<Rightarrow>
            if \<not> can_transition_to (u_status u) target then throw (X target) else ret ()) = ret ()" for X
          by (auto split: option.splits)
        have uid: "user_id_ok i" using U.keyed [OF i(2) 2(3)] by simp
        show ?thesis unfolding outcome.case ok P wp_pure wp_bindq wp_env
        proof (rule U.wp_update, goal_cases)
          case 1 then show ?case using 2 by simp
        next
          case (2 e s') then show ?case using i \<open>umap s = umap (w_users w)\<close> by simp
        next
          case (3 s' u')
          then have u': "u' = u" using 2 by simp
          have ap: "patch_applied i p (umap (w_users w)) (umap s') u (w_clock w (w_ticks w))"
            using 2 3 u' cl True by (simp add: patch_applied_def)
          show ?case
          proof (cases "entered_suspended_or_deleted (p_status p) (u_status u)")
            case True
            then show ?thesis using 3 u' ap i
              by (auto simp: wp_simps intro!: wp_revoke_all uid exI [of _ u] exI [of _ "w_clock w (w_ticks w)"] simp: patch_sessions_def)
          next
            case False
            then show ?thesis using 3 u' ap i by (auto simp: wp_simps patch_sessions_def)
          qed
        qed
      qed
    qed
  qed (use refused [of w] i in \<open>auto simp: apply_validated_patch_def wp_simps\<close>)
qed

text \<open>A patch followed by its audit record and a best-effort notification \<open>m\<close> that answers \<open>g\<close>.\<close>

lemma patch_then_audit:
  assumes P: "session_repo A = P" "user_repo A = UP" and i: "inv (w_sessions w)" "uinv (w_users w)"
    and m: "\<And>u v. \<exists>v'. m u v = (Ok (g u), v') \<and> keeps_sessions v v' \<and> w_users v' = w_users v \<and> w_attempts v' = w_attempts v"
  shows "wp (bindq (apply_validated_patch A i p) (\<lambda>user. seqq (emit_admin_mutation_audit_event A k user Success operator) (m user)))
    (\<lambda>r w'. inv (w_sessions w') \<and> uinv (w_users w') \<and>
     (umap (w_users w') = umap (w_users w) \<and> absf (w_sessions w') = absf (w_sessions w) \<and> (\<forall>x. r \<noteq> Ok x)
      \<or> (\<exists>u t. patch_applied i p (umap (w_users w)) (umap (w_users w')) u t \<and>
          (absf (w_sessions w') = patch_sessions i p u (absf (w_sessions w))
             \<and> (\<forall>x. r = Ok x \<longrightarrow> x = g (patch_user t p u) \<and>
                  (\<exists>e. w_attempts w' = w_attempts w @ [e] \<and> attributed_record k (patch_user t p u) operator e))
           \<or> (\<exists>d. r = Err (StoreError d)) \<and> absf (w_sessions w') = absf (w_sessions w)
              \<and> entered_suspended_or_deleted (p_status p) (u_status u))))) w" (is "wp _ ?Q w")
  unfolding wp_bindq [of "apply_validated_patch A i p"]
proof (rule wp_mono [OF apply_patch_wp [OF P i]], goal_cases)
  case (1 r v)
  show ?case
  proof (cases r)
    case (Ok x)
    with 1 obtain u t where u: "patch_applied i p (umap (w_users w)) (umap (w_users v)) u t" "x = patch_user t p u"
        "absf (w_sessions v) = patch_sessions i p u (absf (w_sessions w))" "inv (w_sessions v)" "uinv (w_users v)" "w_attempts v = w_attempts w"
      by auto
    have "wp (seqq (emit_admin_mutation_audit_event A k x Success operator) (m x)) ?Q v" unfolding wp_seqq
    proof (rule wp_mono [OF mutation_wp], goal_cases)
      case (1 ra va)
      have s: "w_sessions va = w_sessions v" "w_users va = w_users v" using audited_stores [OF 1] by auto
      show ?case
      proof (cases ra)
        case (Ok _)
        obtain vb where vb: "m x va = (Ok (g x), vb)" "w_sessions vb = w_sessions va" "w_users vb = w_users va" "w_attempts vb = w_attempts va"
          using m [of x va] by (auto simp: keeps_sessions_def)
        obtain e where "w_attempts va = w_attempts v @ [e]" "attributed_record k x operator e"
          using 1 Ok by (auto simp: audited_def emitted_def)
        then show ?thesis using Ok vb s u by (auto simp: wp_def)
      qed (use s u in auto)
    qed
    then show ?thesis using Ok by simp
  qed (use 1 in auto)
qed

lemma admin_update_run:
  assumes P: "session_repo A = P" "user_repo A = UP" and i: "inv (w_sessions w)" "uinv (w_users w)"
    and b: "admin_update_user A operator i p w = (r, w')"
  shows "inv (w_sessions w') \<and> uinv (w_users w') \<and>
     (umap (w_users w') = umap (w_users w) \<and> absf (w_sessions w') = absf (w_sessions w) \<and> (\<forall>x. r \<noteq> Ok x)
      \<or> (\<exists>u t. patch_applied i p (umap (w_users w)) (umap (w_users w')) u t \<and>
          (absf (w_sessions w') = patch_sessions i p u (absf (w_sessions w))
             \<and> (\<forall>x. r = Ok x \<longrightarrow> x = patch_user t p u \<and> (\<exists>e. w_attempts w' = w_attempts w @ [e]
                  \<and> attributed_record (if p_status p = Some Suspended then AM_Suspended else AM_Updated) (patch_user t p u) operator e))
           \<or> (\<exists>d. r = Err (StoreError d)) \<and> absf (w_sessions w') = absf (w_sessions w)
              \<and> entered_suspended_or_deleted (p_status p) (u_status u))))"
  by (rule wpD [OF patch_then_audit [OF P i, where g = "\<lambda>u. u"] b [unfolded admin_update_user_def]])
    (simp add: keeps_sessions_def)

lemma admin_delete_run:
  assumes P: "session_repo A = P" "user_repo A = UP" and i: "inv (w_sessions w)" "uinv (w_users w)"
    and b: "admin_delete_user A operator i w = (r, w')"
  shows "inv (w_sessions w') \<and> uinv (w_users w') \<and>
     (umap (w_users w') = umap (w_users w) \<and> absf (w_sessions w') = absf (w_sessions w) \<and> r \<noteq> Ok ()
      \<or> (\<exists>u t. umap (w_users w) i = Some u \<and> u_status u \<noteq> Deleted \<and> umap (w_users w') = (umap (w_users w))(i \<mapsto> patch_user t delete_patch u) \<and>
          (absf (w_sessions w') = spec_revoke_user i (absf (w_sessions w))
             \<and> (r = Ok () \<longrightarrow> (\<exists>e. w_attempts w' = w_attempts w @ [e] \<and> attributed_record AM_Deleted (patch_user t delete_patch u) operator e))
           \<or> (\<exists>d. r = Err (StoreError d)) \<and> absf (w_sessions w') = absf (w_sessions w))))"
proof -
  have del: "u_status u \<noteq> Deleted \<and> entered_suspended_or_deleted (p_status delete_patch) (u_status u)"
    if "patch_applied i delete_patch um um' u t" for um um' u t
    using that by (cases "u_status u") (auto simp: patch_applied_def delete_patch_def entered_suspended_or_deleted_def)
  have "inv (w_sessions w') \<and> uinv (w_users w') \<and>
     (umap (w_users w') = umap (w_users w) \<and> absf (w_sessions w') = absf (w_sessions w) \<and> r \<noteq> Ok ()
      \<or> (\<exists>u t. patch_applied i delete_patch (umap (w_users w)) (umap (w_users w')) u t \<and>
          (absf (w_sessions w') = patch_sessions i delete_patch u (absf (w_sessions w))
             \<and> (r = Ok () \<longrightarrow> (\<exists>e. w_attempts w' = w_attempts w @ [e] \<and> attributed_record AM_Deleted (patch_user t delete_patch u) operator e))
           \<or> (\<exists>d. r = Err (StoreError d)) \<and> absf (w_sessions w') = absf (w_sessions w))))"
    using wpD [OF patch_then_audit [OF P i, where g = "\<lambda>_. ()"] b [unfolded admin_delete_user_def]]
    by (simp add: keeps_sessions_def) blast
  then show ?thesis using del unfolding patch_sessions_def patch_applied_def by metis
qed

lemma write_claims_wp:
  assumes P: "session_repo A = P" "user_repo A = UP" and i: "inv (w_sessions w)" "uinv (w_users w)"
  shows "wp (write_claims A operator i f operation) (\<lambda>r w'. w_sessions w' = w_sessions w \<and> uinv (w_users w') \<and>
     (umap (w_users w') = umap (w_users w) \<and> r \<noteq> Ok ()
      \<or> (\<exists>u t. umap (w_users w) i = Some u \<and> umap (w_users w') = (umap (w_users w))(i \<mapsto> patch_user t (claims_patch (f u)) u)
          \<and> (r = Ok () \<longrightarrow> (\<exists>e. w_attempts w' = w_attempts w @ [e] \<and> attributed_record AM_Updated u operator e))))) w" (is "wp _ ?Q w")
  unfolding write_claims_def wp_bindq [of "require_user A i"]
proof (rule require_user_wp [OF P(2) i(2)], goal_cases)
  case (1 e s) then show ?case by simp
next
  case (2 u s)
  show ?case unfolding outcome.case wp_bindq wp_env P
  proof (rule U.wp_update, goal_cases)
    case 1 then show ?case using 2 by simp
  next
    case (2 e s') then show ?case using \<open>umap s = umap (w_users w)\<close> by simp
  next
    case (3 s' u')
    then have u': "umap s' = (umap (w_users w))(i \<mapsto> patch_user (w_clock w (w_ticks w)) (claims_patch (f u)) u)" using 2 by simp
    show ?case unfolding outcome.case emit_claims_audit_event_def
    proof (rule wp_mono [OF detail_wp], goal_cases)
      case (1 r v)
      have s: "w_sessions v = w_sessions w" "w_users v = s'" using audited_stores [OF 1] by auto
      have "r = Ok () \<longrightarrow> (\<exists>e. w_attempts v = w_attempts w @ [e] \<and> attributed_record AM_Updated u operator e)"
        using 1 by (auto simp: audited_def emitted_def)
      then show ?case using s u' 3(1) \<open>umap (w_users w) i = Some u\<close> by (auto simp del: fun_upd_apply)
    qed
  qed
qed

lemma load_live_user_wp:
  assumes "user_repo A = UP" "uinv (w_users w)"
    and "\<And>e s. uinv s \<Longrightarrow> umap s = umap (w_users w) \<Longrightarrow> Q (Err e) (w\<lparr>w_users := s\<rparr>)"
    and "\<And>u s. uinv s \<Longrightarrow> umap s = umap (w_users w) \<Longrightarrow> umap (w_users w) i = Some u \<Longrightarrow> u_status u \<noteq> Deleted \<Longrightarrow> Q (Ok u) (w\<lparr>w_users := s\<rparr>)"
  shows "wp (load_live_user A i) Q w"
  unfolding load_live_user_def wp_bindq assms(1)
  by (rule U.wp_get_user [OF assms(2)]) (use assms(3,4) in \<open>auto simp: wp_simps split: option.splits\<close>)

lemma revoke_one_wp:
  assumes P: "session_repo A = P" "user_repo A = UP" and i: "inv (w_sessions w)" "uinv (w_users w)" and ok: "fam_ok (absf (w_sessions w))"
  shows "wp (admin_revoke_user_session A operator i sid) (\<lambda>r w'. inv (w_sessions w') \<and> uinv (w_users w') \<and> umap (w_users w') = umap (w_users w) \<and>
     (absf (w_sessions w') = absf (w_sessions w) \<and> r \<noteq> Ok ()
      \<or> (\<exists>x u. live (absf (w_sessions w)) (s_hash x) = Some x \<and> s_user_id x = i \<and> s_family_id x \<noteq> []
          \<and> session_id_for_family (lib A) (s_family_id x) = sid \<and> umap (w_users w) i = Some u
          \<and> absf (w_sessions w') = spec_revoke_family (s_family_id x) (absf (w_sessions w))
          \<and> (r = Ok () \<longrightarrow> (\<exists>e. w_attempts w' = w_attempts w @ [e] \<and> attributed_record AM_SessionRevoked u operator e))))) w" (is "wp _ ?Q w")
  unfolding admin_revoke_user_session_def wp_bindq [of "load_live_user A i"] Let_def
proof (rule load_live_user_wp [OF P(2) i(2)], goal_cases)
  case (1 e s) then show ?case using i by simp
next
  case (2 u s)
  note u = 2
  have uid: "user_id_ok i" using U.keyed [OF i(2) 2(3)] by simp
  show ?case unfolding outcome.case wp_bindq [of utc_now] wp_env wp_bindq [of "on_sessions (list_live_sessions _ _ _ _)"] P
  proof (rule wp_list_live, goal_cases)
    case 1 then show ?case using i by simp
  next
    case 2 then show ?case using uid .
  next
    case 3 then show ?case by (simp add: MAX_LISTED_SESSIONS_def)
  next
    case (4 d s') then show ?case using u i by simp
  next
    case (5 s' xs)
    note l = 5
    let ?f = "find (\<lambda>s. session_id_for_family (lib A) (s_family_id s) = sid) (filter (\<lambda>s. s_family_id s \<noteq> []) (take MAX_LISTED_SESSIONS xs))"
    show ?case
    proof (cases ?f)
      case None
      then show ?thesis using u l by (simp add: wp_simps)
    next
      case (Some x)
      then have "x \<in> set (filter (\<lambda>s. s_family_id s \<noteq> []) (take MAX_LISTED_SESSIONS xs))" "session_id_for_family (lib A) (s_family_id x) = sid"
        by (metis (mono_tags, lifting) find_Some_iff nth_mem)+
      then have x: "live (absf (w_sessions w)) (s_hash x) = Some x" "s_user_id x = i" "s_family_id x \<noteq> []" "session_id_for_family (lib A) (s_family_id x) = sid"
        using l(4) by (auto dest: in_set_takeD)
      then have fam: "is_valid_family_id (s_family_id x)" using fam_ok_live [OF ok x(1)] by simp
      show ?thesis unfolding outcome.case Some option.case wp_bindq [of "on_sessions (revoke_family _ _)"]
      proof (rule wp_revoke_family, goal_cases)
        case 1 then show ?case using l by simp
      next
        case 2 then show ?case by (rule fam)
      next
        case (3 d s'') then show ?case using u l by simp
      next
        case (4 s'' n)
        then have st: "absf s'' = spec_revoke_family (s_family_id x) (absf (w_sessions w))" "inv s''" using l by simp_all
        show ?case
        proof (cases "n = 0")
          case True
          then show ?thesis using st u x by (auto simp: wp_simps)
        next
          case False
          show ?thesis unfolding outcome.case if_not_P [OF False]
          proof (rule wp_mono [OF detail_wp], goal_cases)
            case (1 r v)
            have "w_sessions v = s''" "w_users v = s" using audited_stores [OF 1] by auto
            moreover have "r = Ok () \<longrightarrow> (\<exists>e. w_attempts v = w_attempts w @ [e] \<and> attributed_record AM_SessionRevoked u operator e)"
              using 1 by (auto simp: audited_def emitted_def)
            ultimately show ?case using st u x by auto
          qed
        qed
      qed
    qed
  qed
qed

lemma revoke_all_wp:
  assumes P: "session_repo A = P" "user_repo A = UP" and i: "inv (w_sessions w)" "uinv (w_users w)"
  shows "wp (admin_revoke_user_sessions A operator i) (\<lambda>r w'. inv (w_sessions w') \<and> uinv (w_users w') \<and> umap (w_users w') = umap (w_users w) \<and>
     (absf (w_sessions w') = absf (w_sessions w) \<and> (\<forall>n. r \<noteq> Ok n)
      \<or> (\<exists>u. umap (w_users w) i = Some u \<and> u_status u \<noteq> Deleted \<and> absf (w_sessions w') = spec_revoke_user i (absf (w_sessions w))
          \<and> (\<forall>n. r = Ok n \<longrightarrow> n = of_nat (card {h. \<exists>x. live (absf (w_sessions w)) h = Some x \<and> s_user_id x = i})
               \<and> (\<exists>e. w_attempts w' = w_attempts w @ [e] \<and> attributed_record AM_SessionsRevoked u operator e))))) w" (is "wp _ ?Q w")
  unfolding admin_revoke_user_sessions_def wp_bindq [of "load_live_user A i"]
proof (rule load_live_user_wp [OF P(2) i(2)], goal_cases)
  case (1 e s) then show ?case using i by simp
next
  case (2 u s)
  note u = 2
  have uid: "user_id_ok i" using U.keyed [OF i(2) 2(3)] by simp
  show ?case unfolding outcome.case P wp_bindq [of "on_sessions (revoke_all_user_sessions _ _)"]
  proof (rule wp_revoke_all, goal_cases)
    case 1 then show ?case using i by simp
  next
    case 2 then show ?case using uid .
  next
    case (3 d s') then show ?case using u i by simp
  next
    case (4 s' n)
    note st = 4
    have eq: "bindq (admin_event A AM_SessionsRevoked u Success operator) (\<lambda>event.
        seqq (emit_admin_mutation_with_detail A (event\<lparr>ae_detail := d event\<rparr>)) (ret n))
      = seqq (bindq (admin_event A AM_SessionsRevoked u Success operator) (\<lambda>event.
        emit_admin_mutation_with_detail A (event\<lparr>ae_detail := d event\<rparr>))) (ret n)" for d
      by (simp add: seqq_def bindq_assoc)
    show ?case unfolding outcome.case eq wp_seqq
    proof (rule wp_mono [OF detail_wp], goal_cases)
      case (1 r v)
      have "w_sessions v = s'" "w_users v = s" using audited_stores [OF 1] by auto
      moreover have "r = Ok () \<longrightarrow> (\<exists>e. w_attempts v = w_attempts w @ [e] \<and> attributed_record AM_SessionsRevoked u operator e)"
        using 1 by (auto simp: audited_def emitted_def)
      ultimately show ?case using st u by (auto simp: wp_pure split: outcome.splits)
    qed
  qed
qed

end

end
