(* ===== verification/Rate_Limit.thy ===== *)
theory Rate_Limit
  imports Service
begin

text \<open>
  The in-process limiters: the fixed window of the exchange plane
  (\<open>crates/server/src/middleware/throttle.rs\<close>) and the two-phase lockout of the admin plane
  (\<open>crates/adapters/src/rate_limit/mod.rs\<close>). Both keep a bounded table of buckets behind a mutex.
  \<open>Instant\<close>s and \<open>Duration\<close>s are nanoseconds; \<open>Instant::duration_since\<close> saturates at zero. The table is
  a list in the iteration order of the hash map; a panic while the lock is held poisons it.
\<close>

section \<open>Bucket tables\<close>

record bucket =
  b_started_at :: int
  b_consumed :: u64

type_synonym 'k buckets = "('k \<times> bucket) list"

record 'k limiter_state =
  ls_buckets :: "'k buckets"
  ls_poisoned :: bool

definition duration_since :: "int \<Rightarrow> int \<Rightarrow> int" where
  "duration_since now t = max 0 (now - t)"

definition retain_live :: "int \<Rightarrow> int \<Rightarrow> 'k buckets \<Rightarrow> 'k buckets" where
  "retain_live lifetime now bs = filter (\<lambda>(_, b). duration_since now (b_started_at b) < lifetime) bs"

text \<open>\<open>iter().min_by_key(started_at)\<close>: the first of the oldest.\<close>

fun oldest :: "'k buckets \<Rightarrow> ('k \<times> bucket) option" where
  "oldest [] = None"
| "oldest (x # xs) = (case oldest xs of
       None \<Rightarrow> Some x
     | Some y \<Rightarrow> if b_started_at (snd x) \<le> b_started_at (snd y) then Some x else Some y)"

definition remaining_secs :: "int \<Rightarrow> int \<Rightarrow> u64" where
  "remaining_secs lifetime elapsed = word_of_int (max 1 (max 0 (lifetime - elapsed) div nanos))"

section \<open>The fixed window\<close>

record fixed_window =
  fw_window :: int
  fw_per_ip :: u64
  fw_per_ip_failures :: u64
  fw_per_subject :: u64
  fw_per_provider :: u64
  fw_max_entries :: nat

definition fixed_window_with_clock :: "fixed_window \<Rightarrow> (fixed_window \<times> rl_key limiter_state) result" where
  "fixed_window_with_clock F =
     (if fw_window F = 0 then Err (ConfigError ''rate limit window must be non-zero'')
      else if fw_max_entries F = 0 then Err (ConfigError ''rate limit max_entries must be non-zero'')
      else Ok (F, \<lparr>ls_buckets = [], ls_poisoned = False\<rparr>))"

fun for_key :: "fixed_window \<Rightarrow> rl_key \<Rightarrow> u64 result" where
  "for_key F (RL_ClientAddr _) = Ok (fw_per_ip F)"
| "for_key F (RL_ClientAddrFailure _) = Ok (fw_per_ip_failures F)"
| "for_key F (RL_Subject _ _) = Ok (fw_per_subject F)"
| "for_key F (RL_Provider _) = Ok (fw_per_provider F)"
| "for_key F (RL_OperatorAuth _) = Panic ''the OperatorAuth budget belongs to AdminAuthRateLimiter, not the fixed window''"

text \<open>The entry of \<open>key\<close>, created at \<open>now\<close> when it is missing.\<close>

definition entry_or_insert :: "'k \<Rightarrow> int \<Rightarrow> 'k buckets \<Rightarrow> bucket" where
  "entry_or_insert key now bs = (case map_of bs key of Some b \<Rightarrow> b | None \<Rightarrow> \<lparr>b_started_at = now, b_consumed = 0\<rparr>)"

definition fixed_window_check_at ::
  "fixed_window \<Rightarrow> rl_key \<Rightarrow> int \<Rightarrow> rl_key limiter_state \<Rightarrow> rate_limit_decision result \<times> rl_key limiter_state" where
  "fixed_window_check_at F key now s = (case for_key F key of
       Err e \<Rightarrow> (Err e, s)
     | Panic p \<Rightarrow> (Panic p, s)
     | Ok budget \<Rightarrow>
         if budget = 0 then (Ok Allow, s)
         else if ls_poisoned s then (Err (ConfigError ''in-process rate limiter state lock is poisoned''), s)
         else
           let retained = retain_live (fw_window F) now (ls_buckets s) in
           if map_of retained key = None \<and> length retained = fw_max_entries F \<and> retained = []
           then (Panic ''a full non-empty rate-limit map has an oldest entry'', s\<lparr>ls_buckets := retained, ls_poisoned := True\<rparr>)
           else
             let room = (if map_of retained key = None \<and> length retained = fw_max_entries F
                         then AList.delete (fst (the (oldest retained))) retained else retained);
                 bucket = entry_or_insert key now room in
             if b_consumed bucket < budget
             then (Ok Allow, s\<lparr>ls_buckets := AList.update key (bucket\<lparr>b_consumed := b_consumed bucket + 1\<rparr>) room\<rparr>)
             else (Ok (Deny (remaining_secs (fw_window F) (duration_since now (b_started_at bucket)))),
                   s\<lparr>ls_buckets := AList.update key bucket room\<rparr>))"

definition fixed_window_port :: "fixed_window \<Rightarrow> rl_key limiter_state limiter_port" where
  "fixed_window_port F = \<lparr>
     check_and_consume = (\<lambda>now key. fixed_window_check_at F key now),
     check = (\<lambda>_ _ s. (Panic ''FixedWindowRateLimiter meters requests via check_and_consume'', s)),
     consume = (\<lambda>now key. fixed_window_check_at F key now)\<rparr>"

section \<open>The admin lockout\<close>

definition MAX_TRACKED_PEERS :: nat where
  "MAX_TRACKED_PEERS = 4096"

record admin_limiter =
  al_failure_window :: int
  al_lockout :: int
  al_max_auth_failures :: u64

definition admin_limiter_new :: "u64 \<Rightarrow> int \<Rightarrow> int \<Rightarrow> (admin_limiter \<times> ip_addr limiter_state) result" where
  "admin_limiter_new max_auth_failures failure_window lockout =
     (if max_auth_failures = 0 then Err (ConfigError ''internal_api.max_auth_failures must be non-zero'')
      else if failure_window = 0 then Err (ConfigError ''internal_api.auth_failure_window must be non-zero'')
      else if lockout = 0 then Err (ConfigError ''internal_api.auth_lockout must be non-zero'')
      else Ok (\<lparr>al_failure_window = failure_window, al_lockout = lockout, al_max_auth_failures = max_auth_failures\<rparr>,
               \<lparr>ls_buckets = [], ls_poisoned = False\<rparr>))"

text \<open>The largest \<open>Duration\<close>; adding past it panics.\<close>

definition duration_max :: int where
  "duration_max = 2 ^ 64 * nanos - 1"

definition bucket_lifetime :: "admin_limiter \<Rightarrow> (error, int) outcome" where
  "bucket_lifetime L = (if al_failure_window L + al_lockout L \<le> duration_max then Ok (al_failure_window L + al_lockout L)
     else Panic ''overflow when adding durations'')"

definition live_bucket :: "int \<Rightarrow> ip_addr \<Rightarrow> int \<Rightarrow> ip_addr buckets \<Rightarrow> (error, bucket) outcome \<times> ip_addr buckets" where
  "live_bucket lifetime peer now bs =
     (let retained = retain_live lifetime now bs in
      case map_of retained peer of
        Some b \<Rightarrow> (Ok b, retained)
      | None \<Rightarrow>
          let fresh = \<lparr>b_started_at = now, b_consumed = 0\<rparr>; added = AList.update peer fresh retained in
          if length added > MAX_TRACKED_PEERS then
            (case oldest added of
               None \<Rightarrow> (Panic ''a non-empty map always has an oldest entry'', added)
             | Some (k, _) \<Rightarrow>
                 if k = peer then (Panic ''the freshly inserted bucket must never be its own eviction victim'', added)
                 else (Ok fresh, AList.delete k added))
          else (Ok fresh, added))"

definition decision_at :: "bucket \<Rightarrow> int \<Rightarrow> int \<Rightarrow> u64 \<Rightarrow> rate_limit_decision" where
  "decision_at bucket now lifetime max_auth_failures =
     (let elapsed = duration_since now (b_started_at bucket) in
      if b_consumed bucket < max_auth_failures \<or> elapsed \<ge> lifetime then Allow
      else Deny (remaining_secs lifetime elapsed))"

text \<open>\<open>with_state\<close> on the bucket of a peer: a poisoned lock lets the request through.\<close>

definition with_bucket ::
  "admin_limiter \<Rightarrow> ip_addr \<Rightarrow> int \<Rightarrow> (int \<Rightarrow> bucket \<Rightarrow> rate_limit_decision \<times> bucket) \<Rightarrow> ip_addr limiter_state
     \<Rightarrow> rate_limit_decision result \<times> ip_addr limiter_state" where
  "with_bucket L peer now f s =
     (if ls_poisoned s then (Ok Allow, s)
      else case bucket_lifetime L of
             Ok lifetime \<Rightarrow>
               (case live_bucket lifetime peer now (ls_buckets s) of
                  (Ok b, bs) \<Rightarrow> (case f lifetime b of (d, b') \<Rightarrow> (Ok d, s\<lparr>ls_buckets := AList.update peer b' bs\<rparr>))
                | (Err e, bs) \<Rightarrow> (Err e, s\<lparr>ls_buckets := bs\<rparr>)
                | (Panic p, bs) \<Rightarrow> (Panic p, s\<lparr>ls_buckets := bs, ls_poisoned := True\<rparr>))
           | Err e \<Rightarrow> (Err e, s)
           | Panic p \<Rightarrow> (Panic p, s\<lparr>ls_poisoned := True\<rparr>))"

definition admin_check_at :: "admin_limiter \<Rightarrow> ip_addr \<Rightarrow> int \<Rightarrow> ip_addr limiter_state \<Rightarrow> rate_limit_decision result \<times> ip_addr limiter_state" where
  "admin_check_at L peer now = with_bucket L peer now (\<lambda>lifetime b. (decision_at b now lifetime (al_max_auth_failures L), b))"

definition consume_bucket :: "admin_limiter \<Rightarrow> int \<Rightarrow> int \<Rightarrow> bucket \<Rightarrow> rate_limit_decision \<times> bucket" where
  "consume_bucket L now lifetime bucket =
     (let elapsed = duration_since now (b_started_at bucket);
          rolled = (if elapsed \<ge> lifetime \<or> (elapsed \<ge> al_failure_window L \<and> b_consumed bucket < al_max_auth_failures L)
                    then \<lparr>b_started_at = now, b_consumed = 0\<rparr> else bucket) in
      if b_consumed rolled < al_max_auth_failures L then
        let spent = rolled\<lparr>b_consumed := b_consumed rolled + 1\<rparr> in
        if b_consumed spent \<ge> al_max_auth_failures L then (Deny (remaining_secs lifetime elapsed), spent)
        else (Allow, spent)
      else (Deny (remaining_secs lifetime elapsed), rolled))"

definition admin_consume_at :: "admin_limiter \<Rightarrow> ip_addr \<Rightarrow> int \<Rightarrow> ip_addr limiter_state \<Rightarrow> rate_limit_decision result \<times> ip_addr limiter_state" where
  "admin_consume_at L peer now = with_bucket L peer now (consume_bucket L now)"

definition admin_limiter_port :: "admin_limiter \<Rightarrow> ip_addr limiter_state limiter_port" where
  "admin_limiter_port L =
     (let on_peer = (\<lambda>f now key s. case key of RL_OperatorAuth peer \<Rightarrow> f peer now s
            | _ \<Rightarrow> (Panic ''AdminAuthRateLimiter serves only OperatorAuth keys'', s)) in
      \<lparr>check_and_consume = on_peer (admin_consume_at L), check = on_peer (admin_check_at L),
       consume = on_peer (admin_consume_at L)\<rparr>)"

section \<open>Lemmas on tables\<close>

definition table_ok :: "nat \<Rightarrow> 'k buckets \<Rightarrow> bool" where
  "table_ok m bs \<longleftrightarrow> distinct (map fst bs) \<and> length bs \<le> m"

text \<open>The bucket a key still has at \<open>now\<close>.\<close>

definition live_entry :: "int \<Rightarrow> int \<Rightarrow> 'k buckets \<Rightarrow> 'k \<Rightarrow> bucket option" where
  "live_entry lifetime now bs k = Option.bind (map_of bs k) (\<lambda>b. if duration_since now (b_started_at b) < lifetime then Some b else None)"

lemma map_of_retain: "distinct (map fst bs) \<Longrightarrow> map_of (retain_live l now bs) k = live_entry l now bs k"
proof (induction bs)
  case (Cons x xs)
  have "fst x \<notin> set (map fst (retain_live l now xs))" using Cons.prems by (auto simp: retain_live_def)
  then show ?case using Cons by (cases x) (auto simp: retain_live_def live_entry_def map_of_eq_None_iff [symmetric])
qed (simp add: retain_live_def live_entry_def)

lemma table_ok_retain: "table_ok m bs \<Longrightarrow> table_ok m (retain_live l now bs)"
  by (auto simp: table_ok_def retain_live_def distinct_map_filter intro: le_trans [OF length_filter_le])

lemma oldest_Some: "bs \<noteq> [] \<Longrightarrow> \<exists>x \<in> set bs. oldest bs = Some x \<and> (\<forall>y \<in> set bs. b_started_at (snd x) \<le> b_started_at (snd y))"
proof (induction bs)
  case (Cons x xs)
  then show ?case by (cases "xs = []") fastforce+
qed simp

lemma table_ok_delete: "table_ok m bs \<Longrightarrow> table_ok m (AList.delete k bs)"
  by (auto simp: table_ok_def distinct_delete intro: le_trans [OF length_delete_le])

lemma length_delete_in: "distinct (map fst bs) \<Longrightarrow> k \<in> fst ` set bs \<Longrightarrow> length (AList.delete k bs) < length bs"
  by (induction bs) (auto simp: AList.delete_eq intro: le_less_trans [OF length_filter_le])

lemma length_update: "length (AList.update k b bs) = (if k \<in> fst ` set bs then length bs else Suc (length bs))"
  by (induction bs) auto

lemma table_ok_update:
  assumes "table_ok m bs" "map_of bs k = None \<Longrightarrow> length bs < m"
  shows "table_ok m (AList.update k b bs)"
  using assms by (auto simp: table_ok_def distinct_update map_of_eq_None_iff length_update)

section \<open>The fixed window admits its budget\<close>

lemma uint_bump: "a < (b :: u64) \<Longrightarrow> uint (a + 1) = uint a + 1"
proof -
  assume "a < b"
  moreover have "uint b < 2 ^ 64" using unsigned_less [of b] by simp
  ultimately have "uint a + 1 < 2 ^ 64" by (simp add: word_less_def)
  then show ?thesis by (simp add: uint_word_ariths)
qed

text \<open>One call: the other keys' buckets stay, except the oldest one of a full table.\<close>

lemma fixed_window_step:
  assumes ok: "table_ok (fw_max_entries F) (ls_buckets s)" "\<not> ls_poisoned s" "0 < fw_max_entries F"
    and b: "for_key F key = Ok budget" "0 < budget"
    and bk: "bk = (case live_entry (fw_window F) now (ls_buckets s) key of Some b \<Rightarrow> b | None \<Rightarrow> \<lparr>b_started_at = now, b_consumed = 0\<rparr>)"
  shows "\<exists>room. table_ok (fw_max_entries F) room \<and> (map_of room key = None \<longrightarrow> length room < fw_max_entries F)
    \<and> (\<forall>k. k \<noteq> key \<longrightarrow> map_of room k = live_entry (fw_window F) now (ls_buckets s) k
        \<or> map_of room k = None \<and> length (retain_live (fw_window F) now (ls_buckets s)) = fw_max_entries F
          \<and> live_entry (fw_window F) now (ls_buckets s) key = None)
    \<and> fixed_window_check_at F key now s =
       (if b_consumed bk < budget then (Ok Allow, s\<lparr>ls_buckets := AList.update key (bk\<lparr>b_consumed := b_consumed bk + 1\<rparr>) room\<rparr>)
        else (Ok (Deny (remaining_secs (fw_window F) (duration_since now (b_started_at bk)))), s\<lparr>ls_buckets := AList.update key bk room\<rparr>))"
proof -
  let ?r = "retain_live (fw_window F) now (ls_buckets s)"
  have d: "distinct (map fst (ls_buckets s))" using ok by (simp add: table_ok_def)
  note mr = map_of_retain [OF d, of "fw_window F" now]
  have tr: "table_ok (fw_max_entries F) ?r" by (rule table_ok_retain [OF ok(1)])
  have ne: "length ?r = fw_max_entries F \<Longrightarrow> ?r \<noteq> []" using ok(3) by auto
  show ?thesis
  proof (cases "live_entry (fw_window F) now (ls_buckets s) key = None \<and> length ?r = fw_max_entries F")
    case True
    then obtain x where x: "x \<in> set ?r" "oldest ?r = Some x" using oldest_Some [OF ne] by blast
    let ?room = "AList.delete (fst x) ?r"
    have room: "table_ok (fw_max_entries F) ?room" "length ?room < fw_max_entries F"
      using table_ok_delete [OF tr] length_delete_in [of ?r "fst x"] x tr True by (auto simp: table_ok_def)
    have m: "map_of ?room k = (if k = fst x then None else live_entry (fw_window F) now (ls_buckets s) k)" for k
      using mr [of k] by (simp add: delete_conv)
    have key: "map_of ?room key = None" using m True by auto
    have "fixed_window_check_at F key now s =
       (if b_consumed bk < budget then (Ok Allow, s\<lparr>ls_buckets := AList.update key (bk\<lparr>b_consumed := b_consumed bk + 1\<rparr>) ?room\<rparr>)
        else (Ok (Deny (remaining_secs (fw_window F) (duration_since now (b_started_at bk)))), s\<lparr>ls_buckets := AList.update key bk ?room\<rparr>))"
      using b ok ne True mr [of key] x(2) key by (auto simp: fixed_window_check_at_def entry_or_insert_def Let_def bk)
    then show ?thesis using room m True by (intro exI [of _ ?room]) auto
  next
    case False
    have "fixed_window_check_at F key now s =
       (if b_consumed bk < budget then (Ok Allow, s\<lparr>ls_buckets := AList.update key (bk\<lparr>b_consumed := b_consumed bk + 1\<rparr>) ?r\<rparr>)
        else (Ok (Deny (remaining_secs (fw_window F) (duration_since now (b_started_at bk)))), s\<lparr>ls_buckets := AList.update key bk ?r\<rparr>))"
      using b ok False mr [of key] by (auto simp: fixed_window_check_at_def entry_or_insert_def Let_def bk split: option.splits)
    moreover have "map_of ?r key = None \<longrightarrow> length ?r < fw_max_entries F" using False mr [of key] tr by (auto simp: table_ok_def)
    ultimately show ?thesis using tr mr by (intro exI [of _ ?r]) auto
  qed
qed

lemma less_by_count: "uint a = int c \<Longrightarrow> a < (b :: u64) \<longleftrightarrow> c < unat b"
  by (metis of_nat_less_iff uint_nat word_less_def)

lemma map_upt_shift: "map P [0..<Suc n] = P 0 # map (\<lambda>i. P (Suc i)) [0..<n]"
  by (induction n) auto

text \<open>Calls on one key at the given instants.\<close>

fun window_calls :: "fixed_window \<Rightarrow> rl_key \<Rightarrow> int list \<Rightarrow> rl_key limiter_state \<Rightarrow> rate_limit_decision result list \<times> rl_key limiter_state" where
  "window_calls F key [] s = ([], s)"
| "window_calls F key (now # ts) s = (case fixed_window_check_at F key now s of (r, s') \<Rightarrow>
     (case window_calls F key ts s' of (rs, s'') \<Rightarrow> (r # rs, s'')))"

lemma window_calls_run:
  assumes "table_ok (fw_max_entries F) (ls_buckets s)" "\<not> ls_poisoned s" "0 < fw_max_entries F"
    and "for_key F key = Ok budget" "0 < budget"
    and "map_of (ls_buckets s) key = Some b" "\<forall>t \<in> set ts. b_started_at b \<le> t \<and> t < b_started_at b + fw_window F"
    and "uint (b_consumed b) = int c" "c \<le> unat budget"
  shows "map (\<lambda>r. r = Ok Allow) (fst (window_calls F key ts s)) = map (\<lambda>i. c + i < unat budget) [0..<length ts]"
  using assms
proof (induction ts arbitrary: s b c)
  case (Cons now ts)
  note prems = Cons.prems
  have lv: "live_entry (fw_window F) now (ls_buckets s) key = Some b" using prems(6,7) by (auto simp: live_entry_def duration_since_def)
  have bk: "b = (case live_entry (fw_window F) now (ls_buckets s) key of Some b \<Rightarrow> b | None \<Rightarrow> \<lparr>b_started_at = now, b_consumed = 0\<rparr>)"
    by (simp add: lv)
  obtain room where rm: "table_ok (fw_max_entries F) room" "map_of room key = None \<longrightarrow> length room < fw_max_entries F"
    and run: "fixed_window_check_at F key now s =
       (if b_consumed b < budget then (Ok Allow, s\<lparr>ls_buckets := AList.update key (b\<lparr>b_consumed := b_consumed b + 1\<rparr>) room\<rparr>)
        else (Ok (Deny (remaining_secs (fw_window F) (duration_since now (b_started_at b)))), s\<lparr>ls_buckets := AList.update key b room\<rparr>))"
    using fixed_window_step [OF prems(1-5) bk] by (elim exE conjE) (rule that)
  have up: "table_ok (fw_max_entries F) (AList.update key b' room)" for b'
    by (rule table_ok_update [OF rm(1)]) (use rm(2) in blast)
  show ?case
  proof (cases "b_consumed b < budget")
    case True
    then have c: "c < unat budget" using less_by_count [OF prems(8)] by simp
    let ?s = "s\<lparr>ls_buckets := AList.update key (b\<lparr>b_consumed := b_consumed b + 1\<rparr>) room\<rparr>"
    have "map (\<lambda>r. r = Ok Allow) (fst (window_calls F key ts ?s)) = map (\<lambda>i. Suc c + i < unat budget) [0..<length ts]"
      by (rule Cons.IH [where b = "b\<lparr>b_consumed := b_consumed b + 1\<rparr>"])
        (use up prems(2-5,7,8) uint_bump [OF True] c in \<open>simp_all add: update_conv'\<close>)
    then show ?thesis using run True c by (simp add: map_upt_shift case_prod_beta del: upt_Suc)
  next
    case False
    then have c: "\<not> c < unat budget" using less_by_count [OF prems(8)] by simp
    let ?s = "s\<lparr>ls_buckets := AList.update key b room\<rparr>"
    have "map (\<lambda>r. r = Ok Allow) (fst (window_calls F key ts ?s)) = map (\<lambda>i. c + i < unat budget) [0..<length ts]"
      by (rule Cons.IH [where b = b]) (use up prems(2-5,7-9) in \<open>simp_all add: update_conv'\<close>)
    then show ?thesis using run False c by (simp add: map_upt_shift case_prod_beta del: upt_Suc)
  qed
qed simp

lemma window_budget:
  assumes ok: "table_ok (fw_max_entries F) (ls_buckets s)" "\<not> ls_poisoned s" "0 < fw_max_entries F"
    and b: "for_key F key = Ok budget" "0 < budget"
    and n: "live_entry (fw_window F) t0 (ls_buckets s) key = None" "\<forall>t \<in> set ts. t0 \<le> t \<and> t < t0 + fw_window F"
  shows "map (\<lambda>r. r = Ok Allow) (fst (window_calls F key (t0 # ts) s)) = map (\<lambda>i. i < unat budget) [0..<Suc (length ts)]"
proof -
  let ?b = "\<lparr>b_started_at = t0, b_consumed = 0\<rparr>"
  have bk: "?b = (case live_entry (fw_window F) t0 (ls_buckets s) key of Some b \<Rightarrow> b | None \<Rightarrow> \<lparr>b_started_at = t0, b_consumed = 0\<rparr>)"
    by (simp add: n)
  obtain room where rm: "table_ok (fw_max_entries F) room" "map_of room key = None \<longrightarrow> length room < fw_max_entries F"
    and run: "fixed_window_check_at F key t0 s =
       (if b_consumed ?b < budget then (Ok Allow, s\<lparr>ls_buckets := AList.update key (?b\<lparr>b_consumed := b_consumed ?b + 1\<rparr>) room\<rparr>)
        else (Ok (Deny (remaining_secs (fw_window F) (duration_since t0 (b_started_at ?b)))), s\<lparr>ls_buckets := AList.update key ?b room\<rparr>))"
    using fixed_window_step [OF ok b bk] by (elim exE conjE) (rule that)
  let ?s = "s\<lparr>ls_buckets := AList.update key \<lparr>b_started_at = t0, b_consumed = 1\<rparr> room\<rparr>"
  have step: "fixed_window_check_at F key t0 s = (Ok Allow, ?s)" using run b(2) by simp
  have one: "0 < unat budget" using b(2) by (simp add: word_less_nat_alt)
  have "map (\<lambda>r. r = Ok Allow) (fst (window_calls F key ts ?s)) = map (\<lambda>i. Suc 0 + i < unat budget) [0..<length ts]"
    by (rule window_calls_run [where b = "\<lparr>b_started_at = t0, b_consumed = 1\<rparr>"])
      (use ok b n(2) rm one in \<open>simp_all add: update_conv' table_ok_update\<close>)
  then show ?thesis using step one by (simp add: map_upt_shift case_prod_beta del: upt_Suc)
qed

section \<open>The admin lockout holds\<close>

definition admin_ok :: "admin_limiter \<Rightarrow> bool" where
  "admin_ok L \<longleftrightarrow> 0 < al_failure_window L \<and> 0 < al_lockout L \<and> 0 < al_max_auth_failures L
     \<and> al_failure_window L + al_lockout L \<le> duration_max"

abbreviation lifetime :: "admin_limiter \<Rightarrow> int" where
  "lifetime L \<equiv> al_failure_window L + al_lockout L"

lemma lifetime_Ok: "admin_ok L \<Longrightarrow> bucket_lifetime L = Ok (lifetime L)"
  by (simp add: admin_ok_def bucket_lifetime_def)

text \<open>A call on a peer whose bucket is still live works on that bucket.\<close>

lemma with_live_bucket:
  assumes "admin_ok L" "table_ok MAX_TRACKED_PEERS (ls_buckets s)" "\<not> ls_poisoned s"
    and "live_entry (lifetime L) now (ls_buckets s) peer = Some b" "f (lifetime L) b = (d, b')"
  shows "\<exists>s'. with_bucket L peer now f s = (Ok d, s') \<and> map_of (ls_buckets s') peer = Some b'
    \<and> table_ok MAX_TRACKED_PEERS (ls_buckets s') \<and> \<not> ls_poisoned s'"
proof -
  let ?r = "retain_live (lifetime L) now (ls_buckets s)"
  have m: "map_of ?r peer = Some b" using map_of_retain [of "ls_buckets s"] assms(2,4) by (simp add: table_ok_def)
  have "table_ok MAX_TRACKED_PEERS (AList.update peer b' ?r)"
    by (rule table_ok_update [OF table_ok_retain [OF assms(2)]]) (simp add: m)
  then show ?thesis using assms(3,5) m lifetime_Ok [OF assms(1)]
    by (simp add: with_bucket_def live_bucket_def Let_def update_conv')
qed

text \<open>A peer with no live bucket gets a fresh one, when the table has room.\<close>

lemma with_fresh_bucket:
  assumes "admin_ok L" "table_ok MAX_TRACKED_PEERS (ls_buckets s)" "\<not> ls_poisoned s"
    and "live_entry (lifetime L) now (ls_buckets s) peer = None" "length (ls_buckets s) < MAX_TRACKED_PEERS"
    and "f (lifetime L) \<lparr>b_started_at = now, b_consumed = 0\<rparr> = (d, b')"
  shows "\<exists>s'. with_bucket L peer now f s = (Ok d, s') \<and> map_of (ls_buckets s') peer = Some b'
    \<and> table_ok MAX_TRACKED_PEERS (ls_buckets s') \<and> \<not> ls_poisoned s'"
proof -
  let ?r = "retain_live (lifetime L) now (ls_buckets s)" and ?f = "\<lparr>b_started_at = now, b_consumed = 0\<rparr>"
  have m: "map_of ?r peer = None" using map_of_retain [of "ls_buckets s"] assms(2,4) by (simp add: table_ok_def)
  have "length ?r < MAX_TRACKED_PEERS"
    using assms(5) le_less_trans [OF length_filter_le] by (auto simp: retain_live_def)
  then have tb: "table_ok MAX_TRACKED_PEERS (AList.update peer ?f ?r)"
    by (intro table_ok_update table_ok_retain [OF assms(2)])
  then have "table_ok MAX_TRACKED_PEERS (AList.update peer b' (AList.update peer ?f ?r))"
    by (rule table_ok_update) (simp add: update_conv')
  moreover have "\<not> MAX_TRACKED_PEERS < length (AList.update peer ?f ?r)" using tb by (simp add: table_ok_def)
  ultimately show ?thesis using assms(3,6) m lifetime_Ok [OF assms(1)]
    by (simp add: with_bucket_def live_bucket_def Let_def update_conv')
qed

lemma live_entry_Some: "map_of bs k = Some b \<Longrightarrow> b_started_at b \<le> now \<Longrightarrow> now < b_started_at b + l \<Longrightarrow> live_entry l now bs k = Some b"
  by (simp add: live_entry_def duration_since_def)

text \<open>A failure inside the counting window: one more unit, and a denial with the last one.\<close>

lemma consume_in_window:
  assumes "admin_ok L" "b_started_at b \<le> now" "now < b_started_at b + al_failure_window L" "b_consumed b < al_max_auth_failures L"
  shows "\<exists>n. consume_bucket L now (lifetime L) b =
     (if b_consumed b + 1 < al_max_auth_failures L then Allow else Deny n, b\<lparr>b_consumed := b_consumed b + 1\<rparr>)"
  using assms by (auto simp: consume_bucket_def Let_def duration_since_def admin_ok_def)

fun failed_attempts :: "admin_limiter \<Rightarrow> ip_addr \<Rightarrow> int list \<Rightarrow> ip_addr limiter_state \<Rightarrow> rate_limit_decision result list \<times> ip_addr limiter_state" where
  "failed_attempts L peer [] s = ([], s)"
| "failed_attempts L peer (now # ts) s = (case admin_consume_at L peer now s of (r, s') \<Rightarrow>
     (case failed_attempts L peer ts s' of (rs, s'') \<Rightarrow> (r # rs, s'')))"

lemma failed_attempts_run:
  assumes "admin_ok L" "table_ok MAX_TRACKED_PEERS (ls_buckets s)" "\<not> ls_poisoned s"
    and "map_of (ls_buckets s) peer = Some b" "\<forall>t \<in> set ts. b_started_at b \<le> t \<and> t < b_started_at b + al_failure_window L"
    and "uint (b_consumed b) = int c" "c + length ts \<le> unat (al_max_auth_failures L)"
    and "failed_attempts L peer ts s = (rs, s')"
  shows "map (\<lambda>r. r = Ok Allow) rs = map (\<lambda>i. Suc (c + i) < unat (al_max_auth_failures L)) [0..<length ts]
    \<and> table_ok MAX_TRACKED_PEERS (ls_buckets s') \<and> \<not> ls_poisoned s'
    \<and> (\<exists>b'. map_of (ls_buckets s') peer = Some b' \<and> b_started_at b' = b_started_at b \<and> uint (b_consumed b') = int (c + length ts))"
  using assms
proof (induction ts arbitrary: s b c rs)
  case (Cons now ts)
  note prems = Cons.prems
  have w: "b_started_at b \<le> now" "now < b_started_at b + al_failure_window L" using prems(5) by auto
  have lt: "b_consumed b < al_max_auth_failures L" using less_by_count [OF prems(6)] prems(7) by simp
  have up: "uint (b_consumed b + 1) = int (Suc c)" using uint_bump [OF lt] prems(6) by simp
  let ?b = "b\<lparr>b_consumed := b_consumed b + 1\<rparr>"
  obtain n where n: "consume_bucket L now (lifetime L) b =
     (if b_consumed b + 1 < al_max_auth_failures L then Allow else Deny n, ?b)" using consume_in_window [OF prems(1) w lt] by blast
  have lv: "live_entry (lifetime L) now (ls_buckets s) peer = Some b"
    by (rule live_entry_Some [OF prems(4)]) (use w prems(1) in \<open>auto simp: admin_ok_def\<close>)
  obtain s1 where s1: "admin_consume_at L peer now s = (Ok (if b_consumed b + 1 < al_max_auth_failures L then Allow else Deny n), s1)"
      "map_of (ls_buckets s1) peer = Some ?b" "table_ok MAX_TRACKED_PEERS (ls_buckets s1)" "\<not> ls_poisoned s1"
    using with_live_bucket [where f = "consume_bucket L now", OF prems(1-3) lv n] unfolding admin_consume_at_def by blast
  obtain rs' s2 where r: "failed_attempts L peer ts s1 = (rs', s2)" by fastforce
  then have rs: "rs = Ok (if b_consumed b + 1 < al_max_auth_failures L then Allow else Deny n) # rs'" "s2 = s'" using prems(8) s1(1) by auto
  have IH: "map (\<lambda>r. r = Ok Allow) rs' = map (\<lambda>i. Suc (Suc c + i) < unat (al_max_auth_failures L)) [0..<length ts]
    \<and> table_ok MAX_TRACKED_PEERS (ls_buckets s') \<and> \<not> ls_poisoned s'
    \<and> (\<exists>b'. map_of (ls_buckets s') peer = Some b' \<and> b_started_at b' = b_started_at ?b \<and> uint (b_consumed b') = int (Suc c + length ts))"
    by (rule Cons.IH [OF prems(1) s1(3,4,2)]) (use prems(5,7) up r rs in auto)
  then show ?case using less_by_count [OF up, of "al_max_auth_failures L"] rs(1) by (simp add: map_upt_shift del: upt_Suc)
qed auto

lemma lockout_decision:
  assumes "admin_ok L" "al_max_auth_failures L \<le> b_consumed b" "b_started_at b \<le> now"
  shows "decision_at b now (lifetime L) (al_max_auth_failures L) =
    (if now < b_started_at b + lifetime L then Deny (remaining_secs (lifetime L) (now - b_started_at b)) else Allow)"
  using assms by (auto simp: decision_at_def Let_def duration_since_def)

text \<open>A spent budget denies every consultation until window and lockout have run, and none after.\<close>

lemma lockout_check:
  assumes "admin_ok L" "table_ok MAX_TRACKED_PEERS (ls_buckets s)" "\<not> ls_poisoned s"
    and "map_of (ls_buckets s) peer = Some b" "al_max_auth_failures L \<le> b_consumed b" "b_started_at b \<le> now"
  shows "fst (admin_check_at L peer now s) = Ok Allow \<longleftrightarrow> b_started_at b + lifetime L \<le> now"
    and "now < b_started_at b + lifetime L \<Longrightarrow> fst (admin_check_at L peer now s) = Ok (Deny (remaining_secs (lifetime L) (now - b_started_at b)))"
    and "fst (admin_check_at L peer now s) \<noteq> Ok Allow \<Longrightarrow> now < b_started_at b + lifetime L"
proof -
  have den: "fst (admin_check_at L peer now s) = Ok (Deny (remaining_secs (lifetime L) (now - b_started_at b)))"
    if "now < b_started_at b + lifetime L"
  proof -
    have lv: "live_entry (lifetime L) now (ls_buckets s) peer = Some b" by (rule live_entry_Some [OF assms(4,6) that])
    show ?thesis unfolding admin_check_at_def
      using with_live_bucket [OF assms(1-3) lv, of "\<lambda>l b. (decision_at b now l (al_max_auth_failures L), b)" _ b]
        lockout_decision [OF assms(1,5,6)] that by auto
  qed
  have alw: "fst (admin_check_at L peer now s) = Ok Allow" if "b_started_at b + lifetime L \<le> now"
  proof -
    let ?r = "retain_live (lifetime L) now (ls_buckets s)" and ?f = "\<lparr>b_started_at = now, b_consumed = 0\<rparr>"
    have "live_entry (lifetime L) now (ls_buckets s) peer = None" using assms(4,6) that by (simp add: live_entry_def duration_since_def)
    moreover have "distinct (map fst (ls_buckets s))" using assms(2) by (simp add: table_ok_def)
    ultimately have m: "map_of ?r peer = None" by (simp add: map_of_retain)
    have "(peer, b) \<in> set (ls_buckets s)" using assms(4) by (rule map_of_SomeD)
    moreover have "(peer, b) \<notin> set ?r" using m by (metis map_of_eq_None_iff fst_conv imageI)
    ultimately have "length ?r < length (ls_buckets s)" unfolding retain_live_def by (metis (no_types, lifting) filter_id_conv length_filter_less mem_Collect_eq set_filter)
    then have sm: "length ?r < MAX_TRACKED_PEERS" using assms(2) by (simp add: table_ok_def)
    have "length (AList.update peer ?f ?r) = Suc (length ?r)" using m by (simp add: map_of_eq_None_iff length_update)
    then have "\<not> MAX_TRACKED_PEERS < length (AList.update peer ?f ?r)" using sm by simp
    then show ?thesis using assms(1,3) m lifetime_Ok [OF assms(1)]
      by (simp add: admin_check_at_def with_bucket_def live_bucket_def Let_def decision_at_def admin_ok_def)
  qed
  show "fst (admin_check_at L peer now s) = Ok Allow \<longleftrightarrow> b_started_at b + lifetime L \<le> now"
    using den alw by (cases "now < b_started_at b + lifetime L") auto
  show "now < b_started_at b + lifetime L \<Longrightarrow> fst (admin_check_at L peer now s) = Ok (Deny (remaining_secs (lifetime L) (now - b_started_at b)))"
    by (rule den)
  show "fst (admin_check_at L peer now s) \<noteq> Ok Allow \<Longrightarrow> now < b_started_at b + lifetime L" using alw by force
qed

end
