(* ===== verification/Service_Properties.thy ===== *)
theory Service_Properties
  imports Properties Revoke Exchange_Runs User_Admin Rate_Limit
begin

text \<open>
  The properties of revocation, exchange, user administration and rate limiting, each with its
  application to the example service.
\<close>

interpretation st: service_stores "lmdb_port ex_env" "lmdb_inv ex_env" "lmdb_abs ex_env" "reuse_retention_secs ex_env"
  "mock_user_port ex_lib ex_cursor" mock_users_ok "\<lambda>s. hm_get (mu_users s)"
  by unfold_locales

section \<open>Revocation\<close>

text \<open>C18. Revocation reaches exactly what the presented credential names. Presented as an access
  token, it removes the one family of the session claim of a token that validates, and nothing
  otherwise; presented as anything else, it removes at most the one live generation stored under the
  token's hash. The users are never touched, and no run changes the invariant of the store.\<close>

theorem revoke_scope:
  assumes "session_repository (session_repo A) I absf reten" "I (w_sessions w)" "revoke A req w = (r, w')"
  shows "I (w_sessions w') \<and> w_users w' = w_users w \<and> (absf (w_sessions w') = absf (w_sessions w)
    \<or> rv_token_type_hint req \<noteq> Some ''access_token''
      \<and> absf (w_sessions w') = (absf (w_sessions w))\<lparr>live := (live (absf (w_sessions w)))(sha256_hex (lib A) (rv_token req) := None)\<rparr>
    \<or> rv_token_type_hint req = Some ''access_token'' \<and> (\<exists>c. token_established A (rv_token req) (secs_u64 (w_clock w (w_ticks w))) (Suc (w_ticks w)) c
         \<and> is_valid_family_id (c_sid c) \<and> absf (w_sessions w') = spec_revoke_family (c_sid c) (absf (w_sessions w))))"
proof (rule session_repository.revoke_run [OF assms(1) refl assms(2,3)], goal_cases)
  case (3 c)
  then have "validate_access_token A (rv_token req) w = (Ok c, snd (validate_access_token A (rv_token req) w))" by (metis prod.collapse)
  from validate_access_token_Ok [OF this] 3 show ?case by (auto simp: revoked_to_def)
qed (auto simp: revoke_stopped_def revoked_to_def)


definition ex_revoke :: revoke_request where
  "ex_revoke = \<lparr>rv_token = ''tok0'', rv_token_type_hint = Some ''refresh_token'', rv_client_addr = UnknownAddr, rv_user_agent = None, rv_device_id = None\<rparr>"

lemma ex_get: "succeeded (fst (get_session_by_refresh_token (lmdb_port ex_env) (s_hash ex_session) ex_store))"
  by code_simp

lemma ex_revoke_run: "fst (revoke ex_app ex_revoke (ex_world nanos ex_store)) = Ok ()"
proof -
  let ?h = "s_hash ex_session"
  have h: "sha256_hex ex_lib (rv_token ex_revoke) = ?h" "length ?h = TOKEN_HASH_HEX_LEN" "?h \<noteq> []"
    using ex_hash by (auto simp: ex_revoke_def TOKEN_HASH_HEX_LEN_def)
  obtain x s where g: "get_session_by_refresh_token (lmdb_port ex_env) ?h ex_store = (Ok x, s)"
    using succeeded_run [where m = "get_session_by_refresh_token (lmdb_port ex_env) ?h", OF ex_get] by blast
  have s: "x = Some ex_session" "lmdb_inv ex_env s" "lmdb_abs ex_env s = lmdb_abs ex_env ex_store"
    using lm.get_law [OF ex_store_ok(1) g] by (auto simp: failed_clean_def ex_store_ok(3))
  obtain s' where k: "lmdb_revoke_session ex_env ?h s = (Ok (), s')"
    using lmdb_revoke_session_wins [OF ex_calm ex_env_ok s(2) h(3)] by blast
  have "secret_eq ex_lib ?h ?h" by (simp add: secret_eq_def ex_lib_def)
  then show ?thesis using g k h s(1)
    by (simp add: revoke_def revoke_refresh_token_def ex_revoke_def on_sessions_def ex_world_def lmdb_port_def
        emit_security_event_def emit_security_event_with_detail_def build_security_event_def emit_mandatory_audit_event_def
        audit_emit_def Let_def)
qed

theorem revoke_scope_witness:
  "\<exists>r w'. revoke ex_app ex_revoke (ex_world nanos ex_store) = (r, w') \<and> lmdb_inv ex_env (w_sessions w')"
proof -
  obtain r w' where r: "revoke ex_app ex_revoke (ex_world nanos ex_store) = (r, w')" by fastforce
  from revoke_scope [OF ex_repo _ this] r show ?thesis using ex_store_ok(1) by auto
qed


section \<open>Exchange\<close>




text \<open>C39. The registration policy, declaratively: no reason to refuse exactly when the email is
  present and verified and, with an allowlist, the part after its last at-sign is an exact entry or a
  proper extension of a wildcard's suffix, letter case aside. A wildcard never admits its own base.\<close>

theorem registration_policy_spec:
  "registration_policy_reason L email verified al = None \<longleftrightarrow> verified = Some True \<and> (\<exists>e. email = Some e
     \<and> (\<forall>l. al = Some l \<longrightarrow> (\<exists>local domain. e = local @ ''@'' @ domain \<and> CHR ''@'' \<notin> set domain
          \<and> (\<exists>entry \<in> set l. domain_allowed L domain entry))))"
  by (simp add: policy_None matches_domain_allowlist_iff)

text \<open>A zero access-token lifetime, which the configuration does not exclude, makes every
  exchange fail: no run answers tokens, and a run that stores a session panics afterwards or fails in
  signing, leaving that session behind.\<close>

theorem zero_ttl_never_answers:
  assumes "cfg_access_token_ttl (config A) = 0"
  shows "fst (exchange A req w) \<noteq> Ok y \<and> fst (issue_tokens A user pr v) \<noteq> Ok x"
proof -
  have no: "issue_tokens A user p v \<noteq> (Ok x, v')" for user p v x v'
  proof
    assume "issue_tokens A user p v = (Ok x, v')"
    then have "issued A user (fst p) (snd p) x" by (intro issue_tokens_Ok) simp
    then show False using build_access_token_Ok assms by (metis issued_def less_irrefl)
  qed
  then have "exchange_inner A req w \<noteq> (Ok x, v)" for x v
    unfolding exchange_inner_def by (auto elim!: bindq_okE)
  moreover have "exchange_failed A req fe v \<noteq> (Ok y, v')" for fe v v'
    using wpD [OF exchange_failed_wp, of A req fe v "Ok y" v'] by auto
  ultimately have "exchange A req w \<noteq> (Ok y, w')" for w'
    unfolding exchange_def by (auto elim!: and_then_cases)
  then show ?thesis using no by (metis prod.collapse)
qed

theorem registration_policy_spec_witness:
  "registration_policy_reason ex_lib (Some ''a@mail.x.org'') (Some True) (Some [''*.x.org'']) = None
     \<and> (\<exists>local domain. ''a@mail.x.org'' = local @ ''@'' @ domain \<and> domain_allowed ex_lib domain ''*.x.org'')"
proof -
  have "registration_policy_reason ex_lib (Some ''a@mail.x.org'') (Some True) (Some [''*.x.org'']) = None" by code_simp
  moreover from this have "\<exists>local domain. ''a@mail.x.org'' = local @ ''@'' @ domain \<and> domain_allowed ex_lib domain ''*.x.org''"
    unfolding registration_policy_spec by auto
  ultimately show ?thesis by blast
qed

definition ex_idp :: identity_provider where
  "ex_idp = \<lparr>ip_exchange_code = (\<lambda>_ code _. Ok \<lparr>pt_id_token = ''jwt'' @ code, pt_refresh_token = None, pt_access_token = None\<rparr>),
     ip_validate_id_token = (\<lambda>_ _. Ok \<lparr>ic_subject = ''ext'', ic_email = Some ''a@x.org'', ic_email_verified = Some True, ic_name = None,
       ic_is_private_email = None, ic_signing_alg = ''RS256'', ic_raw_claims = [(''exp'', JInt 100)]\<rparr>),
     ip_provider_id = ''p'', ip_client_id = ''client''\<rparr>"

definition ex_xapp :: "(alist lmdb, mock_users, unit) app_service" where
  "ex_xapp = ex_app\<lparr>providers := [(''p'', ex_idp)]\<rparr>"

definition ex_exchange :: exchange_request where
  "ex_exchange = \<lparr>xr_credential = AuthorizationCode ''code'' ''uri'', xr_provider = ''p'', xr_provider_access_token = None,
     xr_client_addr = UnknownAddr, xr_user_agent = None, xr_device_id = None, xr_location = None\<rparr>"

lemma ex_xapp_simps [simp]: "config ex_xapp = ex_config" "lib ex_xapp = ex_lib" "session_repo ex_xapp = lmdb_port ex_env"
  "keys ex_xapp = ex_keys" "token_json ex_xapp = ex_token_json" "user_repo ex_xapp = mock_user_port ex_lib ex_cursor" "audit_sink ex_xapp = (\<lambda>_ _. None)"
  by (simp_all add: ex_xapp_def)

lemma ex_authenticates: "succeeded (fst (authenticate ex_xapp ex_exchange (ex_world nanos ex_empty)))"
  by code_simp

lemma ex_resolves:
  "resolve_principal ex_xapp ex_exchange claims w = (Ok ex_user, w)"
  if "ic_subject claims = ''ext''" "ic_email claims = Some ''a@x.org''" "ic_email_verified claims = Some True"
    "w_users w = \<lparr>mu_users = [(''usr_1'', ex_user)]\<rparr>"
proof -
  have "mock_get_user_by_external_id ''ext'' ''p'' (w_users w) = (Ok (Some ex_user), w_users w)"
    unfolding that(4) by code_simp
  then have "flow (on_users (get_user_by_external_id (user_repo ex_xapp) (ic_subject claims) (xr_provider ex_exchange))) w = (Ok (Some ex_user), w)"
    using that(1) by (simp add: flow_def on_users_def mock_user_port_def ex_exchange_def)
  moreover have "admit_existing ex_xapp claims ex_user = Ok ex_user"
    using that(2,3) by (simp add: admit_existing_def registration_policy_reason_def ex_config_def)
  ultimately show ?thesis by (simp add: resolve_principal_def)
qed

lemma ex_stores:
  "is_valid_family_id (s_family_id x) \<Longrightarrow> s_hash x \<noteq> [] \<Longrightarrow> \<exists>s'. store_refresh_token (lmdb_port ex_env) x s = (Ok (), s')"
  using lmdb_store_wins [OF ex_calm lmdb_env_okD(1) [OF ex_env_ok], of x s] by (auto simp: lmdb_port_def)

definition ex_new_family :: string where
  "ex_new_family = new_family_id ex_lib ''0123456789ABCDEFGHJKMNPQRS''"

lemma ex_new_family: "is_valid_family_id ex_new_family"
  by code_simp

lemma ex_opens:
  assumes "w_ulid w = w_ulid (ex_world nanos ex_empty)"
  shows "\<exists>raw s w'. open_session ex_xapp ex_exchange user w = (Ok (raw, s), w') \<and> s_family_id s = ex_new_family"
proof -
  have n: "sha256_hex ex_lib x \<noteq> []" for x using hex_text(2) by (simp add: sha256_hex_def ex_lib_def)
  have u: "new_family_id ex_lib (w_ulid w k) = ex_new_family" for k using assms by (simp add: ex_world_def ex_new_family_def)
  have d: "dt_add ex_lib t k = Some (t + k * nanos)" for t k by (simp add: ex_lib_def)
  have st: "\<exists>raw s. (\<exists>w'. seqq (on_sessions (store_refresh_token (lmdb_port ex_env) x)) (ret (r, x)) v = (Ok (raw, s), w')) \<and> s_family_id s = ex_new_family"
    if "s_family_id x = ex_new_family" "s_hash x \<noteq> []" for x and r :: string and v :: "(alist lmdb, mock_users, unit) world"
    using ex_stores [of x "w_sessions v"] that ex_new_family by (auto simp: on_sessions_def)
  show ?thesis using ex_new_family by (simp add: open_session_def Let_def u d n st)
qed

lemma ex_issues: "is_valid_family_id (s_family_id s) \<Longrightarrow> \<exists>x w'. issue_tokens ex_xapp ex_user (raw, s) w = (Ok x, w')"
  by (simp add: issue_tokens_def build_access_token_def ex_token_json_def ex_claims_json_def token_claims_def resolve_custom_claims_def
      ex_config_def ex_user_def merge_user_claims_def ex_keys_def Let_def)

lemma ex_exchange_run: "\<exists>y w'. exchange ex_xapp ex_exchange (ex_world nanos ex_empty) = (Ok y, w')"
proof -
  let ?w = "ex_world nanos ex_empty"
  obtain claims w1 where a: "authenticate ex_xapp ex_exchange ?w = (Ok claims, w1)"
    using succeeded_run [where m = "authenticate ex_xapp ex_exchange", OF ex_authenticates] by blast
  have "w_users w1 = w_users ?w" "w_ulid w1 = w_ulid ?w"
    using keepsD [OF authenticate_frames(1) a] keepsD [OF authenticate_frames(2) a] by (auto simp: silent_def steady_def)
  then have u: "w_users w1 = \<lparr>mu_users = [(''usr_1'', ex_user)]\<rparr>" "w_ulid w1 = w_ulid ?w" by (auto simp: ex_world_def)
  have "authenticated ex_xapp ex_exchange claims (lmdb_abs ex_env (w_sessions w1))"
    using session_repository.authenticate_Ok [OF lm.session_repository_axioms _ _ a] ex_empty_ok(1) by simp
  then have c: "ic_subject claims = ''ext''" "ic_email claims = Some ''a@x.org''" "ic_email_verified claims = Some True"
    by (auto simp: authenticated_def ex_xapp_def ex_exchange_def ex_idp_def hm_get_def)
  obtain raw s w2 where o: "open_session ex_xapp ex_exchange ex_user w1 = (Ok (raw, s), w2)" "s_family_id s = ex_new_family"
    using ex_opens [OF u(2)] by blast
  obtain x w3 where "issue_tokens ex_xapp ex_user (raw, s) w2 = (Ok x, w3)"
    using ex_issues ex_new_family o(2) by metis
  then have "exchange_inner ex_xapp ex_exchange ?w = (Ok x, w3)"
    using a ex_resolves [OF c u(1)] o by (simp add: exchange_inner_def flow_def)
  then show ?thesis
    by (simp add: exchange_def exchange_succeeded_def emit_security_event_def emit_security_event_with_detail_def
        build_security_event_def emit_mandatory_audit_event_def audit_emit_def Let_def)
qed

lemma ex_exchange_setting:
  "session_repository (session_repo ex_xapp) (lmdb_inv ex_env) (lmdb_abs ex_env) (reuse_retention_secs ex_env)"
  "user_repository (user_repo ex_xapp) mock_users_ok (\<lambda>s. hm_get (mu_users s))"
  "lmdb_inv ex_env (w_sessions (ex_world nanos ex_empty))" "mock_users_ok (w_users (ex_world nanos ex_empty))"
  "fresh_draws ex_xapp (lmdb_abs ex_env (w_sessions (ex_world nanos ex_empty))) (ex_world nanos ex_empty)"
  "fam_ok (lmdb_abs ex_env (w_sessions (ex_world nanos ex_empty)))"
proof -
  show "session_repository (session_repo ex_xapp) (lmdb_inv ex_env) (lmdb_abs ex_env) (reuse_retention_secs ex_env)"
    using lm.session_repository_axioms by simp
  show "user_repository (user_repo ex_xapp) mock_users_ok (\<lambda>s. hm_get (mu_users s))"
    using mu.user_repository_axioms by simp
  show "lmdb_inv ex_env (w_sessions (ex_world nanos ex_empty))" by (simp add: ex_empty_ok)
  have "user_id_ok ''usr_1''" by code_simp
  then show "mock_users_ok (w_users (ex_world nanos ex_empty))"
    by (auto simp: mock_users_ok_def ex_world_def hm_get_def hm_keys_def split: if_splits)
  have "sha256_hex ex_lib x \<noteq> []" for x using hex_text(2) by (simp add: sha256_hex_def ex_lib_def)
  moreover have "ulid_ok ''0123456789ABCDEFGHJKMNPQRS''" by code_simp
  ultimately show "fresh_draws ex_xapp (lmdb_abs ex_env (w_sessions (ex_world nanos ex_empty))) (ex_world nanos ex_empty)"
    by (simp add: fresh_draws_def ex_empty_ok fresh_hash_def fresh_family_def ex_world_def)
  show "fam_ok (lmdb_abs ex_env (w_sessions (ex_world nanos ex_empty)))" by (simp add: ex_empty_ok fam_ok_def)
qed




theorem zero_ttl_never_answers_witness:
  "\<forall>y. fst (exchange (ex_xapp\<lparr>config := ex_config\<lparr>cfg_access_token_ttl := 0\<rparr>\<rparr>) ex_exchange (ex_world nanos ex_empty)) \<noteq> Ok y"
  using zero_ttl_never_answers [of "ex_xapp\<lparr>config := ex_config\<lparr>cfg_access_token_ttl := 0\<rparr>\<rparr>"] by simp

end
