(* ===== verification/Admin_Properties.thy ===== *)
theory Admin_Properties
  imports Service_Properties
begin

text \<open>
  The properties of user administration, each with its application to the example service.
\<close>

section \<open>Deletion and suspension\<close>

text \<open>What an administrative status change promises of the sessions: an active principal's all go, and
  nobody else's are touched.\<close>

definition only_user_revoked :: "string \<Rightarrow> fam_store \<Rightarrow> fam_store \<Rightarrow> bool" where
  "only_user_revoked i st st' \<longleftrightarrow> (\<forall>h x. live st' h = Some x \<longleftrightarrow> live st h = Some x \<and> s_user_id x \<noteq> i)"

lemma revoked_only: "only_user_revoked i st (spec_revoke_user i st)"
  by (auto simp: only_user_revoked_def bind_eq_Some_conv split: if_splits)

text \<open>C21. Deleting a user. A delete that answers success found a user that was not deleted, left it
  deleted with its version counted up, left none of its sessions live and every other user's in place,
  and recorded exactly one event under the operator's name. Whatever it answers, no other user changes
  and both stores keep their invariants.\<close>

theorem admin_delete_effective:
  assumes "session_repository (session_repo A) I absf reten" "user_repository (user_repo A) J umap"
    and "I (w_sessions w)" "J (w_users w)" "admin_delete_user A operator i w = (r, w')"
  shows "I (w_sessions w') \<and> J (w_users w') \<and> (\<forall>j. j \<noteq> i \<longrightarrow> umap (w_users w') j = umap (w_users w) j)
    \<and> (r = Ok () \<longrightarrow> only_user_revoked i (absf (w_sessions w)) (absf (w_sessions w'))
        \<and> (\<exists>u v e. umap (w_users w) i = Some u \<and> u_status u \<noteq> Deleted \<and> umap (w_users w') i = Some v
             \<and> u_status v = Deleted \<and> u_version v = u_version u + 1 \<and> u_external_id v = u_external_id u
             \<and> w_attempts w' = w_attempts w @ [e] \<and> attributed_record AM_Deleted v operator e))"
  using service_stores.admin_delete_run [OF service_stores.intro [OF assms(1,2)] refl refl assms(3-5)]
  by (auto simp: revoked_only patch_user_def delete_patch_def)


section \<open>Operator revocation of sessions\<close>

text \<open>C23. Revoking one session by its public id reaches one family: a run that changes the sessions
  removed exactly the family of a live session of that user whose identifier hashes to the id, so an
  id of another user's session is refused and leaves it alone; success is recorded once under the
  operator's name, and the users never change.\<close>

theorem admin_revoke_session_scope:
  assumes "session_repository (session_repo A) I absf reten" "user_repository (user_repo A) J umap"
    and "I (w_sessions w)" "J (w_users w)" "fam_ok (absf (w_sessions w))" "admin_revoke_user_session A operator i sid w = (r, w')"
  shows "I (w_sessions w') \<and> fam_ok (absf (w_sessions w')) \<and> umap (w_users w') = umap (w_users w)
    \<and> (\<forall>h x. live (absf (w_sessions w)) h = Some x \<longrightarrow> s_user_id x \<noteq> i \<longrightarrow> live (absf (w_sessions w')) h = Some x)
    \<and> (r = Ok () \<longrightarrow> (\<exists>f e. session_id_for_family (lib A) f = sid \<and> f \<noteq> [] \<and> w_attempts w' = w_attempts w @ [e]
        \<and> ae_operator e = Some operator \<and> absf (w_sessions w') = spec_revoke_family f (absf (w_sessions w))
        \<and> (\<exists>h x. live (absf (w_sessions w)) h = Some x \<and> s_user_id x = i \<and> s_family_id x = f)))"
proof -
  note run = wpD [OF service_stores.revoke_one_wp [OF service_stores.intro [OF assms(1,2)] refl refl assms(3-5)] assms(6)]
  have other: "live (spec_revoke_family (s_family_id x) (absf (w_sessions w))) h = Some y"
    if "live (absf (w_sessions w)) (s_hash x) = Some x" "live (absf (w_sessions w)) h = Some y" "s_user_id y \<noteq> s_user_id x"
      "s_family_id x \<noteq> []" for x y h
  proof -
    have "\<forall>h1 h2 s1 s2. live (absf (w_sessions w)) h1 = Some s1 \<longrightarrow> live (absf (w_sessions w)) h2 = Some s2 \<longrightarrow> s_family_id s1 \<noteq> []
        \<longrightarrow> s_family_id s1 = s_family_id s2 \<longrightarrow> h1 = h2" using assms(5) unfolding fam_ok_def by blast
    then have "s_family_id y \<noteq> s_family_id x" using that by (metis option.inject)
    then show ?thesis using that(2) by simp
  qed
  show ?thesis using run other assms(5) fam_ok_revoke_family
    by (elim conjE disjE exE) (auto simp: attributed_record_def)
qed

text \<open>C24. Revoking all sessions of a user empties exactly that user's sessions, and the count it
  answers is how many there were.\<close>

theorem admin_revoke_all_effective:
  assumes "session_repository (session_repo A) I absf reten" "user_repository (user_repo A) J umap"
    and "I (w_sessions w)" "J (w_users w)" "admin_revoke_user_sessions A operator i w = (r, w')"
  shows "umap (w_users w') = umap (w_users w)
    \<and> (absf (w_sessions w') = absf (w_sessions w) \<or> only_user_revoked i (absf (w_sessions w)) (absf (w_sessions w')))
    \<and> (\<forall>n. r = Ok n \<longrightarrow> only_user_revoked i (absf (w_sessions w)) (absf (w_sessions w'))
        \<and> n = of_nat (card {h. \<exists>x. live (absf (w_sessions w)) h = Some x \<and> s_user_id x = i}))"
  using wpD [OF service_stores.revoke_all_wp [OF service_stores.intro [OF assms(1,2)] refl refl assms(3,4)] assms(5)]
  by (elim conjE disjE exE) (auto simp: revoked_only)

section \<open>Claims\<close>

lemma merge_claims_keys: "set (hm_keys (merge_claims old delta)) = set (hm_keys old) \<union> set (hm_keys delta)"
proof (induction delta arbitrary: old)
  case (Cons kv delta)
  have "hm_keys (kv # delta) = fst kv # hm_keys delta" by (simp add: hm_keys_def)
  then show ?case using Cons by (cases kv) (simp add: merge_claims_def)
qed (simp add: merge_claims_def hm_keys_def)

definition claims_clean :: "(string \<rightharpoonup> user) \<Rightarrow> bool" where
  "claims_clean um \<longleftrightarrow> (\<forall>i u. um i = Some u \<longrightarrow> find_reserved_claim_key (u_claims u) = None)"

lemma claims_clean_upd:
  "claims_clean um \<Longrightarrow> find_reserved_claim_key (u_claims v) = None \<Longrightarrow> claims_clean (um(i \<mapsto> v))"
  by (auto simp: claims_clean_def)

lemma claims_patch_claims [simp]: "u_claims (patch_user t (claims_patch c) u) = c"
  by (simp add: patch_user_def claims_patch_def)

lemma write_claims_clean:
  assumes st: "service_stores (session_repo A) I absf reten (user_repo A) J umap"
    and i: "I (w_sessions w)" "J (w_users w)" "claims_clean (umap (w_users w))"
    and f: "\<And>u. umap (w_users w) i = Some u \<Longrightarrow> find_reserved_claim_key (f u) = None"
  shows "claims_clean (umap (w_users (snd (write_claims A operator i f operation w))))
    \<and> w_sessions (snd (write_claims A operator i f operation w)) = w_sessions w"
proof -
  obtain r w' where r: "write_claims A operator i f operation w = (r, w')" by fastforce
  show ?thesis using wpD [OF service_stores.write_claims_wp [OF st refl refl i(1,2)] r] i(3) f
    by (elim conjE disjE exE) (simp_all add: r claims_clean_upd)
qed


section \<open>The example service administered\<close>

lemma ex_revoke_all: "fst (revoke_all_user_sessions (lmdb_port ex_env) ''usr_1'' ex_store) = Ok 1"
  by code_simp

lemma ex_list_live: "fst (list_live_sessions (lmdb_port ex_env) ''usr_1'' nanos 50 ex_store) = Ok [ex_session]"
  by code_simp

lemma ex_list_family: "fst (revoke_family (lmdb_port ex_env) ex_family (snd (list_live_sessions (lmdb_port ex_env) ''usr_1'' nanos 50 ex_store))) = Ok 1"
  by code_simp

lemmas ex_admin_simps = ex_world_def on_users_def on_sessions_def mock_user_port_def mock_get_user_by_id_def mock_update_user_def hm_get_def

lemma ex_admin_event: "\<exists>ev w'. admin_event ex_app k u Success unattributed w = (Ok ev, w')"
proof -
  have "operator_assert_invariants unattributed = Ok ()" by code_simp
  then have "attributed ev unattributed = Ok (ev\<lparr>ae_operator := Some unattributed\<rparr>)" if "ae_operator ev = None" for ev
    using that by (simp add: attributed_Ok)
  then show ?thesis by (simp add: admin_event_def build_security_event_def into_audit_event_def)
qed

lemma ex_emit: "\<exists>w'. emit_mandatory_audit_event ex_app ev w = (Ok (), w')"
  by (simp add: emit_mandatory_audit_event_def audit_emit_def)

lemma ex_audited: "\<exists>w'. bindq (admin_event ex_app k u Success unattributed) (\<lambda>ev. emit_mandatory_audit_event ex_app (f ev)) w = (Ok (), w')"
  using ex_admin_event [of k u w] ex_emit by fastforce

lemma ex_notified: "\<exists>w'. best_effort (notify_sync ex_app n) w = (Ok (), w')"
  by (simp add: best_effort_def prog_defs notify_sync_def split: option.split)

lemma ex_delete_run: "fst (admin_delete_user ex_app unattributed ''usr_1'' (ex_world nanos ex_store)) = Ok ()"
proof -
  obtain s where s: "revoke_all_user_sessions (lmdb_port ex_env) ''usr_1'' ex_store = (Ok 1, s)"
    using ex_revoke_all by (metis prod.collapse)
  obtain u w' where p: "apply_validated_patch ex_app ''usr_1'' delete_patch (ex_world nanos ex_store) = (Ok u, w')"
    using s by (simp add: apply_validated_patch_def require_user_def delete_patch_def ex_admin_simps entered_suspended_or_deleted_def)
  obtain w1 where e: "emit_admin_mutation_audit_event ex_app AM_Deleted u Success unattributed w' = (Ok (), w1)"
    using ex_audited [where f = "\<lambda>x. x"] unfolding emit_admin_mutation_audit_event_def by blast
  obtain w2 where "best_effort (notify_sync ex_app (SyncDeleted ''usr_1'')) w1 = (Ok (), w2)" using ex_notified by blast
  then show ?thesis using p e by (simp add: admin_delete_user_def)
qed

lemma ex_revoke_one_run:
  "fst (admin_revoke_user_session ex_app unattributed ''usr_1'' (session_id_for_family ex_lib ex_family) (ex_world nanos ex_store)) = Ok ()"
proof -
  obtain s where s: "list_live_sessions (lmdb_port ex_env) ''usr_1'' nanos 50 ex_store = (Ok [ex_session], s)"
    using ex_list_live by (metis prod.collapse)
  obtain s' where s': "revoke_family (lmdb_port ex_env) ex_family s = (Ok 1, s')"
    using ex_list_family unfolding s by (metis prod.collapse snd_conv)
  obtain w' where "bindq (admin_event ex_app AM_SessionRevoked ex_user Success unattributed) (\<lambda>ev. emit_mandatory_audit_event ex_app (ev\<lparr>ae_detail :=
      hm_insert SESSION_ID_DETAIL_KEY (JString (session_id_for_family ex_lib ex_family)) (ae_detail ev)\<rparr>))
      ((ex_world nanos s')\<lparr>w_ticks := Suc 0\<rparr>) = (Ok (), w')"
    using ex_audited [where f = "\<lambda>ev. ev\<lparr>ae_detail := hm_insert SESSION_ID_DETAIL_KEY (JString (session_id_for_family ex_lib ex_family)) (ae_detail ev)\<rparr>"] by blast
  then show ?thesis using s s'
    by (simp add: admin_revoke_user_session_def load_live_user_def MAX_LISTED_SESSIONS_def ex_admin_simps emit_detail_is_mandatory Let_def)
qed

lemma ex_setting:
  "session_repository (session_repo ex_app) (lmdb_inv ex_env) (lmdb_abs ex_env) (reuse_retention_secs ex_env)"
  "user_repository (user_repo ex_app) mock_users_ok (\<lambda>s. hm_get (mu_users s))"
  "lmdb_inv ex_env (w_sessions (ex_world t ex_store))" "mock_users_ok (w_users (ex_world t s))"
  "fam_ok (lmdb_abs ex_env (w_sessions (ex_world t ex_store)))"
  using ex_repo mu.user_repository_axioms ex_store_ok ex_exchange_setting(4) by (simp_all add: ex_world_def)

theorem admin_delete_effective_witness:
  "\<exists>w'. admin_delete_user ex_app unattributed ''usr_1'' (ex_world nanos ex_store) = (Ok (), w')
     \<and> live (lmdb_abs ex_env (w_sessions w')) (s_hash ex_session) = None"
proof -
  obtain w' where r: "admin_delete_user ex_app unattributed ''usr_1'' (ex_world nanos ex_store) = (Ok (), w')"
    using ex_delete_run by (metis prod.collapse)
  have "only_user_revoked ''usr_1'' (lmdb_abs ex_env ex_store) (lmdb_abs ex_env (w_sessions w'))"
    using admin_delete_effective [OF ex_setting(1-4) r] by simp
  then show ?thesis using r by (cases "live (lmdb_abs ex_env (w_sessions w')) (s_hash ex_session)") (auto simp: only_user_revoked_def ex_store_ok(3))
qed

definition ex_email_patch :: user_patch where
  "ex_email_patch = \<lparr>p_email = Some ''b@x.org'', p_display_name = None, p_metadata = None, p_claims = None, p_status = None\<rparr>"


theorem admin_revoke_session_scope_witness:
  "\<exists>w'. admin_revoke_user_session ex_app unattributed ''usr_1'' (session_id_for_family ex_lib ex_family) (ex_world nanos ex_store) = (Ok (), w')
     \<and> fam_ok (lmdb_abs ex_env (w_sessions w'))"
proof -
  obtain w' where r: "admin_revoke_user_session ex_app unattributed ''usr_1'' (session_id_for_family ex_lib ex_family) (ex_world nanos ex_store) = (Ok (), w')"
    using ex_revoke_one_run by (metis prod.collapse)
  then show ?thesis using admin_revoke_session_scope [OF ex_setting(1-5) r] by blast
qed

theorem admin_revoke_all_effective_witness:
  "\<exists>w'. admin_revoke_user_sessions ex_app unattributed ''usr_1'' (ex_world nanos ex_store) = (Ok 1, w')
     \<and> only_user_revoked ''usr_1'' (lmdb_abs ex_env ex_store) (lmdb_abs ex_env (w_sessions w'))"
proof -
  obtain s where s: "revoke_all_user_sessions (lmdb_port ex_env) ''usr_1'' ex_store = (Ok 1, s)"
    using ex_revoke_all by (metis prod.collapse)
  obtain ev v where e: "admin_event ex_app AM_SessionsRevoked ex_user Success unattributed (ex_world nanos s) = (Ok ev, v)"
    using ex_admin_event by blast
  obtain w' where "emit_mandatory_audit_event ex_app (ev\<lparr>ae_detail := hm_insert SESSIONS_REVOKED_DETAIL_KEY (JInt 1) (ae_detail ev)\<rparr>) v = (Ok (), w')"
    using ex_emit by blast
  then have r: "admin_revoke_user_sessions ex_app unattributed ''usr_1'' (ex_world nanos ex_store) = (Ok 1, w')"
    using s e by (simp add: admin_revoke_user_sessions_def load_live_user_def ex_admin_simps emit_detail_is_mandatory)
  then show ?thesis using admin_revoke_all_effective [OF ex_setting(1-4) r] by simp
qed


text \<open>A session store whose bulk revocation fails, as a transient fault makes it.\<close>

definition ex_faulty :: "(alist lmdb, mock_users, unit) app_service" where
  "ex_faulty = ex_app\<lparr>session_repo := (lmdb_port ex_env)\<lparr>revoke_all_user_sessions := (\<lambda>_ s. (Err (StoreError ''io''), s))\<rparr>\<rparr>"

text \<open>A delete interrupted by a store fault cannot be repeated. The user is written as deleted
  before its sessions are revoked, so when that revocation fails the operator gets an error, the
  session stays live, and every further delete of the same user, on the repaired service too, is
  refused without touching it.\<close>

theorem failed_delete_strands_sessions:
  "\<exists>w1. admin_delete_user ex_faulty unattributed ''usr_1'' (ex_world nanos ex_store) = (Err (StoreError ''io''), w1)
     \<and> map_option u_status (hm_get (mu_users (w_users w1)) ''usr_1'') = Some Deleted
     \<and> live (lmdb_abs ex_env (w_sessions w1)) (s_hash ex_session) = Some ex_session
     \<and> (\<exists>d. admin_delete_user ex_app unattributed ''usr_1'' w1 = (Err (InvalidRequest d), w1))"
  by (simp add: admin_delete_user_def apply_validated_patch_def require_user_def delete_patch_def ex_admin_simps
      entered_suspended_or_deleted_def ex_faulty_def patch_user_def ex_store_ok(3) hm_insert_def)

end
