(* ===== verification/Limit_Properties.thy ===== *)
theory Limit_Properties
  imports Rate_Limit
begin

text \<open>
  The properties of the two in-process limiters, with their applications.
\<close>

section \<open>The exchange plane\<close>

text \<open>C35. Within one window a key is let through exactly as often as its budget says: of any calls on a
  key inside the window its first call opens, the first \<open>budget\<close> are allowed and every later one is
  denied, whatever the other keys' buckets are and however often a denied caller retries.\<close>

theorem fixed_window_budget:
  assumes "table_ok (fw_max_entries F) (ls_buckets s)" "\<not> ls_poisoned s" "0 < fw_max_entries F"
    and "for_key F key = Ok budget" "0 < budget"
    and "live_entry (fw_window F) start (ls_buckets s) key = None" "\<forall>t \<in> set ts. start \<le> t \<and> t < start + fw_window F"
  shows "map (\<lambda>r. r = Ok Allow) (fst (window_calls F key (start # ts) s)) = map (\<lambda>i. i < unat budget) [0..<Suc (length ts)]"
  by (rule window_budget [OF assms])

text \<open>The table of the fixed window stays bounded and its keys isolated: a call keeps at most
  \<open>max_entries\<close> buckets with distinct keys and never poisons the lock; another key keeps its live
  bucket unless the table was full and the caller's key new, and a bucket past its window is dropped.\<close>

theorem fixed_window_isolated:
  assumes "table_ok (fw_max_entries F) (ls_buckets s)" "\<not> ls_poisoned s" "0 < fw_max_entries F"
    and "for_key F key = Ok budget" "0 < budget" "fixed_window_check_at F key now s = (r, s')"
  shows "table_ok (fw_max_entries F) (ls_buckets s') \<and> \<not> ls_poisoned s' \<and> is_ok r
    \<and> (\<forall>k. k \<noteq> key \<longrightarrow> map_of (ls_buckets s') k = live_entry (fw_window F) now (ls_buckets s) k
        \<or> map_of (ls_buckets s') k = None \<and> live_entry (fw_window F) now (ls_buckets s) key = None
          \<and> length (retain_live (fw_window F) now (ls_buckets s)) = fw_max_entries F)"
proof -
  obtain room bk where room: "table_ok (fw_max_entries F) room" "map_of room key = None \<longrightarrow> length room < fw_max_entries F"
    "\<forall>k. k \<noteq> key \<longrightarrow> map_of room k = live_entry (fw_window F) now (ls_buckets s) k
        \<or> map_of room k = None \<and> length (retain_live (fw_window F) now (ls_buckets s)) = fw_max_entries F
          \<and> live_entry (fw_window F) now (ls_buckets s) key = None"
    "s' = s\<lparr>ls_buckets := AList.update key bk room\<rparr>" "is_ok r"
  proof -
    let ?bk = "case live_entry (fw_window F) now (ls_buckets s) key of Some b \<Rightarrow> b | None \<Rightarrow> \<lparr>b_started_at = now, b_consumed = 0\<rparr>"
    from fixed_window_step [OF assms(1-5) refl, of now] obtain room where rm: "table_ok (fw_max_entries F) room"
      "map_of room key = None \<longrightarrow> length room < fw_max_entries F"
      "\<forall>k. k \<noteq> key \<longrightarrow> map_of room k = live_entry (fw_window F) now (ls_buckets s) k
        \<or> map_of room k = None \<and> length (retain_live (fw_window F) now (ls_buckets s)) = fw_max_entries F
          \<and> live_entry (fw_window F) now (ls_buckets s) key = None"
      and run: "fixed_window_check_at F key now s =
       (if b_consumed ?bk < budget then (Ok Allow, s\<lparr>ls_buckets := AList.update key (?bk\<lparr>b_consumed := b_consumed ?bk + 1\<rparr>) room\<rparr>)
        else (Ok (Deny (remaining_secs (fw_window F) (duration_since now (b_started_at ?bk)))), s\<lparr>ls_buckets := AList.update key ?bk room\<rparr>))"
      by (elim exE conjE) (rule that)
    have "(\<exists>bk. s' = s\<lparr>ls_buckets := AList.update key bk room\<rparr>) \<and> is_ok r"
      using run assms(6) by (cases "b_consumed ?bk < budget") auto
    then obtain bk where "s' = s\<lparr>ls_buckets := AList.update key bk room\<rparr>" "is_ok r" by blast
    then show ?thesis by (rule that [OF rm])
  qed
  then show ?thesis using assms(2) table_ok_update [OF room(1), of key bk] by (auto simp: update_conv')
qed

section \<open>The admin plane\<close>


section \<open>Applications\<close>

definition ex_peer :: ip_addr where "ex_peer = V4 192 0 2 7"

definition ex_window :: fixed_window where
  "ex_window = \<lparr>fw_window = 60 * nanos, fw_per_ip = 2, fw_per_ip_failures = 5, fw_per_subject = 5, fw_per_provider = 100, fw_max_entries = 8\<rparr>"

definition ex_limiter :: "u64 \<Rightarrow> admin_limiter" where
  "ex_limiter n = \<lparr>al_failure_window = 60 * nanos, al_lockout = 300 * nanos, al_max_auth_failures = n\<rparr>"

lemma ex_tables: "table_ok m ([] :: 'k buckets)" "live_entry l t ([] :: 'k buckets) k = None"
  by (simp_all add: table_ok_def live_entry_def)

theorem fixed_window_budget_witness:
  "map (\<lambda>r. r = Ok Allow) (fst (window_calls ex_window (RL_ClientAddr ex_peer) [0, nanos, 2 * nanos, 59 * nanos] \<lparr>ls_buckets = [], ls_poisoned = False\<rparr>))
     = [True, True, False, False]"
  using fixed_window_budget [where F = ex_window and key = "RL_ClientAddr ex_peer" and budget = 2 and start = 0 and ts = "[nanos, 2 * nanos, 59 * nanos]"
      and s = "\<lparr>ls_buckets = [], ls_poisoned = False\<rparr>"]
  by (simp add: ex_tables ex_window_def nanos_def upt_rec)

theorem fixed_window_isolated_witness:
  "\<exists>r s'. fixed_window_check_at ex_window (RL_ClientAddr ex_peer) 0 \<lparr>ls_buckets = [], ls_poisoned = False\<rparr> = (r, s')
     \<and> table_ok 8 (ls_buckets s')"
proof -
  obtain r s' where r: "fixed_window_check_at ex_window (RL_ClientAddr ex_peer) 0 \<lparr>ls_buckets = [], ls_poisoned = False\<rparr> = (r, s')" by fastforce
  from fixed_window_isolated [OF _ _ _ _ _ r, of 2] show ?thesis using r by (simp add: ex_tables ex_window_def)
qed


text \<open>The wait that a locked-out peer is told can be too short. With a limit of one failure, a peer
  that was consulted once and fails after its counting window has passed is told the wait measured
  from the old window; after waiting exactly that long it is still locked out.\<close>

theorem lockout_wait_understated:
  "\<exists>s1 s2 n. admin_check_at (ex_limiter 1) ex_peer 0 \<lparr>ls_buckets = [], ls_poisoned = False\<rparr> = (Ok Allow, s1)
     \<and> admin_consume_at (ex_limiter 1) ex_peer (100 * nanos) s1 = (Ok (Deny n), s2)
     \<and> fst (admin_check_at (ex_limiter 1) ex_peer ((100 + uint n) * nanos) s2) = Ok (Deny 100)"
proof -
  let ?s0 = "\<lparr>ls_buckets = [], ls_poisoned = False\<rparr>"
  let ?c = "admin_check_at (ex_limiter 1) ex_peer 0 ?s0"
  let ?d = "admin_consume_at (ex_limiter 1) ex_peer (100 * nanos) (snd ?c)"
  have "fst ?c = Ok Allow" "fst ?d = Ok (Deny 260)"
    "fst (admin_check_at (ex_limiter 1) ex_peer ((100 + uint (260 :: u64)) * nanos) (snd ?d)) = Ok (Deny 100)" by code_simp+
  then show ?thesis by (metis prod.collapse)
qed

end
