(* ===== verification/Paging.thy ===== *)
theory Paging
  imports User_Admin
begin

text \<open>
  The keyset listing of users, followed page by page: each page continues strictly after the position
  its predecessor's cursor names, so that the pages together are the whole listing.
\<close>

section \<open>Lists in strictly descending order of their page keys\<close>

abbreviation descending :: "user list \<Rightarrow> bool" where
  "descending us \<equiv> sorted_wrt (\<lambda>a b. page_key b < page_key a) us"

definition user_listing :: "mock_users \<Rightarrow> user list" where
  "user_listing s = rev (sort_key page_key (map snd (mu_users s)))"

lemma filter_after:
  assumes "descending us" "m < length us"
  shows "filter (\<lambda>u. page_key u < page_key (us ! m)) us = drop (Suc m) us"
proof -
  have "\<not> page_key u < page_key (us ! m)" if u: "u \<in> set (take (Suc m) us)" for u
  proof -
    obtain j where j: "j \<le> m" "u = us ! j" using u assms(2) by (auto simp: in_set_conv_nth less_Suc_eq_le)
    then have "j = m \<or> page_key (us ! m) < page_key (us ! j)" using assms by (cases "j = m") (simp_all add: sorted_wrt_iff_nth_less)
    then show ?thesis using j by auto
  qed
  then have "filter (\<lambda>u. page_key u < page_key (us ! m)) (take (Suc m) us) = []" by (simp add: filter_empty_conv)
  moreover have "page_key u < page_key (us ! m)" if u: "u \<in> set (drop (Suc m) us)" for u
    using u assms by (auto simp: in_set_conv_nth sorted_wrt_iff_nth_less)
  then have "filter (\<lambda>u. page_key u < page_key (us ! m)) (drop (Suc m) us) = drop (Suc m) us" by (simp add: filter_id_conv)
  ultimately show ?thesis by (metis append_Nil append_take_drop_id filter_append)
qed

lemma descending_listing:
  assumes "mock_users_ok s"
  shows "descending (user_listing s)" "set (user_listing s) = {u. \<exists>i. hm_get (mu_users s) i = Some u}"
    "length (user_listing s) = length (mu_users s)" "\<forall>u \<in> set (user_listing s). u_id u \<noteq> []"
proof -
  let ?vs = "map snd (mu_users s)" and ?xs = "sort_key page_key (map snd (mu_users s))"
  have d: "distinct (hm_keys (mu_users s))" using assms by (simp add: mock_users_ok_def)
  have v: "set ?vs = {u. \<exists>i. hm_get (mu_users s) i = Some u}" using hm_get_values [OF d] by blast
  have id: "u_id u \<noteq> []" if "u \<in> set ?vs" for u using that v assms by (auto simp: mock_users_ok_def user_id_ok_def)
  have "map u_id ?vs = hm_keys (mu_users s)"
    using assms d by (auto simp: mock_users_ok_def hm_keys_def hm_get_def map_of_eq_Some_iff)
  then have "distinct (map u_id ?vs)" using d by simp
  then have "distinct (map page_key ?vs)" by (auto simp: distinct_conv_nth page_key_def)
  then have "distinct ?vs" "inj_on page_key (set ?vs)" unfolding distinct_map by blast+
  then have "distinct (map page_key ?xs)" by (simp add: distinct_map [of page_key])
  moreover have "sorted (map page_key ?xs)" by (rule sorted_sort_key)
  ultimately have "sorted_wrt (<) (map page_key ?xs)" by (metis strict_sorted_iff)
  then show "descending (user_listing s)" by (simp add: user_listing_def sorted_wrt_rev sorted_wrt_map)
  show "set (user_listing s) = {u. \<exists>i. hm_get (mu_users s) i = Some u}" by (simp add: user_listing_def v [symmetric])
  show "length (user_listing s) = length (mu_users s)" by (simp add: user_listing_def)
  show "\<forall>u \<in> set (user_listing s). u_id u \<noteq> []" using id by (simp add: user_listing_def)
qed

section \<open>One page\<close>

text \<open>A cursor that resumes the listing after its first \<open>m\<close> users.\<close>

definition resumes :: "'x lib_scheme \<Rightarrow> cursor_codec \<Rightarrow> user list \<Rightarrow> nat \<Rightarrow> string option \<Rightarrow> bool" where
  "resumes L C us m cursor \<longleftrightarrow> (case cursor of
       None \<Rightarrow> m = 0
     | Some raw \<Rightarrow> 0 < m \<and> m \<le> length us
         \<and> cursor_decode L C raw = Ok \<lparr>kc_created_at = u_created_at (us ! (m - 1)), kc_id = u_id (us ! (m - 1))\<rparr>)"

lemma mock_page:
  assumes ok: "codec_ok L C" "mock_users_ok s" and l: "1 \<le> limit" "limit \<le> MAX_ADMIN_PAGE_SIZE"
    and r: "resumes L C (user_listing s) m cursor"
  shows "\<exists>p. mock_list_users L C cursor limit s = (Ok p, s) \<and> page_users p = take (unat limit) (drop m (user_listing s))
    \<and> (case next_cursor p of None \<Rightarrow> length (user_listing s) \<le> m + unat limit
       | Some c \<Rightarrow> m + unat limit < length (user_listing s) \<and> resumes L C (user_listing s) (m + unat limit) (Some c))"
proof -
  let ?us = "user_listing s" and ?n = "unat limit"
  let ?rem = "case cursor of None \<Rightarrow> ?us | Some raw \<Rightarrow> drop m ?us"
  have n: "0 < ?n" using l(1) by (simp add: word_le_nat_alt)
  have rem: "?rem = drop m ?us" using r by (auto simp: resumes_def split: option.splits)
  have flt: "filter (\<lambda>u. page_key u < (u_created_at (?us ! (m - 1)), u_id (?us ! (m - 1)))) ?us = drop m ?us" if "0 < m" "m \<le> length ?us"
    using filter_after [OF descending_listing(1) [OF ok(2)], of "m - 1"] that by (simp add: page_key_def)
  show ?thesis
  proof (cases "?n < length (drop m ?us)")
    case False
    then show ?thesis using l r flt
      by (auto simp: mock_list_users_def Let_def user_listing_def [symmetric] resumes_def map_outcome_def split: option.splits)
  next
    case True
    let ?p = "take ?n (drop m ?us)"
    have last: "last ?p = ?us ! (m + ?n - 1)" "?p \<noteq> []" using True n by (auto simp: last_conv_nth)
    have "last ?p \<in> set ?us" using last True n by (auto intro: nth_mem)
    then have "u_id (last ?p) \<noteq> []" using descending_listing(4) [OF ok(2)] by blast
    then obtain c where c: "cursor_encode L C \<lparr>kc_created_at = u_created_at (last ?p), kc_id = u_id (last ?p)\<rparr> = Ok c"
        "cursor_decode L C c = Ok \<lparr>kc_created_at = u_created_at (last ?p), kc_id = u_id (last ?p)\<rparr>"
      using cursor_encode_Ok [OF ok(1)] by (metis keyset_cursor.select_convs(2))
    have "mock_list_users L C cursor limit s = (Ok \<lparr>page_users = ?p, next_cursor = Some c\<rparr>, s)"
      using l r flt True c(1) last(2) by (auto simp: mock_list_users_def Let_def user_listing_def [symmetric] resumes_def map_outcome_def split: option.splits)
    moreover have "resumes L C ?us (m + ?n) (Some c)" using c(2) last(1) n True by (simp add: resumes_def)
    ultimately show ?thesis using True by auto
  qed
qed

section \<open>All pages\<close>

text \<open>A client that asks for one page after the other, for at most \<open>n\<close> pages.\<close>

primrec follow_pages :: "('s, 'u, 'r) app_service \<Rightarrow> u32 \<Rightarrow> nat \<Rightarrow> string option \<Rightarrow> ('s, 'u, 'r, user list) svc" where
  "follow_pages A limit 0 cursor = throw (NotFound ''more pages'')"
| "follow_pages A limit (Suc n) cursor = bindq (admin_list_users A cursor (Some limit)) (\<lambda>p.
     case next_cursor p of
       None \<Rightarrow> ret (page_users p)
     | Some c \<Rightarrow> bindq (follow_pages A limit n (Some c)) (\<lambda>rest. ret (page_users p @ rest)))"

lemma list_users_page:
  assumes "codec_ok L C" "mock_users_ok (w_users w)" "0 < limit" "user_repo A = mock_user_port L C"
    and "resumes L C (user_listing (w_users w)) m cursor"
  shows "\<exists>p. admin_list_users A cursor (Some limit) w = (Ok p, w)
    \<and> page_users p = take (unat (min limit MAX_ADMIN_PAGE_SIZE)) (drop m (user_listing (w_users w)))
    \<and> (case next_cursor p of None \<Rightarrow> length (user_listing (w_users w)) \<le> m + unat (min limit MAX_ADMIN_PAGE_SIZE)
       | Some c \<Rightarrow> m + unat (min limit MAX_ADMIN_PAGE_SIZE) < length (user_listing (w_users w))
           \<and> resumes L C (user_listing (w_users w)) (m + unat (min limit MAX_ADMIN_PAGE_SIZE)) (Some c))"
proof -
  let ?l = "min limit MAX_ADMIN_PAGE_SIZE"
  have l: "1 \<le> ?l" "?l \<le> MAX_ADMIN_PAGE_SIZE" using assms(3) by (auto simp: min_def MAX_ADMIN_PAGE_SIZE_def word_le_nat_alt word_less_nat_alt)
  have c: "clamp_admin_page_limit limit = Ok ?l" using assms(3) by (auto simp: clamp_admin_page_limit_def)
  from mock_page [OF assms(1,2) l assms(5)] obtain p where p: "mock_list_users L C cursor ?l (w_users w) = (Ok p, w_users w)"
    "page_users p = take (unat ?l) (drop m (user_listing (w_users w)))" and rest:
    "case next_cursor p of None \<Rightarrow> length (user_listing (w_users w)) \<le> m + unat ?l
       | Some c \<Rightarrow> m + unat ?l < length (user_listing (w_users w)) \<and> resumes L C (user_listing (w_users w)) (m + unat ?l) (Some c)"
    by blast
  have "length (page_users p) \<le> unat ?l" using p(2) by simp
  then have "admin_list_users A cursor (Some limit) w = (Ok p, w)"
    using p(1) l by (simp add: admin_list_users_def c on_users_def assms(4) mock_user_port_def)
  then show ?thesis using p(2) rest by blast
qed

lemma follow_pages_run:
  assumes "codec_ok L C" "mock_users_ok (w_users w)" "0 < limit" "user_repo A = mock_user_port L C"
    and "resumes L C (user_listing (w_users w)) m cursor"
    and "length (user_listing (w_users w)) \<le> m + n * unat (min limit MAX_ADMIN_PAGE_SIZE)" "0 < n"
  shows "follow_pages A limit n cursor w = (Ok (drop m (user_listing (w_users w))), w)"
  using assms(5-7)
proof (induction n arbitrary: m cursor)
  case (Suc n)
  let ?us = "user_listing (w_users w)" and ?l = "unat (min limit MAX_ADMIN_PAGE_SIZE)"
  obtain p where p: "admin_list_users A cursor (Some limit) w = (Ok p, w)" "page_users p = take ?l (drop m ?us)"
    and rest: "case next_cursor p of None \<Rightarrow> length ?us \<le> m + ?l | Some c \<Rightarrow> m + ?l < length ?us \<and> resumes L C ?us (m + ?l) (Some c)"
    using list_users_page [OF assms(1-4) Suc.prems(1)] by blast
  show ?case
  proof (cases "next_cursor p")
    case None
    then show ?thesis using p rest by simp
  next
    case (Some c)
    then have c: "m + ?l < length ?us" "resumes L C ?us (m + ?l) (Some c)" using rest by auto
    then have "follow_pages A limit n (Some c) w = (Ok (drop (m + ?l) ?us), w)"
      using Suc.prems(2) by (intro Suc.IH) (cases n; simp)+
    moreover have "take ?l (drop m ?us) @ drop (m + ?l) ?us = drop m ?us"
      by (metis add.commute append_take_drop_id drop_drop)
    ultimately show ?thesis using p Some by simp
  qed
qed simp

end
