(* ===== verification/Domain_Properties.thy ===== *)
theory Domain_Properties
  imports Service_Properties Paging
begin

text \<open>
  The properties of the domain layer: configured durations, session locations, custom claims, keyset
  cursors and the paged listing they drive.
\<close>

section \<open>Durations\<close>

lemma utf8_chars_bytes: "list_all (\<lambda>c. byte c < 128) s \<Longrightarrow> utf8_chars s = map (\<lambda>c. [c]) s"
  by (induction s) (auto simp: utf8_len_def)

lemma unit_secs_ascii: "unit_secs u = Some k \<Longrightarrow> \<exists>c. u = [c] \<and> byte c < 128"
  by (auto simp: unit_secs_def byte_def split: if_splits)

lemma parse_u64_ascii: "parse_u64 s = Some v \<Longrightarrow> list_all (\<lambda>c. byte c < 128) s"
  by (auto simp: parse_u64_def Let_def list_all_iff is_ascii_digit_def byte_def split: list.splits if_splits)

text \<open>What a configured duration means: the parser accepts a string exactly when, trimmed, it is a
  decimal \<open>u64\<close> followed by one of the units s, m, h, d whose product still fits 64 bits, and answers
  that product; every other string is a configuration error, never a panic and never a wrapped value.\<close>

theorem parse_duration_meaning:
  assumes "valid_utf8 s"
  shows "(parse_duration_secs L s = Ok n \<longleftrightarrow>
      (\<exists>num u v k. trim s = num @ u \<and> parse_u64 num = Some v \<and> unit_secs u = Some k \<and> uint n = uint v * k))
    \<and> ((\<exists>n. parse_duration_secs L s = Ok n) \<or> (\<exists>d. parse_duration_secs L s = Err (ConfigError d)))"
proof -
  have "parse_duration_secs L s = Ok n" if t: "trim s = num @ u" "parse_u64 num = Some v" "unit_secs u = Some k" "uint n = uint v * k" for num u v k
  proof -
    obtain c where c: "u = [c]" "byte c < 128" using unit_secs_ascii [OF t(3)] by blast
    have ch: "last (utf8_chars (num @ [c])) = [c]" "utf8_chars [c] = [[c]]"
      using parse_u64_ascii [OF t(2)] c(2) by (simp_all add: utf8_chars_bytes)
    have one: "k = 1 \<Longrightarrow> v = n" and mul: "uint m = k \<Longrightarrow> checked_mul_u64 v m = Some n" for m
      using t(4) by (auto simp: checked_mul_u64_Some word_uint_eq_iff)
    show ?thesis using t(1-3) c ch one mul
      by (auto simp: parse_duration_secs_def Let_def unit_secs_def split: if_splits)
  qed
  moreover have "\<exists>num u v k. trim s = num @ u \<and> parse_u64 num = Some v \<and> unit_secs u = Some k \<and> uint n = uint v * k"
    if "parse_duration_secs L s = Ok n" using parse_duration_Ok [OF that] by metis
  moreover have "(\<exists>n. parse_duration_secs L s = Ok n) \<or> (\<exists>d. parse_duration_secs L s = Err (ConfigError d))"
    using parse_duration_no_panic [OF assms] parse_duration_error_class by (metis outcome.exhaust)
  ultimately show ?thesis by blast
qed

theorem parse_duration_meaning_witness:
  "parse_duration_secs ex_lib '' 15m'' = Ok 900 \<and> (\<forall>n. parse_duration_secs ex_lib ''15w'' \<noteq> Ok n)"
proof -
  have v: "valid_utf8 '' 15m''" "valid_utf8 ''15w''" by code_simp+
  have t: "trim '' 15m'' = ''15'' @ ''m''" "parse_u64 ''15'' = Some 15" "unit_secs ''m'' = Some 60" "trim ''15w'' = ''15w''" by code_simp+
  have "uint (900 :: u64) = uint (15 :: u64) * 60" by simp
  then have "parse_duration_secs ex_lib '' 15m'' = Ok 900" using parse_duration_meaning [OF v(1)] t by blast
  moreover have "unit_secs u = None \<or> parse_u64 num = None" if "''15w'' = num @ u" for num u
  proof -
    have "u \<in> {''15w'', ''5w'', ''w'', ''''}" using that by (cases num rule: list.exhaust) (auto simp: Cons_eq_append_conv)
    then show ?thesis by (auto simp: unit_secs_def)
  qed
  ultimately show ?thesis using parse_duration_meaning [OF v(2)] t(4) by (metis option.distinct(1))
qed

section \<open>Session locations\<close>

lemma dropWhile_stop: "xs = [] \<or> \<not> P (hd xs) \<Longrightarrow> dropWhile P xs = xs"
  by (cases xs) auto

lemma trim_chars_fixed: "cs = [] \<or> \<not> is_whitespace (hd cs) \<and> \<not> is_whitespace (last cs) \<Longrightarrow> trim_chars cs = cs"
  by (cases cs rule: rev_cases) (auto simp: trim_chars_def dropWhile_stop hd_rev)

lemma trim_chars_idem: "trim_chars (trim_chars cs) = trim_chars cs"
  using trim_chars_ends [of cs] by (intro trim_chars_fixed) auto

lemma clean_part_chars:
  assumes "valid_utf8 raw"
  shows "clean_part (Some raw) = (let cs = trim_chars (take MAX_LOCATION_PART_LEN (trim_chars (filter (\<lambda>c. \<not> is_control c) (utf8_chars raw))))
     in if concat cs \<noteq> [] then Some (concat cs) else None)"
proof -
  have f: "list_all wf_char (filter (\<lambda>c. \<not> is_control c) (utf8_chars raw))" using assms by (auto simp: valid_utf8_def list_all_iff)
  note t = list_all_trim_chars [OF f]
  have k: "list_all wf_char (take n (trim_chars (filter (\<lambda>c. \<not> is_control c) (utf8_chars raw))))" for n
    using t by (auto simp: list_all_iff dest: in_set_takeD)
  show ?thesis by (simp add: clean_part_def trim_def Let_def utf8_chars_concat f t k)
qed

text \<open>A stored location part is safe to log and to show: cleaning a part yields nothing or a string
  of at most 80 characters without a control character and without white space at either end; cleaning
  it again changes nothing, so a location read back from a store is the one that was stored.\<close>

theorem clean_part_safe:
  assumes "valid_utf8 raw" "clean_part (Some raw) = Some t"
  shows "t \<noteq> [] \<and> valid_utf8 t \<and> length (utf8_chars t) \<le> 80 \<and> list_all (\<lambda>c. \<not> is_control c) (utf8_chars t)
    \<and> trim t = t \<and> clean_part (Some t) = Some t"
proof -
  define cs where "cs = trim_chars (take MAX_LOCATION_PART_LEN (trim_chars (filter (\<lambda>c. \<not> is_control c) (utf8_chars raw))))"
  have sub: "set cs \<subseteq> set (filter (\<lambda>c. \<not> is_control c) (utf8_chars raw))"
    unfolding cs_def by (meson set_trim_chars set_take_subset subset_trans)
  then have w: "list_all wf_char cs" and nc: "list_all (\<lambda>c. \<not> is_control c) cs" using assms(1) by (auto simp: valid_utf8_def list_all_iff)
  have len: "length cs \<le> 80" using length_trim_chars [of "take MAX_LOCATION_PART_LEN (trim_chars (filter (\<lambda>c. \<not> is_control c) (utf8_chars raw)))"]
    by (simp add: cs_def MAX_LOCATION_PART_LEN_def)
  have t: "t = concat cs" "t \<noteq> []" using assms clean_part_chars [OF assms(1)] by (auto simp: cs_def Let_def split: if_splits)
  have u: "utf8_chars t = cs" "valid_utf8 t" using w t by (simp_all add: utf8_chars_concat valid_utf8_concat)
  have fixed: "trim_chars cs = cs" by (simp add: cs_def trim_chars_idem)
  have f: "filter (\<lambda>c. \<not> is_control c) cs = cs" using nc by (simp add: list_all_iff filter_id_conv)
  have k: "take MAX_LOCATION_PART_LEN cs = cs" using len by (simp add: MAX_LOCATION_PART_LEN_def)
  note joined = t(1) [symmetric]
  have "clean_part (Some t) = Some t" unfolding clean_part_chars [OF u(2)] u(1) f fixed k Let_def joined using t(2) by simp
  moreover have "trim t = t" unfolding trim_def u(1) fixed by (rule joined)
  ultimately show ?thesis using t u nc len by simp
qed

theorem clean_part_safe_witness:
  "clean_part (Some ([CHR 0x09] @ ''Cape Town '' @ [CHR 0x07])) = Some ''Cape Town'' \<and> clean_part (Some ''Cape Town'') = Some ''Cape Town''"
proof -
  have "valid_utf8 ([CHR 0x09] @ ''Cape Town '' @ [CHR 0x07])" "clean_part (Some ([CHR 0x09] @ ''Cape Town '' @ [CHR 0x07])) = Some ''Cape Town''"
    by code_simp+
  from clean_part_safe [OF this] this show ?thesis by blast
qed

section \<open>Custom claims\<close>

text \<open>C40. The custom claims of an access token, as a function: a reserved protocol claim never appears,
  a user's own claim wins over the configured template of the same name, and a template appears with
  the value it resolves to on this user or not at all. The order of the hash maps has no influence.\<close>

theorem custom_claims_meaning:
  assumes "distinct (hm_keys (u_claims u))" "\<And>t. cfg = Some t \<Longrightarrow> distinct (hm_keys t)"
  shows "hm_get (resolve_custom_claims cfg u) k =
    (if is_reserved_claim k then None
     else case hm_get (u_claims u) k of
            Some v \<Rightarrow> Some v
          | None \<Rightarrow> Option.bind cfg (\<lambda>t. Option.bind (hm_get t k) (\<lambda>tpl. resolve_template tpl u)))"
  by (rule hm_get_resolve_custom_claims [OF assms])

theorem custom_claims_meaning_witness:
  "hm_get (resolve_custom_claims (Some [(''mail'', ''{{ user.email | default: none }}''), (''sub'', ''x'')]) ex_user) ''mail'' = Some (JString ''none'')
   \<and> hm_get (resolve_custom_claims (Some [(''mail'', ''{{ user.email | default: none }}''), (''sub'', ''x'')]) ex_user) ''sub'' = None"
proof -
  have m: "resolve_template ''{{ user.email | default: none }}'' ex_user = Some (JString ''none'')" by code_simp
  have r: "\<not> is_reserved_claim ''mail''" "is_reserved_claim ''sub''" by code_simp+
  have "hm_get (resolve_custom_claims (Some [(''mail'', ''{{ user.email | default: none }}''), (''sub'', ''x'')]) ex_user) k =
    (if is_reserved_claim k then None
     else case hm_get (u_claims ex_user) k of
            Some v \<Rightarrow> Some v
          | None \<Rightarrow> Option.bind (hm_get [(''mail'', ''{{ user.email | default: none }}''), (''sub'', ''x'')] k) (\<lambda>tpl. resolve_template tpl ex_user))" for k
    by (subst custom_claims_meaning) (auto simp: hm_keys_def ex_user_def)
  then show ?thesis using m r by (simp add: ex_user_def hm_get_def)
qed

section \<open>Paged listing\<close>

text \<open>C37. Following the cursors lists every user exactly once. A client that asks for page after page
  with any non-zero limit gets, after finitely many pages, the users of the store without omission or
  repetition in strictly descending order of creation time and id; every page is full except the
  last, every cursor the service hands out is accepted back, and nothing is written.\<close>

theorem admin_listing_complete:
  assumes "codec_ok L C" "mock_users_ok (w_users w)" "0 < limit" "user_repo A = mock_user_port L C"
    and "length (mu_users (w_users w)) \<le> n * unat (min limit MAX_ADMIN_PAGE_SIZE)" "0 < n"
  shows "\<exists>us. follow_pages A limit n None w = (Ok us, w) \<and> distinct us
    \<and> set us = {u. \<exists>i. hm_get (mu_users (w_users w)) i = Some u}
    \<and> sorted_wrt (\<lambda>a b. (u_created_at b, u_id b) < (u_created_at a, u_id a)) us"
proof -
  note l = descending_listing [OF assms(2)]
  have "follow_pages A limit n None w = (Ok (drop 0 (user_listing (w_users w))), w)"
    by (rule follow_pages_run [OF assms(1-4)]) (use assms(5,6) l(3) in \<open>simp_all add: resumes_def\<close>)
  moreover have "distinct (user_listing (w_users w))"
    using l(1) by (auto simp: distinct_conv_nth sorted_wrt_iff_nth_less) (metis less_irrefl linorder_neqE_nat)
  ultimately show ?thesis using l(1,2) by (simp add: page_key_def [abs_def])
qed

definition ex_many :: mock_users where
  "ex_many = \<lparr>mu_users = map (\<lambda>(i, t). (i, ex_user\<lparr>u_id := i, u_created_at := t\<rparr>)) [(''usr_a'', 3), (''usr_b'', 7), (''usr_c'', 7)]\<rparr>"

theorem admin_listing_complete_witness:
  "\<exists>us. follow_pages ex_app 2 2 None ((ex_world nanos ex_empty)\<lparr>w_users := ex_many\<rparr>) = (Ok us, (ex_world nanos ex_empty)\<lparr>w_users := ex_many\<rparr>)
     \<and> distinct us \<and> ex_user\<lparr>u_id := ''usr_a'', u_created_at := 3\<rparr> \<in> set us"
proof -
  have i: "user_id_ok ''usr_a''" "user_id_ok ''usr_b''" "user_id_ok ''usr_c''" by code_simp+
  then have ok: "mock_users_ok ex_many"
    by (auto simp: mock_users_ok_def ex_many_def hm_keys_def hm_get_def split: if_splits)
  have "\<exists>us. follow_pages ex_app 2 2 None ((ex_world nanos ex_empty)\<lparr>w_users := ex_many\<rparr>) = (Ok us, (ex_world nanos ex_empty)\<lparr>w_users := ex_many\<rparr>)
     \<and> distinct us \<and> set us = {u. \<exists>i. hm_get (mu_users ex_many) i = Some u}"
    using admin_listing_complete [OF ex_cursor_ok, of "(ex_world nanos ex_empty)\<lparr>w_users := ex_many\<rparr>" 2 ex_app 2] ok
    by (auto simp: MAX_ADMIN_PAGE_SIZE_def ex_many_def)
  moreover have "hm_get (mu_users ex_many) ''usr_a'' = Some (ex_user\<lparr>u_id := ''usr_a'', u_created_at := 3\<rparr>)"
    by (simp add: ex_many_def hm_get_def)
  ultimately show ?thesis by blast
qed

text \<open>The page cursor is lossless: encoding a position with an id never panics and yields a
  non-empty token that decodes to that position; decoding accepts arbitrary input without a panic and
  refuses what is not a cursor as an invalid request.\<close>

theorem cursor_roundtrip:
  assumes "codec_ok L C" "kc_id k \<noteq> []"
  shows "\<exists>s. cursor_encode L C k = Ok s \<and> s \<noteq> [] \<and> cursor_decode L C s = Ok k
    \<and> (\<forall>raw. (\<exists>d. cursor_decode L C raw = Ok d) \<or> (\<exists>r. cursor_decode L C raw = Err (InvalidRequest r)))"
  using cursor_encode_Ok [OF assms] cursor_decode_error_class cursor_decode_no_panic by (metis outcome.exhaust)

theorem cursor_roundtrip_witness:
  "\<exists>s. cursor_encode ex_lib ex_cursor \<lparr>kc_created_at = 7, kc_id = ''usr_1''\<rparr> = Ok s
     \<and> cursor_decode ex_lib ex_cursor s = Ok \<lparr>kc_created_at = 7, kc_id = ''usr_1''\<rparr>"
  using cursor_roundtrip [OF ex_cursor_ok, of "\<lparr>kc_created_at = 7, kc_id = ''usr_1''\<rparr>"] by auto

end
