(* ===== verification/Results.thy ===== *)
theory Results
  imports Prelude
begin

text \<open>
  Fallible pure code: the \<open>?\<close> operator on a \<open>Result\<close> outside any state, \<open>Option::transpose\<close> and
  \<open>Iterator::collect\<close> into a \<open>Result\<close>, with the rules that read a successful run backwards.
\<close>

definition tryq :: "('e, 'a) outcome \<Rightarrow> ('a \<Rightarrow> ('e, 'b) outcome) \<Rightarrow> ('e, 'b) outcome" where
  "tryq r f = (case r of Ok x \<Rightarrow> f x | Err e \<Rightarrow> Err e | Panic p \<Rightarrow> Panic p)"

definition guard_that :: "bool \<Rightarrow> 'e \<Rightarrow> ('e, unit) outcome" where
  "guard_that b e = (if b then Ok () else Err e)"

definition try_option :: "('a \<Rightarrow> ('e, 'b) outcome) \<Rightarrow> 'a option \<Rightarrow> ('e, 'b option) outcome" where
  "try_option f x = (case x of None \<Rightarrow> Ok None | Some a \<Rightarrow> map_outcome Some (f a))"

primrec collect_all :: "('a \<Rightarrow> ('e, 'b) outcome) \<Rightarrow> 'a list \<Rightarrow> ('e, 'b list) outcome" where
  "collect_all f [] = Ok []"
| "collect_all f (x # xs) = tryq (f x) (\<lambda>y. tryq (collect_all f xs) (\<lambda>ys. Ok (y # ys)))"

lemma tryq_cong [fundef_cong]: "r = r' \<Longrightarrow> (\<And>x. r' = Ok x \<Longrightarrow> f x = g x) \<Longrightarrow> tryq r f = tryq r' g"
  by (cases r') (auto simp: tryq_def)

section \<open>Rules\<close>

lemma tryq_simps [simp]: "tryq (Ok x) f = f x" "tryq (Err e) f = Err e" "tryq (Panic p) f = Panic p"
  by (simp_all add: tryq_def)

lemma tryq_Ok: "tryq r f = Ok y \<longleftrightarrow> (\<exists>x. r = Ok x \<and> f x = Ok y)"
  by (cases r) auto

lemma tryq_okE: "tryq r f = Ok y \<Longrightarrow> (\<And>x. r = Ok x \<Longrightarrow> f x = Ok y \<Longrightarrow> thesis) \<Longrightarrow> thesis"
  by (auto simp: tryq_Ok)

lemma guard_Ok [simp]: "guard_that b e = Ok u \<longleftrightarrow> b"
  by (cases u) (simp add: guard_that_def)

lemma guard_okE: "guard_that b e = Ok u \<Longrightarrow> (b \<Longrightarrow> thesis) \<Longrightarrow> thesis"
  by simp

lemma map_outcome_Ok: "map_outcome f r = Ok y \<longleftrightarrow> (\<exists>x. r = Ok x \<and> y = f x)"
  by (cases r) auto

lemma try_option_Ok:
  "try_option f x = Ok y \<longleftrightarrow> (x = None \<and> y = None \<or> (\<exists>a b. x = Some a \<and> f a = Ok b \<and> y = Some b))"
  by (auto simp: try_option_def map_outcome_Ok split: option.splits)

lemma collect_all_Ok: "collect_all f xs = Ok ys \<longleftrightarrow> list_all2 (\<lambda>x y. f x = Ok y) xs ys"
proof (induction xs arbitrary: ys)
  case (Cons x xs)
  then show ?case by (cases ys) (auto simp: tryq_Ok)
qed auto

text \<open>A total reading: which errors a computation can end in, and that it never panics.\<close>

definition only_fails :: "('e \<Rightarrow> bool) \<Rightarrow> ('e, 'a) outcome \<Rightarrow> bool" where
  "only_fails E r \<longleftrightarrow> (case r of Ok _ \<Rightarrow> True | Err e \<Rightarrow> E e | Panic _ \<Rightarrow> False)"

named_theorems fails_rules \<open>introduction rules for only_fails\<close>

lemma only_fails_basic [fails_rules]:
  "only_fails E (Ok x)" "E e \<Longrightarrow> only_fails E (Err e)" "E e \<Longrightarrow> only_fails E (guard_that b e)"
  by (simp_all add: only_fails_def guard_that_def)

lemma only_fails_tryq [fails_rules]: "only_fails E r \<Longrightarrow> (\<And>x. only_fails E (f x)) \<Longrightarrow> only_fails E (tryq r f)"
  by (cases r) (auto simp: only_fails_def)

lemma only_fails_if [fails_rules]: "only_fails E a \<Longrightarrow> only_fails E b \<Longrightarrow> only_fails E (if c then a else b)"
  by simp

lemma only_fails_map [fails_rules]: "only_fails E r \<Longrightarrow> only_fails E (map_outcome f r)"
  by (cases r) (auto simp: only_fails_def)

lemma only_fails_option [fails_rules]: "(\<And>a. x = Some a \<Longrightarrow> only_fails E (f a)) \<Longrightarrow> only_fails E (try_option f x)"
  by (auto simp: try_option_def only_fails_basic intro: only_fails_map split: option.split)

lemma only_fails_collect [fails_rules]: "(\<And>a. a \<in> set xs \<Longrightarrow> only_fails E (f a)) \<Longrightarrow> only_fails E (collect_all f xs)"
  by (induction xs) (auto intro!: fails_rules)

lemma only_failsD: "only_fails E r \<Longrightarrow> (\<exists>x. r = Ok x) \<or> (\<exists>e. r = Err e \<and> E e)"
  by (cases r) (auto simp: only_fails_def)

end
