(* ===== verification/Config_Values.thy ===== *)
theory Config_Values
  imports Results Durations Service
begin

text \<open>
  The scalars of the configuration (\<open>crates/core/src/config.rs\<close>): its closed string domains, its
  validated strings and its durations, each with the parser that admits a configured string and
  names the field in its error.
\<close>

section \<open>Closed domains\<close>

datatype server_role = Role_All | Role_Exchange | Role_Admin

datatype signing_algorithm = EdDSA | RS256 | RS384 | RS512 | PS256 | PS384 | PS512 | ES256 | ES384 | ES512

datatype audit_adapter = AA_Noop | AA_Stdout | AA_Stderr | AA_Auto | AA_Sqs

datatype telemetry_exporter = TE_None | TE_Otlp | TE_Stdout | TE_Xray | TE_Prometheus

datatype internal_auth_method = IA_SharedSecret | IA_Oidc | IA_OperatorToken | IA_Mtls

datatype provider_adapter = PA_Oidc | PA_Local | PA_Kms | PA_Sqlite | PA_Dynamodb | PA_Postgres | PA_Valkey | PA_Lmdb | PA_Webhook

datatype identity_provider_adapter = IPA_Oidc | IPA_Apple

datatype rate_limit_store = RLS_InProcess | RLS_None

fun server_role_str :: "server_role \<Rightarrow> string" where
  "server_role_str Role_All = ''all''"
| "server_role_str Role_Exchange = ''exchange''"
| "server_role_str Role_Admin = ''admin''"

fun registration_mode_str :: "registration_mode \<Rightarrow> string" where
  "registration_mode_str Open = ''open''"
| "registration_mode_str ExistingUsersOnly = ''existing_users_only''"

fun signing_algorithm_str :: "signing_algorithm \<Rightarrow> string" where
  "signing_algorithm_str EdDSA = ''EdDSA''"
| "signing_algorithm_str RS256 = ''RS256''"
| "signing_algorithm_str RS384 = ''RS384''"
| "signing_algorithm_str RS512 = ''RS512''"
| "signing_algorithm_str PS256 = ''PS256''"
| "signing_algorithm_str PS384 = ''PS384''"
| "signing_algorithm_str PS512 = ''PS512''"
| "signing_algorithm_str ES256 = ''ES256''"
| "signing_algorithm_str ES384 = ''ES384''"
| "signing_algorithm_str ES512 = ''ES512''"

fun audit_adapter_str :: "audit_adapter \<Rightarrow> string" where
  "audit_adapter_str AA_Noop = ''noop''"
| "audit_adapter_str AA_Stdout = ''stdout''"
| "audit_adapter_str AA_Stderr = ''stderr''"
| "audit_adapter_str AA_Auto = ''auto''"
| "audit_adapter_str AA_Sqs = ''sqs''"

fun telemetry_exporter_str :: "telemetry_exporter \<Rightarrow> string" where
  "telemetry_exporter_str TE_None = ''none''"
| "telemetry_exporter_str TE_Otlp = ''otlp''"
| "telemetry_exporter_str TE_Stdout = ''stdout''"
| "telemetry_exporter_str TE_Xray = ''xray''"
| "telemetry_exporter_str TE_Prometheus = ''prometheus''"

fun internal_auth_method_str :: "internal_auth_method \<Rightarrow> string" where
  "internal_auth_method_str IA_SharedSecret = ''shared_secret''"
| "internal_auth_method_str IA_Oidc = ''oidc''"
| "internal_auth_method_str IA_OperatorToken = ''operator_token''"
| "internal_auth_method_str IA_Mtls = ''mtls''"

fun provider_adapter_str :: "provider_adapter \<Rightarrow> string" where
  "provider_adapter_str PA_Oidc = ''oidc''"
| "provider_adapter_str PA_Local = ''local''"
| "provider_adapter_str PA_Kms = ''kms''"
| "provider_adapter_str PA_Sqlite = ''sqlite''"
| "provider_adapter_str PA_Dynamodb = ''dynamodb''"
| "provider_adapter_str PA_Postgres = ''postgres''"
| "provider_adapter_str PA_Valkey = ''valkey''"
| "provider_adapter_str PA_Lmdb = ''lmdb''"
| "provider_adapter_str PA_Webhook = ''webhook''"

fun identity_provider_adapter_str :: "identity_provider_adapter \<Rightarrow> string" where
  "identity_provider_adapter_str IPA_Oidc = ''oidc''"
| "identity_provider_adapter_str IPA_Apple = ''apple''"

text \<open>The parsers: a \<open>match\<close> on the exact string.\<close>

definition config_error :: "string \<Rightarrow> (error, 'a) outcome" where
  "config_error detail = Err (ConfigError detail)"

definition parse_server_role :: "'x lib_scheme \<Rightarrow> string \<Rightarrow> string \<Rightarrow> server_role result" where
  "parse_server_role L field value =
     (if value = ''all'' then Ok Role_All else if value = ''exchange'' then Ok Role_Exchange
      else if value = ''admin'' then Ok Role_Admin
      else config_error (field @ '': invalid server role '' @ debug_str L value))"

definition parse_registration_mode :: "'x lib_scheme \<Rightarrow> string \<Rightarrow> string \<Rightarrow> registration_mode result" where
  "parse_registration_mode L field value =
     (if value = ''open'' then Ok Open else if value = ''existing_users_only'' then Ok ExistingUsersOnly
      else config_error (field @ '': invalid registration mode '' @ debug_str L value))"

definition parse_local_algorithm :: "'x lib_scheme \<Rightarrow> string \<Rightarrow> string \<Rightarrow> signing_algorithm result" where
  "parse_local_algorithm L field value =
     (if value = ''EdDSA'' then Ok EdDSA
      else config_error (field @ '': local Ed25519 keys require signing algorithm \"EdDSA\", got '' @ debug_str L value))"

definition parse_kms_algorithm :: "'x lib_scheme \<Rightarrow> string \<Rightarrow> string \<Rightarrow> signing_algorithm result" where
  "parse_kms_algorithm L field value =
     (if value = ''RS256'' then Ok RS256 else if value = ''RS384'' then Ok RS384 else if value = ''RS512'' then Ok RS512
      else if value = ''PS256'' then Ok PS256 else if value = ''PS384'' then Ok PS384 else if value = ''PS512'' then Ok PS512
      else if value = ''ES256'' then Ok ES256 else if value = ''ES384'' then Ok ES384 else if value = ''ES512'' then Ok ES512
      else config_error (field @ '': invalid KMS JWS signing algorithm '' @ debug_str L value
        @ ''; expected RS256, RS384, RS512, PS256, PS384, PS512, ES256, ES384, or ES512''))"

definition parse_audit_adapter :: "'x lib_scheme \<Rightarrow> string \<Rightarrow> string \<Rightarrow> audit_adapter result" where
  "parse_audit_adapter L field value =
     (if value = ''noop'' then Ok AA_Noop else if value = ''stdout'' then Ok AA_Stdout else if value = ''stderr'' then Ok AA_Stderr
      else if value = ''auto'' then Ok AA_Auto else if value = ''sqs'' then Ok AA_Sqs
      else config_error (field @ '': invalid audit adapter '' @ debug_str L value))"

definition parse_telemetry_exporter :: "'x lib_scheme \<Rightarrow> string \<Rightarrow> string \<Rightarrow> telemetry_exporter result" where
  "parse_telemetry_exporter L field value =
     (if value = ''none'' then Ok TE_None else if value = ''otlp'' then Ok TE_Otlp else if value = ''stdout'' then Ok TE_Stdout
      else if value = ''xray'' then Ok TE_Xray else if value = ''prometheus'' then Ok TE_Prometheus
      else config_error (field @ '': invalid telemetry exporter '' @ debug_str L value))"

definition parse_internal_auth_method :: "'x lib_scheme \<Rightarrow> string \<Rightarrow> string \<Rightarrow> internal_auth_method result" where
  "parse_internal_auth_method L field value =
     (if value = ''shared_secret'' then Ok IA_SharedSecret else if value = ''oidc'' then Ok IA_Oidc
      else if value = ''operator_token'' then Ok IA_OperatorToken else if value = ''mtls'' then Ok IA_Mtls
      else config_error (field @ '': invalid internal auth method '' @ debug_str L value))"

definition parse_provider_adapter :: "'x lib_scheme \<Rightarrow> string \<Rightarrow> string \<Rightarrow> provider_adapter result" where
  "parse_provider_adapter L field value =
     (if value = ''oidc'' then Ok PA_Oidc else if value = ''local'' then Ok PA_Local else if value = ''kms'' then Ok PA_Kms
      else if value = ''sqlite'' then Ok PA_Sqlite else if value = ''dynamodb'' then Ok PA_Dynamodb
      else if value = ''postgres'' then Ok PA_Postgres else if value = ''valkey'' then Ok PA_Valkey
      else if value = ''lmdb'' then Ok PA_Lmdb else if value = ''webhook'' then Ok PA_Webhook
      else config_error (field @ '': invalid provider adapter '' @ debug_str L value))"

definition parse_identity_provider_adapter :: "'x lib_scheme \<Rightarrow> string \<Rightarrow> string \<Rightarrow> identity_provider_adapter result" where
  "parse_identity_provider_adapter L field value =
     (if value = ''oidc'' then Ok IPA_Oidc else if value = ''apple'' then Ok IPA_Apple
      else config_error (field @ '': invalid provider adapter '' @ debug_str L value))"

definition parse_audit_durability :: "'x lib_scheme \<Rightarrow> string \<Rightarrow> string \<Rightarrow> audit_durability result" where
  "parse_audit_durability L field value =
     (if value = ''observe'' then Ok Observe else if value = ''enforce'' then Ok Enforce
      else config_error (field @ '' '' @ debug_str L value @ '' must be \"observe\" or \"enforce\"''))"

definition parse_rate_limit_store :: "'x lib_scheme \<Rightarrow> string \<Rightarrow> string \<Rightarrow> rate_limit_store result" where
  "parse_rate_limit_store L field value =
     (if value = ''in_process'' then Ok RLS_InProcess else if value = ''none'' then Ok RLS_None
      else config_error (field @ '' '' @ debug_str L value @ '' must be \"in_process\" or \"none\"''))"

definition parse_audit_severity_field :: "'x lib_scheme \<Rightarrow> string \<Rightarrow> string \<Rightarrow> audit_severity result" where
  "parse_audit_severity_field L field value = (case parse_severity L value of
       Some s \<Rightarrow> Ok s | None \<Rightarrow> config_error (field @ '': invalid audit severity '' @ debug_str L value))"

section \<open>Validated strings\<close>

definition parse_https_url :: "'x lib_scheme \<Rightarrow> string \<Rightarrow> string \<Rightarrow> string result" where
  "parse_https_url L field value = (let trimmed = trim value in
     if starts_with trimmed ''https://'' \<and> length trimmed > length ''https://'' then Ok trimmed
     else config_error (field @ '': expected non-empty HTTPS URL, got '' @ debug_str L value))"

definition parse_domain_pattern :: "'x lib_scheme \<Rightarrow> string \<Rightarrow> string \<Rightarrow> string result" where
  "parse_domain_pattern L field value =
     (let trimmed = trim value; candidate = (case strip_prefix ''*.'' trimmed of Some r \<Rightarrow> r | None \<Rightarrow> trimmed) in
      if trimmed \<noteq> [] \<and> is_ascii trimmed \<and> CHR ''.'' \<in> set candidate \<and> CHR ''/'' \<notin> set trimmed then Ok trimmed
      else config_error (field @ '': invalid allowlist entry '' @ debug_str L value))"

definition parse_non_empty :: "string \<Rightarrow> string \<Rightarrow> string result" where
  "parse_non_empty field value = (if trim value = [] then config_error (field @ '': must be non-empty'') else Ok value)"

section \<open>Durations\<close>

text \<open>A \<open>std::time::Duration\<close> made by \<open>from_secs\<close> is its number of seconds.\<close>

definition parse_duration_field :: "'x lib_scheme \<Rightarrow> string \<Rightarrow> string \<Rightarrow> u64 result" where
  "parse_duration_field L field value = (case parse_duration_secs L value of
       Ok secs \<Rightarrow> Ok secs
     | Err e \<Rightarrow> (case e of ConfigError detail \<Rightarrow> config_error (field @ '': '' @ detail) | other \<Rightarrow> Err other)
     | Panic p \<Rightarrow> Panic p)"

definition parse_positive_duration_field :: "'x lib_scheme \<Rightarrow> string \<Rightarrow> string \<Rightarrow> u64 result" where
  "parse_positive_duration_field L field value = tryq (parse_duration_field L field value) (\<lambda>duration.
     if duration = 0 then config_error (field @ '': '' @ debug_str L value @ '' must be greater than zero'') else Ok duration)"

definition parse_positive_duration_field_capped :: "'x lib_scheme \<Rightarrow> string \<Rightarrow> string \<Rightarrow> u64 \<Rightarrow> u64 result" where
  "parse_positive_duration_field_capped L field value max_secs = tryq (parse_positive_duration_field L field value) (\<lambda>duration.
     if duration > max_secs then config_error (field @ '': '' @ debug_str L value @ '' exceeds the maximum of '' @ show_nat (unat max_secs) @ ''s'')
     else Ok duration)"

end
