(* ===== verification/Config_Raw.thy ===== *)
theory Config_Raw
  imports Config_Values
begin

text \<open>
  The two shapes of the configuration (\<open>crates/core/src/config.rs\<close>): the serde mirror of the TOML
  file, with its defaults, and the resolved sections. A \<open>toml::Value\<close> and an \<open>ipnet::IpNet\<close> are
  type parameters, an \<open>f64\<close> its bits, a \<open>usize\<close> 64 bits wide.
\<close>

type_synonym usize = u64
type_synonym u16 = "16 word"
type_synonym f64 = "64 word"

section \<open>Defaults\<close>

definition DEFAULT_MAX_REQUEST_BODY_BYTES :: usize where "DEFAULT_MAX_REQUEST_BODY_BYTES = 2 * 1024 * 1024"
definition DEFAULT_TRUSTED_PROXY_HOPS :: usize where "DEFAULT_TRUSTED_PROXY_HOPS = 1"
definition MAX_TRUSTED_PROXY_HOPS :: usize where "MAX_TRUSTED_PROXY_HOPS = 16"
definition DEFAULT_REFRESH_ROTATION_GRACE :: string where "DEFAULT_REFRESH_ROTATION_GRACE = ''10s''"
definition DEFAULT_REFRESH_REUSE_RETENTION :: string where "DEFAULT_REFRESH_REUSE_RETENTION = ''24h''"
definition DEFAULT_GRANTS_ID_TOKEN :: bool where "DEFAULT_GRANTS_ID_TOKEN = False"
definition DEFAULT_NONCE_TTL :: string where "DEFAULT_NONCE_TTL = ''10m''"
definition DEFAULT_MAX_ASSERTION_LIFETIME :: string where "DEFAULT_MAX_ASSERTION_LIFETIME = ''1h''"
definition default_unconfigured_adapter :: string where "default_unconfigured_adapter = ''oidc''"
definition DEFAULT_SESSION_CLEANUP_INTERVAL :: string where "DEFAULT_SESSION_CLEANUP_INTERVAL = ''1h''"
definition DEFAULT_RATE_LIMIT_MAX_ENTRIES :: usize where "DEFAULT_RATE_LIMIT_MAX_ENTRIES = 10000"
definition MIN_RATE_LIMIT_MAX_ENTRIES :: usize where "MIN_RATE_LIMIT_MAX_ENTRIES = 1"
definition MAX_RATE_LIMIT_MAX_ENTRIES :: usize where "MAX_RATE_LIMIT_MAX_ENTRIES = 100000"
definition MIN_RATE_LIMIT_WINDOW_SECS :: u64 where "MIN_RATE_LIMIT_WINDOW_SECS = 1"
definition MAX_RATE_LIMIT_WINDOW_SECS :: u64 where "MAX_RATE_LIMIT_WINDOW_SECS = 24 * 60 * 60"
definition MIN_RATE_LIMIT_MAX_CONCURRENT_REQUESTS :: usize where "MIN_RATE_LIMIT_MAX_CONCURRENT_REQUESTS = 1"
definition MAX_RATE_LIMIT_MAX_CONCURRENT_REQUESTS :: usize where "MAX_RATE_LIMIT_MAX_CONCURRENT_REQUESTS = 4096"
definition MAX_RATE_LIMIT_BUDGET :: u64 where "MAX_RATE_LIMIT_BUDGET = 1000000"
definition DEFAULT_INTERNAL_API_HOST :: string where "DEFAULT_INTERNAL_API_HOST = ''127.0.0.1''"
definition DEFAULT_INTERNAL_API_PORT :: u16 where "DEFAULT_INTERNAL_API_PORT = 8081"
definition WILDCARD_LISTENER_HOSTS :: "string list" where "WILDCARD_LISTENER_HOSTS = [''0.0.0.0'', ''::'', ''[::]'']"
definition MIN_SHARED_SECRET_BYTES :: nat where "MIN_SHARED_SECRET_BYTES = 32"
definition DEFAULT_TOKEN_AUDIENCE :: string where "DEFAULT_TOKEN_AUDIENCE = ''internal''"
definition DEFAULT_REQUIRED_CLAIM :: string where "DEFAULT_REQUIRED_CLAIM = ''role''"
definition DEFAULT_REQUIRED_VALUE :: string where "DEFAULT_REQUIRED_VALUE = ''admin''"
definition DEFAULT_MTLS_SUBJECT_HEADER :: string where "DEFAULT_MTLS_SUBJECT_HEADER = ''x-client-cert-subject''"
definition DEFAULT_MAX_AUTH_FAILURES :: u64 where "DEFAULT_MAX_AUTH_FAILURES = 5"
definition DEFAULT_AUTH_FAILURE_WINDOW :: string where "DEFAULT_AUTH_FAILURE_WINDOW = ''1m''"
definition DEFAULT_AUTH_LOCKOUT :: string where "DEFAULT_AUTH_LOCKOUT = ''5m''"
definition DEFAULT_STATS_CACHE_TTL :: string where "DEFAULT_STATS_CACHE_TTL = ''60s''"
definition MIN_STATS_CACHE_TTL_SECS :: u64 where "MIN_STATS_CACHE_TTL_SECS = 1"
definition MAX_STATS_CACHE_TTL_SECS :: u64 where "MAX_STATS_CACHE_TTL_SECS = 3600"
definition MAX_WEBHOOK_RETRIES :: u32 where "MAX_WEBHOOK_RETRIES = 10"
definition DEFAULT_WEBHOOK_RETRIES :: u32 where "DEFAULT_WEBHOOK_RETRIES = 2"

section \<open>The file\<close>

record raw_server =
  rsv_host :: string
  rsv_port :: u16
  rsv_issuer :: string
  rsv_role :: string
  rsv_request_timeout :: string
  rsv_max_request_body_bytes :: usize
  rsv_base_path :: "string option"
  rsv_trusted_proxies :: "string list"
  rsv_trusted_proxy_hops :: usize

definition raw_server_default :: raw_server where
  "raw_server_default = \<lparr>rsv_host = [], rsv_port = 0, rsv_issuer = [], rsv_role = [], rsv_request_timeout = [],
     rsv_max_request_body_bytes = DEFAULT_MAX_REQUEST_BODY_BYTES, rsv_base_path = None, rsv_trusted_proxies = [],
     rsv_trusted_proxy_hops = DEFAULT_TRUSTED_PROXY_HOPS\<rparr>"

record raw_session_location =
  rlo_city_header :: string
  rlo_region_header :: string
  rlo_country_header :: string
  rlo_ip_header :: string
  rlo_trust_headers_from_any_peer :: bool

record raw_session =
  rse_location :: raw_session_location

record raw_registration =
  rrg_mode :: string
  rrg_domain_allowlist :: "string list option"

record raw_token =
  rtk_access_token_ttl :: string
  rtk_refresh_token_ttl :: string
  rtk_audience :: string
  rtk_custom_claims :: "string hashmap option"
  rtk_refresh_rotation :: bool
  rtk_refresh_rotation_grace :: string
  rtk_refresh_reuse_retention :: string

definition raw_token_default :: raw_token where
  "raw_token_default = \<lparr>rtk_access_token_ttl = [], rtk_refresh_token_ttl = [], rtk_audience = [], rtk_custom_claims = None,
     rtk_refresh_rotation = True, rtk_refresh_rotation_grace = DEFAULT_REFRESH_ROTATION_GRACE,
     rtk_refresh_reuse_retention = DEFAULT_REFRESH_REUSE_RETENTION\<rparr>"

record raw_grants =
  rgr_id_token :: bool
  rgr_nonce_ttl :: string
  rgr_max_assertion_lifetime :: string

definition raw_grants_default :: raw_grants where
  "raw_grants_default = \<lparr>rgr_id_token = DEFAULT_GRANTS_ID_TOKEN, rgr_nonce_ttl = DEFAULT_NONCE_TTL,
     rgr_max_assertion_lifetime = DEFAULT_MAX_ASSERTION_LIFETIME\<rparr>"

record raw_sqs_audit =
  rsq_queue_url :: string
  rsq_region :: "string option"

record raw_audit =
  rau_adapter :: string
  rau_blocking_threshold :: string
  rau_emit_threshold :: string
  rau_durability :: string
  rau_sqs :: "raw_sqs_audit option"

definition raw_audit_default :: raw_audit where
  "raw_audit_default = \<lparr>rau_adapter = [], rau_blocking_threshold = [], rau_emit_threshold = [], rau_durability = ''observe'', rau_sqs = None\<rparr>"

record raw_kms =
  rkm_key_id :: string
  rkm_algorithm :: string
  rkm_kid :: string

record raw_local_key =
  rlk_private_key_path :: string
  rlk_algorithm :: string
  rlk_kid :: string

record raw_key_manager =
  rke_adapter :: string
  rke_kms :: "raw_kms option"
  rke_local :: "raw_local_key option"

definition raw_key_manager_default :: raw_key_manager where
  "raw_key_manager_default = \<lparr>rke_adapter = default_unconfigured_adapter, rke_kms = None, rke_local = None\<rparr>"

record raw_dynamo =
  rdy_table_name :: string
  rdy_region :: "string option"

record raw_postgres =
  rpg_url :: string
  rpg_max_connections :: "u32 option"
  rpg_run_migrations :: "bool option"

record raw_sqlite =
  rsl_path :: string

record raw_valkey =
  rva_url :: string
  rva_key_prefix :: "string option"

record raw_lmdb =
  rlm_path :: string
  rlm_max_size_mb :: "u64 option"

record raw_repository =
  rre_adapter :: string
  rre_dynamodb :: "raw_dynamo option"
  rre_postgres :: "raw_postgres option"
  rre_sqlite :: "raw_sqlite option"

definition raw_repository_default :: raw_repository where
  "raw_repository_default = \<lparr>rre_adapter = default_unconfigured_adapter, rre_dynamodb = None, rre_postgres = None, rre_sqlite = None\<rparr>"

record raw_session_repository =
  rsr_adapter :: "string option"
  rsr_valkey :: "raw_valkey option"
  rsr_lmdb :: "raw_lmdb option"
  rsr_cleanup_interval :: string

definition raw_session_repository_default :: raw_session_repository where
  "raw_session_repository_default = \<lparr>rsr_adapter = None, rsr_valkey = None, rsr_lmdb = None,
     rsr_cleanup_interval = DEFAULT_SESSION_CLEANUP_INTERVAL\<rparr>"

record raw_rate_limit =
  rrl_enabled :: bool
  rrl_store :: string
  rrl_window :: string
  rrl_per_ip :: u64
  rrl_per_ip_failures :: u64
  rrl_per_subject :: u64
  rrl_per_provider :: u64
  rrl_max_concurrent_requests :: usize
  rrl_max_entries :: usize

definition raw_rate_limit_default :: raw_rate_limit where
  "raw_rate_limit_default = \<lparr>rrl_enabled = True, rrl_store = ''in_process'', rrl_window = ''1m'', rrl_per_ip = 60,
     rrl_per_ip_failures = 10, rrl_per_subject = 10, rrl_per_provider = 600, rrl_max_concurrent_requests = 256,
     rrl_max_entries = DEFAULT_RATE_LIMIT_MAX_ENTRIES\<rparr>"

record raw_webhook =
  rwh_url :: string
  rwh_secret :: string
  rwh_timeout :: "string option"
  rwh_retries :: "u32 option"

record raw_user_sync =
  rus_enabled :: bool
  rus_adapter :: "string option"
  rus_webhook :: "raw_webhook option"

record raw_telemetry =
  rte_enabled :: bool
  rte_exporter :: string
  rte_endpoint :: "string option"
  rte_service_name :: "string option"
  rte_sample_rate :: "f64 option"
  rte_protocol :: "string option"

record mtls_config =
  mtls_subject_header :: string

definition mtls_config_default :: mtls_config where
  "mtls_config_default = \<lparr>mtls_subject_header = DEFAULT_MTLS_SUBJECT_HEADER\<rparr>"

record raw_internal_api =
  ria_enabled :: bool
  ria_host :: string
  ria_port :: u16
  ria_auth_methods :: "string list"
  ria_shared_secret :: "string option"
  ria_token_audience :: string
  ria_required_claim :: string
  ria_required_value :: string
  ria_mtls :: "mtls_config option"
  ria_max_auth_failures :: u64
  ria_auth_failure_window :: string
  ria_auth_lockout :: string
  ria_stats_cache_ttl :: string

definition raw_internal_api_default :: raw_internal_api where
  "raw_internal_api_default = \<lparr>ria_enabled = False, ria_host = DEFAULT_INTERNAL_API_HOST, ria_port = DEFAULT_INTERNAL_API_PORT,
     ria_auth_methods = [], ria_shared_secret = None, ria_token_audience = DEFAULT_TOKEN_AUDIENCE,
     ria_required_claim = DEFAULT_REQUIRED_CLAIM, ria_required_value = DEFAULT_REQUIRED_VALUE, ria_mtls = None,
     ria_max_auth_failures = DEFAULT_MAX_AUTH_FAILURES, ria_auth_failure_window = DEFAULT_AUTH_FAILURE_WINDOW,
     ria_auth_lockout = DEFAULT_AUTH_LOCKOUT, ria_stats_cache_ttl = DEFAULT_STATS_CACHE_TTL\<rparr>"

record 't raw_provider =
  rpr_adapter :: string
  rpr_extra :: "'t hashmap"

record 't raw_config =
  rc_server :: raw_server
  rc_registration :: raw_registration
  rc_session :: raw_session
  rc_token :: raw_token
  rc_grants :: raw_grants
  rc_audit :: raw_audit
  rc_key_manager :: raw_key_manager
  rc_repository :: raw_repository
  rc_session_repository :: raw_session_repository
  rc_rate_limit :: raw_rate_limit
  rc_user_sync :: raw_user_sync
  rc_telemetry :: raw_telemetry
  rc_internal_api :: raw_internal_api
  rc_providers :: "'t raw_provider hashmap"

section \<open>The resolved sections\<close>

record 'n server_config =
  srv_host :: string
  srv_port :: u16
  srv_issuer :: string
  srv_role :: server_role
  srv_request_timeout :: u64
  srv_max_request_body_bytes :: usize
  srv_base_path :: "string option"
  srv_trusted_proxies :: "'n list"
  srv_trusted_proxy_hops :: usize

record session_location_config =
  slo_city_header :: "string option"
  slo_region_header :: "string option"
  slo_country_header :: "string option"
  slo_ip_header :: "string option"
  slo_trust_headers_from_any_peer :: bool

record session_config =
  ses_location :: session_location_config

record registration_config =
  reg_mode :: registration_mode
  reg_domain_allowlist :: "string list option"

record token_config =
  tok_access_token_ttl :: u64
  tok_refresh_token_ttl :: u64
  tok_audience :: string
  tok_custom_claims :: "string hashmap option"
  tok_refresh_rotation :: bool
  tok_refresh_rotation_grace :: u64
  tok_refresh_reuse_retention :: u64

record grants_config =
  gra_id_token :: bool
  gra_nonce_ttl :: u64
  gra_max_assertion_lifetime :: u64

record sqs_audit_config =
  sqs_queue_url :: string
  sqs_region :: "string option"

record audit_config =
  aud_adapter :: audit_adapter
  aud_blocking_threshold :: audit_severity
  aud_emit_threshold :: audit_severity
  aud_durability :: audit_durability
  aud_sqs :: "sqs_audit_config option"

record kms_config =
  kms_key_id :: string
  kms_algorithm :: signing_algorithm
  kms_kid :: string

record local_key_config =
  lkc_private_key_path :: string
  lkc_algorithm :: signing_algorithm
  lkc_kid :: string

record key_manager_config =
  kmc_adapter :: provider_adapter
  kmc_kms :: "kms_config option"
  kmc_local :: "local_key_config option"

record dynamo_config =
  dyn_table_name :: string
  dyn_region :: "string option"

record postgres_config =
  pgc_url :: string
  pgc_max_connections :: "u32 option"
  pgc_run_migrations :: "bool option"

record sqlite_config =
  sql_path :: string

record valkey_config =
  vak_url :: string
  vak_key_prefix :: "string option"

record lmdb_config =
  lmc_path :: string
  lmc_max_size_mb :: "u64 option"

record repository_config =
  rep_adapter :: provider_adapter
  rep_dynamodb :: "dynamo_config option"
  rep_postgres :: "postgres_config option"
  rep_sqlite :: "sqlite_config option"

record session_repository_config =
  srp_adapter :: "provider_adapter option"
  srp_valkey :: "valkey_config option"
  srp_lmdb :: "lmdb_config option"
  srp_cleanup_interval :: u64

record rate_limit_config =
  rlc_enabled :: bool
  rlc_store :: rate_limit_store
  rlc_window :: u64
  rlc_per_ip :: u64
  rlc_per_ip_failures :: u64
  rlc_per_subject :: u64
  rlc_per_provider :: u64
  rlc_max_concurrent_requests :: usize
  rlc_max_entries :: usize

record webhook_config =
  whc_url :: string
  whc_secret :: string
  whc_timeout :: "u64 option"
  whc_retries :: "u32 option"

record user_sync_config =
  usc_enabled :: bool
  usc_adapter :: "provider_adapter option"
  usc_webhook :: "webhook_config option"

record telemetry_config =
  tel_enabled :: bool
  tel_exporter :: telemetry_exporter
  tel_endpoint :: "string option"
  tel_service_name :: "string option"
  tel_sample_rate :: "f64 option"
  tel_protocol :: "string option"

record internal_api_config =
  iac_enabled :: bool
  iac_host :: string
  iac_port :: u16
  iac_auth_methods :: "internal_auth_method list"
  iac_shared_secret :: "string option"
  iac_token_audience :: string
  iac_required_claim :: string
  iac_required_value :: string
  iac_mtls :: "mtls_config option"
  iac_max_auth_failures :: u64
  iac_auth_failure_window :: u64
  iac_auth_lockout :: u64
  iac_stats_cache_ttl :: u64

record 't provider_config =
  pvc_provider_id :: string
  pvc_adapter :: identity_provider_adapter
  pvc_extra :: "'t hashmap"
  pvc_issuer :: "string option"
  pvc_jwks_uri :: "string option"
  pvc_token_endpoint :: "string option"
  pvc_revocation_endpoint :: "string option"

record ('n, 't) app_config =
  ac_server :: "'n server_config"
  ac_registration :: registration_config
  ac_session :: session_config
  ac_token :: token_config
  ac_grants :: grants_config
  ac_audit :: audit_config
  ac_key_manager :: key_manager_config
  ac_repository :: repository_config
  ac_session_repository :: session_repository_config
  ac_rate_limit :: rate_limit_config
  ac_user_sync :: user_sync_config
  ac_telemetry :: telemetry_config
  ac_internal_api :: internal_api_config
  ac_providers :: "'t provider_config hashmap"

text \<open>The crates the resolution calls beside those of the core: \<open>ipnet\<close>'s parser and \<open>toml\<close>'s \<open>as_str\<close>.\<close>

record ('n, 't) conf_lib = lib +
  parse_ip_net :: "string \<Rightarrow> 'n option"
  toml_as_str :: "'t \<Rightarrow> string option"

end
