(* ===== verification/Config.thy ===== *)
theory Config
  imports Config_Raw
begin

text \<open>
  Resolution of the configuration (\<open>crates/core/src/config.rs\<close>): one function per section, in the
  order of the source, then the rules that span sections. The start-up warnings, which change
  nothing, are left out.
\<close>

section \<open>The sections\<close>

definition normalise_base_path :: "string option \<Rightarrow> string option" where
  "normalise_base_path base_path = (case base_path of
       None \<Rightarrow> None
     | Some p \<Rightarrow>
         let trimmed = (if ends_with p ''/'' then butlast p else p) in
         if trimmed = [] \<or> trimmed = ''/'' then None else Some trimmed)"

definition is_canonical_base_path :: "string \<Rightarrow> bool" where
  "is_canonical_base_path p = (length p > 1 \<and> starts_with p ''/'' \<and> \<not> ends_with p ''/'')"

definition resolve_server :: "('n, 't) conf_lib \<Rightarrow> raw_server \<Rightarrow> 'n server_config result" where
  "resolve_server L raw =
     tryq (parse_https_url L ''server.issuer'' (rsv_issuer raw)) (\<lambda>issuer.
     tryq (if rsv_role raw = [] then Ok Role_Exchange else parse_server_role L ''server.role'' (rsv_role raw)) (\<lambda>role.
     tryq (parse_duration_field L ''server.request_timeout'' (rsv_request_timeout raw)) (\<lambda>request_timeout.
     let base_path = normalise_base_path (rsv_base_path raw) in
     tryq (case base_path of None \<Rightarrow> Ok () | Some p \<Rightarrow> guard_that (is_canonical_base_path p)
             (ConfigError (''server.base_path '' @ debug_str L p @ '' must start with '' @ quote @ ''/'' @ quote
               @ '' and carry at least one non-slash character (\"\" and \"/\" mean unset, a trailing \"/\" is trimmed at load)''))) (\<lambda>_.
     tryq (collect_all (\<lambda>cidr. case parse_ip_net L cidr of Some n \<Rightarrow> Ok n
             | None \<Rightarrow> config_error (''server.trusted_proxies entry '' @ debug_str L cidr @ '' must be a CIDR'')) (rsv_trusted_proxies raw)) (\<lambda>trusted_proxies.
     tryq (guard_that (1 \<le> rsv_trusted_proxy_hops raw \<and> rsv_trusted_proxy_hops raw \<le> MAX_TRUSTED_PROXY_HOPS)
             (ConfigError (''server.trusted_proxy_hops must be between 1 and '' @ show_nat (unat MAX_TRUSTED_PROXY_HOPS)))) (\<lambda>_.
     Ok \<lparr>srv_host = rsv_host raw, srv_port = rsv_port raw, srv_issuer = issuer, srv_role = role,
        srv_request_timeout = request_timeout, srv_max_request_body_bytes = rsv_max_request_body_bytes raw,
        srv_base_path = base_path, srv_trusted_proxies = trusted_proxies,
        srv_trusted_proxy_hops = rsv_trusted_proxy_hops raw\<rparr>))))))"

text \<open>\<open>[session.location]\<close>: names are RFC 9110 tokens, stored in lower case, and distinct.\<close>

definition is_ascii_alphanumeric :: "char \<Rightarrow> bool" where
  "is_ascii_alphanumeric c = (is_ascii_digit c \<or> 65 \<le> byte c \<and> byte c \<le> 90 \<or> 97 \<le> byte c \<and> byte c \<le> 122)"

definition is_token_byte :: "char \<Rightarrow> bool" where
  "is_token_byte c = (is_ascii_alphanumeric c \<or> c \<in> set (''!#$%&'' @ quote @ ''*+-.^_'' @ [CHR 0x60] @ ''|~''))"

definition location_header :: "'x lib_scheme \<Rightarrow> string \<Rightarrow> string \<Rightarrow> string option result" where
  "location_header L field value =
     (if value = [] then Ok None
      else if \<not> list_all is_token_byte value
        then config_error (''session.location.'' @ field @ '' '' @ debug_str L value @ '' is not a valid HTTP header name'')
      else Ok (Some (to_ascii_lowercase value)))"

definition location_enabled :: "session_location_config \<Rightarrow> bool" where
  "location_enabled c = (slo_city_header c \<noteq> None \<or> slo_region_header c \<noteq> None \<or> slo_country_header c \<noteq> None \<or> slo_ip_header c \<noteq> None)"

definition named_headers :: "session_location_config \<Rightarrow> string list" where
  "named_headers c = concat (map (\<lambda>h. case h of None \<Rightarrow> [] | Some n \<Rightarrow> [n])
     [slo_city_header c, slo_region_header c, slo_country_header c, slo_ip_header c])"

text \<open>The first name that occurs among its predecessors.\<close>

definition repeated_header :: "string list \<Rightarrow> string option" where
  "repeated_header named = map_option (\<lambda>i. named ! i) (find (\<lambda>i. named ! i \<in> set (take i named)) [0..<length named])"

definition resolve_session_location :: "'x lib_scheme \<Rightarrow> raw_session_location \<Rightarrow> session_location_config result" where
  "resolve_session_location L raw =
     tryq (location_header L ''city_header'' (rlo_city_header raw)) (\<lambda>city.
     tryq (location_header L ''region_header'' (rlo_region_header raw)) (\<lambda>region.
     tryq (location_header L ''country_header'' (rlo_country_header raw)) (\<lambda>country.
     tryq (location_header L ''ip_header'' (rlo_ip_header raw)) (\<lambda>ip.
     let resolved = \<lparr>slo_city_header = city, slo_region_header = region, slo_country_header = country, slo_ip_header = ip,
           slo_trust_headers_from_any_peer = rlo_trust_headers_from_any_peer raw\<rparr> in
     case repeated_header (named_headers resolved) of
       Some name \<Rightarrow> config_error (''session.location header '' @ debug_str L name @ '' is named more than once; header names must be distinct'')
     | None \<Rightarrow>
         if slo_trust_headers_from_any_peer resolved \<and> \<not> location_enabled resolved
         then config_error ''session.location.trust_headers_from_any_peer = true requires at least one session.location header to be named''
         else Ok resolved))))"

definition resolve_session :: "'x lib_scheme \<Rightarrow> raw_session \<Rightarrow> session_config result" where
  "resolve_session L raw = tryq (resolve_session_location L (rse_location raw)) (\<lambda>l. Ok \<lparr>ses_location = l\<rparr>)"

definition resolve_registration :: "'x lib_scheme \<Rightarrow> raw_registration \<Rightarrow> registration_config result" where
  "resolve_registration L raw =
     tryq (parse_registration_mode L ''registration.mode'' (rrg_mode raw)) (\<lambda>mode.
     tryq (try_option (collect_all (parse_domain_pattern L ''registration.domain_allowlist'')) (rrg_domain_allowlist raw)) (\<lambda>allowlist.
     Ok \<lparr>reg_mode = mode, reg_domain_allowlist = allowlist\<rparr>))"

definition resolve_token :: "'x lib_scheme \<Rightarrow> raw_token \<Rightarrow> token_config result" where
  "resolve_token L raw =
     tryq (parse_duration_field L ''token.access_token_ttl'' (rtk_access_token_ttl raw)) (\<lambda>access_token_ttl.
     tryq (parse_duration_field L ''token.refresh_token_ttl'' (rtk_refresh_token_ttl raw)) (\<lambda>refresh_token_ttl.
     tryq (parse_non_empty ''token.audience'' (rtk_audience raw)) (\<lambda>audience.
     tryq (parse_positive_duration_field_capped L ''token.refresh_rotation_grace'' (rtk_refresh_rotation_grace raw) MAX_REFRESH_ROTATION_GRACE_SECS) (\<lambda>grace.
     tryq (parse_positive_duration_field L ''token.refresh_reuse_retention'' (rtk_refresh_reuse_retention raw)) (\<lambda>retention.
     Ok \<lparr>tok_access_token_ttl = access_token_ttl, tok_refresh_token_ttl = refresh_token_ttl, tok_audience = audience,
        tok_custom_claims = rtk_custom_claims raw, tok_refresh_rotation = rtk_refresh_rotation raw,
        tok_refresh_rotation_grace = grace, tok_refresh_reuse_retention = retention\<rparr>)))))"

definition refresh_reuse_retention_secs :: "token_config \<Rightarrow> u64" where
  "refresh_reuse_retention_secs c = tok_refresh_reuse_retention c"

definition resolve_grants :: "'x lib_scheme \<Rightarrow> raw_grants \<Rightarrow> grants_config result" where
  "resolve_grants L raw =
     tryq (parse_duration_field L ''grants.nonce_ttl'' (rgr_nonce_ttl raw)) (\<lambda>nonce_ttl.
     tryq (parse_duration_field L ''grants.max_assertion_lifetime'' (rgr_max_assertion_lifetime raw)) (\<lambda>lifetime.
     Ok \<lparr>gra_id_token = rgr_id_token raw, gra_nonce_ttl = nonce_ttl, gra_max_assertion_lifetime = lifetime\<rparr>))"

definition resolve_sqs_audit :: "raw_sqs_audit \<Rightarrow> sqs_audit_config result" where
  "resolve_sqs_audit raw = tryq (parse_non_empty ''audit.sqs.queue_url'' (rsq_queue_url raw)) (\<lambda>url.
     Ok \<lparr>sqs_queue_url = url, sqs_region = rsq_region raw\<rparr>)"

definition resolve_audit :: "'x lib_scheme \<Rightarrow> raw_audit \<Rightarrow> audit_config result" where
  "resolve_audit L raw =
     tryq (parse_audit_adapter L ''audit.adapter'' (rau_adapter raw)) (\<lambda>adapter.
     tryq (parse_audit_severity_field L ''audit.blocking_threshold'' (rau_blocking_threshold raw)) (\<lambda>blocking.
     tryq (parse_audit_severity_field L ''audit.emit_threshold'' (rau_emit_threshold raw)) (\<lambda>emit.
     tryq (parse_audit_durability L ''audit.durability'' (rau_durability raw)) (\<lambda>durability.
     tryq (try_option resolve_sqs_audit (rau_sqs raw)) (\<lambda>sqs.
     Ok \<lparr>aud_adapter = adapter, aud_blocking_threshold = blocking, aud_emit_threshold = emit, aud_durability = durability, aud_sqs = sqs\<rparr>)))))"

definition resolve_kms :: "'x lib_scheme \<Rightarrow> raw_kms \<Rightarrow> kms_config result" where
  "resolve_kms L raw =
     tryq (parse_non_empty ''key_manager.kms.key_id'' (rkm_key_id raw)) (\<lambda>key_id.
     tryq (parse_kms_algorithm L ''key_manager.kms.algorithm'' (rkm_algorithm raw)) (\<lambda>algorithm.
     tryq (parse_non_empty ''key_manager.kms.kid'' (rkm_kid raw)) (\<lambda>kid.
     Ok \<lparr>kms_key_id = key_id, kms_algorithm = algorithm, kms_kid = kid\<rparr>)))"

definition resolve_local_key :: "'x lib_scheme \<Rightarrow> raw_local_key \<Rightarrow> local_key_config result" where
  "resolve_local_key L raw =
     tryq (parse_non_empty ''key_manager.local.private_key_path'' (rlk_private_key_path raw)) (\<lambda>path.
     tryq (parse_local_algorithm L ''key_manager.local.algorithm'' (rlk_algorithm raw)) (\<lambda>algorithm.
     tryq (parse_non_empty ''key_manager.local.kid'' (rlk_kid raw)) (\<lambda>kid.
     Ok \<lparr>lkc_private_key_path = path, lkc_algorithm = algorithm, lkc_kid = kid\<rparr>)))"

definition resolve_key_manager :: "'x lib_scheme \<Rightarrow> raw_key_manager \<Rightarrow> key_manager_config result" where
  "resolve_key_manager L raw =
     tryq (parse_provider_adapter L ''key_manager.adapter'' (rke_adapter raw)) (\<lambda>adapter.
     tryq (try_option (resolve_kms L) (rke_kms raw)) (\<lambda>kms.
     tryq (try_option (resolve_local_key L) (rke_local raw)) (\<lambda>local_key.
     Ok \<lparr>kmc_adapter = adapter, kmc_kms = kms, kmc_local = local_key\<rparr>)))"

section \<open>Stores\<close>

definition resolve_dynamo :: "raw_dynamo \<Rightarrow> dynamo_config result" where
  "resolve_dynamo raw = tryq (parse_non_empty ''repository.dynamodb.table_name'' (rdy_table_name raw)) (\<lambda>t.
     Ok \<lparr>dyn_table_name = t, dyn_region = rdy_region raw\<rparr>)"

definition resolve_postgres :: "raw_postgres \<Rightarrow> postgres_config result" where
  "resolve_postgres raw = tryq (parse_non_empty ''repository.postgres.url'' (rpg_url raw)) (\<lambda>u.
     Ok \<lparr>pgc_url = u, pgc_max_connections = rpg_max_connections raw, pgc_run_migrations = rpg_run_migrations raw\<rparr>)"

definition resolve_sqlite :: "raw_sqlite \<Rightarrow> sqlite_config result" where
  "resolve_sqlite raw = tryq (parse_non_empty ''repository.sqlite.path'' (rsl_path raw)) (\<lambda>p. Ok \<lparr>sql_path = p\<rparr>)"

definition resolve_valkey :: "raw_valkey \<Rightarrow> valkey_config result" where
  "resolve_valkey raw = tryq (parse_non_empty ''session_repository.valkey.url'' (rva_url raw)) (\<lambda>u.
     Ok \<lparr>vak_url = u, vak_key_prefix = rva_key_prefix raw\<rparr>)"

definition resolve_lmdb :: "raw_lmdb \<Rightarrow> lmdb_config result" where
  "resolve_lmdb raw = tryq (parse_non_empty ''session_repository.lmdb.path'' (rlm_path raw)) (\<lambda>p.
     Ok \<lparr>lmc_path = p, lmc_max_size_mb = rlm_max_size_mb raw\<rparr>)"

definition resolve_repository :: "'x lib_scheme \<Rightarrow> raw_repository \<Rightarrow> repository_config result" where
  "resolve_repository L raw =
     tryq (parse_provider_adapter L ''repository.adapter'' (rre_adapter raw)) (\<lambda>adapter.
     tryq (try_option resolve_dynamo (rre_dynamodb raw)) (\<lambda>dynamodb.
     tryq (try_option resolve_postgres (rre_postgres raw)) (\<lambda>postgres.
     tryq (try_option resolve_sqlite (rre_sqlite raw)) (\<lambda>sqlite.
     Ok \<lparr>rep_adapter = adapter, rep_dynamodb = dynamodb, rep_postgres = postgres, rep_sqlite = sqlite\<rparr>))))"

definition resolve_session_repository :: "'x lib_scheme \<Rightarrow> raw_session_repository \<Rightarrow> session_repository_config result" where
  "resolve_session_repository L raw =
     tryq (try_option (parse_provider_adapter L ''session_repository.adapter'') (rsr_adapter raw)) (\<lambda>adapter.
     tryq (try_option resolve_valkey (rsr_valkey raw)) (\<lambda>valkey.
     tryq (try_option resolve_lmdb (rsr_lmdb raw)) (\<lambda>lmdb.
     tryq (parse_positive_duration_field L ''session_repository.cleanup_interval'' (rsr_cleanup_interval raw)) (\<lambda>cleanup_interval.
     Ok \<lparr>srp_adapter = adapter, srp_valkey = valkey, srp_lmdb = lmdb, srp_cleanup_interval = cleanup_interval\<rparr>))))"

definition cleanup_interval_secs :: "session_repository_config \<Rightarrow> u64" where
  "cleanup_interval_secs c = srp_cleanup_interval c"

section \<open>Limits, synchronisation and telemetry\<close>

definition check_budget :: "string \<times> u64 \<Rightarrow> unit result" where
  "check_budget = (\<lambda>(field, budget). guard_that (\<not> budget > MAX_RATE_LIMIT_BUDGET)
     (ConfigError (field @ '' must be between 0 (disabled) and '' @ show_nat (unat MAX_RATE_LIMIT_BUDGET))))"

definition resolve_rate_limit :: "'x lib_scheme \<Rightarrow> raw_rate_limit \<Rightarrow> rate_limit_config result" where
  "resolve_rate_limit L raw =
     tryq (parse_rate_limit_store L ''rate_limit.store'' (rrl_store raw)) (\<lambda>store.
     tryq (guard_that (\<not> (rrl_enabled raw \<and> store = RLS_None))
             (ConfigError ''rate_limit.store must be \"in_process\" when rate_limit.enabled is true'')) (\<lambda>_.
     tryq (parse_duration_field L ''rate_limit.window'' (rrl_window raw)) (\<lambda>window.
     tryq (guard_that (MIN_RATE_LIMIT_WINDOW_SECS \<le> window \<and> window \<le> MAX_RATE_LIMIT_WINDOW_SECS)
             (ConfigError (''rate_limit.window must be between '' @ show_nat (unat MIN_RATE_LIMIT_WINDOW_SECS) @ ''s and ''
                @ show_nat (unat MAX_RATE_LIMIT_WINDOW_SECS) @ ''s''))) (\<lambda>_.
     tryq (guard_that (MIN_RATE_LIMIT_MAX_ENTRIES \<le> rrl_max_entries raw \<and> rrl_max_entries raw \<le> MAX_RATE_LIMIT_MAX_ENTRIES)
             (ConfigError (''rate_limit.max_entries must be between '' @ show_nat (unat MIN_RATE_LIMIT_MAX_ENTRIES) @ '' and ''
                @ show_nat (unat MAX_RATE_LIMIT_MAX_ENTRIES)))) (\<lambda>_.
     tryq (guard_that (MIN_RATE_LIMIT_MAX_CONCURRENT_REQUESTS \<le> rrl_max_concurrent_requests raw
                \<and> rrl_max_concurrent_requests raw \<le> MAX_RATE_LIMIT_MAX_CONCURRENT_REQUESTS)
             (ConfigError (''rate_limit.max_concurrent_requests must be between '' @ show_nat (unat MIN_RATE_LIMIT_MAX_CONCURRENT_REQUESTS) @ '' and ''
                @ show_nat (unat MAX_RATE_LIMIT_MAX_CONCURRENT_REQUESTS)))) (\<lambda>_.
     tryq (collect_all check_budget [(''rate_limit.per_ip'', rrl_per_ip raw), (''rate_limit.per_ip_failures'', rrl_per_ip_failures raw),
             (''rate_limit.per_subject'', rrl_per_subject raw), (''rate_limit.per_provider'', rrl_per_provider raw)]) (\<lambda>_.
     Ok \<lparr>rlc_enabled = rrl_enabled raw, rlc_store = store, rlc_window = window, rlc_per_ip = rrl_per_ip raw,
        rlc_per_ip_failures = rrl_per_ip_failures raw, rlc_per_subject = rrl_per_subject raw, rlc_per_provider = rrl_per_provider raw,
        rlc_max_concurrent_requests = rrl_max_concurrent_requests raw, rlc_max_entries = rrl_max_entries raw\<rparr>)))))))"

definition resolve_webhook :: "'x lib_scheme \<Rightarrow> raw_webhook \<Rightarrow> webhook_config result" where
  "resolve_webhook L raw =
     tryq (parse_https_url L ''user_sync.webhook.url'' (rwh_url raw)) (\<lambda>url.
     tryq (parse_non_empty ''user_sync.webhook.secret'' (rwh_secret raw)) (\<lambda>secret.
     tryq (try_option (parse_duration_field L ''user_sync.webhook.timeout'') (rwh_timeout raw)) (\<lambda>timeout.
     Ok \<lparr>whc_url = url, whc_secret = secret, whc_timeout = timeout, whc_retries = rwh_retries raw\<rparr>)))"

definition effective_retries :: "webhook_config \<Rightarrow> u32" where
  "effective_retries c = (let configured = (case whc_retries c of None \<Rightarrow> DEFAULT_WEBHOOK_RETRIES | Some n \<Rightarrow> n) in
     if configured > MAX_WEBHOOK_RETRIES then MAX_WEBHOOK_RETRIES else configured)"

definition resolve_user_sync :: "'x lib_scheme \<Rightarrow> raw_user_sync \<Rightarrow> user_sync_config result" where
  "resolve_user_sync L raw =
     tryq (try_option (parse_provider_adapter L ''user_sync.adapter'') (rus_adapter raw)) (\<lambda>adapter.
     tryq (try_option (resolve_webhook L) (rus_webhook raw)) (\<lambda>webhook.
     Ok \<lparr>usc_enabled = rus_enabled raw, usc_adapter = adapter, usc_webhook = webhook\<rparr>))"

definition resolve_telemetry :: "'x lib_scheme \<Rightarrow> raw_telemetry \<Rightarrow> telemetry_config result" where
  "resolve_telemetry L raw =
     tryq (parse_telemetry_exporter L ''telemetry.exporter'' (rte_exporter raw)) (\<lambda>exporter.
     tryq (try_option (parse_https_url L ''telemetry.endpoint'') (rte_endpoint raw)) (\<lambda>endpoint.
     tryq (try_option (parse_non_empty ''telemetry.service_name'') (rte_service_name raw)) (\<lambda>service_name.
     tryq (try_option (parse_non_empty ''telemetry.protocol'') (rte_protocol raw)) (\<lambda>protocol.
     Ok \<lparr>tel_enabled = rte_enabled raw, tel_exporter = exporter, tel_endpoint = endpoint, tel_service_name = service_name,
        tel_sample_rate = rte_sample_rate raw, tel_protocol = protocol\<rparr>))))"

section \<open>The internal API\<close>

primrec resolve_auth_methods :: "'x lib_scheme \<Rightarrow> internal_auth_method list \<Rightarrow> string list \<Rightarrow> internal_auth_method list result" where
  "resolve_auth_methods L seen [] = Ok seen"
| "resolve_auth_methods L seen (m # ms) = tryq (parse_internal_auth_method L ''internal_api.auth_methods'' m) (\<lambda>parsed.
     if parsed \<in> set seen
     then config_error (''internal_api.auth_methods lists '' @ debug_str L (internal_auth_method_str parsed) @ '' more than once'')
     else resolve_auth_methods L (seen @ [parsed]) ms)"

definition resolve_internal_api :: "'x lib_scheme \<Rightarrow> raw_internal_api \<Rightarrow> internal_api_config result" where
  "resolve_internal_api L raw =
     tryq (resolve_auth_methods L [] (ria_auth_methods raw)) (\<lambda>auth_methods.
     tryq (parse_positive_duration_field L ''internal_api.stats_cache_ttl'' (ria_stats_cache_ttl raw)) (\<lambda>stats_cache_ttl.
     tryq (guard_that (\<not> stats_cache_ttl < MIN_STATS_CACHE_TTL_SECS)
             (ConfigError (''internal_api.stats_cache_ttl must be at least '' @ replicate 21 (CHR '' '') @ show_nat (unat MIN_STATS_CACHE_TTL_SECS)
                @ ''s (got '' @ show_nat (unat stats_cache_ttl) @ ''s)''))) (\<lambda>_.
     tryq (guard_that (\<not> stats_cache_ttl > MAX_STATS_CACHE_TTL_SECS)
             (ConfigError (''internal_api.stats_cache_ttl exceeds the maximum of '' @ replicate 21 (CHR '' '') @ show_nat (unat MAX_STATS_CACHE_TTL_SECS)
                @ ''s (got '' @ show_nat (unat stats_cache_ttl) @ ''s)''))) (\<lambda>_.
     tryq (try_option (parse_non_empty ''internal_api.shared_secret'') (ria_shared_secret raw)) (\<lambda>shared_secret.
     tryq (parse_positive_duration_field L ''internal_api.auth_failure_window'' (ria_auth_failure_window raw)) (\<lambda>auth_failure_window.
     tryq (parse_positive_duration_field L ''internal_api.auth_lockout'' (ria_auth_lockout raw)) (\<lambda>auth_lockout.
     Ok \<lparr>iac_enabled = ria_enabled raw, iac_host = ria_host raw, iac_port = ria_port raw, iac_auth_methods = auth_methods,
        iac_shared_secret = shared_secret, iac_token_audience = ria_token_audience raw, iac_required_claim = ria_required_claim raw,
        iac_required_value = ria_required_value raw, iac_mtls = ria_mtls raw, iac_max_auth_failures = ria_max_auth_failures raw,
        iac_auth_failure_window = auth_failure_window, iac_auth_lockout = auth_lockout, iac_stats_cache_ttl = stats_cache_ttl\<rparr>)))))))"

definition uses_shared_secret :: "internal_api_config \<Rightarrow> bool" where
  "uses_shared_secret c = (IA_SharedSecret \<in> set (iac_auth_methods c))"

definition uses_operator_token :: "internal_api_config \<Rightarrow> bool" where
  "uses_operator_token c = (IA_OperatorToken \<in> set (iac_auth_methods c))"

definition uses_mtls :: "internal_api_config \<Rightarrow> bool" where
  "uses_mtls c = (IA_Mtls \<in> set (iac_auth_methods c))"

definition resolved_mtls_header :: "internal_api_config \<Rightarrow> string" where
  "resolved_mtls_header c = (case iac_mtls c of Some m \<Rightarrow> mtls_subject_header m | None \<Rightarrow> DEFAULT_MTLS_SUBJECT_HEADER)"

definition bind_address :: "internal_api_config \<Rightarrow> string result" where
  "bind_address c = (if iac_host c = [] then Panic ''internal_api.host must be non-empty before a bind address is composed''
     else Ok (iac_host c @ '':'' @ show_nat (unat (iac_port c))))"

definition listeners_collide :: "string \<Rightarrow> u16 \<Rightarrow> string \<Rightarrow> u16 \<Rightarrow> bool" where
  "listeners_collide public_host public_port admin_host admin_port =
     (if public_port \<noteq> admin_port then False
      else if public_host = admin_host then True
      else public_host \<in> set WILDCARD_LISTENER_HOSTS \<or> admin_host \<in> set WILDCARD_LISTENER_HOSTS)"

section \<open>Providers\<close>

definition provider_endpoint :: "('n, 't) conf_lib \<Rightarrow> string \<Rightarrow> 't raw_provider \<Rightarrow> string \<Rightarrow> string option result" where
  "provider_endpoint L provider_id raw name =
     try_option (parse_https_url L (''providers.'' @ provider_id @ ''.'' @ name))
       (Option.bind (hm_get (rpr_extra raw) name) (toml_as_str L))"

definition resolve_provider :: "('n, 't) conf_lib \<Rightarrow> string \<Rightarrow> 't raw_provider \<Rightarrow> 't provider_config result" where
  "resolve_provider L provider_id raw =
     tryq (provider_endpoint L provider_id raw ''issuer'') (\<lambda>issuer.
     tryq (provider_endpoint L provider_id raw ''jwks_uri'') (\<lambda>jwks_uri.
     tryq (provider_endpoint L provider_id raw ''token_endpoint'') (\<lambda>token_endpoint.
     tryq (provider_endpoint L provider_id raw ''revocation_endpoint'') (\<lambda>revocation_endpoint.
     tryq (parse_identity_provider_adapter L ''providers.adapter'' (rpr_adapter raw)) (\<lambda>adapter.
     tryq (guard_that (\<not> (adapter = IPA_Oidc \<and> issuer = None))
             (ConfigError (''providers.'' @ provider_id @ ''.issuer: missing required HTTPS URL''))) (\<lambda>_.
     Ok \<lparr>pvc_provider_id = provider_id, pvc_adapter = adapter, pvc_extra = rpr_extra raw, pvc_issuer = issuer,
        pvc_jwks_uri = jwks_uri, pvc_token_endpoint = token_endpoint, pvc_revocation_endpoint = revocation_endpoint\<rparr>))))))"

definition resolve_providers :: "('n, 't) conf_lib \<Rightarrow> 't raw_provider hashmap \<Rightarrow> 't provider_config hashmap result" where
  "resolve_providers L raws = collect_all (\<lambda>(provider_id, raw). map_outcome (\<lambda>p. (pvc_provider_id p, p)) (resolve_provider L provider_id raw)) raws"

section \<open>Rules across sections\<close>

definition validate_internal_api :: "('n, 't) conf_lib \<Rightarrow> ('n, 't) app_config \<Rightarrow> unit result" where
  "validate_internal_api L c =
     (let ia = ac_internal_api c in
      if iac_auth_methods ia = [] then config_error ''internal_api.auth_methods must be non-empty when the internal API is served''
      else
        let secret_len = (case iac_shared_secret ia of Some s \<Rightarrow> length s | None \<Rightarrow> 0) in
        if uses_shared_secret ia \<and> secret_len < MIN_SHARED_SECRET_BYTES
        then config_error (''internal_api.shared_secret must be at least '' @ show_nat MIN_SHARED_SECRET_BYTES
               @ '' bytes while the shared_secret mechanism is enabled (got '' @ show_nat secret_len @ '' bytes)'')
        else tryq (if uses_operator_token ia then
            (if \<not> (kmc_adapter (ac_key_manager c) = PA_Local \<or> kmc_adapter (ac_key_manager c) = PA_Kms)
             then config_error (''key_manager.adapter ('' @ debug_str L (provider_adapter_str (kmc_adapter (ac_key_manager c)))
                    @ '') cannot serve the operator_token mechanism: token verification requires a real key manager'')
             else if trim (iac_token_audience ia) = [] then config_error ''internal_api.token_audience must be non-empty while the operator_token mechanism is enabled''
             else if trim (iac_required_claim ia) = [] then config_error ''internal_api.required_claim must be non-empty while the operator_token mechanism is enabled''
             else if trim (iac_required_value ia) = [] then config_error ''internal_api.required_value must be non-empty while the operator_token mechanism is enabled''
             else if tok_audience (ac_token c) = iac_token_audience ia
               then config_error (''internal_api.token_audience ('' @ debug_str L (iac_token_audience ia) @ '') must differ from token.audience: a shared audience lets ''
                      @ ''any user access token minted by this service'' @ quote @ ''s key manager be replayed as an operator credential'')
             else Ok ())
           else Ok ()) (\<lambda>_.
          if uses_mtls ia \<and> trim (resolved_mtls_header ia) = []
          then config_error ''internal_api.mtls.subject_header must be non-empty while the mtls mechanism is enabled''
          else if iac_max_auth_failures ia = 0 then config_error ''internal_api.max_auth_failures must be non-zero''
          else Ok ()))"

definition internal_api_served :: "('n, 't) app_config \<Rightarrow> bool" where
  "internal_api_served c = ((srv_role (ac_server c) = Role_Admin \<or> srv_role (ac_server c) = Role_All) \<and> iac_enabled (ac_internal_api c))"

definition validate_config :: "('n, 't) conf_lib \<Rightarrow> ('n, 't) app_config \<Rightarrow> unit result" where
  "validate_config L c =
     (case Option.bind (tok_custom_claims (ac_token c)) find_reserved_claim_key of
        Some key \<Rightarrow> config_error (''token.custom_claims key '' @ debug_str L key @ '' is a reserved protocol claim name and cannot be used as a custom claim'')
      | None \<Rightarrow>
          tryq (if internal_api_served c then validate_internal_api L c else Ok ()) (\<lambda>_.
          if srv_role (ac_server c) = Role_All \<and> iac_enabled (ac_internal_api c)
             \<and> listeners_collide (srv_host (ac_server c)) (srv_port (ac_server c)) (iac_host (ac_internal_api c)) (iac_port (ac_internal_api c))
          then config_error (''internal_api listener '' @ iac_host (ac_internal_api c) @ '':'' @ show_nat (unat (iac_port (ac_internal_api c)))
                 @ '' collides with the public listener '' @ srv_host (ac_server c) @ '':'' @ show_nat (unat (srv_port (ac_server c)))
                 @ ''; role = \"all\" binds two distinct sockets and they must not share one'')
          else Ok ()))"

definition resolve_config :: "('n, 't) conf_lib \<Rightarrow> 't raw_config \<Rightarrow> ('n, 't) app_config result" where
  "resolve_config L raw =
     tryq (resolve_server L (rc_server raw)) (\<lambda>server.
     tryq (resolve_registration L (rc_registration raw)) (\<lambda>registration.
     tryq (resolve_session L (rc_session raw)) (\<lambda>session.
     tryq (resolve_token L (rc_token raw)) (\<lambda>token.
     tryq (resolve_grants L (rc_grants raw)) (\<lambda>grants.
     tryq (resolve_audit L (rc_audit raw)) (\<lambda>audit.
     tryq (resolve_key_manager L (rc_key_manager raw)) (\<lambda>key_manager.
     tryq (resolve_repository L (rc_repository raw)) (\<lambda>repository.
     tryq (resolve_session_repository L (rc_session_repository raw)) (\<lambda>session_repository.
     tryq (resolve_rate_limit L (rc_rate_limit raw)) (\<lambda>rate_limit.
     tryq (resolve_user_sync L (rc_user_sync raw)) (\<lambda>user_sync.
     tryq (resolve_telemetry L (rc_telemetry raw)) (\<lambda>telemetry.
     tryq (resolve_internal_api L (rc_internal_api raw)) (\<lambda>internal_api.
     tryq (resolve_providers L (rc_providers raw)) (\<lambda>providers.
     let config = \<lparr>ac_server = server, ac_registration = registration, ac_session = session, ac_token = token, ac_grants = grants,
           ac_audit = audit, ac_key_manager = key_manager, ac_repository = repository, ac_session_repository = session_repository,
           ac_rate_limit = rate_limit, ac_user_sync = user_sync, ac_telemetry = telemetry, ac_internal_api = internal_api,
           ac_providers = providers\<rparr> in
     tryq (validate_config L config) (\<lambda>_. Ok config)))))))))))))))"

end
