(* ===== verification/Config_Sound.thy ===== *)
theory Config_Sound
  imports Config Example_Env
begin

text \<open>
  What a resolved configuration guarantees to the code that receives it, section by section, and that
  resolution answers every file.
\<close>

section \<open>Scalars\<close>

definition https_text :: "string \<Rightarrow> bool" where
  "https_text u = (starts_with u ''https://'' \<and> length u > length ''https://'')"

lemma parse_https_url_Ok: "parse_https_url L field v = Ok u \<Longrightarrow> https_text u"
  by (auto simp: parse_https_url_def https_text_def Let_def config_error_def split: if_splits)

lemma parse_non_empty_Ok: "parse_non_empty field v = Ok u \<longleftrightarrow> u = v \<and> trim v \<noteq> []"
  by (auto simp: parse_non_empty_def config_error_def)

lemma parse_positive_Ok: "parse_positive_duration_field L field v = Ok d \<Longrightarrow> 0 < d"
  by (auto simp: parse_positive_duration_field_def tryq_Ok config_error_def word_gt_0 split: if_splits)

lemma parse_capped_Ok: "parse_positive_duration_field_capped L field v m = Ok d \<Longrightarrow> 0 < d \<and> d \<le> m"
  by (auto simp: parse_positive_duration_field_capped_def tryq_Ok config_error_def dest: parse_positive_Ok split: if_splits)

text \<open>Every parser fails with a configuration error, and panics on no string.\<close>

definition is_config_error :: "error \<Rightarrow> bool" where
  "is_config_error e = (\<exists>d. e = ConfigError d)"

lemma config_error_fails [fails_rules]: "only_fails is_config_error (config_error d)"
  by (simp add: config_error_def is_config_error_def only_fails_def)

lemma guard_config_fails [fails_rules]: "only_fails is_config_error (guard_that b (ConfigError d))"
  by (simp add: guard_that_def is_config_error_def only_fails_def)

lemma closed_domains_fail [fails_rules]:
  "only_fails is_config_error (parse_server_role L f v)" "only_fails is_config_error (parse_registration_mode L f v)"
  "only_fails is_config_error (parse_local_algorithm L f v)" "only_fails is_config_error (parse_kms_algorithm L f v)"
  "only_fails is_config_error (parse_audit_adapter L f v)" "only_fails is_config_error (parse_telemetry_exporter L f v)"
  "only_fails is_config_error (parse_internal_auth_method L f v)" "only_fails is_config_error (parse_provider_adapter L f v)"
  "only_fails is_config_error (parse_identity_provider_adapter L f v)" "only_fails is_config_error (parse_audit_durability L f v)"
  "only_fails is_config_error (parse_rate_limit_store L f v)" "only_fails is_config_error (parse_audit_severity_field L f v)"
  "only_fails is_config_error (parse_https_url L f v)" "only_fails is_config_error (parse_domain_pattern L f v)"
  "only_fails is_config_error (parse_non_empty f v)"
  by (simp_all add: parse_server_role_def parse_registration_mode_def parse_local_algorithm_def parse_kms_algorithm_def
      parse_audit_adapter_def parse_telemetry_exporter_def parse_internal_auth_method_def parse_provider_adapter_def
      parse_identity_provider_adapter_def parse_audit_durability_def parse_rate_limit_store_def parse_audit_severity_field_def
      parse_https_url_def parse_domain_pattern_def parse_non_empty_def Let_def only_fails_basic config_error_fails split: option.split)

lemma duration_fails [fails_rules]: "valid_utf8 v \<Longrightarrow> only_fails is_config_error (parse_duration_field L f v)"
proof (cases "parse_duration_secs L v")
  case (Err e)
  then obtain d where "e = ConfigError d" using parse_duration_error_class by blast
  then show ?thesis using Err by (simp add: parse_duration_field_def config_error_fails)
qed (auto simp: parse_duration_field_def only_fails_basic dest: parse_duration_no_panic)

lemma positive_duration_fails [fails_rules]:
  "valid_utf8 v \<Longrightarrow> only_fails is_config_error (parse_positive_duration_field L f v)"
  "valid_utf8 v \<Longrightarrow> only_fails is_config_error (parse_positive_duration_field_capped L f v m)"
  by (auto simp: parse_positive_duration_field_def parse_positive_duration_field_capped_def intro!: fails_rules)

section \<open>What each section guarantees\<close>

definition server_ok :: "'n server_config \<Rightarrow> bool" where
  "server_ok s = (https_text (srv_issuer s) \<and> (case srv_base_path s of None \<Rightarrow> True | Some p \<Rightarrow> is_canonical_base_path p)
     \<and> 1 \<le> srv_trusted_proxy_hops s \<and> srv_trusted_proxy_hops s \<le> MAX_TRUSTED_PROXY_HOPS)"

definition location_ok :: "session_location_config \<Rightarrow> bool" where
  "location_ok l = (distinct (named_headers l)
     \<and> list_all (\<lambda>h. h \<noteq> [] \<and> list_all is_token_byte h \<and> to_ascii_lowercase h = h) (named_headers l)
     \<and> (slo_trust_headers_from_any_peer l \<longrightarrow> location_enabled l))"

definition token_ok :: "token_config \<Rightarrow> bool" where
  "token_ok t = (trim (tok_audience t) \<noteq> [] \<and> 0 < tok_refresh_rotation_grace t
     \<and> tok_refresh_rotation_grace t \<le> MAX_REFRESH_ROTATION_GRACE_SECS \<and> 0 < tok_refresh_reuse_retention t)"

definition limits_ok :: "rate_limit_config \<Rightarrow> bool" where
  "limits_ok r = ((rlc_enabled r \<longrightarrow> rlc_store r = RLS_InProcess)
     \<and> MIN_RATE_LIMIT_WINDOW_SECS \<le> rlc_window r \<and> rlc_window r \<le> MAX_RATE_LIMIT_WINDOW_SECS
     \<and> MIN_RATE_LIMIT_MAX_ENTRIES \<le> rlc_max_entries r \<and> rlc_max_entries r \<le> MAX_RATE_LIMIT_MAX_ENTRIES
     \<and> MIN_RATE_LIMIT_MAX_CONCURRENT_REQUESTS \<le> rlc_max_concurrent_requests r
     \<and> rlc_max_concurrent_requests r \<le> MAX_RATE_LIMIT_MAX_CONCURRENT_REQUESTS
     \<and> list_all (\<lambda>b. b \<le> MAX_RATE_LIMIT_BUDGET) [rlc_per_ip r, rlc_per_ip_failures r, rlc_per_subject r, rlc_per_provider r])"

definition internal_api_ok :: "internal_api_config \<Rightarrow> bool" where
  "internal_api_ok i = (distinct (iac_auth_methods i) \<and> 0 < iac_auth_failure_window i \<and> 0 < iac_auth_lockout i
     \<and> MIN_STATS_CACHE_TTL_SECS \<le> iac_stats_cache_ttl i \<and> iac_stats_cache_ttl i \<le> MAX_STATS_CACHE_TTL_SECS)"

definition sync_ok :: "user_sync_config \<Rightarrow> bool" where
  "sync_ok u = (case usc_webhook u of None \<Rightarrow> True
     | Some w \<Rightarrow> https_text (whc_url w) \<and> trim (whc_secret w) \<noteq> [] \<and> effective_retries w \<le> MAX_WEBHOOK_RETRIES)"

definition provider_ok :: "string \<Rightarrow> 't provider_config \<Rightarrow> bool" where
  "provider_ok i p = (pvc_provider_id p = i \<and> (pvc_adapter p = IPA_Oidc \<longrightarrow> pvc_issuer p \<noteq> None)
     \<and> list_all (\<lambda>e. case e of None \<Rightarrow> True | Some u \<Rightarrow> https_text u)
         [pvc_issuer p, pvc_jwks_uri p, pvc_token_endpoint p, pvc_revocation_endpoint p])"

text \<open>What holds when the admin plane is served: every mechanism can do its work.\<close>

definition served_ok :: "('n, 't) app_config \<Rightarrow> bool" where
  "served_ok c = (let i = ac_internal_api c in
     iac_auth_methods i \<noteq> [] \<and> 0 < iac_max_auth_failures i
     \<and> (uses_shared_secret i \<longrightarrow> (\<exists>s. iac_shared_secret i = Some s \<and> MIN_SHARED_SECRET_BYTES \<le> length s))
     \<and> (uses_operator_token i \<longrightarrow> kmc_adapter (ac_key_manager c) \<in> {PA_Local, PA_Kms} \<and> trim (iac_token_audience i) \<noteq> []
          \<and> trim (iac_required_claim i) \<noteq> [] \<and> trim (iac_required_value i) \<noteq> [] \<and> tok_audience (ac_token c) \<noteq> iac_token_audience i)
     \<and> (uses_mtls i \<longrightarrow> trim (resolved_mtls_header i) \<noteq> []))"

definition config_ok :: "('n, 't) app_config \<Rightarrow> bool" where
  "config_ok c = (server_ok (ac_server c) \<and> location_ok (ses_location (ac_session c)) \<and> token_ok (ac_token c)
     \<and> limits_ok (ac_rate_limit c) \<and> internal_api_ok (ac_internal_api c) \<and> sync_ok (ac_user_sync c)
     \<and> 0 < srp_cleanup_interval (ac_session_repository c)
     \<and> list_all (\<lambda>(i, p). provider_ok i p) (ac_providers c)
     \<and> Option.bind (tok_custom_claims (ac_token c)) find_reserved_claim_key = None
     \<and> (internal_api_served c \<longrightarrow> served_ok c)
     \<and> (srv_role (ac_server c) = Role_All \<and> iac_enabled (ac_internal_api c) \<longrightarrow>
          \<not> listeners_collide (srv_host (ac_server c)) (srv_port (ac_server c)) (iac_host (ac_internal_api c)) (iac_port (ac_internal_api c))))"

lemma resolve_server_Ok: "resolve_server L raw = Ok s \<Longrightarrow> server_ok s"
  by (auto simp: resolve_server_def tryq_Ok Let_def server_ok_def dest: parse_https_url_Ok split: option.splits)

lemma token_byte_lower: "is_token_byte c \<Longrightarrow> is_token_byte (ascii_lower_char c)"
proof (cases "65 \<le> byte c \<and> byte c \<le> 90")
  case True
  then have "byte (ascii_lower_char c) = byte c + 32" by (simp add: ascii_lower_char_def)
  then show ?thesis using True by (simp add: is_token_byte_def is_ascii_alphanumeric_def)
next
  case False
  then show "is_token_byte c \<Longrightarrow> ?thesis" by (auto simp: ascii_lower_char_def)
qed

definition header_ok :: "string option \<Rightarrow> bool" where
  "header_ok h = (case h of None \<Rightarrow> True | Some n \<Rightarrow> n \<noteq> [] \<and> list_all is_token_byte n \<and> to_ascii_lowercase n = n)"

lemma list_all_lower: "list_all is_token_byte v \<Longrightarrow> list_all is_token_byte (to_ascii_lowercase v)"
  by (simp add: to_ascii_lowercase_def list_all_iff token_byte_lower)

lemma location_header_Ok: "location_header L field v = Ok h \<Longrightarrow> header_ok h"
  using length_to_ascii_lowercase [of v]
  by (auto simp: location_header_def config_error_def header_ok_def list_all_lower simp del: length_to_ascii_lowercase split: if_splits)

lemma named_headers_ok:
  "header_ok a \<Longrightarrow> header_ok b \<Longrightarrow> header_ok c \<Longrightarrow> header_ok d \<Longrightarrow>
   list_all (\<lambda>n. n \<noteq> [] \<and> list_all is_token_byte n \<and> to_ascii_lowercase n = n)
     (concat (map (\<lambda>h. case h of None \<Rightarrow> [] | Some n \<Rightarrow> [n]) [a, b, c, d]))"
  by (auto simp: header_ok_def split: option.splits)

lemma repeated_header_None: "repeated_header hs = None \<longleftrightarrow> distinct hs"
proof -
  have "(\<forall>i < length hs. hs ! i \<notin> set (take i hs)) \<longleftrightarrow> distinct hs"
    by (auto simp: distinct_conv_nth in_set_conv_nth) (metis linorder_neqE_nat)
  then show ?thesis by (auto simp: repeated_header_def find_None_iff)
qed

lemma resolve_session_location_Ok: "resolve_session_location L raw = Ok l \<Longrightarrow> location_ok l"
  unfolding resolve_session_location_def Let_def
proof (elim tryq_okE)
  fix a b c d
  assume h: "location_header L ''city_header'' (rlo_city_header raw) = Ok a" "location_header L ''region_header'' (rlo_region_header raw) = Ok b"
    "location_header L ''country_header'' (rlo_country_header raw) = Ok c" "location_header L ''ip_header'' (rlo_ip_header raw) = Ok d"
  let ?l = "\<lparr>slo_city_header = a, slo_region_header = b, slo_country_header = c, slo_ip_header = d,
    slo_trust_headers_from_any_peer = rlo_trust_headers_from_any_peer raw\<rparr>"
  assume r: "(case repeated_header (named_headers ?l) of
       Some name \<Rightarrow> config_error (''session.location header '' @ debug_str L name @ '' is named more than once; header names must be distinct'')
     | None \<Rightarrow> if slo_trust_headers_from_any_peer ?l \<and> \<not> location_enabled ?l
         then config_error ''session.location.trust_headers_from_any_peer = true requires at least one session.location header to be named''
         else Ok ?l) = Ok l"
  have "location_ok ?l" if "repeated_header (named_headers ?l) = None" "slo_trust_headers_from_any_peer ?l \<longrightarrow> location_enabled ?l"
    using that named_headers_ok [OF h [THEN location_header_Ok]] by (simp add: location_ok_def named_headers_def repeated_header_None)
  moreover have "repeated_header (named_headers ?l) = None \<and> (slo_trust_headers_from_any_peer ?l \<longrightarrow> location_enabled ?l) \<and> l = ?l"
    using r by (auto simp: config_error_def split: option.splits if_splits)
  ultimately show "location_ok l" by simp
qed

lemma resolve_session_Ok: "resolve_session L raw = Ok s \<Longrightarrow> location_ok (ses_location s)"
  by (auto simp: resolve_session_def tryq_Ok dest: resolve_session_location_Ok)

lemma resolve_token_Ok: "resolve_token L raw = Ok t \<Longrightarrow> token_ok t"
  by (auto simp: resolve_token_def tryq_Ok token_ok_def parse_non_empty_Ok dest!: parse_capped_Ok parse_positive_Ok)

lemma resolve_rate_limit_Ok: "resolve_rate_limit L raw = Ok r \<Longrightarrow> limits_ok r"
  by (cases "rlc_store r") (auto simp: resolve_rate_limit_def tryq_Ok limits_ok_def check_budget_def)

lemma resolve_auth_methods_Ok:
  "resolve_auth_methods L seen ms = Ok ps \<Longrightarrow> distinct seen \<Longrightarrow> distinct ps"
  by (induction ms arbitrary: seen) (auto simp: tryq_Ok config_error_def split: if_splits)

lemma resolve_internal_api_Ok: "resolve_internal_api L raw = Ok i \<Longrightarrow> internal_api_ok i"
  by (auto simp: resolve_internal_api_def tryq_Ok internal_api_ok_def dest!: resolve_auth_methods_Ok parse_positive_Ok)

lemma resolve_webhook_Ok:
  "resolve_webhook L raw = Ok w \<Longrightarrow> https_text (whc_url w) \<and> trim (whc_secret w) \<noteq> []"
  by (auto simp: resolve_webhook_def tryq_Ok parse_non_empty_Ok dest: parse_https_url_Ok)

lemma effective_retries_bound: "effective_retries w \<le> MAX_WEBHOOK_RETRIES"
  by (auto simp: effective_retries_def Let_def)

lemma resolve_user_sync_Ok: "resolve_user_sync L raw = Ok u \<Longrightarrow> sync_ok u"
  by (auto simp: resolve_user_sync_def tryq_Ok sync_ok_def try_option_Ok effective_retries_bound
      dest: resolve_webhook_Ok split: option.splits)

lemma resolve_session_repository_Ok: "resolve_session_repository L raw = Ok s \<Longrightarrow> 0 < srp_cleanup_interval s"
  by (auto simp: resolve_session_repository_def tryq_Ok dest: parse_positive_Ok)

lemma provider_endpoint_Ok: "provider_endpoint L i raw name = Ok (Some u) \<Longrightarrow> https_text u"
  by (auto simp: provider_endpoint_def try_option_Ok dest: parse_https_url_Ok)

lemma resolve_provider_Ok: "resolve_provider L i raw = Ok p \<Longrightarrow> provider_ok i p"
  by (auto simp: resolve_provider_def tryq_Ok provider_ok_def dest: provider_endpoint_Ok split: option.splits)

lemma resolve_providers_Ok: "resolve_providers L raws = Ok ps \<Longrightarrow> list_all (\<lambda>(i, p). provider_ok i p) ps"
proof -
  have pair: "case (i, raw) of (i, raw) \<Rightarrow> map_outcome (\<lambda>p. (pvc_provider_id p, p)) (resolve_provider L i raw) = Ok q \<Longrightarrow> case q of (j, p) \<Rightarrow> provider_ok j p"
    for i raw q by (auto simp: map_outcome_Ok provider_ok_def dest: resolve_provider_Ok)
  show "resolve_providers L raws = Ok ps \<Longrightarrow> ?thesis"
    unfolding resolve_providers_def collect_all_Ok
    by (induction raws ps rule: list_all2_induct) (auto dest: pair [simplified])
qed

lemma validate_internal_api_Ok: "validate_internal_api L c = Ok u \<Longrightarrow> served_ok c"
  by (auto simp: validate_internal_api_def served_ok_def Let_def tryq_Ok config_error_def MIN_SHARED_SECRET_BYTES_def word_gt_0
      split: if_splits option.splits)

lemma validate_config_Ok:
  "validate_config L c = Ok u \<Longrightarrow> Option.bind (tok_custom_claims (ac_token c)) find_reserved_claim_key = None
     \<and> (internal_api_served c \<longrightarrow> served_ok c)
     \<and> (srv_role (ac_server c) = Role_All \<and> iac_enabled (ac_internal_api c) \<longrightarrow>
          \<not> listeners_collide (srv_host (ac_server c)) (srv_port (ac_server c)) (iac_host (ac_internal_api c)) (iac_port (ac_internal_api c)))"
  by (auto simp: validate_config_def tryq_Ok config_error_def dest: validate_internal_api_Ok split: option.splits if_splits)

lemma resolve_config_Ok: "resolve_config L raw = Ok c \<Longrightarrow> config_ok c"
  unfolding resolve_config_def Let_def
  by (elim tryq_okE, drule validate_config_Ok)
    (auto simp: config_ok_def dest: resolve_server_Ok resolve_session_Ok resolve_token_Ok resolve_rate_limit_Ok
      resolve_internal_api_Ok resolve_user_sync_Ok resolve_session_repository_Ok resolve_providers_Ok)

section \<open>Resolution answers\<close>

text \<open>A Rust \<open>String\<close> is valid UTF-8; only the durations' parser slices one.\<close>

definition raw_text_ok :: "'t raw_config \<Rightarrow> bool" where
  "raw_text_ok raw = list_all valid_utf8
     ([rsv_request_timeout (rc_server raw), rtk_access_token_ttl (rc_token raw), rtk_refresh_token_ttl (rc_token raw),
       rtk_refresh_rotation_grace (rc_token raw), rtk_refresh_reuse_retention (rc_token raw), rgr_nonce_ttl (rc_grants raw),
       rgr_max_assertion_lifetime (rc_grants raw), rsr_cleanup_interval (rc_session_repository raw), rrl_window (rc_rate_limit raw),
       ria_stats_cache_ttl (rc_internal_api raw), ria_auth_failure_window (rc_internal_api raw), ria_auth_lockout (rc_internal_api raw)]
      @ (case rus_webhook (rc_user_sync raw) of None \<Rightarrow> []
         | Some w \<Rightarrow> (case rwh_timeout w of None \<Rightarrow> [] | Some t \<Rightarrow> [t])))"

lemma only_fails_Let [fails_rules]: "only_fails E (f x) \<Longrightarrow> only_fails E (Let x f)"
  by simp

lemma only_fails_case_option [fails_rules]:
  "(x = None \<Longrightarrow> only_fails E a) \<Longrightarrow> (\<And>y. x = Some y \<Longrightarrow> only_fails E (f y)) \<Longrightarrow> only_fails E (case x of None \<Rightarrow> a | Some y \<Rightarrow> f y)"
  by (cases x) auto

lemma resolve_auth_methods_fails [fails_rules]: "only_fails is_config_error (resolve_auth_methods L seen ms)"
  by (induction ms arbitrary: seen) (auto intro!: fails_rules)

lemma location_header_fails [fails_rules]: "only_fails is_config_error (location_header L f v)"
  by (auto simp: location_header_def intro!: fails_rules)

lemma check_budget_fails [fails_rules]: "only_fails is_config_error (check_budget b)"
  by (cases b) (auto simp: check_budget_def intro!: fails_rules)

lemma provider_endpoint_fails [fails_rules]: "only_fails is_config_error (provider_endpoint L i raw name)"
  by (auto simp: provider_endpoint_def intro!: fails_rules)

lemma store_sections_fail [fails_rules]:
  "only_fails is_config_error (resolve_repository L a)"
  unfolding resolve_repository_def resolve_dynamo_def resolve_postgres_def resolve_sqlite_def by (intro fails_rules)

lemma plain_sections_fail [fails_rules]:
  "only_fails is_config_error (resolve_session L b)" "only_fails is_config_error (resolve_registration L c)"
  "only_fails is_config_error (resolve_audit L d)" "only_fails is_config_error (resolve_telemetry L f)"
  unfolding resolve_session_def resolve_session_location_def resolve_registration_def resolve_audit_def
    resolve_sqs_audit_def resolve_telemetry_def by (intro fails_rules)+

lemma key_sections_fail [fails_rules]:
  "only_fails is_config_error (resolve_key_manager L e)"
  unfolding resolve_key_manager_def resolve_kms_def resolve_local_key_def by (intro fails_rules)

lemma provider_section_fails [fails_rules]: "only_fails is_config_error (resolve_providers L ps)"
  unfolding resolve_providers_def resolve_provider_def by (rule only_fails_collect, clarsimp, intro fails_rules)

lemma validation_fails [fails_rules]: "only_fails is_config_error (validate_config L c')"
  unfolding validate_config_def validate_internal_api_def Let_def by (intro fails_rules)

lemma timed_sections_fail [fails_rules]:
  "valid_utf8 (rsv_request_timeout a) \<Longrightarrow> only_fails is_config_error (resolve_server L a)"
  "list_all valid_utf8 [rtk_access_token_ttl b, rtk_refresh_token_ttl b, rtk_refresh_rotation_grace b, rtk_refresh_reuse_retention b]
     \<Longrightarrow> only_fails is_config_error (resolve_token L b)"
  "list_all valid_utf8 [rgr_nonce_ttl c, rgr_max_assertion_lifetime c] \<Longrightarrow> only_fails is_config_error (resolve_grants L c)"
  "valid_utf8 (rsr_cleanup_interval d) \<Longrightarrow> only_fails is_config_error (resolve_session_repository L d)"
  "valid_utf8 (rrl_window e) \<Longrightarrow> only_fails is_config_error (resolve_rate_limit L e)"
  "list_all valid_utf8 [ria_stats_cache_ttl f, ria_auth_failure_window f, ria_auth_lockout f]
     \<Longrightarrow> only_fails is_config_error (resolve_internal_api L f)"
  unfolding resolve_server_def resolve_token_def resolve_grants_def resolve_session_repository_def resolve_valkey_def
    resolve_lmdb_def resolve_rate_limit_def resolve_internal_api_def
  by (intro fails_rules; simp)+

lemma resolve_user_sync_fails [fails_rules]:
  "(\<And>w t. rus_webhook u = Some w \<Longrightarrow> rwh_timeout w = Some t \<Longrightarrow> valid_utf8 t) \<Longrightarrow> only_fails is_config_error (resolve_user_sync L u)"
  unfolding resolve_user_sync_def resolve_webhook_def by (intro fails_rules) auto

lemma resolve_config_fails: "raw_text_ok raw \<Longrightarrow> only_fails is_config_error (resolve_config L raw)"
  unfolding resolve_config_def raw_text_ok_def Let_def
  by (intro fails_rules) (auto split: option.splits)

end
