(* ===== verification/Config_Properties.thy ===== *)
theory Config_Properties
  imports Config_Sound
begin

text \<open>
  The properties of the configuration, and a deployment they are applied to: the committed defaults
  with the admin plane served beside the public one.
\<close>

section \<open>Properties\<close>


text \<open>C32. Resolution answers every file: with the file's strings valid UTF-8 it either resolves or
  reports one configuration error; no string makes it panic or fail in another way.\<close>

theorem resolve_config_total:
  "raw_text_ok raw \<Longrightarrow> (\<exists>c. resolve_config L raw = Ok c) \<or> (\<exists>d. resolve_config L raw = Err (ConfigError d))"
  using only_failsD [OF resolve_config_fails, of raw L] by (auto simp: is_config_error_def)

section \<open>A deployment\<close>

text \<open>The foreign calls, with networks and TOML values kept as their text.\<close>
definition ex_conf_lib :: "(string, string) conf_lib" where
  "ex_conf_lib = lib.extend ex_lib \<lparr>parse_ip_net = Some, toml_as_str = Some\<rparr>"

text \<open>The committed \<open>config/default.toml\<close>, read over the serde defaults.\<close>

definition default_raw :: "string raw_config" where
  "default_raw = \<lparr>
     rc_server = raw_server_default\<lparr>rsv_host := ''0.0.0.0'', rsv_port := 8080, rsv_issuer := ''https://auth.example.com'',
       rsv_role := ''exchange'', rsv_request_timeout := ''30s''\<rparr>,
     rc_registration = \<lparr>rrg_mode = ''open'', rrg_domain_allowlist = None\<rparr>,
     rc_session = \<lparr>rse_location = \<lparr>rlo_city_header = [], rlo_region_header = [], rlo_country_header = [], rlo_ip_header = [],
       rlo_trust_headers_from_any_peer = False\<rparr>\<rparr>,
     rc_token = raw_token_default\<lparr>rtk_access_token_ttl := ''15m'', rtk_refresh_token_ttl := ''30d'', rtk_audience := ''https://api.example.com''\<rparr>,
     rc_grants = raw_grants_default,
     rc_audit = raw_audit_default\<lparr>rau_adapter := ''stdout'', rau_blocking_threshold := ''warning'', rau_emit_threshold := ''info''\<rparr>,
     rc_key_manager = raw_key_manager_default, rc_repository = raw_repository_default,
     rc_session_repository = raw_session_repository_default, rc_rate_limit = raw_rate_limit_default,
     rc_user_sync = \<lparr>rus_enabled = False, rus_adapter = None, rus_webhook = None\<rparr>,
     rc_telemetry = \<lparr>rte_enabled = False, rte_exporter = ''none'', rte_endpoint = None, rte_service_name = None,
       rte_sample_rate = None, rte_protocol = None\<rparr>,
     rc_internal_api = raw_internal_api_default, rc_providers = []\<rparr>"

definition ex_file :: "string raw_config" where
  "ex_file = default_raw\<lparr>rc_server := (rc_server default_raw)\<lparr>rsv_role := ''all'', rsv_base_path := Some ''/prod/'', rsv_trusted_proxies := [''10.0.0.0/8'']\<rparr>,
     rc_key_manager := \<lparr>rke_adapter = ''local'', rke_kms = None, rke_local = Some \<lparr>rlk_private_key_path = ''k.pem'', rlk_algorithm = ''EdDSA'', rlk_kid = ''k1''\<rparr>\<rparr>,
     rc_internal_api := raw_internal_api_default\<lparr>ria_enabled := True, ria_auth_methods := [''operator_token'', ''mtls'']\<rparr>,
     rc_providers := [(''google'', \<lparr>rpr_adapter = ''oidc'', rpr_extra = [(''issuer'', ''https://accounts.google.com'')]\<rparr>)]\<rparr>"


section \<open>Its resolution\<close>

definition ex_resolved :: "(string, string) app_config" where
  "ex_resolved = \<lparr>
     ac_server = \<lparr>srv_host = ''0.0.0.0'', srv_port = 8080, srv_issuer = ''https://auth.example.com'', srv_role = Role_All,
       srv_request_timeout = 30, srv_max_request_body_bytes = DEFAULT_MAX_REQUEST_BODY_BYTES, srv_base_path = Some ''/prod'',
       srv_trusted_proxies = [''10.0.0.0/8''], srv_trusted_proxy_hops = 1\<rparr>,
     ac_registration = \<lparr>reg_mode = Open, reg_domain_allowlist = None\<rparr>,
     ac_session = \<lparr>ses_location = \<lparr>slo_city_header = None, slo_region_header = None, slo_country_header = None, slo_ip_header = None,
       slo_trust_headers_from_any_peer = False\<rparr>\<rparr>,
     ac_token = \<lparr>tok_access_token_ttl = 900, tok_refresh_token_ttl = 2592000, tok_audience = ''https://api.example.com'',
       tok_custom_claims = None, tok_refresh_rotation = True, tok_refresh_rotation_grace = 10, tok_refresh_reuse_retention = 86400\<rparr>,
     ac_grants = \<lparr>gra_id_token = False, gra_nonce_ttl = 600, gra_max_assertion_lifetime = 3600\<rparr>,
     ac_audit = \<lparr>aud_adapter = AA_Stdout, aud_blocking_threshold = Warning, aud_emit_threshold = Info, aud_durability = Observe, aud_sqs = None\<rparr>,
     ac_key_manager = \<lparr>kmc_adapter = PA_Local, kmc_kms = None,
       kmc_local = Some \<lparr>lkc_private_key_path = ''k.pem'', lkc_algorithm = EdDSA, lkc_kid = ''k1''\<rparr>\<rparr>,
     ac_repository = \<lparr>rep_adapter = PA_Oidc, rep_dynamodb = None, rep_postgres = None, rep_sqlite = None\<rparr>,
     ac_session_repository = \<lparr>srp_adapter = None, srp_valkey = None, srp_lmdb = None, srp_cleanup_interval = 3600\<rparr>,
     ac_rate_limit = \<lparr>rlc_enabled = True, rlc_store = RLS_InProcess, rlc_window = 60, rlc_per_ip = 60, rlc_per_ip_failures = 10,
       rlc_per_subject = 10, rlc_per_provider = 600, rlc_max_concurrent_requests = 256, rlc_max_entries = 10000\<rparr>,
     ac_user_sync = \<lparr>usc_enabled = False, usc_adapter = None, usc_webhook = None\<rparr>,
     ac_telemetry = \<lparr>tel_enabled = False, tel_exporter = TE_None, tel_endpoint = None, tel_service_name = None, tel_sample_rate = None, tel_protocol = None\<rparr>,
     ac_internal_api = \<lparr>iac_enabled = True, iac_host = ''127.0.0.1'', iac_port = 8081, iac_auth_methods = [IA_OperatorToken, IA_Mtls],
       iac_shared_secret = None, iac_token_audience = ''internal'', iac_required_claim = ''role'', iac_required_value = ''admin'',
       iac_mtls = None, iac_max_auth_failures = 5, iac_auth_failure_window = 60, iac_auth_lockout = 300, iac_stats_cache_ttl = 60\<rparr>,
     ac_providers = [(''google'', \<lparr>pvc_provider_id = ''google'', pvc_adapter = IPA_Oidc, pvc_extra = [(''issuer'', ''https://accounts.google.com'')],
       pvc_issuer = Some ''https://accounts.google.com'', pvc_jwks_uri = None, pvc_token_endpoint = None, pvc_revocation_endpoint = None\<rparr>)]\<rparr>"

lemma ex_durations:
  "parse_duration_secs ex_conf_lib ''30s'' = Ok 30" "parse_duration_secs ex_conf_lib ''10s'' = Ok 10"
  "parse_duration_secs ex_conf_lib ''60s'' = Ok 60" "parse_duration_secs ex_conf_lib ''1m'' = Ok 60"
  "parse_duration_secs ex_conf_lib ''5m'' = Ok 300" "parse_duration_secs ex_conf_lib ''10m'' = Ok 600"
  "parse_duration_secs ex_conf_lib ''15m'' = Ok 900" "parse_duration_secs ex_conf_lib ''1h'' = Ok 3600"
  "parse_duration_secs ex_conf_lib ''24h'' = Ok 86400" "parse_duration_secs ex_conf_lib ''30d'' = Ok 2592000"
  by (code_simp, code_simp, code_simp, code_simp, code_simp, code_simp, code_simp, code_simp, code_simp, code_simp)

lemma ex_config_trims:
  "trim ''https://auth.example.com'' = ''https://auth.example.com''" "trim ''https://accounts.google.com'' = ''https://accounts.google.com''"
  "trim ''https://api.example.com'' = ''https://api.example.com''" "trim ''k.pem'' = ''k.pem''" "trim ''k1'' = ''k1''"
  "trim ''internal'' = ''internal''" "trim ''role'' = ''role''" "trim ''admin'' = ''admin''"
  "trim ''x-client-cert-subject'' = ''x-client-cert-subject''"
  by (code_simp, code_simp, code_simp, code_simp, code_simp, code_simp, code_simp, code_simp, code_simp)

lemmas ex_scalars = ex_durations ex_config_trims parse_https_url_def parse_non_empty_def parse_duration_field_def
  parse_positive_duration_field_def parse_positive_duration_field_capped_def starts_with_def ends_with_def
  parse_server_role_def parse_registration_mode_def parse_local_algorithm_def parse_audit_adapter_def parse_telemetry_exporter_def
  parse_internal_auth_method_def parse_provider_adapter_def parse_identity_provider_adapter_def parse_audit_durability_def
  parse_rate_limit_store_def parse_audit_severity_field_def guard_that_def try_option_def check_budget_def

lemmas ex_bounds = MIN_RATE_LIMIT_WINDOW_SECS_def MAX_RATE_LIMIT_WINDOW_SECS_def MIN_RATE_LIMIT_MAX_ENTRIES_def MAX_RATE_LIMIT_MAX_ENTRIES_def
  MIN_RATE_LIMIT_MAX_CONCURRENT_REQUESTS_def MAX_RATE_LIMIT_MAX_CONCURRENT_REQUESTS_def MAX_RATE_LIMIT_BUDGET_def
  MAX_REFRESH_ROTATION_GRACE_SECS_def MAX_TRUSTED_PROXY_HOPS_def MIN_STATS_CACHE_TTL_SECS_def MAX_STATS_CACHE_TTL_SECS_def

lemma ex_thresholds: "parse_severity ex_conf_lib ''warning'' = Some Warning" "parse_severity ex_conf_lib ''info'' = Some Info"
  by code_simp+

lemma ex_calls [simp]: "parse_ip_net ex_conf_lib s = Some s" "toml_as_str ex_conf_lib v = Some v"
  by (simp_all add: ex_conf_lib_def lib.defs)

lemma ex_base_path: "normalise_base_path (Some ''/prod/'') = Some ''/prod''" "is_canonical_base_path ''/prod''"
  by (code_simp, code_simp)

lemmas ex_defs = ex_file_def default_raw_def ex_resolved_def ex_scalars ex_bounds

lemma ex_server: "resolve_server ex_conf_lib (rc_server ex_file) = Ok (ac_server ex_resolved)"
  by (simp add: resolve_server_def raw_server_default_def ex_defs ex_base_path DEFAULT_TRUSTED_PROXY_HOPS_def)

lemma ex_plain:
  "resolve_registration ex_conf_lib (rc_registration ex_file) = Ok (ac_registration ex_resolved)"
  "resolve_session ex_conf_lib (rc_session ex_file) = Ok (ac_session ex_resolved)"
  by (simp add: resolve_registration_def ex_defs,
      simp add: resolve_session_def resolve_session_location_def location_header_def named_headers_def repeated_header_def ex_defs)

lemma ex_tok: "resolve_token ex_conf_lib (rc_token ex_file) = Ok (ac_token ex_resolved)"
  by (simp add: resolve_token_def raw_token_default_def DEFAULT_REFRESH_ROTATION_GRACE_def DEFAULT_REFRESH_REUSE_RETENTION_def ex_defs)

lemma ex_grants: "resolve_grants ex_conf_lib (rc_grants ex_file) = Ok (ac_grants ex_resolved)"
  by (simp add: resolve_grants_def raw_grants_default_def DEFAULT_NONCE_TTL_def DEFAULT_MAX_ASSERTION_LIFETIME_def DEFAULT_GRANTS_ID_TOKEN_def ex_defs)

lemma ex_audit: "resolve_audit ex_conf_lib (rc_audit ex_file) = Ok (ac_audit ex_resolved)"
  by (simp add: resolve_audit_def raw_audit_default_def ex_thresholds ex_defs)

lemma ex_key_manager: "resolve_key_manager ex_conf_lib (rc_key_manager ex_file) = Ok (ac_key_manager ex_resolved)"
  by (simp add: resolve_key_manager_def resolve_local_key_def ex_defs)

lemma ex_store_sections:
  "resolve_repository ex_conf_lib (rc_repository ex_file) = Ok (ac_repository ex_resolved)"
  "resolve_session_repository ex_conf_lib (rc_session_repository ex_file) = Ok (ac_session_repository ex_resolved)"
  by (simp_all add: resolve_repository_def resolve_session_repository_def raw_repository_default_def raw_session_repository_default_def
      default_unconfigured_adapter_def DEFAULT_SESSION_CLEANUP_INTERVAL_def ex_defs)

lemma ex_rate_limit: "resolve_rate_limit ex_conf_lib (rc_rate_limit ex_file) = Ok (ac_rate_limit ex_resolved)"
  by (simp add: resolve_rate_limit_def raw_rate_limit_default_def DEFAULT_RATE_LIMIT_MAX_ENTRIES_def ex_defs)

lemma ex_sync_telemetry:
  "resolve_user_sync ex_conf_lib (rc_user_sync ex_file) = Ok (ac_user_sync ex_resolved)"
  "resolve_telemetry ex_conf_lib (rc_telemetry ex_file) = Ok (ac_telemetry ex_resolved)"
  by (simp_all add: resolve_user_sync_def resolve_telemetry_def ex_defs)

lemma ex_internal_api: "resolve_internal_api ex_conf_lib (rc_internal_api ex_file) = Ok (ac_internal_api ex_resolved)"
  by (simp add: resolve_internal_api_def raw_internal_api_default_def ex_defs DEFAULT_INTERNAL_API_HOST_def DEFAULT_INTERNAL_API_PORT_def
      DEFAULT_TOKEN_AUDIENCE_def DEFAULT_REQUIRED_CLAIM_def DEFAULT_REQUIRED_VALUE_def DEFAULT_MAX_AUTH_FAILURES_def
      DEFAULT_AUTH_FAILURE_WINDOW_def DEFAULT_AUTH_LOCKOUT_def DEFAULT_STATS_CACHE_TTL_def)

lemma ex_providers: "resolve_providers ex_conf_lib (rc_providers ex_file) = Ok (ac_providers ex_resolved)"
  by (simp add: resolve_providers_def resolve_provider_def provider_endpoint_def hm_get_def ex_defs)

lemma ex_valid: "validate_config ex_conf_lib ex_resolved = Ok ()"
  by (simp add: validate_config_def validate_internal_api_def internal_api_served_def uses_shared_secret_def uses_operator_token_def
      uses_mtls_def resolved_mtls_header_def DEFAULT_MTLS_SUBJECT_HEADER_def listeners_collide_def ex_defs)

lemma app_config_eta:
  "\<lparr>ac_server = ac_server r, ac_registration = ac_registration r, ac_session = ac_session r, ac_token = ac_token r,
     ac_grants = ac_grants r, ac_audit = ac_audit r, ac_key_manager = ac_key_manager r, ac_repository = ac_repository r,
     ac_session_repository = ac_session_repository r, ac_rate_limit = ac_rate_limit r, ac_user_sync = ac_user_sync r,
     ac_telemetry = ac_telemetry r, ac_internal_api = ac_internal_api r, ac_providers = ac_providers r\<rparr> = r"
  by simp

lemma ex_config_resolves: "resolve_config ex_conf_lib ex_file = Ok ex_resolved"
  by (simp add: resolve_config_def app_config_eta ex_server ex_plain ex_tok ex_grants ex_audit ex_key_manager ex_store_sections ex_rate_limit
      ex_sync_telemetry ex_internal_api ex_providers ex_valid)

lemma ex_file_text: "raw_text_ok ex_file"
  by code_simp

section \<open>Applications\<close>


theorem resolve_config_total_witness:
  "(\<exists>c. resolve_config ex_conf_lib ex_file = Ok c) \<or> (\<exists>d. resolve_config ex_conf_lib ex_file = Err (ConfigError d))"
  by (rule resolve_config_total [OF ex_file_text])

end
