(* ===== verification/Placeholders.thy ===== *)
theory Placeholders
  imports Results Third_Party Claims
begin

text \<open>
  Loading the configuration (\<open>crates/server/src/bootstrap.rs\<close>): the placeholders of the merged
  configuration tree, replaced from the environment, and the merge of a deployment's file onto the
  committed defaults. The environment is a function; a string slice at a byte that is no character
  boundary is a panic of the model.
\<close>

section \<open>Slices\<close>

definition is_continuation :: "char \<Rightarrow> bool" where
  "is_continuation c = (128 \<le> byte c \<and> byte c < 192)"

definition is_char_boundary :: "string \<Rightarrow> nat \<Rightarrow> bool" where
  "is_char_boundary s i = (i = length s \<or> i < length s \<and> \<not> is_continuation (s ! i))"

definition slice_from :: "string \<Rightarrow> nat \<Rightarrow> ('e, string) outcome" where
  "slice_from s i = (if is_char_boundary s i then Ok (drop i s) else Panic ''byte index is not a char boundary'')"

lemma slice_from_Ok: "slice_from s i = Ok r \<longleftrightarrow> r = drop i s \<and> is_char_boundary s i"
  by (auto simp: slice_from_def)

lemma utf8_chars_hd_length: "s \<noteq> [] \<Longrightarrow> 0 < length (hd (utf8_chars s))"
  by (cases s) auto

text \<open>Every string of Rust: each character is a lead byte with its continuation bytes.\<close>

fun strict_char :: "string \<Rightarrow> bool" where
  "strict_char [] = False"
| "strict_char (c # cs) = (length cs = utf8_len c - 1 \<and> \<not> is_continuation c \<and> list_all is_continuation cs)"

definition rust_string :: "string \<Rightarrow> bool" where
  "rust_string s = list_all strict_char (utf8_chars s)"

section \<open>Placeholders\<close>

definition PLACEHOLDER_NAME_LEN_MAX :: nat where
  "PLACEHOLDER_NAME_LEN_MAX = 256"

definition dollar :: char where "dollar = CHR 0x24"
definition lbrace :: char where "lbrace = CHR 0x7B"
definition rbrace :: char where "rbrace = CHR 0x7D"

text \<open>The first position in a list that satisfies a test.\<close>

fun position :: "('a \<Rightarrow> bool) \<Rightarrow> 'a list \<Rightarrow> nat option" where
  "position P [] = None"
| "position P (x # xs) = (if P x then Some 0 else map_option Suc (position P xs))"

definition scan_placeholder_name :: "string \<Rightarrow> (string \<times> nat) option" where
  "scan_placeholder_name rest = (let scan_bound = min (length rest) PLACEHOLDER_NAME_LEN_MAX in
     case position (\<lambda>b. b = rbrace) (take scan_bound rest) of
       None \<Rightarrow> None
     | Some close \<Rightarrow> Some (take close rest, close + 1))"

definition byte_at :: "string \<Rightarrow> nat \<Rightarrow> char option" where
  "byte_at s i = (if i < length s then Some (s ! i) else None)"

definition in_placeholder :: "string \<Rightarrow> string" where
  "in_placeholder path = '' at config path '' @ quote @ path @ quote"

definition placeholder_value :: "(string \<Rightarrow> string option) \<Rightarrow> string \<Rightarrow> string \<Rightarrow> string result" where
  "placeholder_value env path name =
     (let shown = ''config placeholder '' @ quote @ [dollar, lbrace] @ name @ [rbrace] @ quote @ in_placeholder path in
      if name = [] then Err (ConfigError (''empty placeholder name'' @ in_placeholder path))
      else case env name of
        None \<Rightarrow> Err (ConfigError (shown @ '' references unset environment variable '' @ quote @ name @ quote))
      | Some resolved \<Rightarrow>
          if resolved = [] then Err (ConfigError (shown @ '' references empty environment variable '' @ quote @ name @ quote))
          else Ok resolved)"

text \<open>The scanning loop from byte \<open>i\<close> on, with what it has written so far.\<close>

function resolve_from :: "(string \<Rightarrow> string option) \<Rightarrow> string \<Rightarrow> string \<Rightarrow> nat \<Rightarrow> string \<Rightarrow> string result" where
  "resolve_from env path input i out =
     (if i < length input then
        if byte_at input i = Some dollar \<and> byte_at input (i + 1) = Some dollar \<and> byte_at input (i + 2) = Some lbrace
        then resolve_from env path input (i + 3) (out @ [dollar, lbrace])
        else if byte_at input i = Some dollar \<and> byte_at input (i + 1) = Some lbrace
        then tryq (slice_from input (i + 2)) (\<lambda>rest.
          case scan_placeholder_name rest of
            None \<Rightarrow> Err (ConfigError (''malformed placeholder'' @ in_placeholder path))
          | Some (name, consumed) \<Rightarrow> tryq (placeholder_value env path name) (\<lambda>resolved.
              resolve_from env path input (i + (2 + consumed)) (out @ resolved)))
        else tryq (slice_from input i) (\<lambda>rest.
          let ch = hd (utf8_chars rest) in resolve_from env path input (i + length ch) (out @ ch))
      else if i = length input then Ok out
      else Panic ''resolver must consume the whole input, not overrun or stop short'')"
  by pat_completeness auto
termination
  by (relation "measure (\<lambda>(_, _, input, i, _). length input - i)")
    (use utf8_chars_hd_length in \<open>auto simp: slice_from_Ok diff_less_mono2\<close>)
declare resolve_from.simps [simp del]

definition resolve_placeholders_in_str :: "(string \<Rightarrow> string option) \<Rightarrow> string \<Rightarrow> string \<Rightarrow> string result" where
  "resolve_placeholders_in_str env input path = resolve_from env path input 0 []"

text \<open>The configuration tree; scalars that are not strings are left alone.\<close>

datatype 'x config_value = CV_String string | CV_Table "(string \<times> 'x config_value) list" | CV_Array "'x config_value list" | CV_Other 'x

definition nested_path :: "string \<Rightarrow> string \<Rightarrow> string" where
  "nested_path path key = (if path = ''<root>'' then key else path @ ''.'' @ key)"

definition item_path :: "string \<Rightarrow> nat \<Rightarrow> string" where
  "item_path path index = path @ ''['' @ show_nat index @ '']''"

fun resolve_placeholders :: "(string \<Rightarrow> string option) \<Rightarrow> 'x config_value \<Rightarrow> string \<Rightarrow> 'x config_value result"
  and resolve_table :: "(string \<Rightarrow> string option) \<Rightarrow> (string \<times> 'x config_value) list \<Rightarrow> string \<Rightarrow> (string \<times> 'x config_value) list result"
  and resolve_items :: "(string \<Rightarrow> string option) \<Rightarrow> 'x config_value list \<Rightarrow> string \<Rightarrow> nat \<Rightarrow> 'x config_value list result" where
  "resolve_placeholders env (CV_String s) path = map_outcome CV_String (resolve_placeholders_in_str env s path)"
| "resolve_placeholders env (CV_Table t) path = map_outcome CV_Table (resolve_table env t path)"
| "resolve_placeholders env (CV_Array items) path = map_outcome CV_Array (resolve_items env items path 0)"
| "resolve_placeholders env (CV_Other x) path = Ok (CV_Other x)"
| "resolve_table env [] path = Ok []"
| "resolve_table env ((key, nested) # t) path = tryq (resolve_placeholders env nested (nested_path path key)) (\<lambda>v.
     tryq (resolve_table env t path) (\<lambda>t'. Ok ((key, v) # t')))"
| "resolve_items env [] path index = Ok []"
| "resolve_items env (item # items) path index = tryq (resolve_placeholders env item (item_path path index)) (\<lambda>v.
     tryq (resolve_items env items path (Suc index)) (\<lambda>vs. Ok (v # vs)))"

section \<open>Merging onto the defaults\<close>

text \<open>A \<open>toml::Value\<close>: a table is its entries in iteration order, everything else is replaced whole.\<close>

datatype 'x toml = Toml_Table "(string \<times> 'x toml) list" | Toml_Leaf 'x

fun merge_toml :: "'x toml \<Rightarrow> 'x toml \<Rightarrow> 'x toml"
  and merge_entries :: "(string \<times> 'x toml) list \<Rightarrow> (string \<times> 'x toml) list \<Rightarrow> (string \<times> 'x toml) list" where
  "merge_toml (Toml_Table base) (Toml_Table over) = Toml_Table (merge_entries base over)"
| "merge_toml base value = value"
| "merge_entries base [] = base"
| "merge_entries base ((key, value) # over) = merge_entries
     (AList.update key (case map_of base key of Some existing \<Rightarrow> merge_toml existing value | None \<Rightarrow> value) base) over"

definition merge_raw_defaults :: "'x toml \<Rightarrow> 'x toml \<Rightarrow> 'x toml" where
  "merge_raw_defaults defaults override_value = merge_toml defaults override_value"

end
