(* ===== verification/Placeholder_Proofs.thy ===== *)
theory Placeholder_Proofs
  imports Placeholders
begin

text \<open>
  What the placeholder scan computes: a grammar of templates with its expansion, and the proof that
  the scan accepts exactly the templates whose variables are set, and never panics.
\<close>

section \<open>Suffixes of a string\<close>

lemma rust_string_Nil [simp]: "rust_string []"
  by (simp add: rust_string_def)

lemma rust_string_char: "strict_char c \<Longrightarrow> utf8_chars (c @ s) = c # utf8_chars s"
  by (cases c) auto

lemma rust_string_append: "strict_char c \<Longrightarrow> rust_string (c @ s) \<longleftrightarrow> rust_string s"
  by (simp add: rust_string_def rust_string_char)

lemma rust_string_hd: "rust_string s \<Longrightarrow> s \<noteq> [] \<Longrightarrow> \<not> is_continuation (hd s)"
  by (cases s) (auto simp: rust_string_def)

lemma rust_string_first:
  assumes "rust_string s" "s \<noteq> []"
  obtains c r where "s = c @ r" "strict_char c" "rust_string r" "hd (utf8_chars s) = c"
proof -
  have ne: "utf8_chars s \<noteq> []" using assms(2) by (cases s) auto
  let ?c = "hd (utf8_chars s)" and ?r = "concat (tl (utf8_chars s))"
  have s: "s = ?c @ ?r" using concat_utf8_chars [of s] ne by (metis concat.simps(2) list.collapse)
  have c: "strict_char ?c" using assms(1) ne by (cases "utf8_chars s") (auto simp: rust_string_def)
  then have "rust_string ?r" using assms(1) s rust_string_append by metis
  then show thesis using that s c by blast
qed

lemma rust_string_suffix:
  "rust_string (a @ b) \<Longrightarrow> b = [] \<or> \<not> is_continuation (hd b) \<Longrightarrow> rust_string b"
proof (induction "length a" arbitrary: a rule: less_induct)
  case less
  show ?case
  proof (cases "a = [] \<or> b = []")
    case False
    then obtain c r where c: "a @ b = c @ r" "strict_char c" "rust_string r"
      using rust_string_first [OF less.prems(1)] by blast
    then consider us where "a = c @ us" "us @ b = r" | us where "c = a @ us" "b = us @ r" "us \<noteq> []"
    proof -
      from c(1) obtain us where "a = c @ us \<and> us @ b = r \<or> a @ us = c \<and> b = us @ r" by (auto simp: append_eq_append_conv2)
      then show thesis using that by (cases "us = []") auto
    qed
    then show ?thesis
    proof cases
      case 1
      then have "length us < length a" using c(2) by (cases c) auto
      then show ?thesis using less.hyps [of us] 1 c(3) less.prems(2) by simp
    next
      case 2
      then have "hd b \<in> set (tl c)" using False by (cases a; cases us) auto
      then have "is_continuation (hd b)" using c(2) by (cases c) (auto simp: list_all_iff)
      then show ?thesis using less.prems(2) False by simp
    qed
  qed (use less.prems in auto)
qed

lemma rust_string_after:
  assumes "rust_string (a @ x # b)" "byte x < 128" shows "rust_string b"
proof -
  have x: "strict_char [x]" using assms(2) by (simp add: is_continuation_def utf8_len_def)
  have "rust_string (x # b)" using rust_string_suffix [OF assms(1)] assms(2) by (simp add: is_continuation_def)
  then show ?thesis using rust_string_append [OF x, of b] by simp
qed

lemma boundary_drop: "i \<le> length s \<Longrightarrow> rust_string (drop i s) \<Longrightarrow> slice_from s i = Ok (drop i s)"
  using rust_string_hd [of "drop i s"]
  by (cases "i = length s") (auto simp: slice_from_def is_char_boundary_def hd_drop_conv_nth)

section \<open>Templates\<close>

datatype part = Text string | Escape | Var string

fun render_part :: "part \<Rightarrow> string" where
  "render_part (Text c) = c"
| "render_part Escape = [dollar, dollar, lbrace]"
| "render_part (Var n) = [dollar, lbrace] @ n @ [rbrace]"

definition render :: "part list \<Rightarrow> string" where
  "render ps = concat (map render_part ps)"

fun expand_part :: "(string \<Rightarrow> string option) \<Rightarrow> part \<Rightarrow> string" where
  "expand_part env (Text c) = c"
| "expand_part env Escape = [dollar, lbrace]"
| "expand_part env (Var n) = (case env n of Some v \<Rightarrow> v | None \<Rightarrow> [])"

definition expand :: "(string \<Rightarrow> string option) \<Rightarrow> part list \<Rightarrow> string" where
  "expand env ps = concat (map (expand_part env) ps)"

definition opens :: "string \<Rightarrow> bool" where
  "opens s = (prefix [dollar, lbrace] s \<or> prefix [dollar, dollar, lbrace] s)"

text \<open>A text character opens nothing; a variable is named within the bound, and set.\<close>

fun template_ok :: "(string \<Rightarrow> string option) \<Rightarrow> part list \<Rightarrow> bool" where
  "template_ok env [] = True"
| "template_ok env (Text c # ps) = (strict_char c \<and> \<not> opens (c @ render ps) \<and> template_ok env ps)"
| "template_ok env (Escape # ps) = template_ok env ps"
| "template_ok env (Var n # ps) = (n \<noteq> [] \<and> rbrace \<notin> set n \<and> length n < PLACEHOLDER_NAME_LEN_MAX
     \<and> (\<exists>v. env n = Some v \<and> v \<noteq> []) \<and> template_ok env ps)"

lemma render_simps [simp]: "render [] = []" "render (p # ps) = render_part p @ render ps"
  by (simp_all add: render_def)

lemma expand_simps [simp]: "expand env [] = []" "expand env (p # ps) = expand_part env p @ expand env ps"
  by (simp_all add: expand_def)

section \<open>One step of the scan\<close>

lemma marks_distinct [simp]: "dollar \<noteq> lbrace" "lbrace \<noteq> dollar" "rbrace \<noteq> dollar" "byte rbrace < 128" "byte lbrace < 128"
  "byte dollar < 128"
  by (simp_all add: dollar_def lbrace_def rbrace_def byte_def)

lemma position_Some:
  "position P xs = Some i \<longleftrightarrow> i < length xs \<and> P (xs ! i) \<and> (\<forall>j < i. \<not> P (xs ! j))"
proof (induction xs arbitrary: i)
  case (Cons x xs)
  then show ?case by (cases i) (auto simp: less_Suc_eq_0_disj)
qed simp

lemma scan_name:
  "scan_placeholder_name rest = Some (name, k) \<longleftrightarrow>
     (\<exists>r. rest = name @ rbrace # r \<and> rbrace \<notin> set name \<and> length name < PLACEHOLDER_NAME_LEN_MAX \<and> k = length name + 1)"
proof
  assume "scan_placeholder_name rest = Some (name, k)"
  then obtain i where i: "position (\<lambda>b. b = rbrace) (take (min (length rest) PLACEHOLDER_NAME_LEN_MAX) rest) = Some i"
    "name = take i rest" "k = i + 1"
    by (auto simp: scan_placeholder_name_def Let_def split: option.splits)
  then have "i < length rest" "i < PLACEHOLDER_NAME_LEN_MAX" "rest ! i = rbrace" "\<forall>j < i. rest ! j \<noteq> rbrace"
    by (auto simp: position_Some)
  then show "\<exists>r. rest = name @ rbrace # r \<and> rbrace \<notin> set name \<and> length name < PLACEHOLDER_NAME_LEN_MAX \<and> k = length name + 1"
    using i(2,3) by (intro exI [of _ "drop (Suc i) rest"]) (use id_take_nth_drop [of i rest] in \<open>auto simp: in_set_conv_nth\<close>)
next
  assume "\<exists>r. rest = name @ rbrace # r \<and> rbrace \<notin> set name \<and> length name < PLACEHOLDER_NAME_LEN_MAX \<and> k = length name + 1"
  then obtain r where r: "rest = name @ rbrace # r" "rbrace \<notin> set name" "length name < PLACEHOLDER_NAME_LEN_MAX" "k = length name + 1"
    by blast
  then have "position (\<lambda>b. b = rbrace) (take (min (length rest) PLACEHOLDER_NAME_LEN_MAX) rest) = Some (length name)"
    by (auto simp: position_Some nth_append) (metis nth_mem)
  then show "scan_placeholder_name rest = Some (name, k)" using r by (simp add: scan_placeholder_name_def Let_def)
qed

lemma placeholder_value_Ok:
  "placeholder_value env path name = Ok v \<longleftrightarrow> name \<noteq> [] \<and> env name = Some v \<and> v \<noteq> []"
  by (auto simp: placeholder_value_def Let_def split: option.splits)

lemma byte_at_drop: "byte_at s (i + k) = byte_at (drop i s) k"
  by (simp add: byte_at_def less_diff_conv add.commute)

lemma byte_at_simps [simp]: "byte_at [] k = None" "byte_at (c # s) 0 = Some c" "byte_at (c # s) (Suc k) = byte_at s k"
  by (simp_all add: byte_at_def)

lemma opens_bytes:
  "opens s \<longleftrightarrow> byte_at s 0 = Some dollar \<and> byte_at s 1 = Some lbrace
     \<or> byte_at s 0 = Some dollar \<and> byte_at s 1 = Some dollar \<and> byte_at s 2 = Some lbrace"
  by (cases s; cases "tl s"; cases "tl (tl s)") (auto simp: opens_def numeral_2_eq_2)

lemma resolve_step:
  assumes "i \<le> length input" "rust_string (drop i input)"
  shows "resolve_from env path input i out = (let s = drop i input in
     if s = [] then Ok out
     else if prefix [dollar, dollar, lbrace] s then resolve_from env path input (i + 3) (out @ [dollar, lbrace])
     else if prefix [dollar, lbrace] s then
       (case scan_placeholder_name (drop 2 s) of
          None \<Rightarrow> Err (ConfigError (''malformed placeholder'' @ in_placeholder path))
        | Some (name, consumed) \<Rightarrow> tryq (placeholder_value env path name) (\<lambda>resolved.
            resolve_from env path input (i + (2 + consumed)) (out @ resolved)))
     else resolve_from env path input (i + length (hd (utf8_chars s))) (out @ hd (utf8_chars s)))"
proof -
  let ?s = "drop i input"
  have bytes: "byte_at input i = byte_at ?s 0" "byte_at input (i + 1) = byte_at ?s 1" "byte_at input (i + 2) = byte_at ?s 2"
    using byte_at_drop [of input i 0] by (simp_all only: byte_at_drop add_0_right)
  have esc: "byte_at input i = Some dollar \<and> byte_at input (i + 1) = Some dollar \<and> byte_at input (i + 2) = Some lbrace
      \<longleftrightarrow> prefix [dollar, dollar, lbrace] ?s"
    unfolding bytes by (cases ?s; cases "tl ?s"; cases "tl (tl ?s)") (auto simp: numeral_2_eq_2)
  have var: "byte_at input i = Some dollar \<and> byte_at input (i + 1) = Some lbrace \<longleftrightarrow> prefix [dollar, lbrace] ?s"
    unfolding bytes by (cases ?s; cases "tl ?s") auto
  have slice: "(slice_from input (i + 2) :: string result) = Ok (drop 2 ?s)" if pre: "prefix [dollar, lbrace] ?s"
  proof -
    obtain r where r: "?s = [dollar] @ lbrace # r" using pre by (auto simp: prefix_def)
    then have "rust_string r" using rust_string_after [of "[dollar]" lbrace r] assms(2) by simp
    moreover have d: "drop (i + 2) input = r" using r by (metis drop_drop add.commute append_Cons append_Nil drop_Suc_Cons drop_0 numeral_2_eq_2)
    moreover have "i + 2 \<le> length input" using arg_cong [OF r, of length] by simp
    ultimately show ?thesis using boundary_drop [of "i + 2" input] by (simp add: add.commute)
  qed
  have here: "(slice_from input i :: string result) = Ok ?s" by (rule boundary_drop [OF assms])
  have le: "?s = [] \<longleftrightarrow> \<not> i < length input" "\<not> i < length input \<Longrightarrow> i = length input" using assms(1) by auto
  show ?thesis
    unfolding resolve_from.simps [of env path input i out] esc var Let_def
    using le slice here
    by (cases "?s = []"; cases "prefix [dollar, dollar, lbrace] ?s"; cases "prefix [dollar, lbrace] ?s") simp_all
qed

section \<open>The scan accepts exactly the templates\<close>

lemma drop_append_length: "drop i s = a @ b \<Longrightarrow> drop (i + length a) s = b"
  by (metis add.commute append_eq_conv_conj drop_drop)

lemma drop_bound: "drop i s = a @ b \<Longrightarrow> a \<noteq> [] \<Longrightarrow> i + length a \<le> length s"
proof -
  assume h: "drop i s = a @ b" "a \<noteq> []"
  then have "length s - i = length a + length b" by (metis length_append length_drop)
  moreover have "0 < length a" using h(2) by simp
  ultimately show ?thesis by linarith
qed

lemma resolve_complete:
  "template_ok env ps \<Longrightarrow> drop i input = render ps \<Longrightarrow> i \<le> length input \<Longrightarrow> rust_string (drop i input) \<Longrightarrow>
   resolve_from env path input i out = Ok (out @ expand env ps)"
proof (induction ps arbitrary: i out)
  case (Cons p ps)
  have s: "drop i input = render_part p @ render ps" using Cons.prems(2) by simp
  have ne: "render_part p \<noteq> []" using Cons.prems(1) by (cases p) auto
  have next_drop: "drop (i + length (render_part p)) input = render ps" by (rule drop_append_length [OF s])
  have next_le: "i + length (render_part p) \<le> length input" by (rule drop_bound [OF s ne])
  have next_rust: "rust_string (render ps)"
  proof (cases p)
    case (Text c)
    then show ?thesis using Cons.prems(1,4) s by (simp add: rust_string_append)
  next
    case Escape
    then show ?thesis using Cons.prems(4) s rust_string_after [of "[dollar, dollar]" lbrace "render ps"] by simp
  next
    case (Var n)
    then show ?thesis using Cons.prems(4) s rust_string_after [of "[dollar, lbrace] @ n" rbrace "render ps"] by simp
  qed
  have IH: "template_ok env ps \<Longrightarrow> resolve_from env path input (i + length (render_part p)) out' = Ok (out' @ expand env ps)" for out'
    using Cons.IH [of "i + length (render_part p)" out'] next_drop next_le next_rust by simp
  show ?case
  proof (cases p)
    case (Text c)
    then have "hd (utf8_chars (drop i input)) = c" "drop i input \<noteq> []" "\<not> opens (drop i input)"
      using s Cons.prems(1) by (auto simp: rust_string_char)
    then show ?thesis using IH [of "out @ c"] Text Cons.prems(1)
      by (subst resolve_step [OF Cons.prems(3,4)]) (simp add: Let_def opens_def)
  next
    case Escape
    then show ?thesis using IH [of "out @ [dollar, lbrace]"] Cons.prems(1) s
      by (subst resolve_step [OF Cons.prems(3,4)]) (simp add: Let_def numeral_3_eq_3)
  next
    case (Var n)
    have "scan_placeholder_name (n @ rbrace # render ps) = Some (n, length n + 1)"
      using Var Cons.prems(1) by (simp add: scan_name)
    then show ?thesis using IH [of "out @ the (env n)"] Cons.prems(1) s Var
      by (subst resolve_step [OF Cons.prems(3,4)]) (auto simp: Let_def placeholder_value_def add.commute)
  qed
qed (subst resolve_step; simp)

lemma resolve_answers:
  "i \<le> length input \<Longrightarrow> rust_string (drop i input) \<Longrightarrow>
   (\<exists>ps. template_ok env ps \<and> drop i input = render ps \<and> resolve_from env path input i out = Ok (out @ expand env ps))
   \<or> (\<exists>d. resolve_from env path input i out = Err (ConfigError d))"
proof (induction "length input - i" arbitrary: i out rule: less_induct)
  case less
  let ?s = "drop i input"
  have go: ?case if a: "?s = render_part p @ r" "render_part p \<noteq> []" "rust_string r"
      and step: "resolve_from env path input i out = resolve_from env path input (i + length (render_part p)) (out @ expand_part env p)"
      and ok: "\<And>ps. template_ok env ps \<Longrightarrow> r = render ps \<Longrightarrow> template_ok env (p # ps)" for p r
  proof -
    have d: "drop (i + length (render_part p)) input = r" by (rule drop_append_length [OF a(1)])
    have le: "i + length (render_part p) \<le> length input" by (rule drop_bound [OF a(1,2)])
    have "length input - (i + length (render_part p)) < length input - i" using le a(2) by (cases "render_part p") auto
    from less.hyps [OF this le, of "out @ expand_part env p"] a(3) d
    consider ps where "template_ok env ps" "r = render ps" "resolve_from env path input i out = Ok (out @ expand_part env p @ expand env ps)"
      | e where "resolve_from env path input i out = Err (ConfigError e)" using step by auto
    then show ?case
    proof cases
      case 1
      then show ?thesis using ok [OF 1(1,2)] a(1) by (intro disjI1 exI [of _ "p # ps"]) simp
    qed blast
  qed
  note step = resolve_step [OF less.prems, of env path out, unfolded Let_def]
  show ?case
  proof (cases "?s = []")
    case True
    then show ?thesis using step by (intro disjI1 exI [of _ "[]"]) simp
  next
    case ne: False
    show ?thesis
    proof (cases "opens ?s")
      case False
      obtain c r where c: "?s = c @ r" "strict_char c" "rust_string r" "hd (utf8_chars ?s) = c"
        using rust_string_first [OF less.prems(2) ne] by blast
      show ?thesis using False c step ne
        by (intro go [of "Text c" r]) (auto simp: opens_def)
    next
      case True
      show ?thesis
      proof (cases "prefix [dollar, dollar, lbrace] ?s")
        case esc: True
        then obtain r where r: "?s = [dollar, dollar, lbrace] @ r" by (auto simp: prefix_def)
        then have "rust_string r" using less.prems(2) rust_string_after [of "[dollar, dollar]" lbrace r] by simp
        then show ?thesis using r step esc ne by (intro go [of Escape r]) (auto simp: numeral_3_eq_3)
      next
        case False
        then have var: "prefix [dollar, lbrace] ?s" using True by (simp add: opens_def)
        then obtain t where t: "?s = [dollar, lbrace] @ t" by (auto simp: prefix_def)
        show ?thesis
        proof (cases "scan_placeholder_name t")
          case None
          then show ?thesis using step var False t by auto
        next
          case (Some nk)
          then obtain n r where n: "nk = (n, length n + 1)" "t = n @ rbrace # r" "rbrace \<notin> set n" "length n < PLACEHOLDER_NAME_LEN_MAX"
            by (cases nk) (auto simp: scan_name)
          show ?thesis
          proof (cases "placeholder_value env path n")
            case (Ok v)
            have "rust_string r" using less.prems(2) t n(2) rust_string_after [of "[dollar, lbrace] @ n" rbrace r] by simp
            moreover have v: "n \<noteq> []" "env n = Some v" "v \<noteq> []" using Ok by (simp_all add: placeholder_value_Ok)
            moreover have "resolve_from env path input i out = resolve_from env path input (i + (3 + length n)) (out @ v)"
              using Ok Some n(1,2) t step var False by (simp add: add.commute numeral_3_eq_3)
            ultimately show ?thesis using n t by (intro go [of "Var n" r]) (auto simp: add.commute numeral_3_eq_3)
          qed (use Some n t step var False in \<open>auto simp: placeholder_value_def Let_def split: if_splits option.splits\<close>)
        qed
      qed
    qed
  qed
qed

section \<open>Strings and trees\<close>

definition expands :: "(string \<Rightarrow> string option) \<Rightarrow> string \<Rightarrow> string \<Rightarrow> bool" where
  "expands env s t = (\<exists>ps. template_ok env ps \<and> s = render ps \<and> t = expand env ps)"

lemma resolve_in_str:
  assumes "rust_string s"
  shows "resolve_placeholders_in_str env s path = Ok t \<longleftrightarrow> expands env s t"
    and "(\<exists>t. resolve_placeholders_in_str env s path = Ok t) \<or> (\<exists>d. resolve_placeholders_in_str env s path = Err (ConfigError d))"
proof -
  have total: "(\<exists>ps. template_ok env ps \<and> s = render ps \<and> resolve_placeholders_in_str env s path = Ok (expand env ps))
    \<or> (\<exists>d. resolve_placeholders_in_str env s path = Err (ConfigError d))"
    using resolve_answers [of 0 s env path "[]"] assms by (simp add: resolve_placeholders_in_str_def)
  have complete: "resolve_placeholders_in_str env s path = Ok t" if "expands env s t"
    using that resolve_complete [of env _ 0 s path "[]"] assms by (auto simp: expands_def resolve_placeholders_in_str_def)
  show "resolve_placeholders_in_str env s path = Ok t \<longleftrightarrow> expands env s t"
    using total complete by (auto simp: expands_def)
  show "(\<exists>t. resolve_placeholders_in_str env s path = Ok t) \<or> (\<exists>d. resolve_placeholders_in_str env s path = Err (ConfigError d))"
    using total by blast
qed

fun value_strings :: "'x config_value \<Rightarrow> string list"
  and table_strings :: "(string \<times> 'x config_value) list \<Rightarrow> string list"
  and item_strings :: "'x config_value list \<Rightarrow> string list" where
  "value_strings (CV_String s) = [s]"
| "value_strings (CV_Table t) = table_strings t"
| "value_strings (CV_Array items) = item_strings items"
| "value_strings (CV_Other x) = []"
| "table_strings [] = []"
| "table_strings ((k, v) # t) = value_strings v @ table_strings t"
| "item_strings [] = []"
| "item_strings (v # vs) = value_strings v @ item_strings vs"

text \<open>The tree with its strings blanked.\<close>

fun value_shape :: "'x config_value \<Rightarrow> 'x config_value"
  and table_shape :: "(string \<times> 'x config_value) list \<Rightarrow> (string \<times> 'x config_value) list"
  and item_shapes :: "'x config_value list \<Rightarrow> 'x config_value list" where
  "value_shape (CV_String s) = CV_String []"
| "value_shape (CV_Table t) = CV_Table (table_shape t)"
| "value_shape (CV_Array items) = CV_Array (item_shapes items)"
| "value_shape (CV_Other x) = CV_Other x"
| "table_shape [] = []"
| "table_shape ((k, v) # t) = (k, value_shape v) # table_shape t"
| "item_shapes [] = []"
| "item_shapes (v # vs) = value_shape v # item_shapes vs"

definition resolved_as :: "(string \<Rightarrow> string option) \<Rightarrow> ('a \<Rightarrow> string list) \<Rightarrow> ('a \<Rightarrow> 'a) \<Rightarrow> 'a \<Rightarrow> 'a result \<Rightarrow> bool" where
  "resolved_as env strings shape v r = (case r of
       Ok v' \<Rightarrow> shape v' = shape v \<and> list_all2 (expands env) (strings v) (strings v')
     | Err e \<Rightarrow> (\<exists>d. e = ConfigError d) \<and> (\<exists>s \<in> set (strings v). \<nexists>t. expands env s t)
     | Panic p \<Rightarrow> False)"

lemma resolve_tree:
  fixes v :: "'x config_value" and t :: "(string \<times> 'x config_value) list" and vs :: "'x config_value list"
  shows "list_all rust_string (value_strings v) \<Longrightarrow> resolved_as env value_strings value_shape v (resolve_placeholders env v path)"
  "list_all rust_string (table_strings t) \<Longrightarrow> resolved_as env table_strings table_shape t (resolve_table env t path)"
  "list_all rust_string (item_strings vs) \<Longrightarrow> resolved_as env item_strings item_shapes vs (resolve_items env vs path index)"
proof (induction env v path and env t path and env vs path index rule: resolve_placeholders_resolve_table_resolve_items.induct)
  case (1 env s path)
  then have s: "rust_string s" by simp
  show ?case
  proof (cases "resolve_placeholders_in_str env s path")
    case (Ok t)
    then show ?thesis using resolve_in_str(1) [OF s, of env path t] by (simp add: resolved_as_def)
  next
    case (Err e)
    then have "\<nexists>t. expands env s t" using resolve_in_str(1) [OF s, of env path] by simp
    then show ?thesis using Err resolve_in_str(2) [OF s, of env path] by (auto simp: resolved_as_def)
  qed (use resolve_in_str(2) [OF s, of env path] in auto)
next
  case (2 env t path)
  then show ?case by (cases "resolve_table env t path") (auto simp: resolved_as_def)
next
  case (3 env items path)
  then show ?case by (cases "resolve_items env items path 0") (auto simp: resolved_as_def)
next
  case (6 env key nested t path)
  then show ?case
    by (cases "resolve_placeholders env nested (nested_path path key)"; cases "resolve_table env t path")
      (auto simp: resolved_as_def intro: list_all2_appendI)
next
  case (8 env item items path index)
  then show ?case
    by (cases "resolve_placeholders env item (item_path path index)"; cases "resolve_items env items path (Suc index)")
      (auto simp: resolved_as_def intro: list_all2_appendI)
qed (auto simp: resolved_as_def)

section \<open>Merged trees, leaf by leaf\<close>

text \<open>Tables with distinct keys, as maps have them.\<close>

fun wf_toml :: "'x toml \<Rightarrow> bool" and wf_entries :: "(string \<times> 'x toml) list \<Rightarrow> bool" where
  "wf_toml (Toml_Table t) = (distinct (map fst t) \<and> wf_entries t)"
| "wf_toml (Toml_Leaf x) = True"
| "wf_entries [] = True"
| "wf_entries ((k, v) # t) = (wf_toml v \<and> wf_entries t)"

fun leaf_at :: "'x toml \<Rightarrow> string list \<Rightarrow> 'x option" where
  "leaf_at (Toml_Leaf x) [] = Some x"
| "leaf_at (Toml_Table t) (k # ks) = Option.bind (map_of t k) (\<lambda>v. leaf_at v ks)"
| "leaf_at _ _ = None"

text \<open>A file decides a path when it holds a value there, or a scalar above it.\<close>

fun decides :: "'x toml \<Rightarrow> string list \<Rightarrow> bool" where
  "decides (Toml_Leaf x) ks = True"
| "decides (Toml_Table t) [] = True"
| "decides (Toml_Table t) (k # ks) = (case map_of t k of None \<Rightarrow> False | Some v \<Rightarrow> decides v ks)"

lemma wf_entries_of: "wf_entries t \<Longrightarrow> map_of t k = Some v \<Longrightarrow> wf_toml v"
  by (induction t) (auto split: if_splits)

lemma map_of_merge_entries:
  "distinct (map fst over) \<Longrightarrow> map_of (merge_entries base over) k = (case map_of over k of None \<Rightarrow> map_of base k
     | Some v \<Rightarrow> Some (case map_of base k of Some b \<Rightarrow> merge_toml b v | None \<Rightarrow> v))"
proof (induction over arbitrary: base)
  case (Cons e over)
  obtain key v where e: "e = (key, v)" by (cases e)
  have "map_of over key = None" using Cons.prems e by (auto simp: map_of_eq_None_iff)
  then show ?case using Cons e by (auto simp: update_conv' split: option.splits)
qed simp

lemma undecided_None: "\<not> decides over ks \<Longrightarrow> leaf_at over ks = None"
  by (induction over ks rule: decides.induct) (auto split: option.splits)

lemma leaf_at_merge:
  "wf_toml over \<Longrightarrow> leaf_at (merge_toml base over) ks = (if decides over ks then leaf_at over ks else leaf_at base ks)"
proof (induction ks arbitrary: base over)
  case Nil
  then show ?case by (cases over; cases base) auto
next
  case (Cons k ks)
  show ?case
  proof (cases over)
    case over: (Toml_Table t)
    show ?thesis
    proof (cases base)
      case (Toml_Table b)
      have "map_of t k = Some v \<Longrightarrow> wf_toml v" for v using Cons.prems over by (auto intro: wf_entries_of)
      then show ?thesis using Cons over Toml_Table
        by (auto simp: map_of_merge_entries undecided_None split: option.splits)
    next
      case (Toml_Leaf y)
      then show ?thesis using over undecided_None [of over "k # ks"] by auto
    qed
  qed simp
qed

end
