(* ===== verification/Loading_Properties.thy ===== *)
theory Loading_Properties
  imports Placeholder_Proofs
begin

text \<open>
  The properties of configuration loading: placeholders and the merge onto the defaults.
\<close>


text \<open>A file overrides the defaults leaf by leaf: at every path the merged tree holds what the file holds
  there, or nothing where the file put a scalar above it, and the default exactly where the file does
  not say anything.\<close>

theorem merge_leaf_by_leaf:
  assumes "wf_toml over"
  shows "leaf_at (merge_raw_defaults defaults over) ks = (if decides over ks then leaf_at over ks else leaf_at defaults ks)"
  unfolding merge_raw_defaults_def by (rule leaf_at_merge [OF assms])

section \<open>Applications\<close>

definition ex_environment :: "string \<Rightarrow> string option" where
  "ex_environment n = (if n = ''HOST'' then Some ''db'' else None)"

definition ex_tree :: "string \<Rightarrow> unit config_value" where
  "ex_tree s = CV_Table [(''url'', CV_String s)]"

lemma ex_tree_run: "resolve_placeholders ex_environment (ex_tree ''pg://${HOST}/x'') ''<root>'' = Ok (ex_tree ''pg://db/x'')"
  by code_simp


theorem merge_leaf_by_leaf_witness:
  "leaf_at (merge_raw_defaults (Toml_Table [(''server'', Toml_Table [(''host'', Toml_Leaf 1), (''port'', Toml_Leaf 2)])])
      (Toml_Table [(''server'', Toml_Table [(''port'', Toml_Leaf (3 :: nat))])])) [''server'', ''host''] = Some 1"
  by (subst merge_leaf_by_leaf) simp_all

text \<open>A placeholder that is never closed is an error, not text.\<close>

theorem unclosed_placeholder_fails:
  "\<exists>d. resolve_placeholders_in_str ex_environment ''a${HOST'' ''<root>'' = Err (ConfigError d)"
proof -
  have "(case resolve_placeholders_in_str ex_environment ''a${HOST'' ''<root>'' of Err (ConfigError d) \<Rightarrow> True | _ \<Rightarrow> False)" by code_simp
  then show ?thesis by (cases "resolve_placeholders_in_str ex_environment ''a${HOST'' ''<root>''") (auto split: error.splits)
qed

end
