(* ===== verification/Operator_Auth.thy ===== *)
theory Operator_Auth
  imports Access_Token Assertion
begin

text \<open>
  Operator authentication for the admin plane (\<open>crates/server/src/middleware/operator_auth.rs\<close>): the
  three mechanisms that turn a presented credential into a named principal, and the gate that tries
  them in configured order. A header map is the list of lower-case names with their value bytes;
  \<open>serde_json::from_slice\<close> is a parameter. Log lines are left out.
\<close>

section \<open>Requests as the mechanisms see them\<close>

type_synonym header_map = "(string \<times> string) list"

definition header_get :: "header_map \<Rightarrow> string \<Rightarrow> string option" where
  "header_get hs name = map_of hs name"

text \<open>\<open>HeaderValue::to_str\<close>: visible ASCII, spaces and tabs.\<close>

definition header_to_str :: "string \<Rightarrow> string option" where
  "header_to_str v = (if list_all (\<lambda>b. byte b = 9 \<or> 32 \<le> byte b \<and> byte b < 127) v then Some v else None)"

record auth_input =
  ai_bearer :: "string option"
  ai_headers :: header_map

text \<open>\<open>Value::get\<close>, \<open>as_str\<close> and \<open>as_u64\<close>.\<close>

fun json_get :: "json \<Rightarrow> string \<Rightarrow> json option" where
  "json_get (JObject fs) k = hm_get fs k"
| "json_get _ k = None"

fun json_u64 :: "json \<Rightarrow> u64 option" where
  "json_u64 (JInt n) = (if 0 \<le> n \<and> n < 2 ^ 64 then Some (word_of_int n) else None)"
| "json_u64 _ = None"

definition json_get_str :: "json \<Rightarrow> string \<Rightarrow> string option" where
  "json_get_str j k = Option.bind (json_get j k) as_str"

section \<open>The mechanisms\<close>

definition MAX_MTLS_SUBJECT_BYTES :: nat where "MAX_MTLS_SUBJECT_BYTES = 4096"
definition OPERATOR_TOKEN_CLOCK_SKEW_LEEWAY_SECS :: u64 where "OPERATOR_TOKEN_CLOCK_SKEW_LEEWAY_SECS = 30"
definition MAX_OPERATOR_TOKEN_TTL_SECS :: u64 where "MAX_OPERATOR_TOKEN_TTL_SECS = 24 * 60 * 60"

record operator_token_auth =
  ot_keys :: key_manager
  ot_issuer :: string
  ot_audience :: string
  ot_required_claim :: string
  ot_required_value :: string

datatype authenticator = A_SharedSecret string | A_OperatorToken operator_token_auth | A_Mtls string

definition operator_token_new :: "key_manager \<Rightarrow> string \<Rightarrow> string \<Rightarrow> string \<Rightarrow> string \<Rightarrow> authenticator result" where
  "operator_token_new K issuer audience claim value =
     (if trim issuer = [] then Panic ''operator-token verification requires a non-empty issuer''
      else if trim audience = [] then Panic ''operator-token verification requires a non-empty audience''
      else if trim claim = [] then Panic ''operator-token verification requires a non-empty required claim name''
      else Ok (A_OperatorToken \<lparr>ot_keys = K, ot_issuer = issuer, ot_audience = audience, ot_required_claim = claim, ot_required_value = value\<rparr>))"

definition mtls_new :: "string \<Rightarrow> authenticator result" where
  "mtls_new subject_header = (if trim subject_header = [] then Panic ''the mtls mechanism requires a non-empty subject header name''
     else Ok (A_Mtls (to_ascii_lowercase subject_header)))"

fun auth_mechanism :: "authenticator \<Rightarrow> operator_auth_mechanism" where
  "auth_mechanism (A_SharedSecret _) = SharedSecret"
| "auth_mechanism (A_OperatorToken _) = OperatorToken"
| "auth_mechanism (A_Mtls _) = MutualTls"

definition operator_ct_eq :: "'x lib_scheme \<Rightarrow> string \<Rightarrow> string \<Rightarrow> bool" where
  "operator_ct_eq L a b = (if length a \<noteq> length b then False else ct_eq L a b)"

type_synonym ('s, 'u, 'r, 'a) auth_prog = "(('s, 'u, 'r) world, operator_auth_failure_reason, 'a) prog"

text \<open>An assertion of a principal inside a computation whose errors are rejection reasons.\<close>

definition assert_principal :: "operator_principal \<Rightarrow> ('w, 'e, unit) prog" where
  "assert_principal p = (case operator_assert_invariants p of Panic msg \<Rightarrow> panic msg | _ \<Rightarrow> ret ())"

definition shared_secret_authenticate ::
  "'x lib_scheme \<Rightarrow> string \<Rightarrow> auth_input \<Rightarrow> (operator_auth_failure_reason, operator_principal) outcome" where
  "shared_secret_authenticate L expected input = (case ai_bearer input of
       None \<Rightarrow> Err OA_MissingCredential
     | Some presented \<Rightarrow> if operator_ct_eq L presented expected then Ok unattributed else Err OA_InvalidCredential)"

text \<open>The envelope: its algorithm and its claims, when all three segments decode.\<close>

definition decode_operator_token :: "'x lib_scheme \<Rightarrow> (string \<Rightarrow> json option) \<Rightarrow> string \<Rightarrow> (string \<times> json hashmap) option" where
  "decode_operator_token L J token = (case split_on (CHR ''.'') token of
       [h, p, s] \<Rightarrow>
         Option.bind (b64url_decode L h) (\<lambda>header_bytes.
         Option.bind (J header_bytes) (\<lambda>header.
         Option.bind (json_get_str header ''alg'') (\<lambda>alg.
         Option.bind (b64url_decode L p) (\<lambda>payload_bytes.
         Option.bind (J payload_bytes) (\<lambda>payload.
         case payload of
           JObject claims \<Rightarrow> Option.bind (b64url_decode L s) (\<lambda>_. Some (alg, claims))
         | _ \<Rightarrow> None)))))
     | _ \<Rightarrow> None)"

definition aud_matches :: "string \<Rightarrow> json hashmap \<Rightarrow> bool" where
  "aud_matches audience claims = (case hm_get claims ''aud'' of
       Some (JString aud) \<Rightarrow> aud = audience
     | Some (JArray auds) \<Rightarrow> audience \<in> set (List.map_filter as_str auds)
     | _ \<Rightarrow> False)"

definition now_unix_secs :: "instant \<Rightarrow> u64" where
  "now_unix_secs t = (if t < 0 then 0 else word_of_int (timestamp t))"

text \<open>The checks behind the signature, in their order.\<close>

definition check_operator_claims :: "operator_token_auth \<Rightarrow> json hashmap \<Rightarrow> u64 \<Rightarrow> (operator_auth_failure_reason, operator_principal) outcome" where
  "check_operator_claims T claims now =
     (let claim_str = (\<lambda>k. Option.bind (hm_get claims k) as_str) in
      if claim_str ''iss'' \<noteq> Some (ot_issuer T) then Err OA_InvalidCredential
      else if \<not> aud_matches (ot_audience T) claims then Err OA_InvalidCredential
      else case Option.bind (hm_get claims ''exp'') json_u64 of
        None \<Rightarrow> Err OA_InvalidCredential
      | Some expires \<Rightarrow>
          if now \<ge> saturating_add_u64 expires OPERATOR_TOKEN_CLOCK_SKEW_LEEWAY_SECS then Err OA_InvalidCredential
          else if expires > now + MAX_OPERATOR_TOKEN_TTL_SECS + OPERATOR_TOKEN_CLOCK_SKEW_LEEWAY_SECS then Err OA_InvalidCredential
          else if claim_str (ot_required_claim T) \<noteq> Some (ot_required_value T) then Err OA_InvalidCredential
          else case claim_str ''sub'' of
            None \<Rightarrow> Err OA_InvalidCredential
          | Some subject \<Rightarrow>
              if subject = [] then Err OA_InvalidCredential
              else Ok \<lparr>op_id = subject, op_mechanism = OperatorToken\<rparr>)"

definition operator_token_authenticate ::
  "'x lib_scheme \<Rightarrow> (string \<Rightarrow> json option) \<Rightarrow> operator_token_auth \<Rightarrow> auth_input \<Rightarrow> ('s, 'u, 'r, operator_principal) auth_prog" where
  "operator_token_authenticate L J T input = (case ai_bearer input of
       None \<Rightarrow> throw OA_MissingCredential
     | Some token \<Rightarrow> (case decode_operator_token L J token of
         None \<Rightarrow> throw OA_InvalidCredential
       | Some (alg, claims) \<Rightarrow>
           if alg \<noteq> km_algorithm (ot_keys T) then throw OA_InvalidCredential
           else (case split_on (CHR ''.'') token of
             [h, p, s] \<Rightarrow> (case b64url_decode L s of
                 None \<Rightarrow> throw OA_InvalidCredential
               | Some signature \<Rightarrow>
                   bindq (and_then (outside_result (\<lambda>n. km_verify (ot_keys T) n (h @ ''.'' @ p) signature))
                           ret (\<lambda>_. throw OA_InvalidCredential)) (\<lambda>verified.
                   if \<not> verified then throw OA_InvalidCredential
                   else bindq utc_now (\<lambda>now.
                     bindq (from_outcome (check_operator_claims T claims (now_unix_secs now))) (\<lambda>principal.
                     seqq (assert_principal principal) (ret principal)))))
           | _ \<Rightarrow> panic ''index out of bounds'')))"

definition mtls_authenticate :: "string \<Rightarrow> auth_input \<Rightarrow> ('w, operator_auth_failure_reason, operator_principal) prog" where
  "mtls_authenticate subject_header input = (case header_get (ai_headers input) subject_header of
       None \<Rightarrow> throw OA_MissingCredential
     | Some value \<Rightarrow> (case header_to_str value of
         None \<Rightarrow> throw OA_InvalidCredential
       | Some text \<Rightarrow>
           let subject = trim text in
           if subject = [] then throw OA_InvalidCredential
           else if length subject > MAX_MTLS_SUBJECT_BYTES then throw OA_InvalidCredential
           else let principal = \<lparr>op_id = subject, op_mechanism = MutualTls\<rparr> in
             seqq (assert_principal principal) (ret principal)))"

fun operator_authenticate ::
  "'x lib_scheme \<Rightarrow> (string \<Rightarrow> json option) \<Rightarrow> authenticator \<Rightarrow> auth_input \<Rightarrow> ('s, 'u, 'r, operator_principal) auth_prog" where
  "operator_authenticate L J (A_SharedSecret expected) input = from_outcome (shared_secret_authenticate L expected input)"
| "operator_authenticate L J (A_OperatorToken T) input = operator_token_authenticate L J T input"
| "operator_authenticate L J (A_Mtls h) input = mtls_authenticate h input"

section \<open>The gate\<close>

definition gate_new :: "authenticator list \<Rightarrow> authenticator list result" where
  "gate_new authenticators = (if authenticators = [] then Panic ''an operator-auth gate needs at least one mechanism'' else Ok authenticators)"

text \<open>The loop over the mechanisms, with what has been seen rejected so far.\<close>

primrec gate_loop ::
  "'x lib_scheme \<Rightarrow> (string \<Rightarrow> json option) \<Rightarrow> auth_input \<Rightarrow> authenticator list \<Rightarrow> bool \<Rightarrow> bool \<Rightarrow> ('s, 'u, 'r, operator_principal) auth_prog" where
  "gate_loop L J input [] saw_presented saw_missing =
     throw (if saw_presented then OA_InvalidCredential else if saw_missing then OA_MissingCredential else OA_NotConfigured)"
| "gate_loop L J input (a # as) saw_presented saw_missing =
     and_then (operator_authenticate L J a input)
       (\<lambda>principal. seqq (assert_principal principal) (ret principal))
       (\<lambda>reason. gate_loop L J input as (saw_presented \<or> reason = OA_InvalidCredential) (saw_missing \<or> reason = OA_MissingCredential))"

definition gate_authenticate ::
  "'x lib_scheme \<Rightarrow> (string \<Rightarrow> json option) \<Rightarrow> authenticator list \<Rightarrow> auth_input \<Rightarrow> ('s, 'u, 'r, operator_principal) auth_prog" where
  "gate_authenticate L J authenticators input = gate_loop L J input authenticators False False"

end
