(* ===== verification/Http.thy ===== *)
theory Http
  imports Operator_Auth Config
begin

text \<open>
  Requests and responses of the server crate: the error mapping (\<open>crates/server/src/error.rs\<close>), the
  layers every route runs under (\<open>middleware/cache_control.rs\<close>, \<open>error_handler.rs\<close>, \<open>request_id.rs\<close>,
  \<open>base_path.rs\<close>) and the address a request is accounted to (\<open>middleware/audit_context.rs\<close>).
  What axum and serde do is the shape of these records: a header map is its list of lower-case
  names, a form its fields, a body the value it serialises.
\<close>

section \<open>Messages\<close>

datatype 'p body = B_Empty | B_Json json | B_Value 'p

record 'p response =
  rs_status :: nat
  rs_headers :: header_map
  rs_body :: "'p body"
  rs_oauth_code :: "string option"

definition respond :: "nat \<Rightarrow> 'p body \<Rightarrow> 'p response" where
  "respond status body = \<lparr>rs_status = status, rs_headers = [], rs_body = body, rs_oauth_code = None\<rparr>"

definition header_insert :: "string \<Rightarrow> string \<Rightarrow> 'p response \<Rightarrow> 'p response" where
  "header_insert name v r = r\<lparr>rs_headers := AList.update name v (rs_headers r)\<rparr>"

definition error_body :: "string \<Rightarrow> string \<Rightarrow> 'p body" where
  "error_body code description = B_Json (JObject [(''error'', JString code), (''error_description'', JString description)])"

section \<open>The error mapping\<close>

datatype api_error = Domain error | UnsupportedGrantType

text \<open>The closed set of codes a response is tagged with; another one is \<open>unreachable!\<close>.\<close>

definition RENDERED_CODES :: "string list" where
  "RENDERED_CODES = [''invalid_request'', ''invalid_grant'', ''invalid_token'', ''unsupported_grant_type'', ''access_denied'',
     ''not_found'', ''conflict'', ''server_error'', ''slow_down'']"

definition oauth_error_response :: "nat \<Rightarrow> string \<Rightarrow> string \<Rightarrow> (error, 'p response) outcome" where
  "oauth_error_response status code description =
     (if code \<in> set RENDERED_CODES then Ok ((respond status (error_body code description))\<lparr>rs_oauth_code := Some code\<rparr>)
      else Panic ''map_domain_error emits a closed OAuth error code set'')"

fun map_domain_error_inner :: "error \<Rightarrow> nat \<times> string \<times> string" where
  "map_domain_error_inner (InvalidGrant r) = (400, ''invalid_grant'', client_description (InvalidGrant r))"
| "map_domain_error_inner (InvalidToken r) = (401, ''invalid_token'', client_description (InvalidToken r))"
| "map_domain_error_inner (InvalidRequest r) = (400, ''invalid_request'', r)"
| "map_domain_error_inner (UnknownProvider p) = (400, ''invalid_request'', client_description (UnknownProvider p))"
| "map_domain_error_inner (AccessDenied r) = (403, ''access_denied'', client_description (AccessDenied r))"
| "map_domain_error_inner (UserSuspended u) = (403, ''access_denied'', client_description (UserSuspended u))"
| "map_domain_error_inner (Unauthorized r) = (401, ''unauthorized'', client_description (Unauthorized r))"
| "map_domain_error_inner (Conflict d) = (409, ''conflict'', client_description (Conflict d))"
| "map_domain_error_inner (NotFound d) = (404, ''not_found'', client_description (NotFound d))"
| "map_domain_error_inner (TooManyRequests n) = (429, ''slow_down'', ''too many authentication attempts'')"
| "map_domain_error_inner (ProviderError p d) = (502, ''server_error'', client_description (ProviderError p d))"
| "map_domain_error_inner (ProviderTimeout p) = (504, ''server_error'', client_description (ProviderTimeout p))"
| "map_domain_error_inner (StoreError d) = (500, ''server_error'', client_description (StoreError d))"
| "map_domain_error_inner (KeyError d) = (500, ''server_error'', client_description (KeyError d))"
| "map_domain_error_inner (AuditError d) = (500, ''server_error'', client_description (AuditError d))"
| "map_domain_error_inner (SecurityAuditDurability d) = (500, ''server_error'', client_description (SecurityAuditDurability d))"
| "map_domain_error_inner (SyncError d) = (500, ''server_error'', client_description (SyncError d))"
| "map_domain_error_inner (ConfigError d) = (500, ''server_error'', client_description (ConfigError d))"

definition map_domain_error :: "error \<Rightarrow> (error, nat \<times> string \<times> string) outcome" where
  "map_domain_error e = (case map_domain_error_inner e of (status, code, description) \<Rightarrow>
     if description = display_error e then Panic ''map_domain_error: client description must stay generic, not the internal detail''
     else Ok (status, code, description))"

definition retry_after_header :: "u64 \<Rightarrow> string" where
  "retry_after_header secs = show_nat (max 1 (unat secs))"

fun error_into_response :: "api_error \<Rightarrow> (error, 'p response) outcome" where
  "error_into_response UnsupportedGrantType =
     oauth_error_response 400 ''unsupported_grant_type'' ''The grant_type parameter is not supported''"
| "error_into_response (Domain e) = tryq (map_domain_error e) (\<lambda>(status, code, description).
     tryq (oauth_error_response status code description) (\<lambda>response.
     Ok (case e of TooManyRequests secs \<Rightarrow> header_insert ''retry-after'' (retry_after_header secs) response | _ \<Rightarrow> response)))"

section \<open>Layers\<close>

definition panic_handler :: "'p response" where
  "panic_handler = respond 500 (error_body ''server_error'' ''internal server error'')"

text \<open>\<open>CatchPanicLayer\<close>: a panic below it becomes its handler's response.\<close>

definition catch_panic :: "('w, 'e, 'p response) prog \<Rightarrow> ('w, 'e, 'p response) prog" where
  "catch_panic m w = (case m w of (Panic _, w') \<Rightarrow> (Ok panic_handler, w') | r \<Rightarrow> r)"

definition no_store :: "'p response \<Rightarrow> 'p response" where
  "no_store r = header_insert ''pragma'' ''no-cache'' (header_insert ''cache-control'' ''no-store'' r)"

definition MAX_REQUEST_ID_LEN :: nat where
  "MAX_REQUEST_ID_LEN = 128"

definition is_alphanumeric_byte :: "char \<Rightarrow> bool" where
  "is_alphanumeric_byte c = (is_ascii_digit c \<or> 65 \<le> byte c \<and> byte c \<le> 90 \<or> 97 \<le> byte c \<and> byte c \<le> 122)"

definition is_acceptable_request_id :: "string \<Rightarrow> bool" where
  "is_acceptable_request_id v = (v \<noteq> [] \<and> length v \<le> MAX_REQUEST_ID_LEN
     \<and> list_all (\<lambda>b. is_alphanumeric_byte b \<or> b = CHR ''_'' \<or> b = CHR ''-'') v)"

text \<open>The id a request runs under; \<open>fresh\<close> is the generated UUID.\<close>

definition request_id :: "string \<Rightarrow> header_map \<Rightarrow> string" where
  "request_id fresh hs = (case Option.bind (header_get hs ''x-request-id'') header_to_str of
       Some s \<Rightarrow> if is_acceptable_request_id s then s else fresh
     | None \<Rightarrow> fresh)"

definition request_id_layer :: "string \<Rightarrow> header_map \<Rightarrow> ('w, 'e, 'p response) prog \<Rightarrow> ('w, 'e, 'p response) prog" where
  "request_id_layer fresh hs inner =
     seqq (assert_that (request_id fresh hs \<noteq> []) ''request_id must be non-empty: generated as a UUID v4 or reused from the request header'')
     (bindq inner (\<lambda>response. ret (header_insert ''x-request-id'' (request_id fresh hs) response)))"

text \<open>The base path.\<close>

definition strip_prefix_at_segment_boundary :: "string \<Rightarrow> string \<Rightarrow> string option" where
  "strip_prefix_at_segment_boundary path pre = (case strip_prefix pre path of
       Some rest \<Rightarrow> if rest = [] \<or> starts_with rest ''/'' then Some rest else None
     | None \<Rightarrow> None)"

text \<open>
  The path a request is routed by. \<open>uri_ok\<close> is the validation of the rebuilt URI, which keeps the
  query; a rebuilt path that did not change leaves the request alone.
\<close>

definition strip_base_path :: "(string \<Rightarrow> bool) \<Rightarrow> string option \<Rightarrow> string \<Rightarrow> string option \<Rightarrow> string" where
  "strip_base_path uri_ok base path query = (case base of
       None \<Rightarrow> path
     | Some pre \<Rightarrow>
         if pre = [] \<or> pre = ''/'' then path
         else (case strip_prefix_at_segment_boundary path pre of
             None \<Rightarrow> path
           | Some stripped \<Rightarrow>
               let new_path = (if stripped = [] then ''/'' else stripped);
                   new_path_and_query = (case query of Some q \<Rightarrow> new_path @ ''?'' @ q | None \<Rightarrow> new_path) in
               if \<not> uri_ok new_path_and_query then path
               else if new_path = path then path
               else new_path))"

section \<open>The address of a request\<close>

definition MAX_FORWARDED_HEADER_LEN :: nat where "MAX_FORWARDED_HEADER_LEN = 1024"
definition MAX_USER_AGENT_LEN :: nat where "MAX_USER_AGENT_LEN = 256"
definition MAX_DEVICE_ID_LEN :: nat where "MAX_DEVICE_ID_LEN = 256"
definition MAX_LOCATION_HEADER_LEN :: nat where "MAX_LOCATION_HEADER_LEN = 1024"
definition MAX_FORWARDED_CHAIN_ENTRIES :: nat where "MAX_FORWARDED_CHAIN_ENTRIES = unat MAX_TRUSTED_PROXY_HOPS"

text \<open>The parsers of the standard library and the crates the resolution calls.\<close>

record 'n net_lib =
  net_contains :: "'n \<Rightarrow> ip_addr \<Rightarrow> bool"
  parse_ip :: "string \<Rightarrow> ip_addr option"
  parse_socket_ip :: "string \<Rightarrow> ip_addr option"
  percent_decode_lossy :: "string \<Rightarrow> string"
  show_ip :: "ip_addr \<Rightarrow> string"

record audit_context =
  cx_client_addr :: client_addr
  cx_user_agent :: "string option"
  cx_device_id :: "string option"
  cx_location :: "session_location option"

definition bounded_header :: "header_map \<Rightarrow> string \<Rightarrow> nat \<Rightarrow> string option" where
  "bounded_header hs name max_len = Option.bind (header_get hs name) (\<lambda>v. map_option (take max_len) (header_to_str v))"

definition select_forwarded :: "'n net_lib \<Rightarrow> string \<Rightarrow> nat \<Rightarrow> ip_addr option" where
  "select_forwarded N forwarded hops =
     (if \<not> (1 \<le> hops \<and> hops \<le> MAX_FORWARDED_CHAIN_ENTRIES) then None
      else
        let entries = map trim (split_on (CHR '','') forwarded) in
        if entries = [] \<or> length entries > MAX_FORWARDED_CHAIN_ENTRIES then None
        else if hops - 1 < length entries then parse_ip N (rev entries ! (hops - 1)) else None)"

definition resolve_client_addr :: "'n net_lib \<Rightarrow> ip_addr option \<Rightarrow> string option \<Rightarrow> 'n list \<Rightarrow> nat \<Rightarrow> client_addr" where
  "resolve_client_addr N peer forwarded trusted hops = (case peer of
       None \<Rightarrow> UnknownAddr
     | Some p \<Rightarrow>
         if list_ex (\<lambda>net. net_contains N net p) trusted
         then (case Option.bind forwarded (\<lambda>f. select_forwarded N f hops) of Some a \<Rightarrow> Forwarded a | None \<Rightarrow> Peer p)
         else Peer p)"

definition decoded_header :: "'n net_lib \<Rightarrow> header_map \<Rightarrow> string option \<Rightarrow> string option" where
  "decoded_header N hs name = Option.bind name (\<lambda>n. Option.bind (header_get hs n) (\<lambda>raw.
     let decoded = percent_decode_lossy N (take MAX_LOCATION_HEADER_LEN raw) in
     if trim decoded \<noteq> [] then Some decoded else None))"

definition parse_header_ip :: "'n net_lib \<Rightarrow> string \<Rightarrow> ip_addr option" where
  "parse_header_ip N v0 = (let v = trim v0 in
     case parse_ip N v of
       Some ip \<Rightarrow> Some ip
     | None \<Rightarrow> (case parse_socket_ip N v of
         Some ip \<Rightarrow> Some ip
       | None \<Rightarrow> Option.bind (strip_prefix ''['' v) (\<lambda>rest.
           if ends_with rest '']'' then parse_ip N (butlast rest) else None)))"

text \<open>\<open>platform\<close> is the source address of a Lambda request context, \<open>supplied\<close> an embedder's location.\<close>

definition audit_context_with_location ::
  "'n net_lib \<Rightarrow> header_map \<Rightarrow> ip_addr option \<Rightarrow> ip_addr option \<Rightarrow> session_location option \<Rightarrow> 'n list \<Rightarrow> nat \<Rightarrow> session_location_config
     \<Rightarrow> audit_context" where
  "audit_context_with_location N hs platform connection supplied trusted hops C =
     (let forwarded = bounded_header hs ''x-forwarded-for'' MAX_FORWARDED_HEADER_LEN;
          peer = (case platform of Some ip \<Rightarrow> Some ip | None \<Rightarrow> connection);
          addr = resolve_client_addr N peer forwarded trusted hops;
          peer_trusted = (case peer of Some p \<Rightarrow> list_ex (\<lambda>net. net_contains N net p) trusted | None \<Rightarrow> False);
          honoured = (location_enabled C \<and> (peer_trusted \<or> slo_trust_headers_from_any_peer C));
          reported = (if honoured then Option.bind (decoded_header N hs (slo_ip_header C)) (parse_header_ip N) else None);
          read_location = (if honoured then session_location_new (decoded_header N hs (slo_city_header C))
            (decoded_header N hs (slo_region_header C)) (decoded_header N hs (slo_country_header C)) else None)
      in \<lparr>cx_client_addr = (case reported of
             None \<Rightarrow> addr
           | Some ip \<Rightarrow> if peer_trusted then Reported ip else (case asserted (show_ip N ip) of Some a \<Rightarrow> a | None \<Rightarrow> addr)),
          cx_user_agent = bounded_header hs ''user-agent'' MAX_USER_AGENT_LEN,
          cx_device_id = bounded_header hs ''x-device-id'' MAX_DEVICE_ID_LEN,
          cx_location = (case supplied of Some l \<Rightarrow> Some l | None \<Rightarrow> read_location)\<rparr>)"

text \<open>The context of an embedded request: no transport peer, no proxy trusted.\<close>

definition ffi_audit_context :: "'n net_lib \<Rightarrow> header_map \<Rightarrow> ip_addr option \<Rightarrow> session_location option \<Rightarrow> audit_context" where
  "ffi_audit_context N hs platform supplied = audit_context_with_location N hs platform platform supplied [] 1
     \<lparr>slo_city_header = None, slo_region_header = None, slo_country_header = None, slo_ip_header = None, slo_trust_headers_from_any_peer = False\<rparr>"

end
