(* ===== verification/Routes.thy ===== *)
theory Routes
  imports Http Exchange Refresh Revoke User_Admin
begin

text \<open>
  The handlers of the two planes (\<open>crates/server/src/routes\<close>): the parser of the token endpoint's form
  into a declared grant, the handlers behind each route, and the route tables. A handler is a program
  over the service's world whose errors are API errors.
\<close>

section \<open>The token endpoint's form\<close>

record token_form =
  tf_grant_type :: string
  tf_code :: "string option"
  tf_redirect_uri :: "string option"
  tf_provider :: "string option"
  tf_refresh_token :: "string option"
  tf_id_token :: "string option"
  tf_provider_access_token :: "string option"

record raw_token_form =
  rf_grant_type :: "string option"
  rf_code :: "string option"
  rf_redirect_uri :: "string option"
  rf_provider :: "string option"
  rf_refresh_token :: "string option"
  rf_id_token :: "string option"
  rf_provider_access_token :: "string option"

type_synonym 'a api_result = "(api_error, 'a) outcome"

definition missing_parameter :: "string \<Rightarrow> 'a api_result" where
  "missing_parameter name = Err (Domain (InvalidRequest (''missing required parameter: '' @ name)))"

definition token_form_of_raw :: "raw_token_form \<Rightarrow> token_form api_result" where
  "token_form_of_raw raw = (case rf_grant_type raw of
       None \<Rightarrow> missing_parameter ''grant_type''
     | Some grant_type \<Rightarrow> Ok \<lparr>tf_grant_type = grant_type, tf_code = rf_code raw, tf_redirect_uri = rf_redirect_uri raw,
         tf_provider = rf_provider raw, tf_refresh_token = rf_refresh_token raw, tf_id_token = rf_id_token raw,
         tf_provider_access_token = rf_provider_access_token raw\<rparr>)"

text \<open>\<open>None\<close> is axum's rejection of the body.\<close>

definition token_form_of_request :: "raw_token_form option \<Rightarrow> token_form api_result" where
  "token_form_of_request body = (case body of
       None \<Rightarrow> Err (Domain (InvalidRequest ''malformed request body: expected a urlencoded form''))
     | Some raw \<Rightarrow> token_form_of_raw raw)"

datatype token_grant =
    Grant_AuthorizationCode string string string
  | Grant_IdTokenAssertion string string "string option"
  | Grant_RefreshToken string

definition AUTHORIZATION_CODE :: string where "AUTHORIZATION_CODE = ''authorization_code''"
definition ID_TOKEN :: string where "ID_TOKEN = ''id_token''"
definition REFRESH_TOKEN :: string where "REFRESH_TOKEN = ''refresh_token''"

definition cross_grant :: "string \<Rightarrow> string \<Rightarrow> string option \<Rightarrow> unit api_result" where
  "cross_grant name grant field =
     guard_that (field = None) (Domain (InvalidRequest (name @ '' is not a parameter of the '' @ grant @ '' grant'')))"

definition required :: "string \<Rightarrow> string option \<Rightarrow> string api_result" where
  "required name field = (case field of Some v \<Rightarrow> Ok v | None \<Rightarrow> missing_parameter name)"

definition token_grant_of_form :: "token_form \<Rightarrow> token_grant api_result" where
  "token_grant_of_form f =
     (if tf_grant_type f = AUTHORIZATION_CODE then
        tryq (cross_grant ''id_token'' AUTHORIZATION_CODE (tf_id_token f)) (\<lambda>_.
        tryq (cross_grant ''refresh_token'' AUTHORIZATION_CODE (tf_refresh_token f)) (\<lambda>_.
        tryq (cross_grant ''provider_access_token'' AUTHORIZATION_CODE (tf_provider_access_token f)) (\<lambda>_.
        tryq (required ''provider'' (tf_provider f)) (\<lambda>provider.
        tryq (required ''code'' (tf_code f)) (\<lambda>code.
        tryq (required ''redirect_uri'' (tf_redirect_uri f)) (\<lambda>redirect_uri.
        Ok (Grant_AuthorizationCode provider code redirect_uri)))))))
      else if tf_grant_type f = ID_TOKEN then
        tryq (cross_grant ''code'' ID_TOKEN (tf_code f)) (\<lambda>_.
        tryq (cross_grant ''redirect_uri'' ID_TOKEN (tf_redirect_uri f)) (\<lambda>_.
        tryq (cross_grant ''refresh_token'' ID_TOKEN (tf_refresh_token f)) (\<lambda>_.
        tryq (required ''provider'' (tf_provider f)) (\<lambda>provider.
        tryq (required ''id_token'' (tf_id_token f)) (\<lambda>id_token.
        Ok (Grant_IdTokenAssertion provider id_token (tf_provider_access_token f)))))))
      else if tf_grant_type f = REFRESH_TOKEN then
        tryq (cross_grant ''provider'' REFRESH_TOKEN (tf_provider f)) (\<lambda>_.
        tryq (cross_grant ''code'' REFRESH_TOKEN (tf_code f)) (\<lambda>_.
        tryq (cross_grant ''redirect_uri'' REFRESH_TOKEN (tf_redirect_uri f)) (\<lambda>_.
        tryq (cross_grant ''id_token'' REFRESH_TOKEN (tf_id_token f)) (\<lambda>_.
        tryq (cross_grant ''provider_access_token'' REFRESH_TOKEN (tf_provider_access_token f)) (\<lambda>_.
        tryq (required ''refresh_token'' (tf_refresh_token f)) (\<lambda>refresh_token.
        Ok (Grant_RefreshToken refresh_token)))))))
      else Err UnsupportedGrantType)"

section \<open>Public handlers\<close>

datatype payload =
    P_Tokens token_response
  | P_User user
  | P_Page user_page
  | P_Stats admin_stats
  | P_Sessions "session_summary list"
  | P_Claims "json hashmap"
  | P_Count string u64

type_synonym ('s, 'u, 'r, 'a) handler = "(('s, 'u, 'r) world, api_error, 'a) prog"

text \<open>\<open>?\<close> on a service call: its error becomes a domain error of the API.\<close>

definition serve :: "('s, 'u, 'r, 'a) svc \<Rightarrow> ('s, 'u, 'r, 'a) handler" where
  "serve m = and_then m ret (\<lambda>e. throw (Domain e))"

text \<open>\<open>IntoResponse\<close> for a handler's result.\<close>

definition rendered :: "('s, 'u, 'r, 'p response) handler \<Rightarrow> ('s, 'u, 'r, 'p response) svc" where
  "rendered m = and_then m ret (\<lambda>e. from_outcome (error_into_response e))"

definition credential_of_grant :: "token_grant \<Rightarrow> audit_context \<Rightarrow> exchange_request option" where
  "credential_of_grant g cx = (case g of
       Grant_AuthorizationCode provider code redirect_uri \<Rightarrow> Some
         \<lparr>xr_credential = AuthorizationCode code redirect_uri, xr_provider = provider, xr_provider_access_token = None,
          xr_client_addr = cx_client_addr cx, xr_user_agent = cx_user_agent cx, xr_device_id = cx_device_id cx, xr_location = cx_location cx\<rparr>
     | Grant_IdTokenAssertion provider id_token access \<Rightarrow> Some
         \<lparr>xr_credential = IdTokenAssertion id_token, xr_provider = provider, xr_provider_access_token = access,
          xr_client_addr = cx_client_addr cx, xr_user_agent = cx_user_agent cx, xr_device_id = cx_device_id cx, xr_location = cx_location cx\<rparr>
     | Grant_RefreshToken _ \<Rightarrow> None)"

definition token_handler ::
  "('s, 'u, 'r) app_service \<Rightarrow> grants_config \<Rightarrow> audit_context \<Rightarrow> raw_token_form option \<Rightarrow> ('s, 'u, 'r, payload response) handler" where
  "token_handler A G cx body =
     bindq (from_outcome (token_form_of_request body)) (\<lambda>form.
     if tf_id_token form \<noteq> None \<and> \<not> gra_id_token G then throw UnsupportedGrantType
     else bindq (from_outcome (token_grant_of_form form)) (\<lambda>grant.
       bindq (case credential_of_grant grant cx of
           Some req \<Rightarrow> serve (exchange A req)
         | None \<Rightarrow> (case grant of
             Grant_RefreshToken tok \<Rightarrow> serve (refresh A
               \<lparr>rq_refresh_token = tok, rq_client_addr = cx_client_addr cx, rq_user_agent = cx_user_agent cx, rq_device_id = cx_device_id cx\<rparr>)
           | _ \<Rightarrow> panic ''unreachable grant''))
         (\<lambda>result. ret (respond 200 (B_Value (P_Tokens result))))))"

record revoke_form =
  vf_token :: string
  vf_token_type_hint :: "string option"

definition revoke_handler ::
  "('s, 'u, 'r) app_service \<Rightarrow> audit_context \<Rightarrow> revoke_form \<Rightarrow> ('s, 'u, 'r, payload response) handler" where
  "revoke_handler A cx form =
     (if vf_token form = [] then ret (respond 400 (error_body ''invalid_request'' ''the token parameter must not be empty''))
      else and_then (revoke A \<lparr>rv_token = vf_token form, rv_token_type_hint = vf_token_type_hint form,
               rv_client_addr = cx_client_addr cx, rv_user_agent = cx_user_agent cx, rv_device_id = cx_device_id cx\<rparr>)
         (\<lambda>_. ret (respond 200 B_Empty))
         (\<lambda>_. ret (respond 503 (error_body ''server_error'' ''internal server error''))))"

definition health_handler :: "('s, 'u, 'r, payload response) handler" where
  "health_handler = bindq (reads audit_sink_degraded) (\<lambda>degraded.
     if degraded then ret (respond 503 (B_Json (JObject [(''status'', JString ''degraded''), (''reason'', JString ''audit_sink_failure'')])))
     else ret (respond 200 (B_Json (JObject [(''status'', JString ''ok'')]))))"

definition nonce_handler :: "('s, 'u, 'r) app_service \<Rightarrow> grants_config \<Rightarrow> ('s, 'u, 'r, payload response) handler" where
  "nonce_handler A G =
     seqq (assert_that (gra_id_token G) ''POST /nonce must not be mounted when grants.id_token is disabled'')
     (bindq (serve (mint_nonce A)) (\<lambda>minted.
      seqq (assert_that (mn_nonce minted \<noteq> []) ''minted nonces are never empty'')
      (ret (respond 200 (B_Json (JObject [(''nonce'', JString (mn_nonce minted)), (''expires_in'', JInt (uint (mn_expires_in minted)))]))))))"

definition keys_handler :: "('s, 'u, 'r) app_service \<Rightarrow> ('s, 'u, 'r, payload response) handler" where
  "keys_handler A = bindq (serve (outside_result (km_public_jwk (keys A)))) (\<lambda>jwk. ret (respond 200 (B_Json (JObject [(''keys'', JArray [jwk])]))))"

definition grant_types_supported :: "bool \<Rightarrow> string list" where
  "grant_types_supported id_token_grant_enabled = [AUTHORIZATION_CODE, REFRESH_TOKEN] @ (if id_token_grant_enabled then [ID_TOKEN] else [])"

definition openid_config_handler :: "('s, 'u, 'r) app_service \<Rightarrow> string \<Rightarrow> grants_config \<Rightarrow> ('s, 'u, 'r, payload response) handler" where
  "openid_config_handler A issuer G = (let grant_types = grant_types_supported (gra_id_token G) in
     seqq (assert_that (AUTHORIZATION_CODE \<in> set grant_types \<and> REFRESH_TOKEN \<in> set grant_types) ''the always-served grants must never drop off discovery'')
     (seqq (assert_that ((ID_TOKEN \<in> set grant_types) = gra_id_token G) ''id_token advertisement must mirror the grants switch exactly'')
     (ret (respond 200 (B_Json (JObject
       [(''issuer'', JString issuer), (''jwks_uri'', JString (issuer @ ''/keys'')), (''token_endpoint'', JString (issuer @ ''/token'')),
        (''revocation_endpoint'', JString (issuer @ ''/revoke'')), (''grant_types_supported'', JArray (map JString grant_types)),
        (''response_types_supported'', JArray [JString ''code'']), (''subject_types_supported'', JArray [JString ''public'']),
        (''id_token_signing_alg_values_supported'', JArray [JString (km_algorithm (keys A))])]))))))"

end
