(* ===== verification/Admin_Plane.thy ===== *)
theory Admin_Plane
  imports Routes
begin

text \<open>
  The admin plane of the server: the authentication layer of \<open>/internal/*\<close>
  (\<open>crates/server/src/middleware/internal_auth.rs\<close>), the handlers it guards and their route table
  (\<open>routes/internal.rs\<close>). What axum's extractors read from a request is part of it: \<open>None\<close> is their
  rejection, answered with \<open>rejection\<close>.
\<close>

section \<open>Requests and routes\<close>

datatype http_method = M_GET | M_POST | M_PUT | M_PATCH | M_DELETE

datatype path_segment = Lit string | Param

type_synonym path_pattern = "path_segment list"

fun match_path :: "path_pattern \<Rightarrow> string list \<Rightarrow> string list option" where
  "match_path [] [] = Some []"
| "match_path (Lit l # ps) (s # ss) = (if s = l then match_path ps ss else None)"
| "match_path (Param # ps) (s # ss) = (if s = [] then None else map_option (Cons s) (match_path ps ss))"
| "match_path _ _ = None"

record list_users_query =
  lq_cursor :: "string option"
  lq_limit :: "u32 option"
  lq_removed_offset :: "string option"

record http_request =
  hr_method :: http_method
  hr_path :: "string list"
  hr_headers :: header_map
  hr_connection :: "ip_addr option"
  hr_route :: string
  hr_query :: "list_users_query option"
  hr_new_user :: "new_user option"
  hr_patch :: "user_patch option"
  hr_claims :: "json hashmap option"

datatype internal_endpoint =
    E_Stats | E_ListUsers | E_CreateUser | E_CleanupSessions | E_GetUser | E_UpdateUser | E_DeleteUser
  | E_ListUserSessions | E_RevokeUserSessions | E_RevokeUserSession | E_GetClaims | E_SetClaims | E_MergeClaims | E_ClearClaims

text \<open>The table of \<open>internal::router\<close>, relative to \<open>/internal\<close>.\<close>

definition internal_table :: "(path_pattern \<times> (http_method \<times> internal_endpoint) list) list" where
  "internal_table =
     [([Lit ''stats''], [(M_GET, E_Stats)]),
      ([Lit ''users''], [(M_GET, E_ListUsers), (M_POST, E_CreateUser)]),
      ([Lit ''sessions'', Lit ''cleanup''], [(M_POST, E_CleanupSessions)]),
      ([Lit ''users'', Param], [(M_GET, E_GetUser), (M_PATCH, E_UpdateUser), (M_DELETE, E_DeleteUser)]),
      ([Lit ''users'', Param, Lit ''sessions''], [(M_GET, E_ListUserSessions), (M_DELETE, E_RevokeUserSessions)]),
      ([Lit ''users'', Param, Lit ''sessions'', Param], [(M_DELETE, E_RevokeUserSession)]),
      ([Lit ''users'', Param, Lit ''claims''],
        [(M_GET, E_GetClaims), (M_PUT, E_SetClaims), (M_PATCH, E_MergeClaims), (M_DELETE, E_ClearClaims)])]"

section \<open>Handlers\<close>

definition not_found_user :: "string \<Rightarrow> payload response" where
  "not_found_user user_id = respond 404 (error_body ''not_found'' (''user not found: '' @ user_id))"

definition list_users_handler ::
  "('s, 'u, 'r) app_service \<Rightarrow> list_users_query \<Rightarrow> ('s, 'u, 'r, payload response) handler" where
  "list_users_handler A q =
     (if lq_removed_offset q \<noteq> None
      then throw (Domain (InvalidRequest ''the offset parameter has been removed; page with cursor/limit''))
      else bindq (serve (admin_list_users A (lq_cursor q) (lq_limit q))) (\<lambda>page. ret (respond 200 (B_Value (P_Page page)))))"

definition list_user_sessions_handler :: "('s, 'u, 'r) app_service \<Rightarrow> string \<Rightarrow> ('s, 'u, 'r, payload response) handler" where
  "list_user_sessions_handler A user_id = bindq (serve (admin_list_user_sessions A user_id)) (\<lambda>found. case found of
       Some sessions \<Rightarrow> ret (respond 200 (B_Value (P_Sessions sessions)))
     | None \<Rightarrow> ret (not_found_user user_id))"

definition get_user_handler :: "('s, 'u, 'r) app_service \<Rightarrow> string \<Rightarrow> ('s, 'u, 'r, payload response) handler" where
  "get_user_handler A user_id = bindq (serve (admin_get_user A user_id)) (\<lambda>found. case found of
       Some u \<Rightarrow> ret (respond 200 (B_Value (P_User u)))
     | None \<Rightarrow> ret (not_found_user user_id))"

text \<open>A handler whose body did not extract is never called.\<close>

definition extracted :: "payload response \<Rightarrow> 'b option \<Rightarrow> ('b \<Rightarrow> ('s, 'u, 'r, payload response) handler) \<Rightarrow> ('s, 'u, 'r, payload response) handler" where
  "extracted rejection x f = (case x of Some b \<Rightarrow> f b | None \<Rightarrow> ret rejection)"

fun internal_handler ::
  "('s, 'u, 'r) app_service \<Rightarrow> payload response \<Rightarrow> http_request \<Rightarrow> operator_principal \<Rightarrow> internal_endpoint \<Rightarrow> string list
     \<Rightarrow> ('s, 'u, 'r, payload response) handler" where
  "internal_handler A rejection q p E_Stats _ = bindq (serve (service_admin_stats A)) (\<lambda>s. ret (respond 200 (B_Value (P_Stats s))))"
| "internal_handler A rejection q p E_CleanupSessions _ =
     bindq (serve (service_cleanup_expired_sessions A)) (\<lambda>n. ret (respond 200 (B_Value (P_Count ''deleted'' n))))"
| "internal_handler A rejection q p E_ListUsers _ = extracted rejection (hr_query q) (list_users_handler A)"
| "internal_handler A rejection q p E_CreateUser _ = extracted rejection (hr_new_user q) (\<lambda>nu.
     bindq (serve (admin_create_user A p nu)) (\<lambda>u. ret (respond 201 (B_Value (P_User u)))))"
| "internal_handler A rejection q p E_GetUser [i] = get_user_handler A i"
| "internal_handler A rejection q p E_UpdateUser [i] = extracted rejection (hr_patch q) (\<lambda>patch.
     bindq (serve (admin_update_user A p i patch)) (\<lambda>u. ret (respond 200 (B_Value (P_User u)))))"
| "internal_handler A rejection q p E_DeleteUser [i] = seqq (serve (admin_delete_user A p i)) (ret (respond 200 B_Empty))"
| "internal_handler A rejection q p E_ListUserSessions [i] = list_user_sessions_handler A i"
| "internal_handler A rejection q p E_RevokeUserSessions [i] =
     bindq (serve (admin_revoke_user_sessions A p i)) (\<lambda>n. ret (respond 200 (B_Value (P_Count ''sessions_revoked'' n))))"
| "internal_handler A rejection q p E_RevokeUserSession [i, session_id] =
     seqq (serve (admin_revoke_user_session A p i session_id)) (ret (respond 204 B_Empty))"
| "internal_handler A rejection q p E_GetClaims [i] = bindq (serve (admin_get_claims A i)) (\<lambda>c. ret (respond 200 (B_Value (P_Claims c))))"
| "internal_handler A rejection q p E_SetClaims [i] = extracted rejection (hr_claims q) (\<lambda>c.
     seqq (serve (admin_set_claims A p i c)) (ret (respond 200 B_Empty)))"
| "internal_handler A rejection q p E_MergeClaims [i] = extracted rejection (hr_claims q) (\<lambda>c.
     seqq (serve (admin_merge_claims A p i c)) (ret (respond 200 B_Empty)))"
| "internal_handler A rejection q p E_ClearClaims [i] = seqq (serve (admin_clear_claims A p i)) (ret (respond 200 B_Empty))"
| "internal_handler A rejection q p _ _ = ret rejection"

section \<open>The authentication layer\<close>

definition bearer_token :: "header_map \<Rightarrow> string option" where
  "bearer_token hs = Option.bind (header_get hs ''authorization'') (\<lambda>v. Option.bind (header_to_str v) (strip_prefix ''Bearer ''))"

definition auth_event_detail :: "string \<Rightarrow> json hashmap" where
  "auth_event_detail route = [(''route'', JString route)]"

definition require_security_event ::
  "('s, 'u, 'r) app_service \<Rightarrow> security_event \<Rightarrow> client_addr \<Rightarrow> string \<Rightarrow> ('s, 'u, 'r, unit) svc" where
  "require_security_event A ev addr route =
     (let failure = (case ev of OperatorAuthenticationFailed reason \<Rightarrow> oa_audit_failure reason | _ \<Rightarrow> AF_ThrottleExceeded) in
      emit_security_event_with_detail A ev (Failure failure) None None addr None (auth_event_detail route))"

definition server_error_response :: "'p response" where
  "server_error_response = respond 500 (error_body ''server_error'' ''internal server error'')"

definition unauthorized_response :: "operator_auth_failure_reason \<Rightarrow> 'p response" where
  "unauthorized_response reason = respond 401 (error_body ''unauthorized'' (case reason of
       OA_MissingCredential \<Rightarrow> ''authentication required''
     | OA_InvalidCredential \<Rightarrow> ''invalid credential''
     | OA_NotConfigured \<Rightarrow> ''internal API authentication is not configured''))"

definition lockout_response :: "u64 \<Rightarrow> 'p response" where
  "lockout_response wait_secs = header_insert ''retry-after'' (show_nat (unat wait_secs))
     (respond 429 (error_body ''slow_down'' ''too many requests; retry later''))"

text \<open>The event of a refusal, then the refusal; an event that has to be durable and is not fails the request.\<close>

definition refuse_with ::
  "('s, 'u, 'r) app_service \<Rightarrow> security_event \<Rightarrow> client_addr \<Rightarrow> string \<Rightarrow> 'p response \<Rightarrow> ('s, 'u, 'r, 'p response) svc" where
  "refuse_with A ev addr route response =
     and_then (require_security_event A ev addr route) (\<lambda>_. ret response) (\<lambda>_. ret server_error_response)"

definition consume_failure :: "('s, 'u, 'r) app_service \<Rightarrow> rl_key option \<Rightarrow> ('s, 'u, 'r, unit) svc" where
  "consume_failure A peer_key = (case peer_key of
       None \<Rightarrow> ret ()
     | Some key \<Rightarrow> bindq utc_now (\<lambda>t. and_then (on_limits (consume (rate_limiter A) t key)) (\<lambda>_. ret ()) (\<lambda>_. ret ())))"

text \<open>Past the consultation: the mechanisms, then the handler or the refusal.\<close>

definition authenticate_request ::
  "('s, 'u, 'r) app_service \<Rightarrow> (string \<Rightarrow> json option) \<Rightarrow> authenticator list \<Rightarrow> http_request \<Rightarrow> client_addr \<Rightarrow> rl_key option
     \<Rightarrow> (operator_principal \<Rightarrow> ('s, 'u, 'r, payload response) svc) \<Rightarrow> ('s, 'u, 'r, payload response) svc" where
  "authenticate_request A J gate q addr peer_key next_handler =
     and_then (gate_authenticate (lib A) J gate \<lparr>ai_bearer = bearer_token (hr_headers q), ai_headers = hr_headers q\<rparr>)
       next_handler
       (\<lambda>reason. seqq (consume_failure A peer_key)
          (refuse_with A (OperatorAuthenticationFailed reason) addr (hr_route q) (unauthorized_response reason)))"

definition internal_auth_layer ::
  "('s, 'u, 'r) app_service \<Rightarrow> (string \<Rightarrow> json option) \<Rightarrow> authenticator list option \<Rightarrow> http_request
     \<Rightarrow> (operator_principal \<Rightarrow> ('s, 'u, 'r, payload response) svc) \<Rightarrow> ('s, 'u, 'r, payload response) svc" where
  "internal_auth_layer A J gate q next_handler = (case gate of
       None \<Rightarrow> ret (respond 500 (error_body ''server_error'' ''operator authentication is not wired''))
     | Some gate \<Rightarrow>
         let addr = (case hr_connection q of Some ip \<Rightarrow> Peer ip | None \<Rightarrow> UnknownAddr);
             peer_key = map_option RL_OperatorAuth (rate_limit_key addr);
             proceed = authenticate_request A J gate q addr peer_key next_handler in
         case peer_key of
           None \<Rightarrow> proceed
         | Some key \<Rightarrow> bindq utc_now (\<lambda>t.
             and_then (on_limits (check (rate_limiter A) t key))
               (\<lambda>decision. case decision of
                  Allow \<Rightarrow> proceed
                | Deny wait_secs \<Rightarrow> refuse_with A ThrottleExceeded addr (hr_route q) (lockout_response wait_secs))
               (\<lambda>_. ret server_error_response)))"

section \<open>Dispatch\<close>

fun lookup_route :: "(path_pattern \<times> 'e) list \<Rightarrow> string list \<Rightarrow> ('e \<times> string list) option" where
  "lookup_route [] path = None"
| "lookup_route ((pat, e) # rs) path = (case match_path pat path of Some params \<Rightarrow> Some (e, params) | None \<Rightarrow> lookup_route rs path)"

text \<open>
  \<open>nest\<close>: the layer wraps the routes below \<open>/internal\<close> and nothing else, so an unknown path is a 404
  of the router. A path that is known under another method passes the layer and is a 405.
\<close>

definition serve_internal ::
  "('s, 'u, 'r) app_service \<Rightarrow> (string \<Rightarrow> json option) \<Rightarrow> authenticator list option \<Rightarrow> payload response \<Rightarrow> http_request
     \<Rightarrow> ('s, 'u, 'r, payload response) svc option" where
  "serve_internal A J gate rejection q = (case hr_path q of
       p # rest \<Rightarrow> if p = ''internal'' then (case lookup_route internal_table rest of
           None \<Rightarrow> None
         | Some (methods, params) \<Rightarrow> Some (internal_auth_layer A J gate q (\<lambda>principal.
             case map_of methods (hr_method q) of
               Some e \<Rightarrow> rendered (internal_handler A rejection q principal e params)
             | None \<Rightarrow> ret (respond 405 B_Empty))))
         else None
     | [] \<Rightarrow> None)"

end
