(* ===== verification/Wiring.thy ===== *)
theory Wiring
  imports Admin_Plane Rate_Limit
begin

text \<open>
  How a resolved configuration becomes a service (\<open>crates/server/src/bootstrap.rs\<close>, \<open>reaper.rs\<close>): the
  adapters each section selects with the arguments their constructors get, the no-op adapters
  (\<open>crates/adapters/src/noop/mod.rs\<close>), the composite limiter, the operator gate and the durations the
  router and the reaper are built with. The constructors themselves open files, sockets and clients
  and are not part of it; \<open>load_keys\<close> stands for the key manager a plan is turned into.
\<close>

section \<open>The no-op adapters\<close>

definition noop_audit_sink :: "nat \<Rightarrow> audit_event \<Rightarrow> error option" where
  "noop_audit_sink _ _ = None"

definition noop_limiter_port :: "'r limiter_port" where
  "noop_limiter_port = \<lparr>check_and_consume = (\<lambda>_ _ s. (Ok Allow, s)), check = (\<lambda>_ _ s. (Ok Allow, s)), consume = (\<lambda>_ _ s. (Ok Allow, s))\<rparr>"

definition noop_key_manager :: key_manager where
  "noop_key_manager = \<lparr>
     km_sign = (\<lambda>_ _. Err (KeyError ''NoopKeyManager: signing not available in admin-only mode'')),
     km_verify = (\<lambda>_ _ _. Err (KeyError ''NoopKeyManager: verification not available in admin-only mode'')),
     km_public_jwk = (\<lambda>_. Err (KeyError ''NoopKeyManager: JWKS not available in admin-only mode'')),
     km_algorithm = ''none'', km_key_id = ''noop''\<rparr>"

definition noop_user_sync :: "nat \<Rightarrow> sync_call \<Rightarrow> error option" where
  "noop_user_sync _ _ = None"

section \<open>The limiters\<close>

text \<open>\<open>CompositeRateLimiter::route\<close>, over the pair of the two limiters' states.\<close>

definition on_exchange :: "('a \<Rightarrow> 'x \<times> 'a) \<Rightarrow> 'a \<times> 'b \<Rightarrow> 'x \<times> ('a \<times> 'b)" where
  "on_exchange f s = (case f (fst s) of (r, a) \<Rightarrow> (r, (a, snd s)))"

definition on_admin :: "('b \<Rightarrow> 'x \<times> 'b) \<Rightarrow> 'a \<times> 'b \<Rightarrow> 'x \<times> ('a \<times> 'b)" where
  "on_admin f s = (case f (snd s) of (r, b) \<Rightarrow> (r, (fst s, b)))"

definition route_key :: "rl_key \<Rightarrow> ('a \<Rightarrow> 'x \<times> 'a) \<Rightarrow> ('b \<Rightarrow> 'x \<times> 'b) \<Rightarrow> 'a \<times> 'b \<Rightarrow> 'x \<times> ('a \<times> 'b)" where
  "route_key key f g = (case key of RL_OperatorAuth _ \<Rightarrow> on_admin g | _ \<Rightarrow> on_exchange f)"

definition composite_port :: "'a limiter_port \<Rightarrow> 'b limiter_port \<Rightarrow> ('a \<times> 'b) limiter_port" where
  "composite_port X Y = \<lparr>
     check_and_consume = (\<lambda>now key. route_key key (check_and_consume X now key) (check_and_consume Y now key)),
     check = (\<lambda>now key. route_key key (check X now key) (check Y now key)),
     consume = (\<lambda>now key. route_key key (consume X now key) (consume Y now key))\<rparr>"

text \<open>A limiter with its initial state; the no-op limiter has none, so any state does.\<close>

definition build_rate_limiter :: "('n, 't) app_config \<Rightarrow> (rl_key limiter_state limiter_port \<times> rl_key limiter_state) result" where
  "build_rate_limiter c = (let r = ac_rate_limit c in
     if \<not> rlc_enabled r \<or> rlc_store r = RLS_None then Ok (noop_limiter_port, \<lparr>ls_buckets = [], ls_poisoned = False\<rparr>)
     else tryq (fixed_window_with_clock \<lparr>fw_window = uint (rlc_window r) * nanos, fw_per_ip = rlc_per_ip r,
             fw_per_ip_failures = rlc_per_ip_failures r, fw_per_subject = rlc_per_subject r,
             fw_per_provider = rlc_per_provider r, fw_max_entries = unat (rlc_max_entries r)\<rparr>) (\<lambda>(F, s).
       Ok (fixed_window_port F, s)))"

definition build_admin_limiter :: "('n, 't) app_config \<Rightarrow> (ip_addr limiter_state limiter_port \<times> ip_addr limiter_state) result" where
  "build_admin_limiter c = (let i = ac_internal_api c in
     if internal_api_served c
     then tryq (admin_limiter_new (iac_max_auth_failures i) (uint (iac_auth_failure_window i) * nanos) (uint (iac_auth_lockout i) * nanos)) (\<lambda>(L, s).
       Ok (admin_limiter_port L, s))
     else Ok (noop_limiter_port, \<lparr>ls_buckets = [], ls_poisoned = False\<rparr>))"

section \<open>Durations with asserted bounds\<close>

definition REQUEST_TIMEOUT_MAX_SECS :: u64 where "REQUEST_TIMEOUT_MAX_SECS = 60 * 60"
definition REAPER_INTERVAL_MAX_SECS :: u64 where "REAPER_INTERVAL_MAX_SECS = 30 * 24 * 60 * 60"

definition request_timeout_duration :: "('n, 't) app_config \<Rightarrow> u64 result" where
  "request_timeout_duration c = (let secs = srv_request_timeout (ac_server c) in
     if \<not> secs > 0 then Panic ''parsed request_timeout must be non-zero''
     else if \<not> secs \<le> REQUEST_TIMEOUT_MAX_SECS then Panic ''parsed request_timeout exceeds the sane upper bound''
     else Ok secs)"

definition stats_cache_ttl :: "('n, 't) app_config \<Rightarrow> u64 result" where
  "stats_cache_ttl c = (let ttl = iac_stats_cache_ttl (ac_internal_api c) in
     if \<not> ttl \<ge> MIN_STATS_CACHE_TTL_SECS then Panic ''stats_cache_ttl is below the usable minimum''
     else if \<not> ttl \<le> MAX_STATS_CACHE_TTL_SECS then Panic ''stats_cache_ttl exceeds the maximum''
     else Ok ttl)"

definition cleanup_interval_duration :: "('n, 't) app_config \<Rightarrow> u64 result" where
  "cleanup_interval_duration c = (let secs = cleanup_interval_secs (ac_session_repository c) in
     if \<not> secs > 0 then Panic ''resolved cleanup_interval must be non-zero''
     else if \<not> secs \<le> REAPER_INTERVAL_MAX_SECS then Panic ''parsed cleanup_interval exceeds the sane upper bound''
     else Ok secs)"

datatype host_runtime = HR_Persistent | HR_Lambda

fun hosts_reaper :: "host_runtime \<Rightarrow> bool" where
  "hosts_reaper HR_Persistent = True"
| "hosts_reaper HR_Lambda = False"

text \<open>The interval of the reaper a process gets, if it gets one.\<close>

definition spawn_session_reaper_for_runtime :: "('n, 't) app_config \<Rightarrow> host_runtime \<Rightarrow> u64 option result" where
  "spawn_session_reaper_for_runtime c runtime =
     (if \<not> hosts_reaper runtime then Ok None else tryq (cleanup_interval_duration c) (\<lambda>interval. Ok (Some interval)))"

section \<open>Stores\<close>

datatype store_plan =
    SP_Dynamodb string "string option" u64 u64
  | SP_Postgres string u32 bool u64
  | SP_Sqlite string u64
  | SP_Valkey string string u64
  | SP_Lmdb string u64 u64

definition missing_section :: "string \<Rightarrow> string \<Rightarrow> string \<Rightarrow> 'a result" where
  "missing_section field adapter table = Err (ConfigError (field @ '' is '' @ quote @ adapter @ quote @ '' but ['' @ table @ ''] section is missing''))"

definition present_or :: "'a result \<Rightarrow> 'b option \<Rightarrow> ('b \<Rightarrow> 'a result) \<Rightarrow> 'a result" where
  "present_or e x f = (case x of Some a \<Rightarrow> f a | None \<Rightarrow> e)"

definition dynamo_plan :: "('n, 't) app_config \<Rightarrow> store_plan result" where
  "dynamo_plan c = present_or (missing_section ''repository.adapter'' ''dynamodb'' ''repository.dynamodb'') (rep_dynamodb (ac_repository c)) (\<lambda>d.
     tryq (stats_cache_ttl c) (\<lambda>ttl. Ok (SP_Dynamodb (dyn_table_name d) (dyn_region d) (refresh_reuse_retention_secs (ac_token c)) ttl)))"

definition postgres_plan :: "string \<Rightarrow> ('n, 't) app_config \<Rightarrow> store_plan result" where
  "postgres_plan field c = present_or (missing_section field ''postgres'' ''repository.postgres'') (rep_postgres (ac_repository c)) (\<lambda>p.
     Ok (SP_Postgres (pgc_url p) (case pgc_max_connections p of Some n \<Rightarrow> n | None \<Rightarrow> 5)
       (case pgc_run_migrations p of Some b \<Rightarrow> b | None \<Rightarrow> True) (refresh_reuse_retention_secs (ac_token c))))"

definition sqlite_plan :: "string \<Rightarrow> ('n, 't) app_config \<Rightarrow> store_plan result" where
  "sqlite_plan field c = present_or (missing_section field ''sqlite'' ''repository.sqlite'') (rep_sqlite (ac_repository c)) (\<lambda>s.
     Ok (SP_Sqlite (sql_path s) (refresh_reuse_retention_secs (ac_token c))))"

definition build_user_repository :: "('n, 't) app_config \<Rightarrow> store_plan result" where
  "build_user_repository c = (let adapter = rep_adapter (ac_repository c) in
     if adapter = PA_Dynamodb then dynamo_plan c
     else if adapter = PA_Postgres then postgres_plan ''repository.adapter'' c
     else if adapter = PA_Sqlite then sqlite_plan ''repository.adapter'' c
     else Err (ConfigError (''unknown repository adapter: '' @ provider_adapter_str adapter)))"

definition build_session_repository :: "('n, 't) app_config \<Rightarrow> store_plan result" where
  "build_session_repository c =
     (let S = ac_session_repository c; reten = refresh_reuse_retention_secs (ac_token c);
          adapter = (case srp_adapter S of Some a \<Rightarrow> a | None \<Rightarrow> rep_adapter (ac_repository c)) in
      case adapter of
        PA_Dynamodb \<Rightarrow> dynamo_plan c
      | PA_Postgres \<Rightarrow> postgres_plan ''session_repository adapter'' c
      | PA_Sqlite \<Rightarrow> sqlite_plan ''session_repository adapter'' c
      | PA_Valkey \<Rightarrow> present_or (missing_section ''session_repository adapter'' ''valkey'' ''session_repository.valkey'') (srp_valkey S) (\<lambda>v.
          Ok (SP_Valkey (vak_url v) (case vak_key_prefix v of Some p \<Rightarrow> p | None \<Rightarrow> ''oidc:'') reten))
      | PA_Lmdb \<Rightarrow> present_or (missing_section ''session_repository adapter'' ''lmdb'' ''session_repository.lmdb'') (srp_lmdb S) (\<lambda>l.
          Ok (SP_Lmdb (lmc_path l) (case lmc_max_size_mb l of Some n \<Rightarrow> n | None \<Rightarrow> 256) reten))
      | other \<Rightarrow> Err (ConfigError (''unknown session_repository adapter: '' @ provider_adapter_str other)))"

section \<open>Keys, audit and synchronisation\<close>

datatype key_plan = KP_Noop | KP_Local string signing_algorithm string | KP_Kms string signing_algorithm string

definition build_key_manager :: "('n, 't) app_config \<Rightarrow> key_plan result" where
  "build_key_manager c = (let K = ac_key_manager c in case kmc_adapter K of
       PA_Local \<Rightarrow> present_or (missing_section ''key_manager.adapter'' ''local'' ''key_manager.local'') (kmc_local K) (\<lambda>l.
         Ok (KP_Local (lkc_private_key_path l) (lkc_algorithm l) (lkc_kid l)))
     | PA_Kms \<Rightarrow> present_or (missing_section ''key_manager.adapter'' ''kms'' ''key_manager.kms'') (kmc_kms K) (\<lambda>k.
         Ok (KP_Kms (kms_key_id k) (kms_algorithm k) (kms_kid k)))
     | other \<Rightarrow> Err (ConfigError (''unknown key_manager adapter: '' @ provider_adapter_str other)))"

datatype audit_plan = AP_Noop | AP_Stream audit_adapter | AP_Sqs string "string option"

definition build_audit_log :: "('n, 't) app_config \<Rightarrow> audit_plan result" where
  "build_audit_log c = (let a = ac_audit c in case aud_adapter a of
       AA_Noop \<Rightarrow> Ok AP_Noop
     | AA_Sqs \<Rightarrow> present_or (missing_section ''audit.adapter'' ''sqs'' ''audit.sqs'') (aud_sqs a) (\<lambda>q. Ok (AP_Sqs (sqs_queue_url q) (sqs_region q)))
     | stream \<Rightarrow> Ok (AP_Stream stream))"

datatype sync_plan = YP_Noop | YP_Webhook string string u64 u32

definition build_user_sync :: "('n, 't) app_config \<Rightarrow> sync_plan result" where
  "build_user_sync c = (let u = ac_user_sync c in
     if \<not> usc_enabled u then Ok YP_Noop
     else case usc_adapter u of
         None \<Rightarrow> Ok YP_Noop
       | Some adapter \<Rightarrow>
           if adapter = PA_Webhook
           then present_or (missing_section ''user_sync.adapter'' ''webhook'' ''user_sync.webhook'') (usc_webhook u) (\<lambda>w.
             Ok (YP_Webhook (whc_url w) (whc_secret w) (case whc_timeout w of Some t \<Rightarrow> t | None \<Rightarrow> 5) (effective_retries w)))
           else Err (ConfigError (''unknown user_sync adapter: '' @ provider_adapter_str adapter)))"

section \<open>The operator gate\<close>

definition build_authenticator :: "(key_plan \<Rightarrow> key_manager result) \<Rightarrow> ('n, 't) app_config \<Rightarrow> internal_auth_method \<Rightarrow> authenticator result" where
  "build_authenticator load_keys c m = (let i = ac_internal_api c in case m of
       IA_SharedSecret \<Rightarrow> (case iac_shared_secret i of
           Some secret \<Rightarrow> Ok (A_SharedSecret secret)
         | None \<Rightarrow> Err (ConfigError ''shared_secret mechanism enabled but no secret is configured''))
     | IA_OperatorToken \<Rightarrow> tryq (build_key_manager c) (\<lambda>plan. tryq (load_keys plan) (\<lambda>K.
         operator_token_new K (srv_issuer (ac_server c)) (iac_token_audience i) (iac_required_claim i) (iac_required_value i)))
     | IA_Mtls \<Rightarrow> mtls_new (resolved_mtls_header i)
     | other \<Rightarrow> Err (ConfigError (''internal auth mechanism \"'' @ internal_auth_method_str other @ ''\" cannot serve the operator gate'')))"

definition build_operator_auth_gate :: "(key_plan \<Rightarrow> key_manager result) \<Rightarrow> ('n, 't) app_config \<Rightarrow> authenticator list result" where
  "build_operator_auth_gate load_keys c = (let i = ac_internal_api c in
     if \<not> iac_enabled i then Panic ''the gate is only built when the internal API is served''
     else tryq (collect_all (build_authenticator load_keys c) (iac_auth_methods i)) (\<lambda>authenticators.
       if authenticators = [] then Err (ConfigError ''internal_api.auth_methods must be non-empty when the internal API is served'')
       else gate_new authenticators))"

section \<open>The service\<close>

record service_plan =
  pl_users :: store_plan
  pl_sessions :: store_plan
  pl_keys :: key_plan
  pl_audit :: audit_plan
  pl_sync :: sync_plan
  pl_limiter :: "(rl_key limiter_state \<times> ip_addr limiter_state) limiter_port"
  pl_limits :: "rl_key limiter_state \<times> ip_addr limiter_state"

text \<open>The configuration the core reads from the resolved one.\<close>

definition service_config :: "('n, 't) app_config \<Rightarrow> config" where
  "service_config c = \<lparr>
     cfg_issuer = srv_issuer (ac_server c), cfg_audience = tok_audience (ac_token c),
     cfg_access_token_ttl = tok_access_token_ttl (ac_token c), cfg_refresh_token_ttl = tok_refresh_token_ttl (ac_token c),
     cfg_custom_claims = tok_custom_claims (ac_token c), cfg_refresh_rotation = tok_refresh_rotation (ac_token c),
     cfg_refresh_rotation_grace = tok_refresh_rotation_grace (ac_token c),
     cfg_emit_threshold = aud_emit_threshold (ac_audit c), cfg_blocking_threshold = aud_blocking_threshold (ac_audit c),
     cfg_durability = aud_durability (ac_audit c), cfg_registration_mode = reg_mode (ac_registration c),
     cfg_domain_allowlist = reg_domain_allowlist (ac_registration c),
     cfg_max_assertion_lifetime = gra_max_assertion_lifetime (ac_grants c), cfg_nonce_ttl = gra_nonce_ttl (ac_grants c)\<rparr>"

text \<open>\<open>build_service\<close> with the providers' construction, which talks to them, as \<open>build_providers\<close>.\<close>

definition build_service ::
  "(('n, 't) app_config \<Rightarrow> unit result) \<Rightarrow> ('n, 't) app_config \<Rightarrow> service_plan result" where
  "build_service build_providers c = (let role = srv_role (ac_server c) in
     tryq (build_user_repository c) (\<lambda>users.
     tryq (build_session_repository c) (\<lambda>sessions.
     tryq (if role = Role_Admin \<and> \<not> uses_operator_token (ac_internal_api c) then Ok KP_Noop else build_key_manager c) (\<lambda>keys.
     tryq (build_audit_log c) (\<lambda>audit.
     tryq (if role = Role_Exchange then Ok YP_Noop else build_user_sync c) (\<lambda>sync.
     tryq (if role = Role_Admin then Ok () else build_providers c) (\<lambda>_.
     tryq (build_admin_limiter c) (\<lambda>(admin, admin_state).
     tryq (build_rate_limiter c) (\<lambda>(exchange, exchange_state).
     Ok \<lparr>pl_users = users, pl_sessions = sessions, pl_keys = keys, pl_audit = audit, pl_sync = sync,
        pl_limiter = composite_port exchange admin, pl_limits = (exchange_state, admin_state)\<rparr>)))))))))"

end
