(* ===== verification/Planes.thy ===== *)
theory Planes
  imports Wiring
begin

text \<open>
  The two planes a process serves: their route tables (\<open>crates/server/src/routes/mod.rs\<close>), which role
  builds which (\<open>bootstrap.rs\<close>), and the public plane's layers around its handlers
  (\<open>middleware/public_throttle.rs\<close>). The request timeout drops a future at an await and is left out;
  what axum's extractors read from a request is part of it, and an unmatched path is its 404.
\<close>

section \<open>Route tables\<close>

datatype endpoint = EP_Health | EP_Keys | EP_Discovery | EP_Token | EP_Revoke | EP_Nonce | EP_Internal internal_endpoint

type_synonym route_table = "(path_pattern \<times> (http_method \<times> endpoint) list) list"

definition credential_routes :: route_table where
  "credential_routes = [([Lit ''token''], [(M_POST, EP_Token)]), ([Lit ''revoke''], [(M_POST, EP_Revoke)])]"

definition public_routes :: route_table where
  "public_routes =
     [([Lit ''health''], [(M_GET, EP_Health)]),
      ([Lit ''keys''], [(M_GET, EP_Keys)]),
      ([Lit ''.well-known'', Lit ''openid-configuration''], [(M_GET, EP_Discovery)])] @ credential_routes"

definition nonce_routes :: route_table where
  "nonce_routes = [([Lit ''nonce''], [(M_POST, EP_Nonce)])]"

definition internal_routes :: route_table where
  "internal_routes = map (\<lambda>(pat, methods). (Lit ''internal'' # pat, map (\<lambda>(m, e). (m, EP_Internal e)) methods)) internal_table"

section \<open>Planes by role\<close>

record plane =
  pn_table :: route_table
  pn_gate :: "authenticator list option"
  pn_limiter :: "rl_key limiter_state limiter_port"
  pn_timeout :: u64
  pn_base_path :: "string option"

definition expect :: "string \<Rightarrow> ('e, 'a) outcome \<Rightarrow> ('e, 'a) outcome" where
  "expect msg r = (case r of Err _ \<Rightarrow> Panic msg | other \<Rightarrow> other)"

definition public_table :: "('n, 't) app_config \<Rightarrow> route_table" where
  "public_table c = public_routes @ (if gra_id_token (ac_grants c) then nonce_routes else [])"

definition admin_table :: "('n, 't) app_config \<Rightarrow> route_table" where
  "admin_table c = (if iac_enabled (ac_internal_api c) then internal_routes else []) @ [([Lit ''health''], [(M_GET, EP_Health)])]"

definition plane_of :: "('n, 't) app_config \<Rightarrow> route_table \<Rightarrow> authenticator list option \<Rightarrow> rl_key limiter_state limiter_port \<Rightarrow> plane result" where
  "plane_of c table gate limiter = tryq (request_timeout_duration c) (\<lambda>timeout. Ok
     \<lparr>pn_table = table, pn_gate = gate, pn_limiter = limiter, pn_timeout = timeout, pn_base_path = srv_base_path (ac_server c)\<rparr>)"

text \<open>\<open>build_router\<close>: the one plane of a runtime that has one.\<close>

definition build_router :: "(key_plan \<Rightarrow> key_manager result) \<Rightarrow> ('n, 't) app_config \<Rightarrow> plane result" where
  "build_router load_keys c = (let role = srv_role (ac_server c) in
     tryq (expect ''validated rate-limit config at router construction'' (build_rate_limiter c)) (\<lambda>(limiter, _).
     tryq (if role = Role_Admin \<and> internal_api_served c
           then expect ''validated internal_api config at router construction'' (map_outcome Some (build_operator_auth_gate load_keys c))
           else Ok None) (\<lambda>gate.
     plane_of c ((if role = Role_Exchange \<or> role = Role_All then public_table c else [])
       @ (if role = Role_Admin then admin_table c else [])) gate limiter)))"

record routers =
  rt_public :: "plane option"
  rt_admin :: "plane option"

definition build_routers :: "(key_plan \<Rightarrow> key_manager result) \<Rightarrow> ('n, 't) app_config \<Rightarrow> routers result" where
  "build_routers load_keys c = (let role = srv_role (ac_server c) in
     tryq (if internal_api_served c then map_outcome Some (build_operator_auth_gate load_keys c) else Ok None) (\<lambda>gate.
     tryq (if role = Role_Exchange \<or> role = Role_All then map_outcome Some (build_router load_keys c) else Ok None) (\<lambda>public.
     tryq (if role = Role_Admin \<or> role = Role_All
           then tryq (expect ''validated rate-limit config at router construction'' (build_rate_limiter c)) (\<lambda>(limiter, _).
             map_outcome Some (plane_of c (admin_table c) gate limiter))
           else Ok None) (\<lambda>admin.
     if public = None \<and> admin = None then Panic ''a validated role must produce at least one router''
     else Ok \<lparr>rt_public = public, rt_admin = admin\<rparr>))))"

definition single_plane :: "routers \<Rightarrow> plane option" where
  "single_plane r = (case rt_public r of Some p \<Rightarrow> Some p | None \<Rightarrow> rt_admin r)"

section \<open>The public plane\<close>

record public_request =
  pq_method :: http_method
  pq_path :: "string list"
  pq_headers :: header_map
  pq_platform :: "ip_addr option"
  pq_connection :: "ip_addr option"
  pq_supplied :: "session_location option"
  pq_token_form :: "raw_token_form option"
  pq_revoke_form :: "revoke_form option"

definition overload_response :: "'p response" where
  "overload_response = respond 503 (error_body ''server_error'' ''service is temporarily overloaded'')"

definition throttle_response :: "u64 \<Rightarrow> 'p response" where
  "throttle_response retry_after = (header_insert ''retry-after'' (show_nat (max 1 (unat retry_after)))
     (respond 429 (error_body ''slow_down'' ''too many authentication attempts'')))\<lparr>rs_oauth_code := Some ''slow_down''\<rparr>"

text \<open>The \<open>error\<close> member of a body, as serde reads it.\<close>

fun error_member :: "'p body \<Rightarrow> string option" where
  "error_member (B_Json (JObject fs)) = Option.bind (hm_get fs ''error'') as_str"
| "error_member _ = None"

text \<open>Whether a response is a failed authentication, and the response with its inspected body put back.\<close>

definition is_public_authentication_failure :: "('p body \<Rightarrow> nat) \<Rightarrow> 'p response \<Rightarrow> bool \<times> 'p response" where
  "is_public_authentication_failure body_len response =
     (if rs_status response = 401 \<or> rs_status response = 403 then (True, response)
      else if rs_status response \<noteq> 400 then (False, response)
      else if body_len (rs_body response) > 64 * 1024
      then (False, response\<lparr>rs_body := error_body ''server_error'' ''response processing failed''\<rparr>)
      else (error_member (rs_body response) = Some ''invalid_grant'', response))"

definition throttled_path :: "string list \<Rightarrow> bool" where
  "throttled_path path = (path = [''token''] \<or> path = [''revoke''] \<or> path = [''nonce''])"

text \<open>A limiter call whose answer is dropped.\<close>

definition charge :: "'r limiter_port \<Rightarrow> rl_key \<Rightarrow> ('s, 'u, 'r, unit) svc" where
  "charge P key = bindq utc_now (\<lambda>t. and_then (on_limits (check_and_consume P t key)) (\<lambda>_. ret ()) (\<lambda>_. ret ()))"

definition public_proceed ::
  "'r limiter_port \<Rightarrow> ('p body \<Rightarrow> nat) \<Rightarrow> ip_addr \<Rightarrow> ('s, 'u, 'r, 'p response) svc \<Rightarrow> ('s, 'u, 'r, 'p response) svc" where
  "public_proceed P body_len address next_handler = bindq next_handler (\<lambda>response.
     let (failed, response') = is_public_authentication_failure body_len response in
     if failed then seqq (charge P (RL_ClientAddrFailure address)) (ret response') else ret response')"

definition public_denied :: "('s, 'u, 'r) app_service \<Rightarrow> audit_context \<Rightarrow> u64 \<Rightarrow> ('s, 'u, 'r, 'p response) svc" where
  "public_denied A cx wait_secs = and_then
     (emit_security_event A ThrottleExceeded (Failure AF_ThrottleExceeded) None None (cx_client_addr cx) (cx_user_agent cx))
     (\<lambda>_. ret (throttle_response wait_secs)) (\<lambda>_. ret (throttle_response wait_secs))"

definition public_throttle_layer ::
  "('s, 'u, 'r) app_service \<Rightarrow> 'r limiter_port \<Rightarrow> ('p body \<Rightarrow> nat) \<Rightarrow> audit_context \<Rightarrow> string list
     \<Rightarrow> ('s, 'u, 'r, 'p response) svc \<Rightarrow> ('s, 'u, 'r, 'p response) svc" where
  "public_throttle_layer A P body_len cx path next_handler =
     (if \<not> throttled_path path then next_handler
      else case rate_limit_key (cx_client_addr cx) of
        None \<Rightarrow> next_handler
      | Some address \<Rightarrow> bindq utc_now (\<lambda>t. and_then (on_limits (check_and_consume P t (RL_ClientAddr address)))
            (\<lambda>decision. case decision of Allow \<Rightarrow> public_proceed P body_len address next_handler | Deny wait_secs \<Rightarrow> public_denied A cx wait_secs)
            (\<lambda>_. public_proceed P body_len address next_handler)))"

definition public_context :: "'n net_lib \<Rightarrow> ('n, 't) app_config \<Rightarrow> public_request \<Rightarrow> audit_context" where
  "public_context N c q = audit_context_with_location N (pq_headers q) (pq_platform q) (pq_connection q) (pq_supplied q)
     (srv_trusted_proxies (ac_server c)) (unat (srv_trusted_proxy_hops (ac_server c))) (ses_location (ac_session c))"

fun public_handler ::
  "('s, 'u, 'r) app_service \<Rightarrow> ('n, 't) app_config \<Rightarrow> payload response \<Rightarrow> audit_context \<Rightarrow> public_request \<Rightarrow> endpoint
     \<Rightarrow> ('s, 'u, 'r, payload response) handler" where
  "public_handler A c rejection cx q EP_Health = health_handler"
| "public_handler A c rejection cx q EP_Keys = keys_handler A"
| "public_handler A c rejection cx q EP_Discovery = openid_config_handler A (srv_issuer (ac_server c)) (ac_grants c)"
| "public_handler A c rejection cx q EP_Token = token_handler A (ac_grants c) cx (pq_token_form q)"
| "public_handler A c rejection cx q EP_Revoke = extracted rejection (pq_revoke_form q) (revoke_handler A cx)"
| "public_handler A c rejection cx q EP_Nonce = nonce_handler A (ac_grants c)"
| "public_handler A c rejection cx q (EP_Internal _) = ret rejection"

text \<open>\<open>no_store_layer\<close> on the credential routes.\<close>

definition is_credential_route :: "(http_method \<times> endpoint) list \<Rightarrow> bool" where
  "is_credential_route methods = list_ex (\<lambda>(_, e). e = EP_Token \<or> e = EP_Revoke) methods"

definition credential_layer :: "bool \<Rightarrow> ('w, 'e, 'p response) prog \<Rightarrow> ('w, 'e, 'p response) prog" where
  "credential_layer credential m = (if credential then bindq m (\<lambda>r. ret (no_store r)) else m)"

text \<open>
  A matched route with its layers, innermost first; a method it does not have is a 405 under the same
  layers. \<open>fresh\<close> is a generated request id.
\<close>

definition serve_public_route ::
  "('s, 'u, 'r) app_service \<Rightarrow> 'r limiter_port \<Rightarrow> ('n, 't) app_config \<Rightarrow> 'n net_lib \<Rightarrow> (payload body \<Rightarrow> nat) \<Rightarrow> payload response \<Rightarrow> string
     \<Rightarrow> public_request \<Rightarrow> (http_method \<times> endpoint) list \<Rightarrow> ('s, 'u, 'r, payload response) svc" where
  "serve_public_route A P c N body_len rejection fresh q methods = (let cx = public_context N c q in
     request_id_layer fresh (pq_headers q) (catch_panic
       (public_throttle_layer A P body_len cx (pq_path q)
         (credential_layer (is_credential_route methods) (case map_of methods (pq_method q) of
             Some e \<Rightarrow> rendered (public_handler A c rejection cx q e)
           | None \<Rightarrow> ret (respond 405 B_Empty))))))"

definition serve_public ::
  "('s, 'u, 'r) app_service \<Rightarrow> 'r limiter_port \<Rightarrow> ('n, 't) app_config \<Rightarrow> 'n net_lib \<Rightarrow> (payload body \<Rightarrow> nat) \<Rightarrow> payload response \<Rightarrow> string
     \<Rightarrow> public_request \<Rightarrow> ('s, 'u, 'r, payload response) svc option" where
  "serve_public A P c N body_len rejection fresh q =
     map_option (\<lambda>(methods, _). serve_public_route A P c N body_len rejection fresh q methods) (lookup_route (public_table c) (pq_path q))"

end
