(* ===== verification/Gate_Proofs.thy ===== *)
theory Gate_Proofs
  imports Admin_Plane
begin

text \<open>
  What the gate of the admin plane admits, and what its layer does with everything else.
\<close>

section \<open>What an admitted operator has proved\<close>

text \<open>The checks on a verified token, in integers: no wrap-around moves a bound.\<close>

definition operator_claims_ok :: "operator_token_auth \<Rightarrow> json hashmap \<Rightarrow> u64 \<Rightarrow> operator_principal \<Rightarrow> bool" where
  "operator_claims_ok T claims now p =
     (hm_get claims ''iss'' = Some (JString (ot_issuer T)) \<and> aud_matches (ot_audience T) claims
      \<and> (\<exists>e. hm_get claims ''exp'' = Some (JInt e) \<and> uint now < e + 30 \<and> e \<le> uint now + 86430)
      \<and> hm_get claims (ot_required_claim T) = Some (JString (ot_required_value T))
      \<and> hm_get claims ''sub'' = Some (JString (op_id p)) \<and> op_mechanism p = OperatorToken)"

definition token_proves ::
  "'x lib_scheme \<Rightarrow> (string \<Rightarrow> json option) \<Rightarrow> operator_token_auth \<Rightarrow> auth_input \<Rightarrow> (nat \<Rightarrow> instant) \<Rightarrow> operator_principal \<Rightarrow> bool" where
  "token_proves L J T input clock p = (\<exists>token h pl s claims sig n t. ai_bearer input = Some token \<and> split_on (CHR ''.'') token = [h, pl, s]
     \<and> decode_operator_token L J token = Some (km_algorithm (ot_keys T), claims) \<and> b64url_decode L s = Some sig
     \<and> km_verify (ot_keys T) n (h @ ''.'' @ pl) sig = Ok True \<and> operator_claims_ok T claims (now_unix_secs (clock t)) p)"

fun proves ::
  "'x lib_scheme \<Rightarrow> (string \<Rightarrow> json option) \<Rightarrow> auth_input \<Rightarrow> (nat \<Rightarrow> instant) \<Rightarrow> authenticator \<Rightarrow> operator_principal \<Rightarrow> bool" where
  "proves L J input clock (A_SharedSecret s) p = (p = unattributed \<and> (\<exists>b. ai_bearer input = Some b \<and> length b = length s \<and> ct_eq L b s))"
| "proves L J input clock (A_OperatorToken T) p = token_proves L J T input clock p"
| "proves L J input clock (A_Mtls h) p = (op_mechanism p = MutualTls \<and> length (op_id p) \<le> MAX_MTLS_SUBJECT_BYTES
     \<and> (\<exists>v. header_get (ai_headers input) h = Some v \<and> header_to_str v = Some v \<and> op_id p = trim v))"

definition principal_ok :: "operator_principal \<Rightarrow> bool" where
  "principal_ok p = (op_id p \<noteq> [] \<and> (op_mechanism p = SharedSecret) = (op_id p = UNATTRIBUTED_OPERATOR_ID))"

lemma assert_principal_run:
  "assert_principal p w = (if principal_ok p then (Ok (), w) else (case operator_assert_invariants p of Panic m \<Rightarrow> (Panic m, w) | _ \<Rightarrow> (Ok (), w)))"
  by (auto simp: assert_principal_def principal_ok_def operator_assert_invariants_def)

lemma assert_principal_Ok: "assert_principal p w = (Ok u, w') \<longleftrightarrow> principal_ok p \<and> w' = w"
  by (auto simp: assert_principal_def principal_ok_def operator_assert_invariants_def)

lemma assert_principal_world: "snd (assert_principal p w) = w"
  by (auto simp: assert_principal_def operator_assert_invariants_def)

lemma saturating_bound: "\<not> saturating_add_u64 e c \<le> now \<Longrightarrow> uint now < uint e + uint c"
  using uint_saturating_add_u64 [of e c] by (simp add: word_le_def)

lemma word_add_bound: "(e :: u64) \<le> now + c \<Longrightarrow> uint e \<le> uint now + uint c"
  by (simp add: word_le_def uint_word_ariths) (smt (verit) uint_lt2p uint_nonnegative zmod_le_nonneg_dividend)

lemma json_u64_Some: "json_u64 j = Some n \<longleftrightarrow> (\<exists>k. j = JInt k \<and> 0 \<le> k \<and> k < 2 ^ 64 \<and> n = word_of_int k)"
  by (cases j) auto

lemma as_str_Some: "as_str j = Some s \<longleftrightarrow> j = JString s"
  by (cases j) auto

lemma claim_str_Some: "Option.bind (hm_get c k) as_str = Some s \<longleftrightarrow> hm_get c k = Some (JString s)"
  by (auto simp: bind_eq_Some_conv as_str_Some)

lemma check_operator_claims_Ok:
  assumes "check_operator_claims T claims now = Ok p"
  shows "operator_claims_ok T claims now p"
proof -
  obtain e where e: "Option.bind (hm_get claims ''exp'') json_u64 = Some e"
    and r: "\<not> saturating_add_u64 e OPERATOR_TOKEN_CLOCK_SKEW_LEEWAY_SECS \<le> now"
      "\<not> now + MAX_OPERATOR_TOKEN_TTL_SECS + OPERATOR_TOKEN_CLOCK_SKEW_LEEWAY_SECS < e"
    using assms by (auto simp: check_operator_claims_def Let_def split: if_splits option.splits)
  then obtain k where k: "hm_get claims ''exp'' = Some (JInt k)" "0 \<le> k" "k < 2 ^ 64" "e = word_of_int k"
    by (auto simp: bind_eq_Some_conv json_u64_Some)
  then have u: "uint e = k" by (simp add: uint_word_of_int)
  have "uint now < k + 30" using saturating_bound [OF r(1)] u by (simp add: OPERATOR_TOKEN_CLOCK_SKEW_LEEWAY_SECS_def)
  moreover have "k \<le> uint now + 86430"
  proof -
    have "e \<le> now + (MAX_OPERATOR_TOKEN_TTL_SECS + OPERATOR_TOKEN_CLOCK_SKEW_LEEWAY_SECS)" using r(2) by (simp add: add.assoc)
    from word_add_bound [OF this] u show ?thesis
      by (simp add: MAX_OPERATOR_TOKEN_TTL_SECS_def OPERATOR_TOKEN_CLOCK_SKEW_LEEWAY_SECS_def)
  qed
  ultimately show ?thesis using assms k(1)
    by (auto simp: check_operator_claims_def operator_claims_ok_def Let_def claim_str_Some split: if_splits option.splits)
qed

lemma check_operator_claims_no_panic: "check_operator_claims T claims now \<noteq> Panic m"
  by (auto simp: check_operator_claims_def Let_def split: option.splits)

section \<open>A mechanism's run\<close>

definition only_ticks :: "('s, 'u, 'r) world \<Rightarrow> ('s, 'u, 'r) world \<Rightarrow> bool" where
  "only_ticks w w' = (\<exists>n. w' = w\<lparr>w_ticks := n\<rparr>)"

lemma only_ticks_self [simp]: "only_ticks w w" "only_ticks w (w\<lparr>w_ticks := n\<rparr>)"
  by (auto simp: only_ticks_def intro: exI [of _ "w_ticks w"])

lemma only_ticks_trans: "only_ticks w w' \<Longrightarrow> only_ticks w' w'' \<Longrightarrow> only_ticks w w''"
  by (auto simp: only_ticks_def)

lemma preorder_only_ticks [simp]: "preorderp only_ticks"
  by (rule preorderpI) (auto intro: only_ticks_trans)

lemma keeps_ticks [keeps_rules]: "keeps only_ticks utc_now" "keeps only_ticks (outside_result f)" "keeps only_ticks (assert_principal p)"
  by (rule keepsI; (simp add: utc_now_def outside_result_def)?; use assert_principal_world [of p] in \<open>metis only_ticks_self(1) snd_conv\<close>)+

lemma keeps_operator_authenticate [keeps_rules]: "keeps only_ticks (operator_authenticate L J a input)"
proof (cases a)
  case (A_OperatorToken T)
  show ?thesis unfolding A_OperatorToken operator_authenticate.simps operator_token_authenticate_def
    by (intro keeps_rules preorder_only_ticks keeps_option | (split prod.split list.split, intro allI conjI impI))+
next
  case (A_Mtls h)
  show ?thesis unfolding A_Mtls operator_authenticate.simps mtls_authenticate_def
    by (intro keeps_rules preorder_only_ticks)
qed (auto intro: keeps_rules)

lemma keeps_gate_loop [keeps_rules]: "keeps only_ticks (gate_loop L J input as b c)"
  by (induction as arbitrary: b c) (auto intro!: keeps_rules)

lemma shared_secret_Ok: "shared_secret_authenticate L s input = Ok p \<Longrightarrow> proves L J input clock (A_SharedSecret s) p"
  by (auto simp: shared_secret_authenticate_def operator_ct_eq_def split: option.splits if_splits)

lemma object_Some: "(case j of JObject c \<Rightarrow> f c | _ \<Rightarrow> None) = Some x \<longleftrightarrow> (\<exists>c. j = JObject c \<and> f c = Some x)"
  by (cases j) auto

lemma decode_three: "decode_operator_token L J token = Some ac \<Longrightarrow> \<exists>h p s. split_on (CHR ''.'') token = [h, p, s] \<and> (\<exists>x. b64url_decode L s = Some x)"
  by (auto simp: decode_operator_token_def bind_eq_Some_conv object_Some split: list.split_asm)

lemma header_to_str_id: "header_to_str v = Some t \<Longrightarrow> t = v"
  by (simp add: header_to_str_def split: if_splits)

lemma mtls_authenticate_Ok:
  assumes "mtls_authenticate h input w = (Ok p, w')"
  shows "proves L J input clock (A_Mtls h) p \<and> principal_ok p"
proof -
  obtain v where v: "header_get (ai_headers input) h = Some v" "header_to_str v = Some v"
    using assms by (cases "header_get (ai_headers input) h"; cases "header_to_str (the (header_get (ai_headers input) h))")
      (auto simp: mtls_authenticate_def dest: header_to_str_id)
  then show ?thesis using assms
    by (auto simp: mtls_authenticate_def Let_def seqq_def assert_principal_Ok split: if_splits elim!: bindq_okE)
qed

lemma operator_authenticate_Ok:
  assumes "operator_authenticate L J a input w = (Ok p, w')"
  shows "proves L J input (w_clock w) a p \<and> (op_mechanism p \<noteq> SharedSecret \<longrightarrow> principal_ok p)"
proof (cases a)
  case (A_SharedSecret s)
  then have "shared_secret_authenticate L s input = Ok p" using assms by simp
  then show ?thesis using A_SharedSecret shared_secret_Ok [of L s input p J "w_clock w"] by (auto simp: unattributed_def)
next
  case (A_Mtls h)
  then show ?thesis using assms mtls_authenticate_Ok [of h input w p w' L J "w_clock w"] by simp
next
  case (A_OperatorToken T)
  then have run: "operator_token_authenticate L J T input w = (Ok p, w')" using assms by simp
  then obtain token alg claims where tok: "ai_bearer input = Some token" "decode_operator_token L J token = Some (alg, claims)"
    by (auto simp: operator_token_authenticate_def split: option.splits)
  from decode_three [OF tok(2)] obtain h pl s sig where seg: "split_on (CHR ''.'') token = [h, pl, s]" "b64url_decode L s = Some sig" by blast
  have alg: "alg = km_algorithm (ot_keys T)" using run tok by (auto simp: operator_token_authenticate_def split: if_splits)
  have run': "bindq (and_then (outside_result (\<lambda>n. km_verify (ot_keys T) n (h @ ''.'' @ pl) sig)) ret (\<lambda>_. throw OA_InvalidCredential)) (\<lambda>verified.
      if \<not> verified then throw OA_InvalidCredential
      else bindq utc_now (\<lambda>now. bindq (from_outcome (check_operator_claims T claims (now_unix_secs now))) (\<lambda>principal.
        seqq (assert_principal principal) (ret principal)))) w = (Ok p, w')"
    using run tok seg alg by (simp add: operator_token_authenticate_def)
  then have v: "km_verify (ot_keys T) (w_ticks w) (h @ ''.'' @ pl) sig = Ok True"
    by (cases "km_verify (ot_keys T) (w_ticks w) (h @ ''.'' @ pl) sig") (auto split: if_splits)
  then have c: "check_operator_claims T claims (now_unix_secs (w_clock w (Suc (w_ticks w)))) = Ok p \<and> principal_ok p"
    using run' by (auto simp: seqq_def assert_principal_Ok elim!: bindq_okE)
  then show ?thesis unfolding A_OperatorToken proves.simps token_proves_def
    using tok seg alg v check_operator_claims_Ok by blast
qed

lemma gate_loop_Ok:
  assumes "gate_loop L J input as b c w = (Ok p, w')"
  shows "\<exists>a \<in> set as. proves L J input (w_clock w) a p \<and> principal_ok p"
  using assms
proof (induction as arbitrary: b c w)
  case (Cons a as)
  from Cons.prems show ?case unfolding gate_loop.simps
  proof (cases rule: and_then_cases)
    case (ok q w1)
    then have "principal_ok q \<and> p = q" by (auto simp: seqq_def assert_principal_Ok elim!: bindq_okE)
    then show ?thesis using operator_authenticate_Ok [OF ok(1)] by auto
  next
    case (err e w1)
    then obtain a' where "a' \<in> set as" "proves L J input (w_clock w1) a' p" "principal_ok p" using Cons.IH by blast
    moreover have "w_clock w1 = w_clock w"
      using keepsD [OF keeps_operator_authenticate err(1)] by (auto simp: only_ticks_def)
    ultimately show ?thesis by auto
  qed auto
qed simp

end
