(* ===== verification/Gate_Properties.thy ===== *)
theory Gate_Properties
  imports Gate_Proofs Wiring Service_Wp Example_Env Limit_Properties
begin

text \<open>
  The properties of the admin plane's gate: who reaches a handler, what a refusal leaves behind, and
  how many guesses a peer has.
\<close>

section \<open>What a refused request leaves\<close>

definition untouched :: "('s, 'u, 'r) world \<Rightarrow> ('s, 'u, 'r) world \<Rightarrow> bool" where
  "untouched w w' = (w_sessions w' = w_sessions w \<and> w_users w' = w_users w \<and> w_sync w' = w_sync w \<and> w_clock w' = w_clock w)"

lemma preorder_untouched [simp]: "preorderp untouched"
  by (auto simp: preorderp_def untouched_def)

lemma untouched_refl [simp]: "untouched w w" "untouched w (w\<lparr>w_limits := l\<rparr>)" "untouched w (w\<lparr>w_ticks := n\<rparr>)"
  by (simp_all add: untouched_def)

lemma untouched_trans: "untouched u v \<Longrightarrow> untouched v w \<Longrightarrow> untouched u w"
  by (simp add: untouched_def)

lemma ticks_untouched: "only_ticks w w' \<Longrightarrow> untouched w w' \<and> w_attempts w' = w_attempts w \<and> w_limits w' = w_limits w"
  by (auto simp: only_ticks_def untouched_def)

lemma emitted_untouched: "emitted A P w r w' \<Longrightarrow> steady w w' \<Longrightarrow> untouched w w' \<and> w_limits w' = w_limits w"
  by (auto simp: untouched_def steady_def dest: emitted_stores)

text \<open>The events a refusal tries to record, and its answer.\<close>

definition refused ::
  "('s, 'u, 'r) app_service \<Rightarrow> security_event \<Rightarrow> string \<Rightarrow> 'p response \<Rightarrow> ('s, 'u, 'r) world
     \<Rightarrow> 'p response result \<Rightarrow> ('s, 'u, 'r) world \<Rightarrow> bool" where
  "refused A ev route resp w r w' = (untouched w w' \<and> w_limits w' = w_limits w \<and> (\<exists>e. w_attempts w' = w_attempts w @ [e]
     \<and> ae_type e = se_event_type ev \<and> ae_detail e = auth_event_detail route \<and> ae_outcome e \<noteq> Success
     \<and> (r = Ok resp \<and> (w_audit w' = w_audit w @ [e] \<or> cfg_durability (config A) = Observe)
        \<or> r = Ok server_error_response \<and> cfg_durability (config A) = Enforce)))"

lemma refuse_with_refused:
  assumes "refuse_with A ev addr route resp w = (r, w')"
  shows "refused A ev route resp w r w'"
proof -
  obtain r0 w0 where run: "require_security_event A ev addr route w = (r0, w0)" by fastforce
  obtain f where emit: "emit_security_event_with_detail A ev (Failure f) None None addr None (auth_event_detail route) w = (r0, w0)"
    using run by (auto simp: require_security_event_def Let_def)
  have u: "untouched w w0" "w_limits w0 = w_limits w"
    using emitted_untouched [OF wpD [OF emit_detail_emitted emit]] keepsD [OF keeps_steady_emit(4) emit] by blast+
  obtain e where e: "records ev (Failure f) None (auth_event_detail route) None e" "w_attempts w0 = w_attempts w @ [e]"
    "r0 = Ok () \<and> w_audit w0 = w_audit w @ [e] \<or> r0 = Ok () \<and> w_audit w0 = w_audit w \<and> cfg_durability (config A) = Observe
     \<or> (\<exists>x. r0 = Err (SecurityAuditDurability x)) \<and> w_audit w0 = w_audit w \<and> cfg_durability (config A) = Enforce"
    using wpD [OF emit_detail_emitted emit] by (rule emittedE)
  have "w' = w0 \<and> (r0 = Ok () \<and> r = Ok resp \<or> (\<exists>x. r0 = Err x) \<and> r = Ok server_error_response)"
    using assms e(3) by (auto simp: refuse_with_def run and_then_def)
  then show ?thesis using u e by (auto simp: refused_def records_def)
qed

section \<open>The run of the layer\<close>

abbreviation presented :: "http_request \<Rightarrow> auth_input" where
  "presented q \<equiv> \<lparr>ai_bearer = bearer_token (hr_headers q), ai_headers = hr_headers q\<rparr>"

definition peer_of :: "http_request \<Rightarrow> client_addr" where
  "peer_of q = (case hr_connection q of Some ip \<Rightarrow> Peer ip | None \<Rightarrow> UnknownAddr)"

lemma consume_failure_untouched: "consume_failure A k w = (r, w') \<Longrightarrow> untouched w w' \<and> w_attempts w' = w_attempts w \<and> w_audit w' = w_audit w \<and> (\<forall>e. r \<noteq> Err e)"
  by (auto simp: consume_failure_def utc_now_def on_limits_run untouched_def bindq_def and_then_def split: option.splits prod.splits outcome.splits)

lemma gate_ticks: "gate_authenticate L J as input w = (r, w') \<Longrightarrow> only_ticks w w'"
  unfolding gate_authenticate_def by (rule keepsD [OF keeps_gate_loop])

text \<open>Past the consultation a request reaches the handler with a proven principal or is refused.\<close>

lemma authenticate_request_cases:
  assumes "authenticate_request A J as q addr k next_handler w = (r, w')"
  shows "(\<exists>p w1. (\<exists>a \<in> set as. proves (lib A) J (presented q) (w_clock w) a p) \<and> principal_ok p \<and> only_ticks w w1 \<and> next_handler p w1 = (r, w'))
    \<or> (\<exists>reason w1 w2. gate_authenticate (lib A) J as (presented q) w = (Err reason, w1) \<and> consume_failure A k w1 = (Ok (), w2)
        \<and> refused A (OperatorAuthenticationFailed reason) (hr_route q) (unauthorized_response reason) w2 r w')
    \<or> (\<exists>m. r = Panic m \<and> untouched w w' \<and> w_attempts w' = w_attempts w)"
  using assms unfolding authenticate_request_def
proof (cases rule: and_then_cases)
  case (ok p w1)
  have "\<exists>a \<in> set as. proves (lib A) J (presented q) (w_clock w) a p" "principal_ok p"
    using gate_loop_Ok [OF ok(1) [unfolded gate_authenticate_def]] by auto
  then show ?thesis using gate_ticks [OF ok(1)] ok(2) by (intro disjI1 exI [of _ p] exI [of _ w1] conjI)
next
  case (err reason w1)
  note t = ticks_untouched [OF gate_ticks [OF err(1)]]
  obtain r2 w2 where c: "consume_failure A k w1 = (r2, w2)" by fastforce
  note u = consume_failure_untouched [OF c]
  show ?thesis
  proof (cases r2)
    case (Ok x)
    then have "refuse_with A (OperatorAuthenticationFailed reason) addr (hr_route q) (unauthorized_response reason) w2 = (r, w')"
      using err(2) c by (simp add: seqq_run)
    from refuse_with_refused [OF this] show ?thesis using err(1) c Ok by (intro disjI2 disjI1 exI [of _ reason] exI [of _ w1] exI [of _ w2]) simp
  next
    case (Panic m)
    then show ?thesis using err(2) c t u untouched_trans [of w w1 w2] by auto
  qed (use u in auto)
next
  case (panic m)
  then show ?thesis using ticks_untouched [OF gate_ticks [OF panic(1)]] by simp
qed

text \<open>Before it: the consultation of a peer that has a key.\<close>

definition consulted :: "('s, 'u, 'r) world \<Rightarrow> 'r \<Rightarrow> ('s, 'u, 'r) world" where
  "consulted w l = w\<lparr>w_ticks := Suc (w_ticks w), w_limits := l\<rparr>"

lemma consulted_untouched: "untouched w (consulted w l)" "w_attempts (consulted w l) = w_attempts w" "w_audit (consulted w l) = w_audit w"
  "w_clock (consulted w l) = w_clock w" "w_limits (consulted w l) = l"
  by (simp_all add: consulted_def untouched_def)

lemma layer_unkeyed:
  assumes "rate_limit_key (peer_of q) = None"
  shows "internal_auth_layer A J (Some as) q next_handler w = authenticate_request A J as q (peer_of q) None next_handler w"
  using assms by (simp add: internal_auth_layer_def peer_of_def Let_def)

lemma layer_keyed:
  assumes "rate_limit_key (peer_of q) = Some ip" "check (rate_limiter A) (w_clock w (w_ticks w)) (RL_OperatorAuth ip) (w_limits w) = (d, l)"
  shows "internal_auth_layer A J (Some as) q next_handler w = (case d of
      Ok Allow \<Rightarrow> authenticate_request A J as q (peer_of q) (Some (RL_OperatorAuth ip)) next_handler (consulted w l)
    | Ok (Deny n) \<Rightarrow> refuse_with A ThrottleExceeded (peer_of q) (hr_route q) (lockout_response n) (consulted w l)
    | Err e \<Rightarrow> (Ok server_error_response, consulted w l)
    | Panic m \<Rightarrow> (Panic m, consulted w l))"
  using assms by (auto simp: internal_auth_layer_def peer_of_def Let_def utc_now_def on_limits_def and_then_def bindq_def consulted_def
      split: outcome.splits rate_limit_decision.splits)

section \<open>Who reaches a handler\<close>

text \<open>The answers of the layer itself.\<close>

definition gate_answer :: "'p response \<Rightarrow> bool" where
  "gate_answer resp = ((\<exists>reason. resp = unauthorized_response reason) \<or> (\<exists>n. resp = lockout_response n)
     \<or> resp = server_error_response \<or> resp = respond 500 (error_body ''server_error'' ''operator authentication is not wired''))"

lemma authenticated:
  assumes "gate = Some as" "authenticate_request A J as q addr k next_handler w0 = (r, w')"
    and "untouched w w0" "w_attempts w0 = w_attempts w" "w_clock w0 = w_clock w"
  shows "(\<exists>as a p w1. gate = Some as \<and> a \<in> set as \<and> proves (lib A) J (presented q) (w_clock w) a p \<and> principal_ok p
      \<and> untouched w w1 \<and> w_attempts w1 = w_attempts w \<and> next_handler p w1 = (r, w'))
    \<or> untouched w w' \<and> length (w_attempts w') \<le> Suc (length (w_attempts w))
      \<and> ((\<exists>resp. r = Ok resp \<and> gate_answer resp) \<or> (\<exists>m. r = Panic m))"
  using authenticate_request_cases [OF assms(2)]
proof (elim disjE exE conjE)
  fix p w1 assume "\<exists>a \<in> set as. proves (lib A) J (presented q) (w_clock w0) a p" "principal_ok p" "only_ticks w0 w1" "next_handler p w1 = (r, w')"
  then show ?thesis using assms ticks_untouched [of w0 w1] untouched_trans [of w w0 w1] by auto
next
  fix reason w1 w2 assume g: "gate_authenticate (lib A) J as (presented q) w0 = (Err reason, w1)" "consume_failure A k w1 = (Ok (), w2)"
    and f: "refused A (OperatorAuthenticationFailed reason) (hr_route q) (unauthorized_response reason) w2 r w'"
  have "untouched w w2" "w_attempts w2 = w_attempts w"
    using ticks_untouched [OF gate_ticks [OF g(1)]] consume_failure_untouched [OF g(2)] assms(3,4) by (auto intro: untouched_trans)
  then show ?thesis using f by (auto simp: refused_def gate_answer_def intro: untouched_trans)
next
  fix m assume "r = Panic m" "untouched w0 w'" "w_attempts w' = w_attempts w0"
  then show ?thesis using assms(3,4) untouched_trans [of w w0 w'] by auto
qed

text \<open>C13. Nothing below \<open>/internal\<close> runs for an unproven caller. A request passes the layer only when some
  configured mechanism has proved the principal that is handed to the handler: the shared secret, a
  token signed by the configured key with this issuer, audience, lifetime and required claim, or the
  subject header of the terminating proxy. Everything else leaves sessions, users and the sync sink
  alone, tries at most one audit event and is answered by the layer itself.\<close>

theorem operator_gate:
  assumes "internal_auth_layer A J gate q next_handler w = (r, w')"
  shows "(\<exists>as a p w1. gate = Some as \<and> a \<in> set as \<and> proves (lib A) J (presented q) (w_clock w) a p \<and> principal_ok p
      \<and> untouched w w1 \<and> w_attempts w1 = w_attempts w \<and> next_handler p w1 = (r, w'))
    \<or> untouched w w' \<and> length (w_attempts w') \<le> Suc (length (w_attempts w))
      \<and> ((\<exists>resp. r = Ok resp \<and> gate_answer resp) \<or> (\<exists>m. r = Panic m))"
proof (cases gate)
  case None
  then show ?thesis using assms by (auto simp: internal_auth_layer_def gate_answer_def)
next
  case (Some as)
  note ask = authenticated [OF Some]
  show ?thesis
  proof (cases "rate_limit_key (peer_of q)")
    case None
    from ask [of A J q "peer_of q" None next_handler w r w' w] assms show ?thesis unfolding Some layer_unkeyed [OF None] by simp
  next
    case (Some ip)
    obtain d l where chk: "check (rate_limiter A) (w_clock w (w_ticks w)) (RL_OperatorAuth ip) (w_limits w) = (d, l)" by fastforce
    note run = assms [unfolded \<open>gate = Some as\<close> layer_keyed [OF Some chk]]
    note u = consulted_untouched [of w l]
    consider "d = Ok Allow" | n where "d = Ok (Deny n)" | "(\<exists>e. d = Err e) \<or> (\<exists>m. d = Panic m)"
      by (metis outcome.exhaust rate_limit_decision.exhaust)
    then show ?thesis
    proof cases
      case 1
      from ask [of A J q "peer_of q" "Some (RL_OperatorAuth ip)" next_handler "consulted w l" r w' w] run 1 u show ?thesis by simp
    next
      case 2
      then have "refuse_with A ThrottleExceeded (peer_of q) (hr_route q) (lockout_response n) (consulted w l) = (r, w')" using run by simp
      from refuse_with_refused [OF this] show ?thesis using u by (auto simp: refused_def gate_answer_def intro: untouched_trans)
    qed (use run u in \<open>auto simp: gate_answer_def\<close>)
  qed
qed

section \<open>How many guesses a peer has\<close>

text \<open>Requests through the layer one after the other, with the answer each of them gets.\<close>

fun gate_requests ::
  "('s, 'u, 'r) app_service \<Rightarrow> (string \<Rightarrow> json option) \<Rightarrow> authenticator list \<Rightarrow> (operator_principal \<Rightarrow> ('s, 'u, 'r, payload response) svc)
     \<Rightarrow> http_request list \<Rightarrow> ('s, 'u, 'r) world \<Rightarrow> payload response result list \<times> ('s, 'u, 'r) world" where
  "gate_requests A J as next_handler [] w = ([], w)"
| "gate_requests A J as next_handler (q # qs) w = (case internal_auth_layer A J (Some as) q next_handler w of (r, w') \<Rightarrow>
     (case gate_requests A J as next_handler qs w' of (rs, w'') \<Rightarrow> (r # rs, w'')))"

definition rejects :: "('s, 'u, 'r) app_service \<Rightarrow> (string \<Rightarrow> json option) \<Rightarrow> authenticator list \<Rightarrow> ('s, 'u, 'r) world \<Rightarrow> http_request \<Rightarrow> bool" where
  "rejects A J as w0 q = (\<forall>w :: ('s, 'u, 'r) world. w_clock w = w_clock w0 \<longrightarrow> (\<exists>e w'. gate_authenticate (lib A) J as (presented q) w = (Err e, w')))"

definition tracked :: "admin_limiter \<Rightarrow> ip_addr \<Rightarrow> bucket \<Rightarrow> ('a \<times> ip_addr limiter_state) \<Rightarrow> bool" where
  "tracked L ip b s = (table_ok MAX_TRACKED_PEERS (ls_buckets (snd s)) \<and> \<not> ls_poisoned (snd s) \<and> map_of (ls_buckets (snd s)) ip = Some b)"

lemma composite_operator:
  "check (composite_port X (admin_limiter_port L)) t (RL_OperatorAuth ip) s = on_admin (admin_check_at L ip t) s"
  "consume (composite_port X (admin_limiter_port L)) t (RL_OperatorAuth ip) s = on_admin (admin_consume_at L ip t) s"
  by (simp_all add: composite_port_def route_key_def admin_limiter_port_def Let_def)

lemma tracked_check:
  assumes "admin_ok L" "tracked L ip b s" "b_started_at b \<le> t" "t < b_started_at b + al_failure_window L"
  shows "\<exists>s' n. on_admin (admin_check_at L ip t) s = (Ok (if b_consumed b < al_max_auth_failures L then Allow else Deny n), s') \<and> tracked L ip b s'"
proof -
  have lv: "live_entry (lifetime L) t (ls_buckets (snd s)) ip = Some b"
    by (rule live_entry_Some) (use assms in \<open>auto simp: tracked_def admin_ok_def\<close>)
  obtain n where d: "decision_at b t (lifetime L) (al_max_auth_failures L) = (if b_consumed b < al_max_auth_failures L then Allow else Deny n)"
    using assms by (auto simp: decision_at_def Let_def duration_since_def admin_ok_def)
  obtain s' where "admin_check_at L ip t (snd s) = (Ok (if b_consumed b < al_max_auth_failures L then Allow else Deny n), s')"
      "map_of (ls_buckets s') ip = Some b" "table_ok MAX_TRACKED_PEERS (ls_buckets s')" "\<not> ls_poisoned s'"
    using with_live_bucket [OF assms(1) _ _ lv, of "\<lambda>l b. (decision_at b t l (al_max_auth_failures L), b)" _ b] d assms(2)
    unfolding admin_check_at_def tracked_def by auto
  then show ?thesis by (intro exI [of _ "(fst s, s')"] exI [of _ n]) (simp add: on_admin_def tracked_def)
qed

lemma tracked_consume:
  assumes "admin_ok L" "tracked L ip b s" "b_started_at b \<le> t" "t < b_started_at b + al_failure_window L" "b_consumed b < al_max_auth_failures L"
  shows "\<exists>s' d. on_admin (admin_consume_at L ip t) s = (Ok d, s') \<and> tracked L ip (b\<lparr>b_consumed := b_consumed b + 1\<rparr>) s'"
proof -
  have lv: "live_entry (lifetime L) t (ls_buckets (snd s)) ip = Some b"
    by (rule live_entry_Some) (use assms in \<open>auto simp: tracked_def admin_ok_def\<close>)
  obtain d where d: "consume_bucket L t (lifetime L) b = (d, b\<lparr>b_consumed := b_consumed b + 1\<rparr>)"
    using consume_in_window [OF assms(1,3,4,5)] by blast
  obtain s' where "admin_consume_at L ip t (snd s) = (Ok d, s')" "map_of (ls_buckets s') ip = Some (b\<lparr>b_consumed := b_consumed b + 1\<rparr>)"
      "table_ok MAX_TRACKED_PEERS (ls_buckets s')" "\<not> ls_poisoned s'"
    using with_live_bucket [where f = "consume_bucket L t", OF assms(1) _ _ lv d] assms(2) unfolding admin_consume_at_def tracked_def by blast
  then show ?thesis by (intro exI [of _ "(fst s, s')"] exI [of _ d]) (simp add: on_admin_def tracked_def)
qed

lemma refused_status:
  assumes "refused A ev route resp w r w'" "cfg_durability (config A) = Observe"
  shows "map_outcome rs_status r = Ok (rs_status resp) \<and> w_limits w' = w_limits w \<and> w_clock w' = w_clock w"
  using assms by (auto simp: refused_def untouched_def map_outcome_def)

lemma answer_status: "rs_status (unauthorized_response reason) = 401" "rs_status (lockout_response n) = 429"
  by (simp_all add: unauthorized_response_def lockout_response_def respond_def header_insert_def)

text \<open>A rejected request whose consultation was allowed: one more failure, and a 401.\<close>

lemma rejected_request:
  assumes L: "admin_ok L" "rate_limiter A = composite_port X (admin_limiter_port L)" "cfg_durability (config A) = Observe"
    and q: "rejects A J as w0 q" "w_clock w = w_clock w0"
    and b: "tracked L ip b (w_limits w)" "\<forall>n. b_started_at b \<le> w_clock w n \<and> w_clock w n < b_started_at b + al_failure_window L"
      "b_consumed b < al_max_auth_failures L"
    and run: "authenticate_request A J as q addr (Some (RL_OperatorAuth ip)) next_handler w = (r, w')"
  shows "map_outcome rs_status r = Ok 401 \<and> tracked L ip (b\<lparr>b_consumed := b_consumed b + 1\<rparr>) (w_limits w') \<and> w_clock w' = w_clock w"
proof -
  obtain e w1 where g: "gate_authenticate (lib A) J as (presented q) w = (Err e, w1)" using q unfolding rejects_def by blast
  note t = ticks_untouched [OF gate_ticks [OF g]]
  let ?t = "w_clock w1 (w_ticks w1)"
  have tm: "b_started_at b \<le> ?t" "?t < b_started_at b + al_failure_window L" using b(2) t by (auto simp: untouched_def)
  have "tracked L ip b (w_limits w1)" using b(1) t by simp
  from tracked_consume [OF L(1) this tm b(3)] obtain s d
    where s: "on_admin (admin_consume_at L ip ?t) (w_limits w1) = (Ok d, s)" "tracked L ip (b\<lparr>b_consumed := b_consumed b + 1\<rparr>) s" by blast
  have "consume_failure A (Some (RL_OperatorAuth ip)) w1 = (Ok (), consulted w1 s)"
    using s(1) by (simp add: consume_failure_def utc_now_def on_limits_def L(2) composite_operator bindq_def and_then_def consulted_def)
  then have "refuse_with A (OperatorAuthenticationFailed e) addr (hr_route q) (unauthorized_response e) (consulted w1 s) = (r, w')"
    using run g by (simp add: authenticate_request_def)
  from refused_status [OF refuse_with_refused [OF this] L(3)] show ?thesis
    using s(2) t by (simp add: answer_status consulted_untouched untouched_def)
qed

lemma guess_step:
  assumes L: "admin_ok L" "rate_limiter A = composite_port X (admin_limiter_port L)" "cfg_durability (config A) = Observe"
    and q: "rejects A J as w0 q" "w_clock w = w_clock w0" "rate_limit_key (peer_of q) = Some ip"
    and b: "tracked L ip b (w_limits w)" "\<forall>n. b_started_at b \<le> w_clock w n \<and> w_clock w n < b_started_at b + al_failure_window L"
    and run: "internal_auth_layer A J (Some as) q next_handler w = (r, w')"
  shows "(if b_consumed b < al_max_auth_failures L
      then map_outcome rs_status r = Ok 401 \<and> tracked L ip (b\<lparr>b_consumed := b_consumed b + 1\<rparr>) (w_limits w')
      else map_outcome rs_status r = Ok 429 \<and> tracked L ip b (w_limits w')) \<and> w_clock w' = w_clock w"
proof -
  let ?t = "w_clock w (w_ticks w)"
  from tracked_check [OF L(1) b(1), of ?t] b(2) obtain s n
    where s: "on_admin (admin_check_at L ip ?t) (w_limits w) = (Ok (if b_consumed b < al_max_auth_failures L then Allow else Deny n), s)" "tracked L ip b s"
    by blast
  have chk: "check (rate_limiter A) ?t (RL_OperatorAuth ip) (w_limits w) = (Ok (if b_consumed b < al_max_auth_failures L then Allow else Deny n), s)"
    using s(1) by (simp add: L(2) composite_operator)
  note run' = run [unfolded layer_keyed [OF q(3) chk]]
  note c = consulted_untouched [of w s]
  show ?thesis
  proof (cases "b_consumed b < al_max_auth_failures L")
    case True
    then have "authenticate_request A J as q (peer_of q) (Some (RL_OperatorAuth ip)) next_handler (consulted w s) = (r, w')" using run' by simp
    from rejected_request [OF L q(1) _ _ _ True this] show ?thesis using True q(2) s(2) b(2) c by simp
  next
    case False
    then have "refuse_with A ThrottleExceeded (peer_of q) (hr_route q) (lockout_response n) (consulted w s) = (r, w')" using run' by simp
    from refused_status [OF refuse_with_refused [OF this] L(3)] show ?thesis using False s(2) c by (simp add: answer_status)
  qed
qed

lemma guesses_run:
  assumes "admin_ok L" "rate_limiter A = composite_port X (admin_limiter_port L)" "cfg_durability (config A) = Observe"
    and "\<forall>q \<in> set qs. rejects A J as w0 q \<and> rate_limit_key (peer_of q) = Some ip" "w_clock w = w_clock w0"
    and "tracked L ip b (w_limits w)" "\<forall>n. b_started_at b \<le> w_clock w n \<and> w_clock w n < b_started_at b + al_failure_window L"
    and "uint (b_consumed b) = int c" "c \<le> unat (al_max_auth_failures L)"
    and "gate_requests A J as next_handler qs w = (rs, w')"
  shows "map (map_outcome rs_status) rs = map (\<lambda>i. Ok (if c + i < unat (al_max_auth_failures L) then 401 else 429)) [0..<length qs]"
  using assms
proof (induction qs arbitrary: w b c rs w')
  case (Cons q qs)
  note prems = Cons.prems
  obtain r w1 where r: "internal_auth_layer A J (Some as) q next_handler w = (r, w1)" by fastforce
  obtain rs' w2 where rest: "gate_requests A J as next_handler qs w1 = (rs', w2)" by fastforce
  have rs: "rs = r # rs'" using prems(10) r rest by auto
  have q: "rejects A J as w0 q" "rate_limit_key (peer_of q) = Some ip" using prems(4) by simp_all
  note step = guess_step [OF prems(1-3) q(1) prems(5) q(2) prems(6,7) r]
  have tl: "\<forall>q \<in> set qs. rejects A J as w0 q \<and> rate_limit_key (peer_of q) = Some ip" using prems(4) by simp
  show ?case
  proof (cases "b_consumed b < al_max_auth_failures L")
    case True
    then have c: "c < unat (al_max_auth_failures L)" using less_by_count [OF prems(8)] by simp
    have "map (map_outcome rs_status) rs' = map (\<lambda>i. Ok (if Suc c + i < unat (al_max_auth_failures L) then 401 else 429)) [0..<length qs]"
      by (rule Cons.IH [OF prems(1-3) tl _ _ _ _ _ rest, where b = "b\<lparr>b_consumed := b_consumed b + 1\<rparr>"])
        (use step True prems(5,7,8) uint_bump [OF True] c in simp_all)
    then show ?thesis using step True c rs by (simp add: map_upt_shift del: upt_Suc)
  next
    case False
    then have c: "\<not> c < unat (al_max_auth_failures L)" using less_by_count [OF prems(8)] by simp
    have "map (map_outcome rs_status) rs' = map (\<lambda>i. Ok (if c + i < unat (al_max_auth_failures L) then 401 else 429)) [0..<length qs]"
      by (rule Cons.IH [OF prems(1-3) tl _ _ _ prems(8,9) rest]) (use step False prems(5,7) in simp_all)
    then show ?thesis using step False c rs by (simp add: map_upt_shift del: upt_Suc)
  qed
qed simp

lemma fresh_check:
  assumes "admin_ok L" "table_ok MAX_TRACKED_PEERS (ls_buckets (snd s))" "\<not> ls_poisoned (snd s)"
    and "live_entry (lifetime L) t (ls_buckets (snd s)) ip = None" "length (ls_buckets (snd s)) < MAX_TRACKED_PEERS"
  shows "\<exists>s'. on_admin (admin_check_at L ip t) s = (Ok Allow, s') \<and> tracked L ip \<lparr>b_started_at = t, b_consumed = 0\<rparr> s'"
proof -
  have d: "decision_at \<lparr>b_started_at = t, b_consumed = 0\<rparr> t (lifetime L) (al_max_auth_failures L) = Allow"
    using assms(1) by (simp add: decision_at_def admin_ok_def)
  obtain s' where "admin_check_at L ip t (snd s) = (Ok Allow, s')" "map_of (ls_buckets s') ip = Some \<lparr>b_started_at = t, b_consumed = 0\<rparr>"
      "table_ok MAX_TRACKED_PEERS (ls_buckets s')" "\<not> ls_poisoned s'"
    using with_fresh_bucket [OF assms, of "\<lambda>l b. (decision_at b t l (al_max_auth_failures L), b)" Allow] d unfolding admin_check_at_def by auto
  then show ?thesis by (intro exI [of _ "(fst s, s')"]) (simp add: on_admin_def tracked_def)
qed


section \<open>Applications\<close>

definition ex_secret :: string where "ex_secret = ''0123456789abcdef0123456789abcdef''"

text \<open>The example service with the two limiters, three failures allowed, a policy that observes.\<close>

definition ex_gate_app :: "(alist lmdb, mock_users, rl_key limiter_state \<times> ip_addr limiter_state) app_service" where
  "ex_gate_app = \<lparr>user_repo = user_repo ex_app, session_repo = session_repo ex_app, keys = keys ex_app, audit_sink = audit_sink ex_app,
     user_sync = user_sync ex_app, rate_limiter = composite_port noop_limiter_port (admin_limiter_port (ex_limiter 3)),
     providers = [], config = ex_config\<lparr>cfg_durability := Observe\<rparr>, lib = ex_lib, token_json = ex_token_json, ip_text = ip_text ex_app\<rparr>"

definition ex_gate_world :: "(alist lmdb, mock_users, rl_key limiter_state \<times> ip_addr limiter_state) world" where
  "ex_gate_world = \<lparr>w_clock = (\<lambda>n. int n * nanos), w_ticks = 0, w_random = (\<lambda>_. []), w_draws = 0, w_ulid = (\<lambda>_. []), w_ulids = 0,
     w_sessions = ex_store, w_users = \<lparr>mu_users = [(''usr_1'', ex_user)]\<rparr>,
     w_limits = (\<lparr>ls_buckets = [], ls_poisoned = False\<rparr>, \<lparr>ls_buckets = [], ls_poisoned = False\<rparr>),
     w_audit = [], w_attempts = [], w_fallback = [], w_sync = [], w_fail_total = 0, w_fail_run = 0\<rparr>"

definition ex_http :: "header_map \<Rightarrow> http_request" where
  "ex_http hs = \<lparr>hr_method = M_GET, hr_path = [''internal'', ''stats''], hr_headers = hs, hr_connection = Some ex_peer,
     hr_route = ''/internal/stats'', hr_query = None, hr_new_user = None, hr_patch = None, hr_claims = None\<rparr>"

lemma ex_http_simps [simp]: "hr_headers (ex_http hs) = hs" "hr_connection (ex_http hs) = Some ex_peer" "rate_limit_key (peer_of (ex_http hs)) = Some ex_peer"
  by (simp_all add: ex_http_def peer_of_def)

lemma ex_gate_simps [simp]: "lib ex_gate_app = ex_lib" "rate_limiter ex_gate_app = composite_port noop_limiter_port (admin_limiter_port (ex_limiter 3))"
  "cfg_durability (config ex_gate_app) = Observe"
  by (simp_all add: ex_gate_app_def)

text \<open>A clock that stands still.\<close>

abbreviation ex_still :: "(alist lmdb, mock_users, rl_key limiter_state \<times> ip_addr limiter_state) world" where
  "ex_still \<equiv> ex_gate_world\<lparr>w_clock := (\<lambda>_. 0)\<rparr>"


theorem operator_gate_witness:
  "\<exists>w1. internal_auth_layer ex_gate_app (\<lambda>_. None) (Some [A_SharedSecret ex_secret]) (ex_http [(''authorization'', ''Bearer '' @ ex_secret)])
      (\<lambda>p. ret (respond 200 B_Empty)) ex_still = (Ok (respond 200 B_Empty), w1) \<and> untouched ex_still w1"
proof -
  let ?q = "ex_http [(''authorization'', ''Bearer '' @ ex_secret)]" and ?next = "\<lambda>p. ret (respond 200 (B_Empty :: payload body))"
  obtain r w' where r: "internal_auth_layer ex_gate_app (\<lambda>_. None) (Some [A_SharedSecret ex_secret]) ?q ?next ex_still = (r, w')" by fastforce
  have "bearer_token (hr_headers ?q) = Some ex_secret" by code_simp
  then have a: "authenticate_request ex_gate_app (\<lambda>_. None) [A_SharedSecret ex_secret] ?q addr k ?next w = (Ok (respond 200 B_Empty), w)" for addr k w
    by (simp add: authenticate_request_def gate_authenticate_def shared_secret_authenticate_def operator_ct_eq_def ex_lib_def and_then_def
        seqq_def bindq_def assert_principal_run principal_ok_def unattributed_def UNATTRIBUTED_OPERATOR_ID_def)
  have k: "rate_limit_key (peer_of ?q) = Some ex_peer" by simp
  obtain s where chk: "check (rate_limiter ex_gate_app) (w_clock ex_still (w_ticks ex_still)) (RL_OperatorAuth ex_peer) (w_limits ex_still) = (Ok Allow, s)"
    using fresh_check [of "ex_limiter 3" "w_limits ex_still" 0 ex_peer]
    by (auto simp: composite_operator admin_ok_def ex_limiter_def duration_max_def nanos_def ex_gate_world_def ex_tables MAX_TRACKED_PEERS_def)
  have ok: "r = Ok (respond 200 B_Empty)" using r [unfolded layer_keyed [OF k chk]] a by (simp del: append_Cons)
  then have "\<not> ((\<exists>resp. r = Ok resp \<and> gate_answer resp) \<or> (\<exists>m. r = Panic m))"
    by (auto simp: gate_answer_def unauthorized_response_def lockout_response_def server_error_response_def respond_def header_insert_def)
  with operator_gate [OF r] obtain w1 where "untouched ex_still w1" "?next (undefined :: operator_principal) w1 = (r, w')" by auto
  then show ?thesis using r ok by auto
qed

end
