(* ===== verification/Plane_Properties.thy ===== *)
theory Plane_Properties
  imports Planes Config_Properties Gate_Properties
begin

text \<open>
  The properties of the HTTP surface: the closed forms of the token endpoint, the separation of the
  two planes, the address a request is accounted to and what an error response shows.
\<close>

section \<open>The token endpoint's parameters\<close>

fun form_of_grant :: "token_grant \<Rightarrow> token_form" where
  "form_of_grant (Grant_AuthorizationCode provider code redirect_uri) = \<lparr>tf_grant_type = ''authorization_code'', tf_code = Some code,
     tf_redirect_uri = Some redirect_uri, tf_provider = Some provider, tf_refresh_token = None, tf_id_token = None, tf_provider_access_token = None\<rparr>"
| "form_of_grant (Grant_IdTokenAssertion provider id_token access) = \<lparr>tf_grant_type = ''id_token'', tf_code = None,
     tf_redirect_uri = None, tf_provider = Some provider, tf_refresh_token = None, tf_id_token = Some id_token, tf_provider_access_token = access\<rparr>"
| "form_of_grant (Grant_RefreshToken tok) = \<lparr>tf_grant_type = ''refresh_token'', tf_code = None,
     tf_redirect_uri = None, tf_provider = None, tf_refresh_token = Some tok, tf_id_token = None, tf_provider_access_token = None\<rparr>"

lemma cross_grant_Ok: "cross_grant n g f = Ok u \<longleftrightarrow> f = None"
  by (simp add: cross_grant_def)

lemma required_Ok: "required n f = Ok v \<longleftrightarrow> f = Some v"
  by (auto simp: required_def missing_parameter_def split: option.splits)

text \<open>C27. A token request is a grant exactly when it is the closed form of that grant: the parameters its
  row of the parameter table declares are there, and no parameter of another row is.\<close>

theorem token_form_closed: "token_grant_of_form f = Ok g \<longleftrightarrow> f = form_of_grant g"
proof -
  have names: "AUTHORIZATION_CODE \<noteq> ID_TOKEN" "AUTHORIZATION_CODE \<noteq> REFRESH_TOKEN" "ID_TOKEN \<noteq> REFRESH_TOKEN"
    by (simp_all add: AUTHORIZATION_CODE_def ID_TOKEN_def REFRESH_TOKEN_def)
  show ?thesis
    by (cases f; cases g)
      (use names in \<open>auto simp: token_grant_of_form_def tryq_Ok cross_grant_Ok required_Ok AUTHORIZATION_CODE_def ID_TOKEN_def REFRESH_TOKEN_def\<close>)
qed

section \<open>What an error response shows\<close>

text \<open>An error without the detail it carries; the two variants whose content is meant for the client keep it.\<close>

fun redact :: "error \<Rightarrow> error" where
  "redact (InvalidGrant _) = InvalidGrant []"
| "redact (InvalidToken _) = InvalidToken []"
| "redact (InvalidRequest r) = InvalidRequest r"
| "redact (UnknownProvider _) = UnknownProvider []"
| "redact (AccessDenied _) = AccessDenied []"
| "redact (UserSuspended _) = UserSuspended []"
| "redact (Unauthorized _) = Unauthorized []"
| "redact (Conflict _) = Conflict []"
| "redact (NotFound _) = NotFound []"
| "redact (TooManyRequests n) = TooManyRequests n"
| "redact (ProviderError _ _) = ProviderError [] []"
| "redact (ProviderTimeout _) = ProviderTimeout []"
| "redact (StoreError _) = StoreError []"
| "redact (KeyError _) = KeyError []"
| "redact (AuditError _) = AuditError []"
| "redact (SecurityAuditDurability _) = SecurityAuditDurability []"
| "redact (SyncError _) = SyncError []"
| "redact (ConfigError _) = ConfigError []"

lemma description_generic: "snd (snd (map_domain_error_inner e)) \<noteq> display_error e"
  by (cases e) (auto dest: arg_cong [where f = length])

lemma map_domain_error_Ok: "map_domain_error e = Ok (map_domain_error_inner e)"
  using description_generic [of e] by (auto simp: map_domain_error_def split: prod.splits)

lemma map_domain_error_redact: "map_domain_error_inner (redact e) = map_domain_error_inner e"
  by (cases e) simp_all


section \<open>The address a request is accounted to\<close>

lemma asserted_key: "asserted s = Some a \<Longrightarrow> rate_limit_key a = None"
  by (auto simp: asserted_def)

lemma split_on_chain: "split_on c (s @ c # t) = split_on c s @ split_on c t"
proof (induction s)
  case (Cons x s)
  then show ?case by (cases "split_on c s") auto
qed simp

lemma bounded_header_whole:
  assumes "header_get hs name = Some v" "header_to_str v = Some v"
  shows "bounded_header hs name n = Some (take n v)"
  using assms by (simp add: bounded_header_def)

text \<open>The peer whose trust decides: the platform's source address, else the connection's.\<close>

definition request_peer :: "ip_addr option \<Rightarrow> ip_addr option \<Rightarrow> ip_addr option" where
  "request_peer platform connection = (case platform of Some ip \<Rightarrow> Some ip | None \<Rightarrow> connection)"

text \<open>C28. What a client writes into its headers does not choose the budget its requests are counted
  against. From a peer that is no configured proxy every request is keyed by the peer's own address,
  whatever the headers say, except that an operator who trusts reported addresses from any peer can
  leave it without a key.\<close>

theorem direct_client_key:
  assumes "request_peer platform connection = Some p" "\<not> list_ex (\<lambda>net. net_contains N net p) trusted"
    and "key = rate_limit_key (cx_client_addr (audit_context_with_location N hs platform connection supplied trusted hops C))"
  shows "key = Some p \<or> key = None \<and> slo_trust_headers_from_any_peer C"
  using assms by (cases platform)
    (auto simp: request_peer_def audit_context_with_location_def Let_def resolve_client_addr_def asserted_key split: option.splits)

text \<open>Behind a configured proxy the address is the one the proxies vouch for: with \<open>hops\<close> proxies it is
  the first of the \<open>hops\<close> entries they appended, whatever the client put in front of them, as long as
  the chain and the header keep within their bounds.\<close>

theorem proxied_client_address:
  assumes "list_ex (\<lambda>net. net_contains N net p) trusted" "split_on (CHR '','') vouched = entry # rest" "hops = Suc (length rest)"
    and "header_get hs ''x-forwarded-for'' = Some (client @ '','' @ vouched)" "header_to_str (client @ '','' @ vouched) = Some (client @ '','' @ vouched)"
    and "length (client @ '','' @ vouched) \<le> MAX_FORWARDED_HEADER_LEN" "length (split_on (CHR '','') client) + hops \<le> MAX_FORWARDED_CHAIN_ENTRIES"
  shows "resolve_client_addr N (Some p) (bounded_header hs ''x-forwarded-for'' MAX_FORWARDED_HEADER_LEN) trusted hops
    = (case parse_ip N (trim entry) of Some a \<Rightarrow> Forwarded a | None \<Rightarrow> Peer p)"
proof -
  have b: "bounded_header hs ''x-forwarded-for'' MAX_FORWARDED_HEADER_LEN = Some (client @ '','' @ vouched)"
    using bounded_header_whole [OF assms(4,5)] assms(6) by simp
  have s: "split_on (CHR '','') (client @ '','' @ vouched) = split_on (CHR '','') client @ entry # rest"
    using assms(2) split_on_chain [of "CHR '',''" client vouched] by simp
  have "select_forwarded N (client @ '','' @ vouched) hops = parse_ip N (trim entry)"
    using assms(3,7) unfolding select_forwarded_def s by (simp add: nth_append)
  then show ?thesis using assms(1) unfolding b by (simp add: resolve_client_addr_def)
qed

lemma trim_chars_pad: "is_whitespace sp \<Longrightarrow> trim_chars (cs @ replicate n sp) = trim_chars cs"
proof (cases "dropWhile is_whitespace cs = []")
  case True
  assume sp: "is_whitespace sp"
  have "\<forall>x \<in> set cs. is_whitespace x" using True by (simp add: dropWhile_eq_Nil_conv)
  then have "\<forall>x \<in> set (cs @ replicate n sp). is_whitespace x" using sp by auto
  then have pad: "dropWhile is_whitespace (cs @ replicate n sp) = []" by (simp only: dropWhile_eq_Nil_conv)
  show ?thesis unfolding trim_chars_def True pad ..
next
  case False
  then obtain x where x: "x \<in> set cs" "\<not> is_whitespace x" by (auto simp: dropWhile_eq_Nil_conv)
  assume "is_whitespace sp"
  then have "dropWhile is_whitespace (rev (dropWhile is_whitespace cs @ replicate n sp)) = dropWhile is_whitespace (rev (dropWhile is_whitespace cs))"
    by (simp, subst dropWhile_append2) auto
  then show ?thesis unfolding trim_chars_def dropWhile_append1 [where P = is_whitespace, OF x] by (rule arg_cong)
qed

text \<open>Past the bound it is the client's: the header is cut to its first 1024 characters, so a client that
  pads its entry up to there pushes everything the proxy appended off the end, and chooses the address
  its requests are counted against and audited under.\<close>

theorem padded_header_forges:
  assumes "list_ex (\<lambda>net. net_contains N net p) trusted" "is_ascii chosen" "CHR '','' \<notin> set chosen" "trim chosen = chosen"
    and "length chosen \<le> MAX_FORWARDED_HEADER_LEN" "parse_ip N chosen = Some a"
    and "padded = chosen @ replicate (MAX_FORWARDED_HEADER_LEN - length chosen) (CHR '' '')"
    and "header_get hs ''x-forwarded-for'' = Some (padded @ '','' @ vouched)" "header_to_str (padded @ '','' @ vouched) = Some (padded @ '','' @ vouched)"
  shows "resolve_client_addr N (Some p) (bounded_header hs ''x-forwarded-for'' MAX_FORWARDED_HEADER_LEN) trusted 1 = Forwarded a"
proof -
  have "length padded = MAX_FORWARDED_HEADER_LEN" using assms(5,7) by simp
  then have b: "bounded_header hs ''x-forwarded-for'' MAX_FORWARDED_HEADER_LEN = Some padded"
    using bounded_header_whole [OF assms(8,9)] by simp
  have "CHR '','' \<notin> set padded" using assms(3,7) by auto
  then have s: "split_on (CHR '','') padded = [padded]" by (rule split_on_single)
  have sp: "is_whitespace '' ''" by code_simp
  have asc: "is_ascii padded" using assms(2,7) by (auto simp: is_ascii_def list_all_iff byte_def set_replicate_conv_if)
  have "utf8_chars padded = utf8_chars chosen @ replicate (MAX_FORWARDED_HEADER_LEN - length chosen) '' ''"
    using utf8_chars_ascii [OF asc] utf8_chars_ascii [OF assms(2)] assms(7) by simp
  then have "trim padded = chosen" using trim_chars_pad [OF sp] assms(4) by (simp add: trim_def)
  then have "select_forwarded N padded 1 = Some a"
    using assms(6) unfolding select_forwarded_def s by (simp add: MAX_FORWARDED_CHAIN_ENTRIES_def MAX_TRUSTED_PROXY_HOPS_def)
  then show ?thesis using assms(1) unfolding b by (simp add: resolve_client_addr_def)
qed

section \<open>The separation of the planes\<close>

definition plane_routes :: "plane \<Rightarrow> endpoint set" where
  "plane_routes p = {e. \<exists>methods m. methods \<in> snd ` set (pn_table p) \<and> (m, e) \<in> set methods}"

lemma plane_of_Ok: "plane_of c table gate limiter = Ok p \<Longrightarrow> pn_table p = table \<and> pn_gate p = gate"
  by (auto simp: plane_of_def tryq_Ok)

lemma expect_Ok: "expect msg r = Ok x \<longleftrightarrow> r = Ok x"
  by (cases r) (simp_all add: expect_def)

lemma public_table_endpoints: "(pat, methods) \<in> set (public_table c) \<Longrightarrow> (m, EP_Internal i) \<notin> set methods \<and> (\<forall>rest. pat \<noteq> Lit ''internal'' # rest)"
  by (auto simp: public_table_def public_routes_def credential_routes_def nonce_routes_def split: if_splits)

lemma build_router_public:
  assumes "build_router load_keys c = Ok p" "srv_role (ac_server c) \<noteq> Role_Admin"
  shows "pn_table p = public_table c"
  using assms by (cases "srv_role (ac_server c)")
    (auto simp: build_router_def Let_def tryq_Ok dest!: plane_of_Ok split: prod.splits)

lemma gate_nonempty: "build_operator_auth_gate load_keys c = Ok as \<Longrightarrow> as \<noteq> []"
  by (auto simp: build_operator_auth_gate_def Let_def tryq_Ok gate_new_def split: if_splits)

lemma plane_routes_table: "pn_table p = table \<Longrightarrow> plane_routes p = {e. \<exists>pat methods m. (pat, methods) \<in> set table \<and> (m, e) \<in> set methods}"
  by (force simp: plane_routes_def)

lemma public_plane_routes: "pn_table p = public_table c \<Longrightarrow> plane_routes p \<inter> range EP_Internal = {}"
  using public_table_endpoints [of _ _ c] by (fastforce simp: plane_routes_table)

lemma admin_plane_routes:
  assumes "pn_table p = admin_table c"
  shows "plane_routes p \<subseteq> insert EP_Health (range EP_Internal)" "plane_routes p \<inter> range EP_Internal \<noteq> {} \<Longrightarrow> iac_enabled (ac_internal_api c)"
  unfolding plane_routes_table [OF assms] by (auto simp: admin_table_def internal_routes_def split: if_splits)

lemma build_routers_cases:
  assumes "build_routers load_keys c = Ok r"
  obtains gate where "internal_api_served c \<Longrightarrow> \<exists>as. gate = Some as \<and> build_operator_auth_gate load_keys c = Ok as"
    "if srv_role (ac_server c) = Role_Admin then rt_public r = None else (\<exists>p. rt_public r = Some p \<and> build_router load_keys c = Ok p)"
    "if srv_role (ac_server c) = Role_Exchange then rt_admin r = None else (\<exists>p. rt_admin r = Some p \<and> pn_table p = admin_table c \<and> pn_gate p = gate)"
  using assms that
  by (cases "srv_role (ac_server c)")
    (auto simp: build_routers_def Let_def tryq_Ok map_outcome_Ok dest!: plane_of_Ok split: if_splits prod.splits)

text \<open>C26. The planes are separate. The public plane is served exactly by the roles that exchange, the admin
  plane exactly by those that administer; no public plane has an internal route, no admin plane an
  exchange route, and an admin plane that has internal routes has a gate with at least one mechanism.\<close>

theorem planes_separate:
  assumes "build_routers load_keys c = Ok r"
  shows "(rt_public r \<noteq> None \<longleftrightarrow> srv_role (ac_server c) \<noteq> Role_Admin) \<and> (rt_admin r \<noteq> None \<longleftrightarrow> srv_role (ac_server c) \<noteq> Role_Exchange)
    \<and> (\<forall>p. rt_public r = Some p \<longrightarrow> plane_routes p \<inter> range EP_Internal = {})
    \<and> (\<forall>p. rt_admin r = Some p \<longrightarrow> plane_routes p \<subseteq> insert EP_Health (range EP_Internal)
        \<and> (plane_routes p \<inter> range EP_Internal \<noteq> {} \<longrightarrow> (\<exists>as. pn_gate p = Some as \<and> as \<noteq> [])))"
  using assms
proof (cases rule: build_routers_cases)
  case (1 gate)
  have pub: "plane_routes p \<inter> range EP_Internal = {}" if "rt_public r = Some p" for p
    using 1(2) that by (intro public_plane_routes [of p c] build_router_public [of load_keys c p]) (auto split: if_splits)
  have adm: "pn_table p = admin_table c" "pn_gate p = gate" "srv_role (ac_server c) \<noteq> Role_Exchange" if "rt_admin r = Some p" for p
    using 1(3) that by (auto split: if_splits)
  have gated: "\<exists>as. gate = Some as \<and> as \<noteq> []" if "rt_admin r = Some p" "plane_routes p \<inter> range EP_Internal \<noteq> {}" for p
  proof -
    have "internal_api_served c" using adm [OF that(1)] admin_plane_routes(2) [OF adm(1) that(2)] that
      by (cases "srv_role (ac_server c)") (auto simp: internal_api_served_def)
    then show ?thesis using 1(1) gate_nonempty by blast
  qed
  have sub: "plane_routes p \<subseteq> insert EP_Health (range EP_Internal)" if "rt_admin r = Some p" for p
    by (rule admin_plane_routes(1) [OF adm(1) [OF that]])
  have "rt_public r \<noteq> None \<longleftrightarrow> srv_role (ac_server c) \<noteq> Role_Admin" "rt_admin r \<noteq> None \<longleftrightarrow> srv_role (ac_server c) \<noteq> Role_Exchange"
    using 1(2,3) by (auto split: if_splits)
  moreover have "\<exists>as. pn_gate p = Some as \<and> as \<noteq> []" if "rt_admin r = Some p" "plane_routes p \<inter> range EP_Internal \<noteq> {}" for p
    using gated [OF that] adm(2) [OF that(1)] by simp
  ultimately show ?thesis using pub sub by simp
qed

section \<open>Starting the planes\<close>

lemma build_rate_limiter_Ok: "limits_ok (ac_rate_limit c) \<Longrightarrow> \<exists>l s. build_rate_limiter c = Ok (l, s)"
proof -
  assume ok: "limits_ok (ac_rate_limit c)"
  then have "MIN_RATE_LIMIT_WINDOW_SECS \<le> rlc_window (ac_rate_limit c)" "MIN_RATE_LIMIT_MAX_ENTRIES \<le> rlc_max_entries (ac_rate_limit c)"
    by (simp_all add: limits_ok_def)
  then have "rlc_window (ac_rate_limit c) \<noteq> 0" "rlc_max_entries (ac_rate_limit c) \<noteq> 0"
    by (auto simp: MIN_RATE_LIMIT_WINDOW_SECS_def MIN_RATE_LIMIT_MAX_ENTRIES_def)
  then have "uint (rlc_window (ac_rate_limit c)) * nanos \<noteq> 0" "unat (rlc_max_entries (ac_rate_limit c)) \<noteq> 0"
    by (simp_all add: nanos_def unat_eq_0 unsigned_eq_0_iff)
  then show ?thesis by (simp add: build_rate_limiter_def Let_def fixed_window_with_clock_def)
qed

lemma plane_of_run:
  "plane_of c table gate limiter = (if 0 < srv_request_timeout (ac_server c) \<and> srv_request_timeout (ac_server c) \<le> REQUEST_TIMEOUT_MAX_SECS
    then Ok \<lparr>pn_table = table, pn_gate = gate, pn_limiter = limiter, pn_timeout = srv_request_timeout (ac_server c), pn_base_path = srv_base_path (ac_server c)\<rparr>
    else Panic (if \<not> 0 < srv_request_timeout (ac_server c) then ''parsed request_timeout must be non-zero'' else ''parsed request_timeout exceeds the sane upper bound''))"
  by (auto simp: plane_of_def request_timeout_duration_def Let_def)

lemma routers_start:
  assumes "limits_ok (ac_rate_limit c)" "internal_api_served c \<longrightarrow> is_ok (build_operator_auth_gate load_keys c)"
  shows "if 0 < srv_request_timeout (ac_server c) \<and> srv_request_timeout (ac_server c) \<le> REQUEST_TIMEOUT_MAX_SECS
    then \<exists>r. build_routers load_keys c = Ok r else \<exists>m. build_routers load_keys c = Panic m"
proof -
  obtain l s where l: "build_rate_limiter c = Ok (l, s)" using build_rate_limiter_Ok [OF assms(1)] by blast
  have "\<exists>gate. (if internal_api_served c then map_outcome Some (build_operator_auth_gate load_keys c) else Ok None) = Ok gate"
    using assms(2) by (cases "build_operator_auth_gate load_keys c") auto
  then obtain gate where g: "(if internal_api_served c then map_outcome Some (build_operator_auth_gate load_keys c) else Ok None) = Ok gate" ..
  show ?thesis using l g
    by (cases "srv_role (ac_server c)")
      (auto simp: build_routers_def build_router_def Let_def plane_of_run expect_def internal_api_served_def map_outcome_Ok)
qed

text \<open>What a resolved configuration still has to be for its planes to come up. Given a gate that can be
  built, the routers exist exactly when the request timeout is between one second and one hour;
  resolution does not check it, and any other accepted value panics while the process starts.\<close>

theorem routers_need_timeout:
  assumes "resolve_config L raw = Ok c" "internal_api_served c \<longrightarrow> is_ok (build_operator_auth_gate load_keys c)"
  shows "if 0 < srv_request_timeout (ac_server c) \<and> srv_request_timeout (ac_server c) \<le> REQUEST_TIMEOUT_MAX_SECS
    then \<exists>r. build_routers load_keys c = Ok r else \<exists>m. build_routers load_keys c = Panic m"
  by (rule routers_start [OF _ assms(2)]) (use resolve_config_Ok [OF assms(1)] in \<open>simp add: config_ok_def\<close>)

section \<open>Applications\<close>

definition ex_key_loader :: "key_plan \<Rightarrow> key_manager result" where
  "ex_key_loader _ = Ok ex_keys"

lemma ex_gate_built: "is_ok (build_operator_auth_gate ex_key_loader (ex_resolved\<lparr>ac_server := (ac_server ex_resolved)\<lparr>srv_request_timeout := t\<rparr>\<rparr>))"
  by (simp add: build_operator_auth_gate_def build_authenticator_def ex_resolved_def build_key_manager_def present_or_def
      ex_key_loader_def operator_token_new_def mtls_new_def resolved_mtls_header_def DEFAULT_MTLS_SUBJECT_HEADER_def ex_config_trims gate_new_def)

lemma ex_timeout: "ex_resolved\<lparr>ac_server := (ac_server ex_resolved)\<lparr>srv_request_timeout := 30\<rparr>\<rparr> = ex_resolved" "srv_request_timeout (ac_server ex_resolved) = 30"
  by (simp_all add: ex_resolved_def)

lemma ex_limits: "limits_ok (ac_rate_limit ex_resolved)"
  using resolve_config_Ok [OF ex_config_resolves] by (simp add: config_ok_def)

theorem routers_need_timeout_witness: "\<exists>r. build_routers ex_key_loader ex_resolved = Ok r"
  using routers_need_timeout [OF ex_config_resolves, of ex_key_loader] ex_gate_built [of 30]
  by (simp add: ex_timeout REQUEST_TIMEOUT_MAX_SECS_def)

theorem planes_separate_witness:
  "\<exists>r p. build_routers ex_key_loader ex_resolved = Ok r \<and> rt_admin r = Some p \<and> (\<exists>as. pn_gate p = Some as \<and> as \<noteq> [])"
proof -
  obtain r where r: "build_routers ex_key_loader ex_resolved = Ok r"
    using routers_start [OF ex_limits, of ex_key_loader] ex_gate_built [of 30] by (auto simp: ex_timeout REQUEST_TIMEOUT_MAX_SECS_def)
  have "srv_role (ac_server ex_resolved) = Role_All" by (simp add: ex_resolved_def)
  then obtain p where p: "rt_admin r = Some p" using planes_separate [OF r] by auto
  have "pn_table p = admin_table ex_resolved"
    using r p by (cases rule: build_routers_cases) (auto simp: ex_resolved_def split: if_splits)
  moreover have "([Lit ''internal'', Lit ''stats''], [(M_GET, EP_Internal E_Stats)]) \<in> set (admin_table ex_resolved)"
    by (simp add: admin_table_def internal_routes_def internal_table_def ex_resolved_def)
  ultimately have "EP_Internal E_Stats \<in> plane_routes p"
    by (simp only: plane_routes_table mem_Collect_eq) (meson list.set_intros(1))
  then have "plane_routes p \<inter> range EP_Internal \<noteq> {}" by blast
  then show ?thesis using planes_separate [OF r, THEN conjunct2, THEN conjunct2, THEN conjunct2, rule_format, OF p] r p by blast
qed

text \<open>A configuration that differs from the example only in \<open>server.request_timeout = "2h"\<close> is accepted, and
  panics when its routers are built.\<close>

definition ex_slow_file :: "string raw_config" where
  "ex_slow_file = ex_file\<lparr>rc_server := (rc_server ex_file)\<lparr>rsv_request_timeout := ''2h''\<rparr>\<rparr>"

lemma ex_two_hours: "parse_duration_secs ex_conf_lib ''2h'' = Ok 7200"
  by code_simp

theorem accepted_timeout_panics:
  "\<exists>c m. resolve_config ex_conf_lib ex_slow_file = Ok c \<and> build_routers ex_key_loader c = Panic m"
proof -
  let ?s = "(ac_server ex_resolved)\<lparr>srv_request_timeout := 7200\<rparr>"
  let ?c = "ex_resolved\<lparr>ac_server := ?s\<rparr>"
  have s: "resolve_server ex_conf_lib (rc_server ex_slow_file) = Ok ?s"
    by (simp add: ex_slow_file_def resolve_server_def raw_server_default_def ex_defs ex_base_path DEFAULT_TRUSTED_PROXY_HOPS_def ex_two_hours)
  have f: "rc_registration ex_slow_file = rc_registration ex_file" "rc_session ex_slow_file = rc_session ex_file" "rc_token ex_slow_file = rc_token ex_file"
    "rc_grants ex_slow_file = rc_grants ex_file" "rc_audit ex_slow_file = rc_audit ex_file" "rc_key_manager ex_slow_file = rc_key_manager ex_file"
    "rc_repository ex_slow_file = rc_repository ex_file" "rc_session_repository ex_slow_file = rc_session_repository ex_file"
    "rc_rate_limit ex_slow_file = rc_rate_limit ex_file" "rc_user_sync ex_slow_file = rc_user_sync ex_file" "rc_telemetry ex_slow_file = rc_telemetry ex_file"
    "rc_internal_api ex_slow_file = rc_internal_api ex_file" "rc_providers ex_slow_file = rc_providers ex_file"
    by (simp_all add: ex_slow_file_def)
  have e: "\<lparr>ac_server = ?s, ac_registration = ac_registration ex_resolved, ac_session = ac_session ex_resolved, ac_token = ac_token ex_resolved,
     ac_grants = ac_grants ex_resolved, ac_audit = ac_audit ex_resolved, ac_key_manager = ac_key_manager ex_resolved, ac_repository = ac_repository ex_resolved,
     ac_session_repository = ac_session_repository ex_resolved, ac_rate_limit = ac_rate_limit ex_resolved, ac_user_sync = ac_user_sync ex_resolved,
     ac_telemetry = ac_telemetry ex_resolved, ac_internal_api = ac_internal_api ex_resolved, ac_providers = ac_providers ex_resolved\<rparr> = ?c"
    by simp
  have v: "validate_config ex_conf_lib ?c = Ok ()"
    by (simp add: validate_config_def validate_internal_api_def internal_api_served_def uses_shared_secret_def uses_operator_token_def
      uses_mtls_def resolved_mtls_header_def DEFAULT_MTLS_SUBJECT_HEADER_def listeners_collide_def ex_defs)
  have c: "resolve_config ex_conf_lib ex_slow_file = Ok ?c"
    by (simp add: resolve_config_def f s e v ex_plain ex_tok ex_grants ex_audit ex_key_manager ex_store_sections ex_rate_limit
      ex_sync_telemetry ex_internal_api ex_providers)
  have "\<exists>m. build_routers ex_key_loader ?c = Panic m"
    using routers_start [of ?c ex_key_loader] ex_limits ex_gate_built [of 7200] by (auto simp: REQUEST_TIMEOUT_MAX_SECS_def)
  then show ?thesis using c by blast
qed

text \<open>Example addresses: one proxy at \<open>10.0.0.1\<close>, and a client that writes \<open>6.6.6.6\<close>.\<close>

definition ex_net :: "string net_lib" where
  "ex_net = \<lparr>net_contains = (\<lambda>net ip. net = ''10.0.0.0/8'' \<and> ip = V4 10 0 0 1),
     parse_ip = (\<lambda>s. if s = ''6.6.6.6'' then Some (V4 6 6 6 6) else if s = ''192.0.2.7'' then Some (V4 192 0 2 7) else None),
     parse_socket_ip = (\<lambda>_. None), percent_decode_lossy = id, show_ip = (\<lambda>_. [])\<rparr>"

abbreviation ex_location :: session_location_config where
  "ex_location \<equiv> \<lparr>slo_city_header = None, slo_region_header = None, slo_country_header = None, slo_ip_header = None, slo_trust_headers_from_any_peer = False\<rparr>"

theorem direct_client_key_witness:
  "rate_limit_key (cx_client_addr (audit_context_with_location ex_net [(''x-forwarded-for'', ''6.6.6.6'')] None (Some (V4 192 0 2 7)) None [''10.0.0.0/8''] 1 ex_location))
     = Some (V4 192 0 2 7)"
  using direct_client_key [where N = ex_net and p = "V4 192 0 2 7" and platform = None and connection = "Some (V4 192 0 2 7)" and trusted = "[''10.0.0.0/8'']"
      and hs = "[(''x-forwarded-for'', ''6.6.6.6'')]" and supplied = None and hops = 1 and C = ex_location, OF _ _ refl]
  by (simp add: request_peer_def ex_net_def)

theorem proxied_client_address_witness:
  "resolve_client_addr ex_net (Some (V4 10 0 0 1)) (bounded_header [(''x-forwarded-for'', ''6.6.6.6, 192.0.2.7'')] ''x-forwarded-for'' MAX_FORWARDED_HEADER_LEN) [''10.0.0.0/8''] 1
     = Forwarded (V4 192 0 2 7)"
proof -
  have t: "trim '' 192.0.2.7'' = ''192.0.2.7''" "header_to_str ''6.6.6.6, 192.0.2.7'' = Some ''6.6.6.6, 192.0.2.7''"
    "split_on (CHR '','') '' 192.0.2.7'' = ['' 192.0.2.7'']" "length (split_on (CHR '','') ''6.6.6.6'') = 1" by code_simp+
  show ?thesis
    using proxied_client_address [where N = ex_net and p = "V4 10 0 0 1" and trusted = "[''10.0.0.0/8'']" and vouched = "'' 192.0.2.7''" and entry = "'' 192.0.2.7''"
        and rest = "[]" and hops = 1 and hs = "[(''x-forwarded-for'', ''6.6.6.6, 192.0.2.7'')]" and client = "''6.6.6.6''"] t
    by (simp add: ex_net_def header_get_def MAX_FORWARDED_HEADER_LEN_def MAX_FORWARDED_CHAIN_ENTRIES_def MAX_TRUSTED_PROXY_HOPS_def)
qed

theorem padded_header_forges_witness:
  "\<exists>padded. resolve_client_addr ex_net (Some (V4 10 0 0 1))
     (bounded_header [(''x-forwarded-for'', padded @ '', 192.0.2.7'')] ''x-forwarded-for'' MAX_FORWARDED_HEADER_LEN) [''10.0.0.0/8''] 1 = Forwarded (V4 6 6 6 6)"
proof -
  let ?p = "''6.6.6.6'' @ replicate (MAX_FORWARDED_HEADER_LEN - length ''6.6.6.6'') (CHR '' '')"
  have t: "trim ''6.6.6.6'' = ''6.6.6.6''" "is_ascii ''6.6.6.6''" "list_all (\<lambda>b. byte b = 9 \<or> 32 \<le> byte b \<and> byte b < 127) ''6.6.6.6''"
    "list_all (\<lambda>b. byte b = 9 \<or> 32 \<le> byte b \<and> byte b < 127) '', 192.0.2.7''" "byte (CHR '' '') = 32" by code_simp+
  have "header_to_str (?p @ '','' @ '' 192.0.2.7'') = Some (?p @ '','' @ '' 192.0.2.7'')"
    using t by (simp add: header_to_str_def list_all_iff set_replicate_conv_if)
  from padded_header_forges [where N = ex_net and p = "V4 10 0 0 1" and trusted = "[''10.0.0.0/8'']" and chosen = "''6.6.6.6''" and a = "V4 6 6 6 6"
      and hs = "[(''x-forwarded-for'', ?p @ '','' @ '' 192.0.2.7'')]" and vouched = "'' 192.0.2.7''", OF _ _ _ _ _ _ refl _ this] t
  have "resolve_client_addr ex_net (Some (V4 10 0 0 1))
     (bounded_header [(''x-forwarded-for'', ?p @ '', 192.0.2.7'')] ''x-forwarded-for'' MAX_FORWARDED_HEADER_LEN) [''10.0.0.0/8''] 1 = Forwarded (V4 6 6 6 6)"
    by (simp add: ex_net_def header_get_def MAX_FORWARDED_HEADER_LEN_def)
  then show ?thesis by blast
qed

end
