(* ===== verification/Throttle_Properties.thy ===== *)
theory Throttle_Properties
  imports Planes Gate_Properties
begin

text \<open>
  The layers of the public plane: what a throttled address gets, which answers may be stored, and the
  semaphore that bounds the requests in flight (\<open>crates/server/src/middleware/public_throttle.rs\<close>).
\<close>

section \<open>Throttled addresses\<close>

lemma throttle_run:
  assumes "throttled_path path" "rate_limit_key (cx_client_addr cx) = Some a"
    and "check_and_consume P (w_clock w (w_ticks w)) (RL_ClientAddr a) (w_limits w) = (d, l)"
  shows "public_throttle_layer A P body_len cx path next_handler w = (case d of
      Ok (Deny n) \<Rightarrow> public_denied A cx n (consulted w l)
    | Panic m \<Rightarrow> (Panic m, consulted w l)
    | _ \<Rightarrow> public_proceed P body_len a next_handler (consulted w l))"
  using assms by (auto simp: public_throttle_layer_def utc_now_def on_limits_def and_then_def bindq_def consulted_def
      split: outcome.splits rate_limit_decision.splits)

lemma denied_run:
  assumes "public_denied A cx n w = (r, w')"
  shows "r = Ok (throttle_response n) \<and> untouched w w' \<and> w_limits w' = w_limits w
    \<and> (\<exists>e. w_attempts w' = w_attempts w @ [e] \<and> ae_type e = ET_ThrottleExceeded \<and> ae_outcome e = Failure AF_ThrottleExceeded)"
proof -
  let ?emit = "emit_security_event A ThrottleExceeded (Failure AF_ThrottleExceeded) None None (cx_client_addr cx) (cx_user_agent cx)"
  obtain r0 w0 where e: "?emit w = (r0, w0)" by fastforce
  have em: "emitted A (records ThrottleExceeded (Failure AF_ThrottleExceeded) None [] None) w r0 w0"
    by (rule wpD [OF emit_emitted e])
  obtain ev where ev: "records ThrottleExceeded (Failure AF_ThrottleExceeded) None [] None ev" "w_attempts w0 = w_attempts w @ [ev]"
    using em by (rule emittedE)
  have "r = Ok (throttle_response n) \<and> w' = w0"
    using assms e emitted_outcome [OF em] by (auto simp: public_denied_def and_then_def)
  then show ?thesis using emitted_untouched [OF em keepsD [OF keeps_steady_emit(5) e]] ev by (auto simp: records_def)
qed

text \<open>C30. An address over its budget reaches no handler. On the paths that take credentials, a request whose
  address the limiter denies is answered 429 with the limiter's wait, at least one second; no store, no
  user and no session has been looked at, only the limiter and one audit event have moved, and a sink
  that fails does not change the answer.\<close>

theorem throttled_address_refused:
  assumes "throttled_path path" "rate_limit_key (cx_client_addr cx) = Some a"
    and "check_and_consume P (w_clock w (w_ticks w)) (RL_ClientAddr a) (w_limits w) = (Ok (Deny n), l)"
    and "public_throttle_layer A P body_len cx path next_handler w = (r, w')"
  shows "r = Ok (throttle_response n) \<and> untouched w w' \<and> w_limits w' = l
    \<and> (\<exists>e. w_attempts w' = w_attempts w @ [e] \<and> ae_type e = ET_ThrottleExceeded \<and> ae_outcome e = Failure AF_ThrottleExceeded)"
proof -
  have "public_denied A cx n (consulted w l) = (r, w')" using assms(4) by (simp add: throttle_run [OF assms(1-3)])
  from denied_run [OF this] show ?thesis using untouched_trans [of w "consulted w l" w'] by (auto simp: consulted_untouched)
qed

section \<open>Answers that may be stored\<close>

lemma header_get_insert: "header_get (rs_headers (header_insert k v r)) k' = (if k' = k then Some v else header_get (rs_headers r) k')"
  by (simp add: header_get_def header_insert_def update_conv')

lemma no_store_headers: "header_get (rs_headers (no_store r)) ''cache-control'' = Some ''no-store''"
  by (simp add: no_store_def header_get_insert)

lemma throttle_headers: "header_get (rs_headers (throttle_response n)) ''cache-control'' = None"
  by (simp add: throttle_response_def respond_def header_insert_def header_get_def)

lemma failure_headers: "is_public_authentication_failure body_len r = (b, r') \<Longrightarrow> rs_headers r' = rs_headers r"
  by (auto simp: is_public_authentication_failure_def split: if_splits)

lemma credential_layer_Ok:
  "credential_layer True m w = (Ok resp, w') \<Longrightarrow> header_get (rs_headers resp) ''cache-control'' = Some ''no-store''"
  by (auto simp: credential_layer_def no_store_headers elim!: bindq_okE)

lemma proceed_marked:
  assumes "public_proceed P body_len a (credential_layer True inner) w = (Ok resp, w')"
  shows "header_get (rs_headers resp) ''cache-control'' = Some ''no-store''"
  using assms unfolding public_proceed_def
proof (rule bindq_okE)
  fix x w1 assume x: "credential_layer True inner w = (Ok x, w1)"
    and k: "(let (failed, response') = is_public_authentication_failure body_len x in
      if failed then seqq (charge P (RL_ClientAddrFailure a)) (ret response') else ret response') w1 = (Ok resp, w')"
  obtain f x' where f: "is_public_authentication_failure body_len x = (f, x')" by fastforce
  have "resp = x'" using k f by (auto elim!: seqq_okE split: if_splits)
  then show ?thesis using failure_headers [OF f] credential_layer_Ok [OF x] by simp
qed

text \<open>Every answer of the credential routes that comes from below the throttle is marked as not to be
  stored; the throttle's own 429, which is written outside that layer, is not.\<close>

theorem credential_answers_no_store:
  assumes "public_throttle_layer A P body_len cx path (credential_layer True inner) w = (Ok resp, w')"
  shows "header_get (rs_headers resp) ''cache-control'' = Some ''no-store''
    \<or> (\<exists>n. resp = throttle_response n \<and> header_get (rs_headers resp) ''cache-control'' = None)"
proof (cases "throttled_path path \<and> rate_limit_key (cx_client_addr cx) \<noteq> None")
  case False
  then have "credential_layer True inner w = (Ok resp, w')"
    using assms by (auto simp: public_throttle_layer_def split: if_splits option.splits)
  from credential_layer_Ok [OF this] show ?thesis ..
next
  case True
  then obtain a where a: "throttled_path path" "rate_limit_key (cx_client_addr cx) = Some a" by blast
  obtain d l where d: "check_and_consume P (w_clock w (w_ticks w)) (RL_ClientAddr a) (w_limits w) = (d, l)" by fastforce
  note run = assms [unfolded throttle_run [OF a d]]
  consider n where "d = Ok (Deny n)" | m where "d = Panic m" | "public_proceed P body_len a (credential_layer True inner) (consulted w l) = (Ok resp, w')"
    using run by (cases d) (auto split: rate_limit_decision.splits)
  then show ?thesis
  proof cases
    case (1 n)
    then have "public_denied A cx n (consulted w l) = (Ok resp, w')" using run by simp
    then show ?thesis using denied_run throttle_headers by blast
  next
    case 3
    from proceed_marked [OF this] show ?thesis ..
  qed (use run in simp)
qed

section \<open>Requests in flight\<close>

text \<open>
  The semaphore of the public routes: a request takes a permit if one is free and is shed otherwise; its
  permit comes back when its response is there, and also when the request is dropped at the timeout or
  its handler panics, since the guard is dropped with it.
\<close>

record shed_state =
  sh_free :: nat
  sh_running :: "nat set"

datatype shed_event = Admitted nat | Shed nat | Finished nat

inductive shed_step :: "shed_state \<Rightarrow> shed_event \<Rightarrow> shed_state \<Rightarrow> bool" where
  admit: "0 < sh_free s \<Longrightarrow> i \<notin> sh_running s \<Longrightarrow>
    shed_step s (Admitted i) (s\<lparr>sh_free := sh_free s - 1, sh_running := insert i (sh_running s)\<rparr>)"
| shed: "sh_free s = 0 \<Longrightarrow> i \<notin> sh_running s \<Longrightarrow> shed_step s (Shed i) s"
| finish: "i \<in> sh_running s \<Longrightarrow> shed_step s (Finished i) (s\<lparr>sh_free := Suc (sh_free s), sh_running := sh_running s - {i}\<rparr>)"

inductive_cases shed_stepE: "shed_step s e s'"

definition shed_init :: "nat \<Rightarrow> shed_state" where
  "shed_init permits = \<lparr>sh_free = permits, sh_running = {}\<rparr>"

inductive shed_run :: "nat \<Rightarrow> shed_event list \<Rightarrow> shed_state \<Rightarrow> bool" for permits where
  start: "shed_run permits [] (shed_init permits)"
| more: "shed_run permits es s \<Longrightarrow> shed_step s e s' \<Longrightarrow> shed_run permits (es @ [e]) s'"

definition shed_inv :: "nat \<Rightarrow> shed_state \<Rightarrow> bool" where
  "shed_inv permits s = (finite (sh_running s) \<and> card (sh_running s) + sh_free s = permits)"

lemma shed_step_inv: "shed_step s e s' \<Longrightarrow> shed_inv permits s \<Longrightarrow> shed_inv permits s'"
proof (induction rule: shed_step.induct)
  case (finish i s)
  then have "Suc (card (sh_running s - {i})) = card (sh_running s)" by (intro card_Suc_Diff1) (auto simp: shed_inv_def)
  then show ?case using finish by (simp add: shed_inv_def)
qed (auto simp: shed_inv_def)

lemma shed_run_inv: "shed_run permits es s \<Longrightarrow> shed_inv permits s"
proof (induction rule: shed_run.induct)
  case start
  show ?case by (simp add: shed_init_def shed_inv_def)
next
  case more
  then show ?case by (blast intro: shed_step_inv)
qed


section \<open>Applications\<close>


definition ex_denying :: "(rl_key limiter_state \<times> ip_addr limiter_state) limiter_port" where
  "ex_denying = \<lparr>check_and_consume = (\<lambda>_ _ s. (Ok (Deny 9), s)), check = (\<lambda>_ _ s. (Ok (Deny 9), s)), consume = (\<lambda>_ _ s. (Ok (Deny 9), s))\<rparr>"

abbreviation ex_cx :: audit_context where
  "ex_cx \<equiv> \<lparr>cx_client_addr = Peer ex_peer, cx_user_agent = None, cx_device_id = None, cx_location = None\<rparr>"

theorem throttled_address_refused_witness:
  "fst (public_throttle_layer ex_gate_app ex_denying (\<lambda>_. 0) ex_cx [''token''] (panic ''handler'') ex_still) = Ok (throttle_response 9 :: payload response)"
proof -
  obtain r w' where r: "public_throttle_layer ex_gate_app ex_denying (\<lambda>_. 0) ex_cx [''token''] (panic ''handler'') ex_still = (r :: payload response result, w')"
    by fastforce
  show ?thesis using throttled_address_refused [OF _ _ _ r, of ex_peer 9] r by (simp add: throttled_path_def ex_denying_def)
qed

theorem credential_answers_no_store_witness:
  "header_get (rs_headers (throttle_response 9 :: payload response)) ''cache-control'' = None"
proof -
  obtain r w' where r: "public_throttle_layer ex_gate_app ex_denying (\<lambda>_. 0) ex_cx [''token''] (credential_layer True (panic ''handler'')) ex_still
      = (r :: payload response result, w')" by fastforce
  have chk: "check_and_consume ex_denying (w_clock ex_still (w_ticks ex_still)) (RL_ClientAddr ex_peer) (w_limits ex_still) = (Ok (Deny 9), w_limits ex_still)"
    by (simp add: ex_denying_def)
  have "public_denied ex_gate_app ex_cx 9 (consulted ex_still (w_limits ex_still)) = (r, w')"
    using r by (simp add: throttle_run [OF _ _ chk] throttled_path_def)
  from denied_run [OF this] have "r = Ok (throttle_response 9)" by simp
  with r have "public_throttle_layer ex_gate_app ex_denying (\<lambda>_. 0) ex_cx [''token''] (credential_layer True (panic ''handler'')) ex_still
      = (Ok (throttle_response 9 :: payload response), w')" by simp
  from credential_answers_no_store [OF this] show ?thesis by (simp add: throttle_headers)
qed

end
