(* ===== verification/Sql.thy ===== *)
theory Sql
  imports Results Domain_Error
begin

text \<open>
  A SQL store as the adapters use one through \<open>sqlx\<close>. A table is the list of its rows in row order, a
  statement a function of the tables that either fails with an error of the engine and changes
  nothing, or answers and leaves new tables. The engine may fail any call. A transaction works on a
  copy that its commit installs; dropping it leaves the tables alone. Below the model is the calculus
  its proofs use: \<open>runs\<close> says what a run may leave.
\<close>

section \<open>The engine\<close>

record sql_error =
  se_code :: "string option"
  se_text :: string

record sql_engine =
  sql_fault :: "nat \<Rightarrow> sql_error option"
  sql_display :: "sql_error \<Rightarrow> string"

datatype executor = On_Pool | On_Tx

record 'd sql_state =
  db :: 'd
  tx :: 'd
  sql_calls :: nat

type_synonym ('d, 'a) statement = "'d \<Rightarrow> (sql_error, 'a \<times> 'd) outcome"
type_synonym ('d, 'a) sql_raw = "('d sql_state, sql_error, 'a) prog"
type_synonym ('d, 'a) sql = "('d sql_state, error, 'a) prog"

definition sql_call :: "sql_engine \<Rightarrow> ('d, unit) sql_raw" where
  "sql_call G s = (case sql_fault G (sql_calls s) of None \<Rightarrow> Ok () | Some e \<Rightarrow> Err e, s\<lparr>sql_calls := Suc (sql_calls s)\<rparr>)"

definition run_on :: "executor \<Rightarrow> ('d, 'a) statement \<Rightarrow> ('d, 'a) sql_raw" where
  "run_on x f s = (case f (case x of On_Pool \<Rightarrow> db s | On_Tx \<Rightarrow> tx s) of
       Ok (a, d) \<Rightarrow> (Ok a, (case x of On_Pool \<Rightarrow> s\<lparr>db := d\<rparr> | On_Tx \<Rightarrow> s\<lparr>tx := d\<rparr>))
     | Err e \<Rightarrow> (Err e, s)
     | Panic p \<Rightarrow> (Panic p, s))"

text \<open>\<open>map_err(|e| Error::StoreError ..)\<close>.\<close>

definition sql_err :: "sql_engine \<Rightarrow> ('d, 'a) sql_raw \<Rightarrow> ('d, 'a) sql" where
  "sql_err G m = and_then m ret (\<lambda>e. throw (StoreError (sql_display G e)))"

definition query_raw :: "sql_engine \<Rightarrow> executor \<Rightarrow> ('d, 'a) statement \<Rightarrow> ('d, 'a) sql_raw" where
  "query_raw G x f = seqq (sql_call G) (run_on x f)"

definition query :: "sql_engine \<Rightarrow> executor \<Rightarrow> ('d, 'a) statement \<Rightarrow> ('d, 'a) sql" where
  "query G x f = sql_err G (query_raw G x f)"

definition tx_begin :: "sql_engine \<Rightarrow> ('d, unit) sql" where
  "tx_begin G = sql_err G (seqq (sql_call G) (writes (\<lambda>s. s\<lparr>tx := db s\<rparr>)))"

definition tx_commit :: "sql_engine \<Rightarrow> ('d, unit) sql" where
  "tx_commit G = sql_err G (seqq (sql_call G) (writes (\<lambda>s. s\<lparr>db := tx s\<rparr>)))"

definition tx_rollback :: "sql_engine \<Rightarrow> ('d, unit) sql" where
  "tx_rollback G = sql_err G (sql_call G)"

section \<open>Statements\<close>

definition select :: "('d \<Rightarrow> 'a) \<Rightarrow> ('d, 'a) statement" where
  "select f d = Ok (f d, d)"

text \<open>\<open>DELETE .. WHERE\<close>, with \<open>rows_affected()\<close>.\<close>

definition deleted_rows :: "('r \<Rightarrow> bool) \<Rightarrow> 'r list \<Rightarrow> u64" where
  "deleted_rows P rows = of_nat (length (filter P rows))"

definition remaining_rows :: "('r \<Rightarrow> bool) \<Rightarrow> 'r list \<Rightarrow> 'r list" where
  "remaining_rows P rows = filter (\<lambda>r. \<not> P r) rows"

text \<open>\<open>ORDER BY key DESC\<close>, ties in row order, and \<open>LIMIT\<close>: a negative limit is none.\<close>

definition order_by_desc :: "('r \<Rightarrow> 'k :: linorder) \<Rightarrow> 'r list \<Rightarrow> 'r list" where
  "order_by_desc key rows = rev (sort_key key (rev rows))"

definition sql_limit :: "int \<Rightarrow> 'r list \<Rightarrow> 'r list" where
  "sql_limit n rows = (if n < 0 then rows else take (nat n) rows)"

definition primary_key_violation :: "string \<Rightarrow> sql_error" where
  "primary_key_violation column = \<lparr>se_code = Some ''1555'', se_text = ''UNIQUE constraint failed: '' @ column\<rparr>"

section \<open>Tables with a key\<close>

definition lookup :: "('r \<Rightarrow> 'k) \<Rightarrow> 'r list \<Rightarrow> 'k \<Rightarrow> 'r option" where
  "lookup k rows h = find (\<lambda>r. k r = h) rows"

definition keyed :: "('r \<Rightarrow> 'k) \<Rightarrow> 'r list \<Rightarrow> bool" where
  "keyed k rows = distinct (map k rows)"

lemma lookup_simps [simp]: "lookup k [] h = None" "lookup k (r # rows) h = (if k r = h then Some r else lookup k rows h)"
  by (simp_all add: lookup_def)

lemma lookup_Some: "lookup k rows h = Some r \<Longrightarrow> r \<in> set rows \<and> k r = h"
  by (induction rows) (auto split: if_splits)

lemma lookup_iff: "keyed k rows \<Longrightarrow> lookup k rows h = Some r \<longleftrightarrow> r \<in> set rows \<and> k r = h"
  by (induction rows) (auto simp: keyed_def split: if_splits)

lemma lookup_None: "lookup k rows h = None \<longleftrightarrow> h \<notin> k ` set rows"
  by (induction rows) auto

lemma list_ex_lookup: "list_ex (\<lambda>r. k r = h) rows \<longleftrightarrow> lookup k rows h \<noteq> None"
  by (induction rows) auto

lemma lookup_append: "lookup k (rows @ rows') h = (case lookup k rows h of Some r \<Rightarrow> Some r | None \<Rightarrow> lookup k rows' h)"
  by (induction rows) auto

lemma lookup_remaining:
  "keyed k rows \<Longrightarrow> lookup k (remaining_rows P rows) h = Option.bind (lookup k rows h) (\<lambda>r. if P r then None else Some r)"
proof (induction rows)
  case (Cons r rows)
  have n: "lookup k (remaining_rows P rows) (k r) = None" using Cons.prems by (auto simp: lookup_None remaining_rows_def keyed_def)
  show ?case using Cons n by (auto simp: remaining_rows_def keyed_def split: if_splits)
qed (simp add: remaining_rows_def)

lemma lookup_remove_key: "keyed k rows \<Longrightarrow> lookup k (remaining_rows (\<lambda>r. k r = h) rows) h' = (if h' = h then None else lookup k rows h')"
  using lookup_Some [of k rows h'] by (cases "lookup k rows h'") (auto simp: lookup_remaining)

lemma lookup_map: "(\<And>r. k (f r) = k r) \<Longrightarrow> lookup k (map f rows) h = map_option f (lookup k rows h)"
  by (induction rows) auto

lemma keyed_remaining [simp]: "keyed k rows \<Longrightarrow> keyed k (remaining_rows P rows)"
  by (simp add: keyed_def remaining_rows_def distinct_map_filter)

lemma keyed_snoc: "keyed k (rows @ [r]) \<longleftrightarrow> keyed k rows \<and> lookup k rows (k r) = None"
  by (auto simp: keyed_def lookup_None)

lemma keyed_map: "(\<And>r. k (f r) = k r) \<Longrightarrow> keyed k (map f rows) = keyed k rows"
  by (simp add: keyed_def comp_def)

lemma in_remaining [simp]: "r \<in> set (remaining_rows P rows) \<longleftrightarrow> r \<in> set rows \<and> \<not> P r"
  by (auto simp: remaining_rows_def)

lemma deleted_card: "keyed k rows \<Longrightarrow> deleted_rows P rows = of_nat (card {h. \<exists>r. lookup k rows h = Some r \<and> P r})"
proof -
  assume d: "keyed k rows"
  have "{h. \<exists>r. lookup k rows h = Some r \<and> P r} = set (map k (filter P rows))" using lookup_iff [OF d] by auto
  moreover have "card (set (map k (filter P rows))) = length (filter P rows)"
    using d by (metis distinct_card distinct_map_filter keyed_def length_map)
  ultimately show ?thesis by (simp add: deleted_rows_def)
qed

lemma deleted_key: "keyed k rows \<Longrightarrow> deleted_rows (\<lambda>r. k r = h \<and> P r) rows = (case lookup k rows h of Some r \<Rightarrow> if P r then 1 else 0 | None \<Rightarrow> 0)"
proof -
  assume d: "keyed k rows"
  have "{h'. \<exists>r. lookup k rows h' = Some r \<and> k r = h \<and> P r} = (case lookup k rows h of Some r \<Rightarrow> if P r then {h} else {} | None \<Rightarrow> {})"
    using lookup_Some [of k rows] by (auto split: option.splits)
  then show ?thesis by (simp add: deleted_card [OF d] split: option.splits)
qed

lemma order_by_desc_set [simp]: "set (order_by_desc key rows) = set rows" "distinct (order_by_desc key rows) = distinct rows"
  by (simp_all add: order_by_desc_def)

lemma order_by_desc_sorted: "sorted_wrt (\<lambda>a b. key b \<le> key a) (order_by_desc key rows)"
proof -
  have "sorted (map key (sort_key key (rev rows)))" by simp
  then show ?thesis by (simp add: order_by_desc_def sorted_map sorted_wrt_rev)
qed

section \<open>Runs\<close>

text \<open>
  \<open>runs pan b m Q d t\<close>: from committed tables \<open>d\<close> and working copy \<open>t\<close>, a successful run of \<open>m\<close> leaves
  what \<open>Q\<close> allows, and a failing one answers a store error (or panics, where \<open>pan\<close> allows it) and
  leaves the committed tables \<open>b\<close>.
\<close>

named_theorems runs_rules \<open>introduction rules for runs\<close>

definition runs :: "bool \<Rightarrow> 'd \<Rightarrow> ('d, 'a) sql \<Rightarrow> ('a \<Rightarrow> 'd \<Rightarrow> 'd \<Rightarrow> bool) \<Rightarrow> 'd \<Rightarrow> 'd \<Rightarrow> bool" where
  "runs pan b m Q d t \<longleftrightarrow> (\<forall>s r s'. db s = d \<longrightarrow> tx s = t \<longrightarrow> m s = (r, s') \<longrightarrow>
     (case r of Ok x \<Rightarrow> Q x (db s') (tx s') | Err e \<Rightarrow> (\<exists>x. e = StoreError x) \<and> db s' = b | Panic p \<Rightarrow> pan \<and> db s' = b))"

lemma runsD:
  assumes "runs pan (db s) m Q (db s) (tx s)" "m s = (r, s')"
  shows "(\<exists>x. r = Err (StoreError x)) \<and> db s' = db s \<or> pan \<and> (\<exists>p. r = Panic p) \<and> db s' = db s
    \<or> (\<exists>x. r = Ok x \<and> Q x (db s') (tx s'))"
  using assms unfolding runs_def by (cases r) fastforce+

lemma runs_ret [runs_rules]: "Q x d t \<Longrightarrow> runs pan b (ret x) Q d t"
  by (simp add: runs_def)

lemma runs_throw [runs_rules]: "d = b \<Longrightarrow> runs pan b (throw (StoreError x)) Q d t"
  by (simp add: runs_def)

lemma runs_bindq [runs_rules]: "runs pan b m (\<lambda>x d t. runs pan b (f x) Q d t) d t \<Longrightarrow> runs pan b (bindq m f) Q d t"
  unfolding runs_def by (fastforce elim!: bindq_cases)

lemma runs_seqq [runs_rules]: "runs pan b m (\<lambda>_ d t. runs pan b k Q d t) d t \<Longrightarrow> runs pan b (seqq m k) Q d t"
  unfolding seqq_def by (rule runs_bindq)

lemma runs_assert [runs_rules]:
  "(c \<Longrightarrow> Q () d t) \<Longrightarrow> (\<not> c \<Longrightarrow> pan \<and> d = b) \<Longrightarrow> runs pan b (assert_that c msg) Q d t"
  by (auto simp: runs_def)

lemma runs_outcome [runs_rules]:
  "(\<And>x. r = Ok x \<Longrightarrow> Q x d t) \<Longrightarrow> (\<And>e. r = Err e \<Longrightarrow> (\<exists>x. e = StoreError x) \<and> d = b) \<Longrightarrow> (\<And>p. r = Panic p \<Longrightarrow> pan \<and> d = b)
     \<Longrightarrow> runs pan b (from_outcome r) Q d t"
  by (auto simp: runs_def split: outcome.splits)

lemma runs_if [runs_rules]: "(c \<Longrightarrow> runs pan b m Q d t) \<Longrightarrow> (\<not> c \<Longrightarrow> runs pan b k Q d t) \<Longrightarrow> runs pan b (if c then m else k) Q d t"
  by simp

lemma runs_option [runs_rules]:
  "(v = None \<Longrightarrow> runs pan b m Q d t) \<Longrightarrow> (\<And>y. v = Some y \<Longrightarrow> runs pan b (k y) Q d t) \<Longrightarrow>
     runs pan b (case v of None \<Rightarrow> m | Some y \<Rightarrow> k y) Q d t"
  by (cases v) auto

lemma runs_let [runs_rules]: "runs pan b (f x) Q d t \<Longrightarrow> runs pan b (Let x f) Q d t"
  by simp

lemma runs_pool:
  "d = b \<Longrightarrow> (case f d of Ok (x, d') \<Rightarrow> Q x d' t | Err e \<Rightarrow> True | Panic p \<Rightarrow> False) \<Longrightarrow> runs pan b (query G On_Pool f) Q d t"
  by (auto simp: runs_def query_def query_raw_def sql_err_def sql_call_def run_on_def and_then_def seqq_def bindq_def
      split: option.splits outcome.splits prod.splits)

lemma runs_tx:
  "d = b \<Longrightarrow> (case f t of Ok (x, t') \<Rightarrow> Q x d t' | Err e \<Rightarrow> True | Panic p \<Rightarrow> False) \<Longrightarrow> runs pan b (query G On_Tx f) Q d t"
  by (auto simp: runs_def query_def query_raw_def sql_err_def sql_call_def run_on_def and_then_def seqq_def bindq_def
      split: option.splits outcome.splits prod.splits)

lemma runs_select [runs_rules]:
  "d = b \<Longrightarrow> Q (g d) d t \<Longrightarrow> runs pan b (query G On_Pool (select g)) Q d t"
  "d = b \<Longrightarrow> Q (g t) d t \<Longrightarrow> runs pan b (query G On_Tx (select g)) Q d t"
  by (intro runs_pool runs_tx; simp add: select_def)+

lemma runs_transaction [runs_rules]:
  "d = b \<Longrightarrow> Q () d d \<Longrightarrow> runs pan b (tx_begin G) Q d t"
  "d = b \<Longrightarrow> Q () t t \<Longrightarrow> runs pan b (tx_commit G) Q d t"
  "d = b \<Longrightarrow> Q () d t \<Longrightarrow> runs pan b (tx_rollback G) Q d t"
  by (auto simp: runs_def tx_begin_def tx_commit_def tx_rollback_def sql_err_def sql_call_def and_then_def seqq_def bindq_def
      split: option.splits)

end
