(* ===== verification/Sqlite_Sessions.thy ===== *)
theory Sqlite_Sessions
  imports Session_Port Sql "HOL-Library.List_Lexorder" "HOL-Library.Char_ord"
begin

text \<open>
  The session half of the SQLite adapter (\<open>crates/adapters/src/sqlite/mod.rs\<close>) over the store of \<open>Sql\<close>:
  the rows of its three tables, the statements it runs and the twelve operations of the port. Instants
  are text columns, compared as text.
\<close>

section \<open>Rows\<close>

record session_row =
  q_hash :: string
  q_user_id :: string
  q_family_id :: "string option"
  q_generation :: int
  q_provider :: string
  q_expires_at :: string
  q_rotated_at :: "string option"
  q_device_id :: "string option"
  q_user_agent :: "string option"
  q_ip_address :: "string option"
  q_location :: "string option"
  q_created_at :: string

record retired_row =
  k_hash :: string
  k_family_id :: string
  k_user_id :: string
  k_successor_hash :: string
  k_retired_at :: string
  k_expires_at :: string

record single_use_row =
  z_key :: string
  z_expires_at :: string

record session_tables =
  sessions :: "session_row list"
  retired_refresh_tokens :: "retired_row list"
  single_use :: "single_use_row list"

text \<open>\<open>DateTime::to_rfc3339\<close> and its parser, and serde on a session location.\<close>

record sql_codec =
  time_text :: "instant \<Rightarrow> string"
  parse_time :: "string \<Rightarrow> instant option"
  location_json :: "session_location \<Rightarrow> string option"
  parse_location :: "string \<Rightarrow> session_location option"

record sqlite_env =
  engine :: sql_engine
  scodec :: sql_codec
  slib :: lib
  sqlite_reuse_retention_secs :: u64

definition parse_column :: "sql_codec \<Rightarrow> string \<Rightarrow> string \<Rightarrow> instant result" where
  "parse_column C field v = (case parse_time C v of Some t \<Rightarrow> Ok t | None \<Rightarrow> Err (StoreError (''failed to parse '' @ field)))"

definition row_to_session :: "sql_codec \<Rightarrow> session_row \<Rightarrow> session result" where
  "row_to_session C row =
     tryq (parse_column C ''expires_at'' (q_expires_at row)) (\<lambda>expires.
     tryq (parse_column C ''created_at'' (q_created_at row)) (\<lambda>created.
     tryq (case q_rotated_at row of Some s \<Rightarrow> map_outcome Some (parse_column C ''rotated_at'' s) | None \<Rightarrow> Ok None) (\<lambda>rotated.
     tryq (case q_location row of
         Some j \<Rightarrow> (case parse_location C j of Some l \<Rightarrow> Ok (Some l) | None \<Rightarrow> Err (StoreError ''failed to parse session location''))
       | None \<Rightarrow> Ok None) (\<lambda>location.
     Ok \<lparr>s_user_id = q_user_id row, s_hash = q_hash row, s_family_id = (case q_family_id row of Some f \<Rightarrow> f | None \<Rightarrow> []),
        s_generation = word_of_int (q_generation row), s_provider = q_provider row, s_expires_at = expires, s_rotated_at = rotated,
        s_device_id = q_device_id row, s_user_agent = q_user_agent row, s_ip_address = q_ip_address row, s_location = location,
        s_created_at = created\<rparr>))))"

definition row_to_retired :: "sql_codec \<Rightarrow> retired_row \<Rightarrow> retired_refresh_token result" where
  "row_to_retired C row =
     tryq (parse_column C ''retired_at'' (k_retired_at row)) (\<lambda>t.
     tryq (parse_column C ''expires_at'' (k_expires_at row)) (\<lambda>expires.
     Ok \<lparr>r_hash = k_hash row, r_family_id = k_family_id row, r_user_id = k_user_id row, r_successor_hash = k_successor_hash row,
        r_retired_at = t, r_expires_at = expires\<rparr>))"

definition sqlite_retirement_record :: "sqlite_env \<Rightarrow> string \<Rightarrow> session \<Rightarrow> session \<Rightarrow> instant \<Rightarrow> retired_refresh_token result" where
  "sqlite_retirement_record E live_hash l replacement now =
     (if s_hash l \<noteq> live_hash then Panic ''retirement record must name the presented hash''
      else if \<not> is_valid_family_id (s_family_id l) then Panic ''a legacy row must not produce a retirement record''
      else tryq (retention_deadline (slib E) now (sqlite_reuse_retention_secs E) (s_expires_at replacement)) (\<lambda>d.
        Ok \<lparr>r_hash = live_hash, r_family_id = s_family_id l, r_user_id = s_user_id l, r_successor_hash = s_hash replacement,
           r_retired_at = now, r_expires_at = d\<rparr>))"

text \<open>The columns \<open>insert_session_tx\<close> binds.\<close>

definition session_columns :: "sql_codec \<Rightarrow> session \<Rightarrow> session_row result" where
  "session_columns C x = (let row = (\<lambda>loc. \<lparr>q_hash = s_hash x, q_user_id = s_user_id x, q_family_id = Some (s_family_id x),
       q_generation = uint (s_generation x), q_provider = s_provider x, q_expires_at = time_text C (s_expires_at x),
       q_rotated_at = map_option (time_text C) (s_rotated_at x), q_device_id = s_device_id x, q_user_agent = s_user_agent x,
       q_ip_address = s_ip_address x, q_location = loc, q_created_at = time_text C (s_created_at x)\<rparr>) in
     case s_location x of
       None \<Rightarrow> Ok (row None)
     | Some l \<Rightarrow> (case location_json C l of Some j \<Rightarrow> Ok (row (Some j)) | None \<Rightarrow> Err (StoreError ''failed to encode session location'')))"

definition insert_session :: "bool \<Rightarrow> session_row \<Rightarrow> (session_tables, unit) statement" where
  "insert_session replace row d =
     (if replace then Ok ((), d\<lparr>sessions := remaining_rows (\<lambda>r. q_hash r = q_hash row) (sessions d) @ [row]\<rparr>)
      else if list_ex (\<lambda>r. q_hash r = q_hash row) (sessions d) then Err (primary_key_violation ''sessions.refresh_token_hash'')
      else Ok ((), d\<lparr>sessions := sessions d @ [row]\<rparr>))"

definition insert_session_tx :: "sqlite_env \<Rightarrow> executor \<Rightarrow> session \<Rightarrow> bool \<Rightarrow> (session_tables, unit) sql" where
  "insert_session_tx E x session replace =
     bindq (from_outcome (session_columns (scodec E) session)) (\<lambda>row. query (engine E) x (insert_session replace row))"

definition insert_retired :: "retired_row \<Rightarrow> (session_tables, unit) statement" where
  "insert_retired row d =
     (if list_ex (\<lambda>r. k_hash r = k_hash row) (retired_refresh_tokens d) then Err (primary_key_violation ''retired_refresh_tokens.refresh_token_hash'')
      else Ok ((), d\<lparr>retired_refresh_tokens := retired_refresh_tokens d @ [row]\<rparr>))"

definition retired_columns :: "sql_codec \<Rightarrow> retired_refresh_token \<Rightarrow> retired_row" where
  "retired_columns C r = \<lparr>k_hash = r_hash r, k_family_id = r_family_id r, k_user_id = r_user_id r, k_successor_hash = r_successor_hash r,
     k_retired_at = time_text C (r_retired_at r), k_expires_at = time_text C (r_expires_at r)\<rparr>"

definition delete_sessions :: "(session_row \<Rightarrow> bool) \<Rightarrow> (session_tables, u64) statement" where
  "delete_sessions P d = Ok (deleted_rows P (sessions d), d\<lparr>sessions := remaining_rows P (sessions d)\<rparr>)"

definition delete_retired :: "(retired_row \<Rightarrow> bool) \<Rightarrow> (session_tables, u64) statement" where
  "delete_retired P d = Ok (deleted_rows P (retired_refresh_tokens d), d\<lparr>retired_refresh_tokens := remaining_rows P (retired_refresh_tokens d)\<rparr>)"

definition delete_single_use :: "(single_use_row \<Rightarrow> bool) \<Rightarrow> (session_tables, u64) statement" where
  "delete_single_use P d = Ok (deleted_rows P (single_use d), d\<lparr>single_use := remaining_rows P (single_use d)\<rparr>)"

section \<open>The port operations\<close>

definition sqlite_store_refresh_token :: "sqlite_env \<Rightarrow> session \<Rightarrow> (session_tables, unit) sql" where
  "sqlite_store_refresh_token E x = insert_session_tx E On_Pool x True"

definition find_session :: "string \<Rightarrow> (session_tables, session_row option) statement" where
  "find_session h = select (\<lambda>d. find (\<lambda>r. q_hash r = h) (sessions d))"

definition opt_row :: "('r \<Rightarrow> 'a result) \<Rightarrow> 'r option \<Rightarrow> ('w, error, 'a option) prog" where
  "opt_row f row = (case row of Some r \<Rightarrow> bindq (from_outcome (f r)) (\<lambda>x. ret (Some x)) | None \<Rightarrow> ret None)"

definition sqlite_get_session :: "sqlite_env \<Rightarrow> string \<Rightarrow> (session_tables, session option) sql" where
  "sqlite_get_session E h = bindq (query (engine E) On_Pool (find_session h)) (opt_row (row_to_session (scodec E)))"

definition sqlite_get_retired_record :: "sqlite_env \<Rightarrow> string \<Rightarrow> (session_tables, retired_refresh_token option) sql" where
  "sqlite_get_retired_record E h = bindq (query (engine E) On_Pool (select (\<lambda>d. find (\<lambda>r. k_hash r = h) (retired_refresh_tokens d))))
     (opt_row (row_to_retired (scodec E)))"

definition sqlite_resolve :: "sqlite_env \<Rightarrow> instant \<Rightarrow> string \<Rightarrow> (session_tables, refresh_resolution) sql" where
  "sqlite_resolve E now h =
     seqq (assert_that (h \<noteq> []) ''resolve_refresh_token: token_hash must not be empty'')
     (bindq (sqlite_get_session E h) (\<lambda>found. case found of
        Some session \<Rightarrow> ret (Live session)
      | None \<Rightarrow> bindq (sqlite_get_retired_record E h) (\<lambda>kept. case kept of
          None \<Rightarrow> ret Unknown
        | Some record \<Rightarrow>
            if r_expires_at record \<le> now then ret Unknown
            else bindq (sqlite_get_session E (r_successor_hash record)) (\<lambda>successor. case successor of
              Some successor_live \<Rightarrow> ret (Superseded successor_live (r_retired_at record))
            | None \<Rightarrow> ret (Retired (r_family_id record) (r_user_id record) (r_retired_at record))))))"

definition sqlite_rotate :: "sqlite_env \<Rightarrow> instant \<Rightarrow> string \<Rightarrow> session \<Rightarrow> (session_tables, bool) sql" where
  "sqlite_rotate E now h replacement =
     seqq (assert_that (h \<noteq> s_hash replacement) ''rotate_refresh_token: replacement must be a fresh generation'')
     (seqq (assert_that (is_valid_family_id (s_family_id replacement)) ''rotate_refresh_token: malformed replacement family id'')
     (seqq (tx_begin (engine E))
     (bindq (query (engine E) On_Tx (find_session h)) (\<lambda>live_row. case live_row of
        None \<Rightarrow> seqq (tx_rollback (engine E)) (ret False)
      | Some row \<Rightarrow> bindq (from_outcome (row_to_session (scodec E) row)) (\<lambda>l.
          let legacy_row = (s_family_id l = []) in
          seqq (assert_that (legacy_row \<or> s_family_id l = s_family_id replacement) ''rotate_refresh_token: family mismatch between live and replacement'')
          (seqq (assert_that (s_user_id l = s_user_id replacement) ''rotate_refresh_token: user mismatch between live and replacement'')
          (bindq (query (engine E) On_Tx (delete_sessions (\<lambda>r. q_hash r = h))) (\<lambda>deleted.
           if deleted = 0 then seqq (tx_rollback (engine E)) (ret False)
           else seqq (if legacy_row then ret ()
                 else bindq (from_outcome (sqlite_retirement_record E h l replacement now)) (\<lambda>record.
                   query (engine E) On_Tx (insert_retired (retired_columns (scodec E) record))))
               (seqq (insert_session_tx E On_Tx replacement False)
               (seqq (tx_commit (engine E)) (ret True)))))))))))"

definition sqlite_revoke_session :: "sqlite_env \<Rightarrow> string \<Rightarrow> (session_tables, unit) sql" where
  "sqlite_revoke_session E h = bindq (query (engine E) On_Pool (delete_sessions (\<lambda>r. q_hash r = h))) (\<lambda>_. ret ())"

definition sqlite_revoke_family :: "sqlite_env \<Rightarrow> string \<Rightarrow> (session_tables, u64) sql" where
  "sqlite_revoke_family E f =
     seqq (assert_that (is_valid_family_id f) ''revoke_family: malformed family id'')
     (seqq (tx_begin (engine E))
     (bindq (query (engine E) On_Tx (delete_sessions (\<lambda>r. q_family_id r = Some f))) (\<lambda>l.
      bindq (query (engine E) On_Tx (delete_retired (\<lambda>r. k_family_id r = f))) (\<lambda>ret_rows.
      seqq (tx_commit (engine E)) (ret (l + ret_rows))))))"

definition sqlite_count_active_sessions :: "sqlite_env \<Rightarrow> instant \<Rightarrow> (session_tables, u64) sql" where
  "sqlite_count_active_sessions E now = (let now_str = time_text (scodec E) now in
     query (engine E) On_Pool (select (\<lambda>d. of_nat (length (filter (\<lambda>r. q_expires_at r > now_str) (sessions d))))))"

definition sqlite_list_live_sessions :: "sqlite_env \<Rightarrow> string \<Rightarrow> instant \<Rightarrow> nat \<Rightarrow> (session_tables, session list) sql" where
  "sqlite_list_live_sessions E u now lmt =
     bindq (query (engine E) On_Pool (select (\<lambda>d. sql_limit (sint (of_nat lmt :: u64))
         (order_by_desc q_created_at (filter (\<lambda>r. q_user_id r = u \<and> q_expires_at r > time_text (scodec E) now) (sessions d))))))
       (\<lambda>rows. from_outcome (collect_all (row_to_session (scodec E)) rows))"

definition sqlite_revoke_all_user_sessions :: "sqlite_env \<Rightarrow> string \<Rightarrow> (session_tables, u64) sql" where
  "sqlite_revoke_all_user_sessions E u =
     seqq (assert_that (u \<noteq> []) ''revoke_all_user_sessions: user_id must not be empty'')
     (seqq (tx_begin (engine E))
     (bindq (query (engine E) On_Tx (delete_sessions (\<lambda>r. q_user_id r = u))) (\<lambda>l.
      bindq (query (engine E) On_Tx (delete_retired (\<lambda>r. k_user_id r = u))) (\<lambda>_.
      seqq (tx_commit (engine E)) (ret l)))))"

definition sqlite_cleanup :: "sqlite_env \<Rightarrow> instant \<Rightarrow> (session_tables, u64) sql" where
  "sqlite_cleanup E now = (let now_str = time_text (scodec E) now in
     seqq (tx_begin (engine E))
     (bindq (query (engine E) On_Tx (delete_sessions (\<lambda>r. q_expires_at r < now_str))) (\<lambda>a.
      bindq (query (engine E) On_Tx (delete_retired (\<lambda>r. k_expires_at r < now_str))) (\<lambda>b.
      bindq (query (engine E) On_Tx (delete_single_use (\<lambda>r. z_expires_at r < now_str))) (\<lambda>c.
      seqq (tx_commit (engine E)) (ret (a + b + c)))))))"

text \<open>\<open>INSERT .. ON CONFLICT(key) DO UPDATE .. WHERE\<close>: the rows affected.\<close>

definition upsert_single_use :: "string \<Rightarrow> string \<Rightarrow> string \<Rightarrow> (session_tables, u64) statement" where
  "upsert_single_use k expires_at now_str d = (case find (\<lambda>r. z_key r = k) (single_use d) of
       None \<Rightarrow> Ok (1, d\<lparr>single_use := single_use d @ [\<lparr>z_key = k, z_expires_at = expires_at\<rparr>]\<rparr>)
     | Some old \<Rightarrow>
         if z_expires_at old < now_str
         then Ok (1, d\<lparr>single_use := map (\<lambda>r. if z_key r = k then r\<lparr>z_expires_at := expires_at\<rparr> else r) (single_use d)\<rparr>)
         else Ok (0, d))"

definition sqlite_put_single_use :: "sqlite_env \<Rightarrow> instant \<Rightarrow> string \<Rightarrow> instant \<Rightarrow> (session_tables, bool) sql" where
  "sqlite_put_single_use E now k expires_at =
     seqq (assert_that (k \<noteq> []) ''single-use key must be non-empty'')
     (bindq (query (engine E) On_Pool (upsert_single_use k (time_text (scodec E) expires_at) (time_text (scodec E) now)))
       (\<lambda>n. ret (n = 1)))"

definition sqlite_take_single_use :: "sqlite_env \<Rightarrow> instant \<Rightarrow> string \<Rightarrow> (session_tables, bool) sql" where
  "sqlite_take_single_use E now k =
     seqq (assert_that (k \<noteq> []) ''single-use key must be non-empty'')
     (bindq (query (engine E) On_Pool (delete_single_use (\<lambda>r. z_key r = k \<and> z_expires_at r > time_text (scodec E) now)))
       (\<lambda>n. ret (n \<noteq> 0)))"

definition sqlite_session_port :: "sqlite_env \<Rightarrow> session_tables sql_state session_port" where
  "sqlite_session_port E = \<lparr>store_refresh_token = sqlite_store_refresh_token E,
     get_session_by_refresh_token = sqlite_get_session E, resolve_refresh_token = sqlite_resolve E,
     rotate_refresh_token = sqlite_rotate E, revoke_session = sqlite_revoke_session E, revoke_family = sqlite_revoke_family E,
     revoke_all_user_sessions = sqlite_revoke_all_user_sessions E, list_live_sessions = sqlite_list_live_sessions E,
     count_active_sessions = sqlite_count_active_sessions E, cleanup_expired_sessions = sqlite_cleanup E,
     put_single_use = sqlite_put_single_use E, take_single_use = sqlite_take_single_use E\<rparr>"

end
