(* ===== verification/Sqlite_Users.thy ===== *)
theory Sqlite_Users
  imports Sqlite_Sessions User_Port
begin

text \<open>
  The user half of the SQLite adapter (\<open>crates/adapters/src/sqlite/mod.rs\<close>): the users table with its
  partial unique index, the seven operations of the user port, and the optimistic update. The pool is
  shared with other writers: what they leave between two statements of one operation is an argument.
\<close>

section \<open>Rows\<close>

record user_row =
  c_id :: string
  c_external_id :: string
  c_provider :: string
  c_email :: "string option"
  c_display_name :: "string option"
  c_metadata :: string
  c_claims :: string
  c_status :: string
  c_version :: int
  c_created_at :: string
  c_updated_at :: string

type_synonym user_rows = "user_row list"

text \<open>\<open>other_writers n\<close> is what happens to the table before the statement after \<open>n\<close> engine calls.\<close>

record sqlite_user_env =
  uengine :: sql_engine
  other_writers :: "nat \<Rightarrow> user_rows \<Rightarrow> user_rows"
  ucodec :: sql_codec
  json_text :: "json hashmap \<Rightarrow> string option"
  parse_json :: "string \<Rightarrow> json hashmap option"
  ulib :: lib
  ucursor :: cursor_codec

definition users_query :: "sqlite_user_env \<Rightarrow> (user_rows, 'a) statement \<Rightarrow> (user_rows, 'a) sql_raw" where
  "users_query E f = seqq (writes (\<lambda>s. s\<lparr>db := other_writers E (sql_calls s) (db s)\<rparr>)) (query_raw (uengine E) On_Pool f)"

definition users_sql :: "sqlite_user_env \<Rightarrow> (user_rows, 'a) statement \<Rightarrow> (user_rows, 'a) sql" where
  "users_sql E f = sql_err (uengine E) (users_query E f)"

fun status_to_str :: "user_status \<Rightarrow> string" where
  "status_to_str Active = ''active''"
| "status_to_str Suspended = ''suspended''"
| "status_to_str Deleted = ''deleted''"

definition str_to_status :: "string \<Rightarrow> user_status result" where
  "str_to_status s =
     (if s = ''active'' then Ok Active
      else if s = ''suspended'' then Ok Suspended
      else if s = ''deleted'' then Ok Deleted
      else Err (StoreError (''unknown user status: '' @ s)))"

definition row_to_user :: "sqlite_user_env \<Rightarrow> user_row \<Rightarrow> user result" where
  "row_to_user E row =
     tryq (case parse_json E (c_metadata row) of Some m \<Rightarrow> Ok m | None \<Rightarrow> Err (StoreError ''failed to parse metadata'')) (\<lambda>metadata.
     tryq (case parse_json E (c_claims row) of Some m \<Rightarrow> Ok m | None \<Rightarrow> Err (StoreError ''failed to parse claims'')) (\<lambda>claims.
     tryq (parse_column (ucodec E) ''created_at'' (c_created_at row)) (\<lambda>created.
     tryq (parse_column (ucodec E) ''updated_at'' (c_updated_at row)) (\<lambda>updated.
     tryq (str_to_status (c_status row)) (\<lambda>status.
     Ok \<lparr>u_id = c_id row, u_external_id = c_external_id row, u_provider = c_provider row, u_email = c_email row,
        u_display_name = c_display_name row, u_metadata = metadata, u_claims = claims, u_status = status,
        u_version = word_of_int (c_version row), u_created_at = created, u_updated_at = updated\<rparr>)))))"

section \<open>Constraints\<close>

text \<open>
  \<open>UNIQUE INDEX .. ON users(external_id, provider) WHERE status != 'deleted'\<close>, and the code by which the
  driver reports its violation.
\<close>

definition SQLITE_UNIQUE_VIOLATION_CODE :: string where
  "SQLITE_UNIQUE_VIOLATION_CODE = ''2067''"

definition unique_violation :: sql_error where
  "unique_violation = \<lparr>se_code = Some ''2067'', se_text = ''UNIQUE constraint failed: users.external_id, users.provider''\<rparr>"

definition is_unique_violation :: "sql_error \<Rightarrow> bool" where
  "is_unique_violation err = (case se_code err of Some code \<Rightarrow> code = SQLITE_UNIQUE_VIOLATION_CODE | None \<Rightarrow> False)"

definition identity_taken :: "user_row \<Rightarrow> user_rows \<Rightarrow> bool" where
  "identity_taken row rows = (c_status row \<noteq> ''deleted'' \<and> list_ex (\<lambda>r. c_id r \<noteq> c_id row
     \<and> c_external_id r = c_external_id row \<and> c_provider r = c_provider row \<and> c_status r \<noteq> ''deleted'') rows)"

definition insert_user :: "user_row \<Rightarrow> (user_rows, unit) statement" where
  "insert_user row rows =
     (if list_ex (\<lambda>r. c_id r = c_id row) rows then Err (primary_key_violation ''users.id'')
      else if identity_taken row rows then Err unique_violation
      else Ok ((), rows @ [row]))"

text \<open>\<open>UPDATE .. SET .., version = version + 1 WHERE id = ?7 AND version = ?8\<close>: the rows affected.\<close>

definition update_row :: "(user_row \<Rightarrow> user_row) \<Rightarrow> string \<Rightarrow> int \<Rightarrow> (user_rows, u64) statement" where
  "update_row assign i read_version rows =
     (case find (\<lambda>r. c_id r = i \<and> c_version r = read_version) rows of
        None \<Rightarrow> Ok (0, rows)
      | Some old \<Rightarrow>
          if identity_taken (assign old) rows then Err unique_violation
          else Ok (1, map (\<lambda>r. if c_id r = i then assign r else r) rows))"

section \<open>The port operations\<close>

definition sqlite_get_user_by_id :: "sqlite_user_env \<Rightarrow> string \<Rightarrow> (user_rows, user option) sql" where
  "sqlite_get_user_by_id E i = bindq (users_sql E (select (\<lambda>rows. find (\<lambda>r. c_id r = i) rows))) (opt_row (row_to_user E))"

definition sqlite_get_user_by_external_id :: "sqlite_user_env \<Rightarrow> string \<Rightarrow> string \<Rightarrow> (user_rows, user option) sql" where
  "sqlite_get_user_by_external_id E x p =
     bindq (users_sql E (select (\<lambda>rows. find (\<lambda>r. c_external_id r = x \<and> c_provider r = p \<and> c_status r \<noteq> ''deleted'') rows)))
       (opt_row (row_to_user E))"

definition sqlite_create_user :: "sqlite_user_env \<Rightarrow> instant \<Rightarrow> string \<Rightarrow> new_user \<Rightarrow> (user_rows, user) sql" where
  "sqlite_create_user E now ulid nu =
     (let i = ''usr_'' @ to_lowercase (ulib E) ulid; now_str = time_text (ucodec E) now in
      and_then (users_query E (insert_user \<lparr>c_id = i, c_external_id = nu_external_id nu, c_provider = nu_provider nu,
          c_email = nu_email nu, c_display_name = nu_display_name nu, c_metadata = ''{}'', c_claims = ''{}'', c_status = ''active'',
          c_version = 1, c_created_at = now_str, c_updated_at = now_str\<rparr>))
        (\<lambda>_. ret \<lparr>u_id = i, u_external_id = nu_external_id nu, u_provider = nu_provider nu, u_email = nu_email nu,
           u_display_name = nu_display_name nu, u_metadata = [], u_claims = [], u_status = Active,
           u_version = INITIAL_USER_VERSION, u_created_at = now, u_updated_at = now\<rparr>)
        (\<lambda>e. throw (if is_unique_violation e
           then Conflict (''user already exists for external_id='' @ nu_external_id nu @ '' provider='' @ nu_provider nu)
           else StoreError (sql_display (uengine E) e))))"

definition UPDATE_MAX_ATTEMPTS :: nat where
  "UPDATE_MAX_ATTEMPTS = 5"

primrec version_attempts :: "string \<Rightarrow> (nat \<Rightarrow> (user_rows, user option) sql) \<Rightarrow> nat list \<Rightarrow> (user_rows, user) sql" where
  "version_attempts i attempt [] = throw (Conflict (''update_user for '' @ i @ '' exhausted the retry budget ('' @ show_nat UPDATE_MAX_ATTEMPTS
     @ '' attempts) racing concurrent version conflicts''))"
| "version_attempts i attempt (n # ns) = bindq (attempt n) (\<lambda>done_user. case done_user of
     Some u \<Rightarrow> ret u
   | None \<Rightarrow> version_attempts i attempt ns)"

definition retry_on_version_conflict :: "string \<Rightarrow> (nat \<Rightarrow> (user_rows, user option) sql) \<Rightarrow> (user_rows, user) sql" where
  "retry_on_version_conflict i attempt = version_attempts i attempt [1..<Suc UPDATE_MAX_ATTEMPTS]"

text \<open>One read-patch-write cycle; \<open>clock n\<close> is what \<open>Utc::now()\<close> answers in attempt \<open>n\<close>.\<close>

definition json_column :: "sqlite_user_env \<Rightarrow> json hashmap \<Rightarrow> string result" where
  "json_column E m = (case json_text E m of Some j \<Rightarrow> Ok j | None \<Rightarrow> Err (StoreError ''failed to encode JSON''))"

definition update_attempt :: "sqlite_user_env \<Rightarrow> (nat \<Rightarrow> instant) \<Rightarrow> string \<Rightarrow> user_patch \<Rightarrow> nat \<Rightarrow> (user_rows, user option) sql" where
  "update_attempt E clock i p n =
     bindq (sqlite_get_user_by_id E i) (\<lambda>found. case found of
       None \<Rightarrow> throw (StoreError (''user not found: '' @ i))
     | Some stored \<Rightarrow>
         let read_version = sint (u_version stored); user = patch_user (clock n) p stored in
         bindq (from_outcome (json_column E (u_metadata user))) (\<lambda>metadata.
         bindq (from_outcome (json_column E (u_claims user))) (\<lambda>claims.
         bindq (users_sql E (update_row (\<lambda>r. r\<lparr>c_email := u_email user, c_display_name := u_display_name user, c_metadata := metadata,
             c_claims := claims, c_status := status_to_str (u_status user), c_updated_at := time_text (ucodec E) (u_updated_at user),
             c_version := c_version r + 1\<rparr>) i read_version)) (\<lambda>affected.
         ret (if affected > 0 then Some user else None)))))"

definition sqlite_update_user :: "sqlite_user_env \<Rightarrow> (nat \<Rightarrow> instant) \<Rightarrow> string \<Rightarrow> user_patch \<Rightarrow> (user_rows, user) sql" where
  "sqlite_update_user E clock i p = retry_on_version_conflict i (update_attempt E clock i p)"

definition sqlite_delete_user :: "sqlite_user_env \<Rightarrow> (nat \<Rightarrow> instant) \<Rightarrow> string \<Rightarrow> (user_rows, unit) sql" where
  "sqlite_delete_user E clock i = bindq (sqlite_update_user E clock i \<lparr>p_email = None, p_display_name = None, p_metadata = None,
     p_claims = None, p_status = Some Deleted\<rparr>) (\<lambda>_. ret ())"

text \<open>\<open>SELECT status, COUNT(*) .. GROUP BY status\<close>.\<close>

definition status_groups :: "user_rows \<Rightarrow> (string \<times> u64) list" where
  "status_groups rows = map (\<lambda>st. (st, of_nat (length (filter (\<lambda>r. c_status r = st) rows)))) (remdups (map c_status rows))"

definition sqlite_count_by_status :: "sqlite_user_env \<Rightarrow> (user_rows, u64 hashmap) sql" where
  "sqlite_count_by_status E = bindq (users_sql E (select status_groups))
     (\<lambda>rows. ret (fold (\<lambda>(status, count) counts. hm_insert status count counts) rows []))"

definition row_position :: "user_row \<Rightarrow> string \<times> string" where
  "row_position r = (c_created_at r, c_id r)"

definition sqlite_list_users :: "sqlite_user_env \<Rightarrow> string option \<Rightarrow> u32 \<Rightarrow> (user_rows, user_page) sql" where
  "sqlite_list_users E cursor limit =
     seqq (assert_that (1 \<le> limit \<and> limit \<le> MAX_ADMIN_PAGE_SIZE) ''list_users limit must arrive pre-clamped'')
     (bindq (from_outcome (case cursor of None \<Rightarrow> Ok None | Some raw \<Rightarrow> map_outcome Some (cursor_decode (ulib E) (ucursor E) raw))) (\<lambda>resume_after.
      let fetch_limit = uint limit + 1 in
      bindq (case resume_after of
          Some position \<Rightarrow> (let created_at_str = time_text (ucodec E) (kc_created_at position) in
            users_sql E (select (\<lambda>rows. sql_limit fetch_limit (order_by_desc row_position
              (filter (\<lambda>r. c_created_at r < created_at_str \<or> c_created_at r = created_at_str \<and> c_id r < kc_id position) rows)))))
        | None \<Rightarrow> users_sql E (select (\<lambda>rows. sql_limit fetch_limit (order_by_desc row_position rows)))) (\<lambda>rows.
      seqq (assert_that (int (length rows) \<le> fetch_limit) ''SQLite returned more rows than the pushed LIMIT'')
      (let has_more = length rows > unat limit;
           page_rows = (if has_more then take (unat limit) rows else rows) in
       bindq (from_outcome (collect_all (row_to_user E) page_rows)) (\<lambda>users.
       if has_more then
         (if users = [] then panic ''a continued page is non-empty''
          else bindq (from_outcome (cursor_encode (ulib E) (ucursor E) \<lparr>kc_created_at = u_created_at (last users), kc_id = u_id (last users)\<rparr>))
            (\<lambda>c. ret \<lparr>page_users = users, next_cursor = Some c\<rparr>))
       else ret \<lparr>page_users = users, next_cursor = None\<rparr>)))))"

definition sqlite_user_port :: "sqlite_user_env \<Rightarrow> user_rows sql_state user_port" where
  "sqlite_user_port E = \<lparr>get_user_by_id = sqlite_get_user_by_id E, get_user_by_external_id = sqlite_get_user_by_external_id E,
     create_user = sqlite_create_user E, update_user = (\<lambda>now. sqlite_update_user E (\<lambda>_. now)),
     delete_user = (\<lambda>now. sqlite_delete_user E (\<lambda>_. now)), count_by_status = sqlite_count_by_status E,
     list_users = sqlite_list_users E\<rparr>"

end
