(* ===== verification/Sqlite_Refine.thy ===== *)
theory Sqlite_Refine
  imports Sqlite_Sessions Service_Wp
begin

text \<open>
  The SQLite session adapter meets the session contract: what it keeps of its tables, the families
  they stand for, and each law of \<open>session_repository\<close>.
\<close>

section \<open>Tables as families\<close>

definition ok_of :: "('e, 'a) outcome \<Rightarrow> 'a option" where
  "ok_of r = (case r of Ok x \<Rightarrow> Some x | _ \<Rightarrow> None)"

lemma ok_of_simps [simp]: "ok_of (Ok x) = Some x" "ok_of (Err e) = None" "ok_of (Panic p) = None"
  by (simp_all add: ok_of_def)

lemma ok_of_Some [simp]: "ok_of r = Some x \<longleftrightarrow> r = Ok x"
  by (cases r) auto

definition live_in :: "sql_codec \<Rightarrow> session_row list \<Rightarrow> string \<Rightarrow> session option" where
  "live_in C rows h = Option.bind (lookup q_hash rows h) (\<lambda>r. ok_of (row_to_session C r))"

definition retired_in :: "sql_codec \<Rightarrow> retired_row list \<Rightarrow> string \<Rightarrow> retired_refresh_token option" where
  "retired_in C rows h = Option.bind (lookup k_hash rows h) (\<lambda>r. ok_of (row_to_retired C r))"

definition single_in :: "sql_codec \<Rightarrow> single_use_row list \<Rightarrow> string \<Rightarrow> instant option" where
  "single_in C rows k = Option.bind (lookup z_key rows k) (\<lambda>r. parse_time C (z_expires_at r))"

definition families :: "sql_codec \<Rightarrow> session_tables \<Rightarrow> fam_store" where
  "families C d = \<lparr>live = live_in C (sessions d), retired = retired_in C (retired_refresh_tokens d), single = single_in C (single_use d)\<rparr>"

lemma families_simps [simp]:
  "live (families C d) = live_in C (sessions d)" "retired (families C d) = retired_in C (retired_refresh_tokens d)"
  "single (families C d) = single_in C (single_use d)"
  by (simp_all add: families_def)

text \<open>
  What the adapter relies on: text and instant are in order with each other (RFC 3339 is, over the years
  it can write), and what is written reads back.
\<close>

definition sql_codec_ok :: "sql_codec \<Rightarrow> bool" where
  "sql_codec_ok C \<longleftrightarrow> (\<forall>t. parse_time C (time_text C t) = Some t) \<and> (\<forall>t u. time_text C t < time_text C u \<longleftrightarrow> t < u)
     \<and> (\<forall>l j. location_json C l = Some j \<longrightarrow> parse_location C j = Some l)"

definition sqlite_env_ok :: "sqlite_env \<Rightarrow> bool" where
  "sqlite_env_ok E \<longleftrightarrow> sql_codec_ok (scodec E) \<and> chrono_ok (slib E)"

definition session_row_reads :: "sql_codec \<Rightarrow> session_row \<Rightarrow> session \<Rightarrow> bool" where
  "session_row_reads C r x \<longleftrightarrow> row_to_session C r = Ok x \<and> q_expires_at r = time_text C (s_expires_at x)
     \<and> q_created_at r = time_text C (s_created_at x)"

definition retired_row_reads :: "sql_codec \<Rightarrow> retired_row \<Rightarrow> retired_refresh_token \<Rightarrow> bool" where
  "retired_row_reads C r x \<longleftrightarrow> row_to_retired C r = Ok x \<and> k_expires_at r = time_text C (r_expires_at x)"

definition tables_ok :: "sql_codec \<Rightarrow> session_tables \<Rightarrow> bool" where
  "tables_ok C d \<longleftrightarrow> keyed q_hash (sessions d) \<and> keyed k_hash (retired_refresh_tokens d) \<and> keyed z_key (single_use d)
     \<and> (\<forall>r \<in> set (sessions d). \<exists>x. session_row_reads C r x)
     \<and> (\<forall>r \<in> set (retired_refresh_tokens d). \<exists>x. retired_row_reads C r x)
     \<and> (\<forall>r \<in> set (single_use d). \<exists>t. z_expires_at r = time_text C t)"

definition sqlite_inv :: "sqlite_env \<Rightarrow> session_tables sql_state \<Rightarrow> bool" where
  "sqlite_inv E s = tables_ok (scodec E) (db s)"

definition sqlite_families :: "sqlite_env \<Rightarrow> session_tables sql_state \<Rightarrow> fam_store" where
  "sqlite_families E s = families (scodec E) (db s)"

section \<open>Rows\<close>

lemma sql_codecD:
  assumes "sql_codec_ok C"
  shows time_back [simp]: "parse_time C (time_text C t) = Some t"
    and time_order [simp]: "time_text C t < time_text C u \<longleftrightarrow> t < u"
    and location_back: "location_json C l = Some j \<Longrightarrow> parse_location C j = Some l"
  using assms by (simp_all add: sql_codec_ok_def)

lemma time_order_le [simp]: "sql_codec_ok C \<Longrightarrow> time_text C t \<le> time_text C u \<longleftrightarrow> t \<le> u"
  by (metis linorder_not_le time_order)

lemma time_text_eq: "sql_codec_ok C \<Longrightarrow> time_text C t = time_text C u \<longleftrightarrow> t = u"
  by (metis option.inject time_back)

lemma row_to_session_fields:
  assumes "row_to_session C r = Ok x"
  shows "s_hash x = q_hash r" "s_user_id x = q_user_id r" "s_family_id x = (case q_family_id r of Some f \<Rightarrow> f | None \<Rightarrow> [])"
  using assms by (auto simp: row_to_session_def tryq_Ok)

lemma row_to_retired_fields:
  assumes "row_to_retired C r = Ok x"
  shows "r_hash x = k_hash r" "r_user_id x = k_user_id r" "r_family_id x = k_family_id r" "r_successor_hash x = k_successor_hash r"
  using assms by (auto simp: row_to_retired_def tryq_Ok)

lemma session_columns_reads:
  assumes "sql_codec_ok C" "session_columns C x = Ok row"
  shows "session_row_reads C row x \<and> q_hash row = s_hash x"
  using assms location_back [OF assms(1)]
  by (cases x) (auto simp: session_columns_def session_row_reads_def row_to_session_def parse_column_def Let_def
      split: option.splits)

lemma retired_columns_reads:
  "sql_codec_ok C \<Longrightarrow> retired_row_reads C (retired_columns C r) r \<and> k_hash (retired_columns C r) = r_hash r"
  by (cases r) (simp add: retired_columns_def retired_row_reads_def row_to_retired_def parse_column_def)

lemma session_columns_fails:
  "session_columns C x \<noteq> Panic p" "session_columns C x = Err e \<Longrightarrow> \<exists>m. e = StoreError m"
  by (auto simp: session_columns_def Let_def split: option.splits)

lemma tables_okD:
  assumes "tables_ok C d"
  shows "keyed q_hash (sessions d)" "keyed k_hash (retired_refresh_tokens d)" "keyed z_key (single_use d)"
    "r \<in> set (sessions d) \<Longrightarrow> \<exists>x. session_row_reads C r x"
    "k \<in> set (retired_refresh_tokens d) \<Longrightarrow> \<exists>x. retired_row_reads C k x"
    "z \<in> set (single_use d) \<Longrightarrow> \<exists>t. z_expires_at z = time_text C t"
  using assms by (auto simp: tables_ok_def)

text \<open>A table's rows are its entries.\<close>

lemma live_in_iff:
  assumes "tables_ok C d"
  shows "live_in C (sessions d) h = Some x \<longleftrightarrow> (\<exists>r. lookup q_hash (sessions d) h = Some r \<and> session_row_reads C r x)"
proof -
  have "session_row_reads C r x" if "lookup q_hash (sessions d) h = Some r" "row_to_session C r = Ok x" for r
    using tables_okD(4) [OF assms, of r] lookup_Some [OF that(1)] that(2) by (auto simp: session_row_reads_def)
  then show ?thesis by (auto simp: live_in_def bind_eq_Some_conv session_row_reads_def)
qed

lemma retired_in_iff:
  assumes "tables_ok C d"
  shows "retired_in C (retired_refresh_tokens d) h = Some x
    \<longleftrightarrow> (\<exists>r. lookup k_hash (retired_refresh_tokens d) h = Some r \<and> retired_row_reads C r x)"
proof -
  have "retired_row_reads C r x" if "lookup k_hash (retired_refresh_tokens d) h = Some r" "row_to_retired C r = Ok x" for r
    using tables_okD(5) [OF assms, of r] lookup_Some [OF that(1)] that(2) by (auto simp: retired_row_reads_def)
  then show ?thesis by (auto simp: retired_in_def bind_eq_Some_conv retired_row_reads_def)
qed

lemma live_in_None: "tables_ok C d \<Longrightarrow> live_in C (sessions d) h = None \<longleftrightarrow> lookup q_hash (sessions d) h = None"
  using live_in_iff [of C d h] tables_okD(4) [of C d] lookup_Some [of q_hash "sessions d" h]
  by (cases "lookup q_hash (sessions d) h") (auto simp: live_in_def session_row_reads_def)

text \<open>Deleting the rows that satisfy a condition on their entries.\<close>

lemma live_in_remaining:
  assumes "tables_ok C d" "\<And>r x. r \<in> set (sessions d) \<Longrightarrow> session_row_reads C r x \<Longrightarrow> P r = S x"
  shows "live_in C (remaining_rows P (sessions d)) h = Option.bind (live_in C (sessions d) h) (\<lambda>x. if S x then None else Some x)"
proof (cases "lookup q_hash (sessions d) h")
  case None
  then show ?thesis by (simp add: live_in_def lookup_remaining [OF tables_okD(1) [OF assms(1)]])
next
  case (Some r)
  then obtain x where "session_row_reads C r x" "r \<in> set (sessions d)" using tables_okD(4) [OF assms(1)] lookup_Some [OF Some] by blast
  then show ?thesis using Some assms(2) [of r x]
    by (simp add: live_in_def lookup_remaining [OF tables_okD(1) [OF assms(1)]] session_row_reads_def)
qed

lemma retired_in_remaining:
  assumes "tables_ok C d" "\<And>r x. r \<in> set (retired_refresh_tokens d) \<Longrightarrow> retired_row_reads C r x \<Longrightarrow> P r = S x"
  shows "retired_in C (remaining_rows P (retired_refresh_tokens d)) h
    = Option.bind (retired_in C (retired_refresh_tokens d) h) (\<lambda>x. if S x then None else Some x)"
proof (cases "lookup k_hash (retired_refresh_tokens d) h")
  case None
  then show ?thesis by (simp add: retired_in_def lookup_remaining [OF tables_okD(2) [OF assms(1)]])
next
  case (Some r)
  then obtain x where "retired_row_reads C r x" "r \<in> set (retired_refresh_tokens d)" using tables_okD(5) [OF assms(1)] lookup_Some [OF Some] by blast
  then show ?thesis using Some assms(2) [of r x]
    by (simp add: retired_in_def lookup_remaining [OF tables_okD(2) [OF assms(1)]] retired_row_reads_def)
qed

lemma single_in_remaining:
  assumes "sql_codec_ok C" "tables_ok C d" "\<And>r t. r \<in> set (single_use d) \<Longrightarrow> z_expires_at r = time_text C t \<Longrightarrow> P r = S (z_key r) t"
  shows "single_in C (remaining_rows P (single_use d)) h = Option.bind (single_in C (single_use d) h) (\<lambda>t. if S h t then None else Some t)"
proof (cases "lookup z_key (single_use d) h")
  case None
  then show ?thesis by (simp add: single_in_def lookup_remaining [OF tables_okD(3) [OF assms(2)]])
next
  case (Some r)
  then obtain t where "z_expires_at r = time_text C t" "r \<in> set (single_use d)" "z_key r = h"
    using tables_okD(6) [OF assms(2)] lookup_Some [OF Some] by blast
  then show ?thesis using Some assms(3) [of r t] assms(1)
    by (simp add: single_in_def lookup_remaining [OF tables_okD(3) [OF assms(2)]])
qed

lemma tables_ok_remaining:
  assumes "tables_ok C d"
  shows "tables_ok C \<lparr>sessions = remaining_rows P (sessions d), retired_refresh_tokens = remaining_rows R (retired_refresh_tokens d),
     single_use = remaining_rows Z (single_use d)\<rparr>"
  using assms by (auto simp: tables_ok_def)

section \<open>Statements\<close>

lemma runs_delete [runs_rules]:
  "d = b \<Longrightarrow> Q (deleted_rows P (sessions d)) (d\<lparr>sessions := remaining_rows P (sessions d)\<rparr>) t \<Longrightarrow>
     runs pan b (query G On_Pool (delete_sessions P)) Q d t"
  "d = b \<Longrightarrow> Q (deleted_rows P (sessions t)) d (t\<lparr>sessions := remaining_rows P (sessions t)\<rparr>) \<Longrightarrow>
     runs pan b (query G On_Tx (delete_sessions P)) Q d t"
  "d = b \<Longrightarrow> Q (deleted_rows R (retired_refresh_tokens t)) d (t\<lparr>retired_refresh_tokens := remaining_rows R (retired_refresh_tokens t)\<rparr>) \<Longrightarrow>
     runs pan b (query G On_Tx (delete_retired R)) Q d t"
  "d = b \<Longrightarrow> Q (deleted_rows Z (single_use d)) (d\<lparr>single_use := remaining_rows Z (single_use d)\<rparr>) t \<Longrightarrow>
     runs pan b (query G On_Pool (delete_single_use Z)) Q d t"
  "d = b \<Longrightarrow> Q (deleted_rows Z (single_use t)) d (t\<lparr>single_use := remaining_rows Z (single_use t)\<rparr>) \<Longrightarrow>
     runs pan b (query G On_Tx (delete_single_use Z)) Q d t"
  by (intro runs_pool runs_tx; simp add: delete_sessions_def delete_retired_def delete_single_use_def)+

text \<open>Installing a session row, over the row it replaces if there is one.\<close>

definition with_session :: "session_row \<Rightarrow> session_tables \<Rightarrow> session_tables" where
  "with_session row d = d\<lparr>sessions := remaining_rows (\<lambda>r. q_hash r = q_hash row) (sessions d) @ [row]\<rparr>"

definition with_retired :: "retired_row \<Rightarrow> session_tables \<Rightarrow> session_tables" where
  "with_retired row d = d\<lparr>retired_refresh_tokens := retired_refresh_tokens d @ [row]\<rparr>"

lemma runs_insert [runs_rules]:
  "d = b \<Longrightarrow> (\<And>row. session_columns (scodec E) x = Ok row \<Longrightarrow> Q () (with_session row d) t) \<Longrightarrow>
     runs pan b (insert_session_tx E On_Pool x True) Q d t"
  "d = b \<Longrightarrow> (\<And>row. session_columns (scodec E) x = Ok row \<Longrightarrow> lookup q_hash (sessions t) (q_hash row) = None \<Longrightarrow> Q () d (with_session row t)) \<Longrightarrow>
     runs pan b (insert_session_tx E On_Tx x False) Q d t"
  "d = b \<Longrightarrow> (lookup k_hash (retired_refresh_tokens t) (k_hash k) = None \<Longrightarrow> Q () d (with_retired k t)) \<Longrightarrow>
     runs pan b (query G On_Tx (insert_retired k)) Q d t"
proof -
  have all: "remaining_rows (\<lambda>r. q_hash r = h) rows = rows" if "\<not> list_ex (\<lambda>r. q_hash r = h) rows" for h and rows :: "session_row list"
    using that by (auto simp: remaining_rows_def list_ex_iff filter_id_conv)
  show "runs pan b (insert_session_tx E On_Pool x True) Q d t"
    if "d = b" "\<And>row. session_columns (scodec E) x = Ok row \<Longrightarrow> Q () (with_session row d) t"
    using that session_columns_fails [of "scodec E" x] unfolding insert_session_tx_def
    by (intro runs_rules runs_pool) (auto simp: insert_session_def with_session_def)
  show "runs pan b (insert_session_tx E On_Tx x False) Q d t"
    if "d = b" "\<And>row. session_columns (scodec E) x = Ok row \<Longrightarrow> lookup q_hash (sessions t) (q_hash row) = None \<Longrightarrow> Q () d (with_session row t)"
    using that session_columns_fails [of "scodec E" x] unfolding insert_session_tx_def
    by (intro runs_rules runs_tx) (auto simp: insert_session_def with_session_def all list_ex_lookup)
  show "runs pan b (query G On_Tx (insert_retired k)) Q d t"
    if "d = b" "lookup k_hash (retired_refresh_tokens t) (k_hash k) = None \<Longrightarrow> Q () d (with_retired k t)"
    using that by (intro runs_tx) (auto simp: insert_retired_def with_retired_def list_ex_lookup)
qed

lemma with_session_view:
  assumes "tables_ok C d" "session_row_reads C row x" "q_hash row = s_hash x"
  shows "tables_ok C (with_session row d)" "families C (with_session row d) = (families C d)\<lparr>live := (live (families C d))(s_hash x \<mapsto> x)\<rparr>"
proof -
  let ?rest = "remaining_rows (\<lambda>r. q_hash r = s_hash x) (sessions d)"
  note l = lookup_remove_key [OF tables_okD(1) [OF assms(1)], of "s_hash x"]
  show "tables_ok C (with_session row d)"
    using assms tables_ok_remaining [OF assms(1), of "\<lambda>r. q_hash r = s_hash x" "\<lambda>_. False" "\<lambda>_. False"] l [of "s_hash x"]
    by (auto simp: tables_ok_def with_session_def keyed_snoc)
  show "families C (with_session row d) = (families C d)\<lparr>live := (live (families C d))(s_hash x \<mapsto> x)\<rparr>"
    using assms(2,3) by (auto simp: families_def with_session_def live_in_def lookup_append l session_row_reads_def fun_eq_iff split: option.splits)
qed

lemma with_retired_view:
  assumes "tables_ok C d" "retired_row_reads C row x" "k_hash row = r_hash x" "lookup k_hash (retired_refresh_tokens d) (k_hash row) = None"
  shows "tables_ok C (with_retired row d)"
    "families C (with_retired row d) = (families C d)\<lparr>retired := (retired (families C d))(r_hash x \<mapsto> x)\<rparr>"
proof -
  show "tables_ok C (with_retired row d)" using assms by (auto simp: tables_ok_def with_retired_def keyed_snoc)
  show "families C (with_retired row d) = (families C d)\<lparr>retired := (retired (families C d))(r_hash x \<mapsto> x)\<rparr>"
    using assms(2-4) by (auto simp: families_def with_retired_def retired_in_def lookup_append retired_row_reads_def fun_eq_iff split: option.splits)
qed

section \<open>Reads\<close>

lemma runs_get [runs_rules]:
  assumes "d = b" "tables_ok (scodec E) d" "Q (live_in (scodec E) (sessions d) h) d t"
  shows "runs pan b (sqlite_get_session E h) Q d t"
proof -
  have "\<exists>x. row_to_session (scodec E) r = Ok x" if "lookup q_hash (sessions d) h = Some r" for r
    using tables_okD(4) [OF assms(2)] lookup_Some [OF that] by (auto simp: session_row_reads_def)
  then show ?thesis using assms(1,3) unfolding sqlite_get_session_def opt_row_def find_session_def
    by (intro runs_rules) (auto simp: lookup_def live_in_def)
qed

lemma runs_get_retired [runs_rules]:
  assumes "d = b" "tables_ok (scodec E) d" "Q (retired_in (scodec E) (retired_refresh_tokens d) h) d t"
  shows "runs pan b (sqlite_get_retired_record E h) Q d t"
proof -
  have "\<exists>x. row_to_retired (scodec E) r = Ok x" if "lookup k_hash (retired_refresh_tokens d) h = Some r" for r
    using tables_okD(5) [OF assms(2)] lookup_Some [OF that] by (auto simp: retired_row_reads_def)
  then show ?thesis using assms(1,3) unfolding sqlite_get_retired_record_def opt_row_def
    by (intro runs_rules) (auto simp: lookup_def retired_in_def)
qed

section \<open>The laws\<close>

lemma sqlite_law:
  assumes "m s = (r, s')" "sqlite_inv E s"
    and "runs pan (db s) m (\<lambda>x d t. tables_ok (scodec E) d \<and> Q x (families (scodec E) d)) (db s) (tx s)"
  shows "sqlite_inv E s' \<and> (failed_clean (sqlite_families E) r s s' \<or> pan \<and> (\<exists>p. r = Panic p) \<and> sqlite_families E s' = sqlite_families E s
    \<or> (\<exists>x. r = Ok x \<and> Q x (sqlite_families E s')))"
  using runsD [OF assms(3,1)] assms(2) by (auto simp: sqlite_inv_def sqlite_families_def failed_clean_def)

lemma sqlite_store_law:
  assumes "sqlite_env_ok E" "sqlite_inv E s" "sqlite_store_refresh_token E x s = (r, s')"
  shows "sqlite_inv E s' \<and> (failed_clean (sqlite_families E) r s s'
    \<or> r = Ok () \<and> sqlite_families E s' = (sqlite_families E s)\<lparr>live := (live (sqlite_families E s))(s_hash x \<mapsto> x)\<rparr>)"
proof -
  have c: "sql_codec_ok (scodec E)" and ok: "tables_ok (scodec E) (db s)" using assms by (simp_all add: sqlite_env_ok_def sqlite_inv_def)
  have v: "tables_ok (scodec E) (with_session row (db s)) \<and> families (scodec E) (with_session row (db s))
      = (families (scodec E) (db s))\<lparr>live := (live (families (scodec E) (db s)))(s_hash x \<mapsto> x)\<rparr>"
    if "session_columns (scodec E) x = Ok row" for row
    using with_session_view [OF ok, of row x] session_columns_reads [OF c that] by blast
  have "runs False (db s) (sqlite_store_refresh_token E x) (\<lambda>_ d t. tables_ok (scodec E) d
      \<and> families (scodec E) d = (sqlite_families E s)\<lparr>live := (live (sqlite_families E s))(s_hash x \<mapsto> x)\<rparr>) (db s) (tx s)"
    unfolding sqlite_store_refresh_token_def sqlite_families_def
    by (intro runs_rules refl) (use v in blast)
  from sqlite_law [OF assms(3,2) this] show ?thesis by (auto simp del: fun_upd_apply)
qed

lemma sqlite_get_law:
  assumes "sqlite_inv E s" "sqlite_get_session E h s = (r, s')"
  shows "sqlite_inv E s' \<and> (failed_clean (sqlite_families E) r s s' \<or> r = Ok (live (sqlite_families E s) h) \<and> sqlite_families E s' = sqlite_families E s)"
proof -
  have ok: "tables_ok (scodec E) (db s)" using assms by (simp add: sqlite_inv_def)
  have "runs False (db s) (sqlite_get_session E h) (\<lambda>x d t. tables_ok (scodec E) d \<and> x = live (sqlite_families E s) h
      \<and> families (scodec E) d = sqlite_families E s) (db s) (tx s)"
    by (intro runs_rules refl ok) (use ok in \<open>simp add: sqlite_families_def\<close>)
  from sqlite_law [OF assms(2,1) this] show ?thesis by auto
qed

lemma sqlite_resolve_law:
  assumes "sqlite_inv E s" "h \<noteq> []" "sqlite_resolve E now h s = (r, s')"
  shows "sqlite_inv E s' \<and> (failed_clean (sqlite_families E) r s s'
    \<or> r = Ok (spec_resolve now h (sqlite_families E s)) \<and> sqlite_families E s' = sqlite_families E s)"
proof -
  have ok: "tables_ok (scodec E) (db s)" using assms by (simp add: sqlite_inv_def)
  have "runs False (db s) (sqlite_resolve E now h) (\<lambda>x d t. tables_ok (scodec E) d \<and> x = spec_resolve now h (sqlite_families E s)
      \<and> families (scodec E) d = sqlite_families E s) (db s) (tx s)"
    unfolding sqlite_resolve_def
    by (intro runs_rules refl ok) (use ok assms(2) in \<open>auto simp: sqlite_families_def spec_resolve_def\<close>)
  from sqlite_law [OF assms(3,1) this] show ?thesis by auto
qed

lemma sqlite_revoke_session_law:
  assumes "sqlite_inv E s" "sqlite_revoke_session E h s = (r, s')"
  shows "sqlite_inv E s' \<and> (failed_clean (sqlite_families E) r s s'
    \<or> r = Ok () \<and> sqlite_families E s' = (sqlite_families E s)\<lparr>live := (live (sqlite_families E s))(h := None)\<rparr>)"
proof -
  have ok: "tables_ok (scodec E) (db s)" using assms by (simp add: sqlite_inv_def)
  have v: "live_in (scodec E) (remaining_rows (\<lambda>r. q_hash r = h) (sessions (db s))) = (live_in (scodec E) (sessions (db s)))(h := None)"
    by (simp add: fun_eq_iff live_in_def lookup_remove_key [OF tables_okD(1) [OF ok]])
  have "runs False (db s) (sqlite_revoke_session E h) (\<lambda>x d t. tables_ok (scodec E) d
      \<and> families (scodec E) d = (sqlite_families E s)\<lparr>live := (live (sqlite_families E s))(h := None)\<rparr>) (db s) (tx s)"
    unfolding sqlite_revoke_session_def
    by (intro runs_rules refl) (use ok in \<open>auto simp: sqlite_families_def families_def v tables_ok_def\<close>)
  from sqlite_law [OF assms(2,1) this] show ?thesis by (auto simp del: fun_upd_apply)
qed

text \<open>The counts, and the effects of the sweeps.\<close>

lemma live_card:
  assumes "tables_ok C d" "\<And>r x. r \<in> set (sessions d) \<Longrightarrow> session_row_reads C r x \<Longrightarrow> P r = S x"
  shows "deleted_rows P (sessions d) = of_nat (card {h. \<exists>x. live_in C (sessions d) h = Some x \<and> S x})"
proof -
  have "(\<exists>r. lookup q_hash (sessions d) h = Some r \<and> P r) \<longleftrightarrow> (\<exists>x. live_in C (sessions d) h = Some x \<and> S x)" for h
    using live_in_iff [OF assms(1)] tables_okD(4) [OF assms(1)] lookup_Some [of q_hash "sessions d" h] assms(2) by metis
  then show ?thesis using deleted_card [OF tables_okD(1) [OF assms(1)], of P] by simp
qed

lemma retired_card:
  assumes "tables_ok C d" "\<And>r x. r \<in> set (retired_refresh_tokens d) \<Longrightarrow> retired_row_reads C r x \<Longrightarrow> P r = S x"
  shows "deleted_rows P (retired_refresh_tokens d) = of_nat (card {h. \<exists>x. retired_in C (retired_refresh_tokens d) h = Some x \<and> S x})"
proof -
  have "(\<exists>r. lookup k_hash (retired_refresh_tokens d) h = Some r \<and> P r) \<longleftrightarrow> (\<exists>x. retired_in C (retired_refresh_tokens d) h = Some x \<and> S x)" for h
    using retired_in_iff [OF assms(1)] tables_okD(5) [OF assms(1)] lookup_Some [of k_hash "retired_refresh_tokens d" h] assms(2) by metis
  then show ?thesis using deleted_card [OF tables_okD(2) [OF assms(1)], of P] by simp
qed

lemma sqlite_revoke_family_law:
  assumes "sqlite_inv E s" "is_valid_family_id f" "sqlite_revoke_family E f s = (r, s')"
  shows "sqlite_inv E s' \<and> (failed_clean (sqlite_families E) r s s' \<or> sqlite_families E s' = spec_revoke_family f (sqlite_families E s)
    \<and> r = Ok (of_nat (card {h. \<exists>x. live (sqlite_families E s) h = Some x \<and> s_family_id x = f}
        + card {h. \<exists>x. retired (sqlite_families E s) h = Some x \<and> r_family_id x = f})))"
proof -
  let ?C = "scodec E" and ?d = "db s"
  have ok: "tables_ok ?C ?d" using assms by (simp add: sqlite_inv_def)
  have S: "\<And>r x. r \<in> set (sessions ?d) \<Longrightarrow> session_row_reads ?C r x \<Longrightarrow> (q_family_id r = Some f) = (s_family_id x = f)"
    using is_valid_family_id_nonempty [OF assms(2)] by (auto simp: session_row_reads_def dest!: row_to_session_fields(3) split: option.splits)
  have R: "\<And>r x. r \<in> set (retired_refresh_tokens ?d) \<Longrightarrow> retired_row_reads ?C r x \<Longrightarrow> (k_family_id r = f) = (r_family_id x = f)"
    by (auto simp: retired_row_reads_def dest: row_to_retired_fields)
  have v: "families ?C (?d\<lparr>sessions := remaining_rows (\<lambda>r. q_family_id r = Some f) (sessions ?d),
      retired_refresh_tokens := remaining_rows (\<lambda>r. k_family_id r = f) (retired_refresh_tokens ?d)\<rparr>) = spec_revoke_family f (families ?C ?d)"
    using live_in_remaining [OF ok S] retired_in_remaining [OF ok R]
    by (intro fam_store.equality) (simp_all add: fun_eq_iff)
  have "runs False ?d (sqlite_revoke_family E f) (\<lambda>n d t. tables_ok ?C d \<and> families ?C d = spec_revoke_family f (families ?C ?d)
      \<and> n = of_nat (card {h. \<exists>x. live (families ?C ?d) h = Some x \<and> s_family_id x = f}
        + card {h. \<exists>x. retired (families ?C ?d) h = Some x \<and> r_family_id x = f})) ?d (tx s)"
    unfolding sqlite_revoke_family_def
    by (intro runs_rules refl) (use ok v assms(2) live_card [OF ok S] retired_card [OF ok R] in \<open>auto simp: tables_ok_def\<close>)
  from sqlite_law [OF assms(3,1) this] show ?thesis by (auto simp: sqlite_families_def)
qed

lemma sqlite_revoke_all_law:
  assumes "sqlite_inv E s" "user_id_ok u" "sqlite_revoke_all_user_sessions E u s = (r, s')"
  shows "sqlite_inv E s' \<and> (failed_clean (sqlite_families E) r s s' \<or> sqlite_families E s' = spec_revoke_user u (sqlite_families E s)
    \<and> r = Ok (of_nat (card {h. \<exists>x. live (sqlite_families E s) h = Some x \<and> s_user_id x = u})))"
proof -
  let ?C = "scodec E" and ?d = "db s"
  have ok: "tables_ok ?C ?d" using assms by (simp add: sqlite_inv_def)
  have S: "\<And>r x. r \<in> set (sessions ?d) \<Longrightarrow> session_row_reads ?C r x \<Longrightarrow> (q_user_id r = u) = (s_user_id x = u)"
    by (auto simp: session_row_reads_def dest: row_to_session_fields)
  have R: "\<And>r x. r \<in> set (retired_refresh_tokens ?d) \<Longrightarrow> retired_row_reads ?C r x \<Longrightarrow> (k_user_id r = u) = (r_user_id x = u)"
    by (auto simp: retired_row_reads_def dest: row_to_retired_fields)
  have v: "families ?C (?d\<lparr>sessions := remaining_rows (\<lambda>r. q_user_id r = u) (sessions ?d),
      retired_refresh_tokens := remaining_rows (\<lambda>r. k_user_id r = u) (retired_refresh_tokens ?d)\<rparr>) = spec_revoke_user u (families ?C ?d)"
    using live_in_remaining [OF ok S] retired_in_remaining [OF ok R]
    by (intro fam_store.equality) (simp_all add: fun_eq_iff)
  have "runs False ?d (sqlite_revoke_all_user_sessions E u) (\<lambda>n d t. tables_ok ?C d \<and> families ?C d = spec_revoke_user u (families ?C ?d)
      \<and> n = of_nat (card {h. \<exists>x. live (families ?C ?d) h = Some x \<and> s_user_id x = u})) ?d (tx s)"
    unfolding sqlite_revoke_all_user_sessions_def
    by (intro runs_rules refl) (use ok v assms(2) live_card [OF ok S] in \<open>auto simp: tables_ok_def user_id_ok_def\<close>)
  from sqlite_law [OF assms(3,1) this] show ?thesis by (auto simp: sqlite_families_def)
qed

lemma sqlite_count_law:
  assumes "sqlite_env_ok E" "sqlite_inv E s" "sqlite_count_active_sessions E now s = (r, s')"
  shows "sqlite_inv E s' \<and> (failed_clean (sqlite_families E) r s s' \<or> sqlite_families E s' = sqlite_families E s
    \<and> r = Ok (of_nat (card {h. \<exists>x. live (sqlite_families E s) h = Some x \<and> now < s_expires_at x})))"
proof -
  let ?C = "scodec E" and ?d = "db s"
  have c: "sql_codec_ok ?C" and ok: "tables_ok ?C ?d" using assms by (simp_all add: sqlite_env_ok_def sqlite_inv_def)
  have S: "\<And>r x. r \<in> set (sessions ?d) \<Longrightarrow> session_row_reads ?C r x \<Longrightarrow> (time_text ?C now < q_expires_at r) = (now < s_expires_at x)"
    using c by (simp add: session_row_reads_def)
  have "runs False ?d (sqlite_count_active_sessions E now) (\<lambda>n d t. tables_ok ?C d \<and> families ?C d = families ?C ?d
      \<and> n = of_nat (card {h. \<exists>x. live (families ?C ?d) h = Some x \<and> now < s_expires_at x})) ?d (tx s)"
    unfolding sqlite_count_active_sessions_def
    by (intro runs_rules refl) (use ok live_card [OF ok S] in \<open>simp add: deleted_rows_def\<close>)
  from sqlite_law [OF assms(3,2) this] show ?thesis by (auto simp: sqlite_families_def)
qed

lemma sqlite_cleanup_law:
  assumes "sqlite_env_ok E" "sqlite_inv E s" "sqlite_cleanup E now s = (r, s')"
  shows "sqlite_inv E s' \<and> (failed_clean (sqlite_families E) r s s' \<or> (\<exists>n. r = Ok n) \<and> sqlite_families E s'
    = drop_live (\<lambda>x. s_expires_at x < now) (drop_retired (\<lambda>x. r_expires_at x < now) (drop_single (\<lambda>t. t < now) (sqlite_families E s))))"
proof -
  let ?C = "scodec E" and ?d = "db s" and ?now = "time_text (scodec E) now"
  have c: "sql_codec_ok ?C" and ok: "tables_ok ?C ?d" using assms by (simp_all add: sqlite_env_ok_def sqlite_inv_def)
  have S: "\<And>r x. r \<in> set (sessions ?d) \<Longrightarrow> session_row_reads ?C r x \<Longrightarrow> (q_expires_at r < ?now) = (s_expires_at x < now)"
    using c by (simp add: session_row_reads_def)
  have R: "\<And>r x. r \<in> set (retired_refresh_tokens ?d) \<Longrightarrow> retired_row_reads ?C r x \<Longrightarrow> (k_expires_at r < ?now) = (r_expires_at x < now)"
    using c by (simp add: retired_row_reads_def)
  have Z: "\<And>r t. r \<in> set (single_use ?d) \<Longrightarrow> z_expires_at r = time_text ?C t \<Longrightarrow> (z_expires_at r < ?now) = (t < now)"
    using c by simp
  let ?d' = "?d\<lparr>sessions := remaining_rows (\<lambda>r. q_expires_at r < ?now) (sessions ?d),
      retired_refresh_tokens := remaining_rows (\<lambda>r. k_expires_at r < ?now) (retired_refresh_tokens ?d),
      single_use := remaining_rows (\<lambda>r. z_expires_at r < ?now) (single_use ?d)\<rparr>"
  have v: "families ?C ?d' = drop_live (\<lambda>x. s_expires_at x < now) (drop_retired (\<lambda>x. r_expires_at x < now) (drop_single (\<lambda>t. t < now) (families ?C ?d)))"
    using live_in_remaining [OF ok S] retired_in_remaining [OF ok R] single_in_remaining [OF c ok Z]
    by (intro fam_store.equality) (simp_all add: fun_eq_iff)
  have "tables_ok ?C ?d'" using ok by (auto simp: tables_ok_def)
  then have "runs False ?d (sqlite_cleanup E now) (\<lambda>n d t. tables_ok ?C d \<and> families ?C d
      = drop_live (\<lambda>x. s_expires_at x < now) (drop_retired (\<lambda>x. r_expires_at x < now) (drop_single (\<lambda>t. t < now) (families ?C ?d)))) ?d (tx s)"
    unfolding sqlite_cleanup_def
    by (intro runs_rules refl) (use v in \<open>simp\<close>)
  from sqlite_law [OF assms(3,2) this] show ?thesis unfolding sqlite_families_def by blast
qed

text \<open>Single-use keys: what claiming one and taking one leave.\<close>

definition take_outcome :: "instant \<Rightarrow> string \<Rightarrow> fam_store \<Rightarrow> bool \<Rightarrow> fam_store \<Rightarrow> bool" where
  "take_outcome now k st b st' \<longleftrightarrow> b = False \<and> \<not> single_live now k st \<and> st' = st
     \<or> b = single_live now k st \<and> st' = st\<lparr>single := (single st)(k := None)\<rparr>"

lemma take_rows:
  assumes c: "sql_codec_ok C" and ok: "tables_ok C d"
  shows "take_outcome now k (families C d) (deleted_rows (\<lambda>r. z_key r = k \<and> z_expires_at r > time_text C now) (single_use d) \<noteq> 0)
     (families C (d\<lparr>single_use := remaining_rows (\<lambda>r. z_key r = k \<and> z_expires_at r > time_text C now) (single_use d)\<rparr>))"
proof -
  let ?P = "\<lambda>r. z_key r = k \<and> z_expires_at r > time_text C now"
  have S: "\<And>r t. r \<in> set (single_use d) \<Longrightarrow> z_expires_at r = time_text C t \<Longrightarrow> ?P r = (z_key r = k \<and> now < t)"
    using c by simp
  have v: "single_in C (remaining_rows ?P (single_use d)) h = Option.bind (single_in C (single_use d) h) (\<lambda>t. if h = k \<and> now < t then None else Some t)" for h
    by (rule single_in_remaining [where S = "\<lambda>h t. h = k \<and> now < t", OF c ok S])
  have l: "single_live now k (families C d) \<longleftrightarrow> (\<exists>t. single_in C (single_use d) k = Some t \<and> now < t)" by (simp add: single_live_def)
  show ?thesis
  proof (cases "single_live now k (families C d)")
    case True
    then obtain t where t: "single_in C (single_use d) k = Some t" "now < t" using l by blast
    then obtain r where r: "lookup z_key (single_use d) k = Some r" "parse_time C (z_expires_at r) = Some t"
      by (auto simp: single_in_def bind_eq_Some_conv)
    then have "?P r" using tables_okD(6) [OF ok, of r] lookup_Some [OF r(1)] c t(2) by auto
    then have n: "deleted_rows ?P (single_use d) = 1" by (simp add: deleted_key [OF tables_okD(3) [OF ok]] r)
    have "single_in C (remaining_rows ?P (single_use d)) = (single_in C (single_use d))(k := None)"
      by (rule ext) (use t in \<open>simp add: v\<close>)
    then show ?thesis using True n by (simp add: take_outcome_def families_def)
  next
    case False
    have no: "\<not> ?P r" if r: "lookup z_key (single_use d) k = Some r" for r
      using tables_okD(6) [OF ok, of r] lookup_Some [OF r] False c r by (auto simp: single_live_def single_in_def)
    have n: "deleted_rows ?P (single_use d) = 0"
      using no lookup_Some [of z_key "single_use d" k] by (cases "lookup z_key (single_use d) k") (auto simp: deleted_key [OF tables_okD(3) [OF ok]])
    have "single_in C (remaining_rows ?P (single_use d)) = single_in C (single_use d)"
      by (rule ext) (use False l in \<open>auto simp: v split: bind_split\<close>)
    then show ?thesis using False n by (simp add: take_outcome_def families_def)
  qed
qed

lemma sqlite_take_law:
  assumes "sqlite_env_ok E" "sqlite_inv E s" "k \<noteq> []" "sqlite_take_single_use E now k s = (r, s')"
  shows "sqlite_inv E s' \<and> (failed_clean (sqlite_families E) r s s'
    \<or> (\<exists>b. r = Ok b \<and> take_outcome now k (sqlite_families E s) b (sqlite_families E s')))"
proof -
  let ?C = "scodec E" and ?d = "db s"
  have c: "sql_codec_ok ?C" and ok: "tables_ok ?C ?d" using assms by (simp_all add: sqlite_env_ok_def sqlite_inv_def)
  have t: "tables_ok ?C (?d\<lparr>single_use := remaining_rows P (single_use ?d)\<rparr>)" for P using ok by (auto simp: tables_ok_def)
  have "runs False ?d (sqlite_take_single_use E now k) (\<lambda>b d t. tables_ok ?C d \<and> take_outcome now k (families ?C ?d) b (families ?C d)) ?d (tx s)"
    unfolding sqlite_take_single_use_def
    by (intro runs_rules refl conjI t take_rows c ok) (simp add: assms(3))
  from sqlite_law [OF assms(4,2) this] show ?thesis unfolding sqlite_families_def by blast
qed

definition put_outcome :: "instant \<Rightarrow> string \<Rightarrow> instant \<Rightarrow> fam_store \<Rightarrow> bool \<Rightarrow> fam_store \<Rightarrow> bool" where
  "put_outcome now k t st b st' \<longleftrightarrow> b = False \<and> (\<exists>u. single st k = Some u \<and> now \<le> u) \<and> st' = st
     \<or> b = True \<and> \<not> single_live now k st \<and> st' = st\<lparr>single := (single st)(k \<mapsto> t)\<rparr>"

lemma upsert_rows:
  assumes c: "sql_codec_ok C" and ok: "tables_ok C d"
  shows "\<exists>n d'. upsert_single_use k (time_text C t) (time_text C now) d = Ok (n, d') \<and> tables_ok C d'
     \<and> put_outcome now k t (families C d) (n = 1) (families C d')"
proof (cases "lookup z_key (single_use d) k")
  case None
  let ?d' = "d\<lparr>single_use := single_use d @ [\<lparr>z_key = k, z_expires_at = time_text C t\<rparr>]\<rparr>"
  have "single_in C (single_use ?d') = (single_in C (single_use d))(k \<mapsto> t)"
    using None c by (auto simp: fun_eq_iff single_in_def lookup_append split: option.splits)
  moreover have "tables_ok C ?d'" using ok None by (auto simp: tables_ok_def keyed_snoc)
  ultimately show ?thesis using None
    by (simp add: upsert_single_use_def lookup_def [symmetric] put_outcome_def families_def single_live_def single_in_def)
next
  case (Some r)
  obtain u where u: "z_expires_at r = time_text C u" using tables_okD(6) [OF ok] lookup_Some [OF Some] by blast
  have su: "single_in C (single_use d) k = Some u" using Some u c by (simp add: single_in_def)
  show ?thesis
  proof (cases "u < now")
    case True
    let ?f = "\<lambda>r. if z_key r = k then r\<lparr>z_expires_at := time_text C t\<rparr> else r"
    let ?d' = "d\<lparr>single_use := map ?f (single_use d)\<rparr>"
    have key: "\<And>r. z_key (?f r) = z_key r" by simp
    have "single_in C (single_use ?d') h = ((single_in C (single_use d))(k \<mapsto> t)) h" for h
      using Some c lookup_Some [of z_key "single_use d" h]
      by (cases "lookup z_key (single_use d) h") (auto simp: single_in_def lookup_map [of z_key ?f, OF key])
    then have "single_in C (single_use ?d') = (single_in C (single_use d))(k \<mapsto> t)" by blast
    moreover have "tables_ok C ?d'" using ok by (auto simp: tables_ok_def keyed_map [of z_key ?f, OF key])
    ultimately show ?thesis using Some u True c su
      by (simp add: upsert_single_use_def lookup_def [symmetric] put_outcome_def families_def single_live_def)
  next
    case False
    then show ?thesis using Some u c su ok by (simp add: upsert_single_use_def lookup_def [symmetric] put_outcome_def)
  qed
qed

lemma sqlite_put_law:
  assumes "sqlite_env_ok E" "sqlite_inv E s" "k \<noteq> []" "sqlite_put_single_use E now k t s = (r, s')"
  shows "sqlite_inv E s' \<and> (failed_clean (sqlite_families E) r s s'
    \<or> (\<exists>b. r = Ok b \<and> put_outcome now k t (sqlite_families E s) b (sqlite_families E s')))"
proof -
  let ?C = "scodec E" and ?d = "db s"
  have c: "sql_codec_ok ?C" and ok: "tables_ok ?C ?d" using assms by (simp_all add: sqlite_env_ok_def sqlite_inv_def)
  have "runs False ?d (sqlite_put_single_use E now k t) (\<lambda>b d t'. tables_ok ?C d \<and> put_outcome now k t (families ?C ?d) b (families ?C d)) ?d (tx s)"
    unfolding sqlite_put_single_use_def
    by (intro runs_rules runs_pool refl) (use upsert_rows [OF c ok, of k t now] assms(3) in \<open>auto intro: runs_ret\<close>)
  from sqlite_law [OF assms(4,2) this] show ?thesis unfolding sqlite_families_def by blast
qed

text \<open>Rotation: delete, retire, install, in one transaction.\<close>

lemma sqlite_retirement_record_spec:
  assumes "chrono_ok (slib E)" "sqlite_retirement_record E h l new now = Ok r"
  shows "r = retention_record now (sqlite_reuse_retention_secs E) l new" "s_hash l = h"
  using assms retention_deadline_Ok(2) [OF assms(1), of now "sqlite_reuse_retention_secs E" "s_expires_at new"]
  by (auto simp: sqlite_retirement_record_def retention_record_def tryq_Ok split: if_splits)

lemma sqlite_retirement_record_no_err [simp]: "sqlite_retirement_record E h l new now \<noteq> Err e"
  by (auto simp: sqlite_retirement_record_def retention_deadline_def tryq_def split: option.splits outcome.splits)

definition rotate_outcome :: "instant \<Rightarrow> u64 \<Rightarrow> string \<Rightarrow> session \<Rightarrow> fam_store \<Rightarrow> bool \<Rightarrow> fam_store \<Rightarrow> bool" where
  "rotate_outcome now reten h new st b st' \<longleftrightarrow> b = False \<and> live st h = None \<and> st' = st
     \<or> b = True \<and> (\<exists>old. rotatable h old new st \<and> st' = spec_rotate now reten old new st)"

lemma rotate_outcomeI:
  "rotatable h old new st \<Longrightarrow> st' = spec_rotate now reten old new st \<Longrightarrow> rotate_outcome now reten h new st True st'"
  by (auto simp: rotate_outcome_def)

lemma runs_install:
  assumes c: "sql_codec_ok (scodec E)" and ok: "tables_ok (scodec E) t" and G: "families (scodec E) t = G"
    and q: "\<And>d'. tables_ok (scodec E) d' \<Longrightarrow> live G (s_hash x) = None \<Longrightarrow>
      families (scodec E) d' = G\<lparr>live := (live G)(s_hash x \<mapsto> x)\<rparr> \<Longrightarrow> Q True d' d'"
  shows "runs pan b (seqq (insert_session_tx E On_Tx x False) (seqq (tx_commit (engine E)) (ret True))) Q b t"
proof -
  have "Q True (with_session row t) (with_session row t)"
    if s: "session_columns (scodec E) x = Ok row" "lookup q_hash (sessions t) (q_hash row) = None" for row
    using session_columns_reads [OF c s(1)] with_session_view [OF ok, of row x] s(2) live_in_None [OF ok, of "s_hash x"] G
    by (intro q) auto
  then show ?thesis by (intro runs_seqq runs_insert(2) runs_transaction(2) runs_ret refl)
qed

lemma rotate_installs:
  assumes E: "sqlite_env_ok E" and ok: "tables_ok (scodec E) d1" and f1: "families (scodec E) d1 = F\<lparr>live := (live F)(h := None)\<rparr>"
    and l: "live F h = Some l" "s_hash l = h"
    and m: "s_family_id l = [] \<or> s_family_id l = s_family_id new" "s_user_id l = s_user_id new" "s_hash new \<noteq> h"
  shows "runs True d (seqq (if s_family_id l = [] then ret ()
          else bindq (from_outcome (sqlite_retirement_record E h l new now)) (\<lambda>record.
            query (engine E) On_Tx (insert_retired (retired_columns (scodec E) record))))
        (seqq (insert_session_tx E On_Tx new False) (seqq (tx_commit (engine E)) (ret True))))
      (\<lambda>b d' t. tables_ok (scodec E) d' \<and> rotate_outcome now (sqlite_reuse_retention_secs E) h new F b (families (scodec E) d')) d d1"
    (is "runs True d _ ?Q d d1")
proof -
  let ?C = "scodec E"
  have c: "sql_codec_ok ?C" and L: "chrono_ok (slib E)" using E by (simp_all add: sqlite_env_ok_def)
  have rot: "rotatable h l new F" if "((live F)(h := None)) (s_hash new) = None"
    using that l m by (auto simp: rotatable_def)
  show ?thesis
  proof (cases "s_family_id l = []")
    case True
    have "rotate_outcome now (sqlite_reuse_retention_secs E) h new F True st'"
      if "((live F)(h := None)) (s_hash new) = None" "st' = F\<lparr>live := ((live F)(h := None))(s_hash new \<mapsto> new)\<rparr>" for st'
      by (rule rotate_outcomeI [OF rot [OF that(1)]]) (simp add: that(2) spec_rotate_def l True)
    then show ?thesis unfolding if_P [OF True] by (intro runs_seqq runs_ret runs_install [OF c ok f1] conjI) simp_all
  next
    case False
    have out: "rotate_outcome now (sqlite_reuse_retention_secs E) h new F True st'"
      if "((live F)(h := None)) (s_hash new) = None"
        "st' = F\<lparr>live := ((live F)(h := None))(s_hash new \<mapsto> new), retired := (retired F)(h \<mapsto> retention_record now (sqlite_reuse_retention_secs E) l new)\<rparr>" for st'
      by (rule rotate_outcomeI [OF rot [OF that(1)]]) (simp add: that(2) spec_rotate_def l False)
    show ?thesis unfolding if_not_P [OF False]
    proof (rule runs_seqq, rule runs_bindq, rule runs_outcome, rule runs_insert(3))
      fix kept assume rec: "sqlite_retirement_record E h l new now = Ok kept"
        and none: "lookup k_hash (retired_refresh_tokens d1) (k_hash (retired_columns ?C kept)) = None"
      let ?k = "retired_columns ?C kept"
      have rr: "kept = retention_record now (sqlite_reuse_retention_secs E) l new" by (rule sqlite_retirement_record_spec(1) [OF L rec])
      have k: "retired_row_reads ?C ?k kept" "k_hash ?k = r_hash kept" using retired_columns_reads [OF c, of kept] by blast+
      have G: "families ?C (with_retired ?k d1) = F\<lparr>live := (live F)(h := None), retired := (retired F)(h \<mapsto> kept)\<rparr>"
        using with_retired_view(2) [OF ok k none] l by (simp add: f1 rr del: families_simps)
      show "runs True d (seqq (insert_session_tx E On_Tx new False) (seqq (tx_commit (engine E)) (ret True))) ?Q d (with_retired ?k d1)"
        by (intro runs_install [OF c with_retired_view(1) [OF ok k none] G] conjI out) (simp_all add: rr)
    qed simp_all
  qed
qed

lemma sqlite_rotate_runs:
  assumes E: "sqlite_env_ok E" and ok: "tables_ok (scodec E) d" and n: "is_valid_family_id (s_family_id new)" "s_hash new \<noteq> h"
  shows "runs True d (sqlite_rotate E now h new)
    (\<lambda>b d' t. tables_ok (scodec E) d' \<and> rotate_outcome now (sqlite_reuse_retention_secs E) h new (families (scodec E) d) b (families (scodec E) d')) d t"
    (is "runs True d _ ?Q d t")
proof -
  let ?C = "scodec E" and ?F = "families (scodec E) d" and ?d1 = "d\<lparr>sessions := remaining_rows (\<lambda>r. q_hash r = h) (sessions d)\<rparr>"
  have ok1: "tables_ok ?C ?d1" using ok by (auto simp: tables_ok_def)
  have f1: "families ?C ?d1 = ?F\<lparr>live := (live ?F)(h := None)\<rparr>"
    by (simp add: families_def fun_eq_iff live_in_def lookup_remove_key [OF tables_okD(1) [OF ok]])
  have missing: "?Q False d t" if "lookup q_hash (sessions d) h = None" for t
    using that ok live_in_None [OF ok, of h] by (simp add: rotate_outcome_def)
  have read: "live ?F h = Some l \<and> s_hash l = h" if r: "lookup q_hash (sessions d) h = Some row" "row_to_session ?C row = Ok l" for row l
    using lookup_Some [OF r(1)] r row_to_session_fields(1) [OF r(2)] by (simp add: live_in_def)
  have total: "\<exists>l. row_to_session ?C row = Ok l" if r: "lookup q_hash (sessions d) h = Some row" for row
    using tables_okD(4) [OF ok, of row] lookup_Some [OF r] by (auto simp: session_row_reads_def)
  have one: "deleted_rows (\<lambda>r. q_hash r = h) (sessions d) \<noteq> 0" if "lookup q_hash (sessions d) h = Some row" for row
    using deleted_key [OF tables_okD(1) [OF ok], of h "\<lambda>_. True"] that by simp
  have step: "runs True d (bindq (from_outcome (row_to_session ?C row)) (\<lambda>l.
          seqq (assert_that (s_family_id l = [] \<or> s_family_id l = s_family_id new) ''rotate_refresh_token: family mismatch between live and replacement'')
          (seqq (assert_that (s_user_id l = s_user_id new) ''rotate_refresh_token: user mismatch between live and replacement'')
          (bindq (query (engine E) On_Tx (delete_sessions (\<lambda>r. q_hash r = h))) (\<lambda>deleted.
           if deleted = 0 then seqq (tx_rollback (engine E)) (ret False)
           else seqq (if s_family_id l = [] then ret ()
                 else bindq (from_outcome (sqlite_retirement_record E h l new now)) (\<lambda>record.
                   query (engine E) On_Tx (insert_retired (retired_columns ?C record))))
               (seqq (insert_session_tx E On_Tx new False)
               (seqq (tx_commit (engine E)) (ret True)))))))) ?Q d d"
    if r: "lookup q_hash (sessions d) h = Some row" for row
  proof (rule runs_bindq, rule runs_outcome)
    fix l assume l: "row_to_session ?C row = Ok l"
    show "runs True d (seqq (assert_that (s_family_id l = [] \<or> s_family_id l = s_family_id new) ''rotate_refresh_token: family mismatch between live and replacement'')
          (seqq (assert_that (s_user_id l = s_user_id new) ''rotate_refresh_token: user mismatch between live and replacement'')
          (bindq (query (engine E) On_Tx (delete_sessions (\<lambda>r. q_hash r = h))) (\<lambda>deleted.
           if deleted = 0 then seqq (tx_rollback (engine E)) (ret False)
           else seqq (if s_family_id l = [] then ret ()
                 else bindq (from_outcome (sqlite_retirement_record E h l new now)) (\<lambda>record.
                   query (engine E) On_Tx (insert_retired (retired_columns ?C record))))
               (seqq (insert_session_tx E On_Tx new False)
               (seqq (tx_commit (engine E)) (ret True))))))) ?Q d d"
      by (rule runs_seqq, rule runs_assert, rule runs_seqq, rule runs_assert, rule runs_bindq, rule runs_delete(2) [OF refl],
          unfold if_not_P [OF one [OF r]], rule rotate_installs [OF E ok1 f1])
        (use read [OF r l] n(2) in simp_all)
  qed (use total [OF r] in auto)
  show ?thesis unfolding sqlite_rotate_def Let_def find_session_def lookup_def [symmetric]
    by (rule runs_seqq, rule runs_assert, rule runs_seqq, rule runs_assert, rule runs_seqq, rule runs_transaction(1) [OF refl], rule runs_bindq,
        rule runs_select(2) [OF refl], rule runs_option, intro runs_seqq runs_transaction(3) runs_ret refl missing, assumption, rule step, assumption)
      (use n in simp_all)
qed

lemma sqlite_rotate_law:
  assumes "sqlite_env_ok E" "sqlite_inv E s" "is_valid_family_id (s_family_id new)" "s_hash new \<noteq> h" "sqlite_rotate E now h new s = (r, s')"
  shows "sqlite_inv E s' \<and> (failed_clean (sqlite_families E) r s s' \<or> (\<exists>p. r = Panic p) \<and> sqlite_families E s' = sqlite_families E s
    \<or> (\<exists>b. r = Ok b \<and> rotate_outcome now (sqlite_reuse_retention_secs E) h new (sqlite_families E s) b (sqlite_families E s')))"
  using sqlite_law [OF assms(5,2) sqlite_rotate_runs [OF assms(1) _ assms(3,4)]] assms(2)
  unfolding sqlite_families_def sqlite_inv_def by blast

text \<open>The listing.\<close>

lemma row_order: "session_row_reads C r x \<Longrightarrow> session_row_reads C r' y \<Longrightarrow> sql_codec_ok C \<Longrightarrow> q_created_at r \<le> q_created_at r' \<longleftrightarrow> s_created_at x \<le> s_created_at y"
  by (simp add: session_row_reads_def)

lemma listed_rows:
  fixes now :: instant and u :: string
  assumes c: "sql_codec_ok C" and ok: "tables_ok C d"
  defines "rows \<equiv> order_by_desc q_created_at (filter (\<lambda>r. q_user_id r = u \<and> q_expires_at r > time_text C now) (sessions d))"
  obtains xs where "list_all2 (session_row_reads C) rows xs" "distinct xs" "sorted_wrt (\<lambda>a b. s_created_at b \<le> s_created_at a) xs"
    "set xs = {x. live_in C (sessions d) (s_hash x) = Some x \<and> s_user_id x = u \<and> now < s_expires_at x}"
proof -
  define f where "f r = (SOME x. session_row_reads C r x)" for r
  have sub: "set rows = {r \<in> set (sessions d). q_user_id r = u \<and> q_expires_at r > time_text C now}" by (simp add: rows_def)
  have f: "session_row_reads C r (f r)" if "r \<in> set (sessions d)" for r
    unfolding f_def using someI_ex [OF tables_okD(4) [OF ok that]] .
  have rf: "list_all2 (session_row_reads C) rows (map f rows)" using f sub by (simp add: list_all2_map2 list_all2_same)
  have key: "s_hash (f r) = q_hash r" "s_user_id (f r) = q_user_id r" "now < s_expires_at (f r) \<longleftrightarrow> time_text C now < q_expires_at r" if "r \<in> set (sessions d)" for r
    using f [OF that] row_to_session_fields [of C r "f r"] c by (auto simp: session_row_reads_def)
  have keyed: "distinct (map q_hash (sessions d))" using tables_okD(1) [OF ok] by (simp add: keyed_def)
  then have "inj_on q_hash (set (sessions d))" by (simp add: distinct_map)
  then have "inj_on f (set rows)" using sub key(1) by (auto intro!: inj_onI dest: inj_onD) (metis inj_onD)
  moreover have "distinct rows" using keyed by (simp add: rows_def distinct_map)
  ultimately have dist: "distinct (map f rows)" by (simp add: distinct_map)
  have "sorted_wrt (\<lambda>a b. q_created_at b \<le> q_created_at a) rows" unfolding rows_def by (rule order_by_desc_sorted)
  then have "sorted_wrt (\<lambda>a b. s_created_at (f b) \<le> s_created_at (f a)) rows"
    by (rule sorted_wrt_mono_rel [rotated]) (use row_order [OF f f c] sub in auto)
  then have srt: "sorted_wrt (\<lambda>a b. s_created_at b \<le> s_created_at a) (map f rows)" by (simp add: sorted_wrt_map)
  have "x \<in> f ` set rows \<longleftrightarrow> live_in C (sessions d) (s_hash x) = Some x \<and> s_user_id x = u \<and> now < s_expires_at x" for x
  proof
    assume "x \<in> f ` set rows"
    then obtain r where r: "r \<in> set (sessions d)" "q_user_id r = u" "q_expires_at r > time_text C now" "x = f r" using sub by auto
    then show "live_in C (sessions d) (s_hash x) = Some x \<and> s_user_id x = u \<and> now < s_expires_at x"
      using f [OF r(1)] key [OF r(1)] lookup_iff [OF tables_okD(1) [OF ok], of "q_hash r" r] live_in_iff [OF ok] by auto
  next
    assume a: "live_in C (sessions d) (s_hash x) = Some x \<and> s_user_id x = u \<and> now < s_expires_at x"
    then obtain r where r: "lookup q_hash (sessions d) (s_hash x) = Some r" "session_row_reads C r x" using live_in_iff [OF ok] by blast
    have m: "r \<in> set (sessions d)" using lookup_Some [OF r(1)] by simp
    have "x = f r" using r(2) f [OF m] by (simp add: session_row_reads_def)
    then show "x \<in> f ` set rows" using a m key [OF m] sub by auto
  qed
  then show thesis by (intro that [OF rf dist srt]) auto
qed

lemma limit_below: "lmt < 2 ^ 63 \<Longrightarrow> sql_limit (sint (of_nat lmt :: u64)) rows = take lmt rows"
proof -
  assume l: "lmt < 2 ^ 63"
  have "sint (of_nat lmt :: u64) = int lmt"
    using l by (simp add: signed_of_nat signed_take_bit_int_eq_self)
  then show ?thesis by (simp add: sql_limit_def)
qed

lemma sqlite_list_law:
  assumes "sqlite_env_ok E" "sqlite_inv E s" "lmt < 2 ^ 63" "sqlite_list_live_sessions E u now lmt s = (r, s')"
  shows "sqlite_inv E s' \<and> (failed_clean (sqlite_families E) r s s' \<or> sqlite_families E s' = sqlite_families E s \<and> (\<exists>xs. r = Ok (take lmt xs) \<and> distinct xs
        \<and> set xs = {x. live (sqlite_families E s) (s_hash x) = Some x \<and> s_user_id x = u \<and> now < s_expires_at x}
        \<and> sorted_wrt (\<lambda>a b. s_created_at b \<le> s_created_at a) xs))"
proof -
  let ?C = "scodec E" and ?d = "db s"
  let ?rows = "order_by_desc q_created_at (filter (\<lambda>r. q_user_id r = u \<and> q_expires_at r > time_text ?C now) (sessions ?d))"
  have c: "sql_codec_ok ?C" and ok: "tables_ok ?C ?d" using assms by (simp_all add: sqlite_env_ok_def sqlite_inv_def)
  obtain xs where xs: "list_all2 (session_row_reads ?C) ?rows xs" "distinct xs" "sorted_wrt (\<lambda>a b. s_created_at b \<le> s_created_at a) xs"
    "set xs = {x. live_in ?C (sessions ?d) (s_hash x) = Some x \<and> s_user_id x = u \<and> now < s_expires_at x}"
    by (rule listed_rows [OF c ok])
  have "list_all2 (\<lambda>r x. row_to_session ?C r = Ok x) (take lmt ?rows) (take lmt xs)"
    by (rule list_all2_takeI, rule list_all2_mono [OF xs(1)]) (simp add: session_row_reads_def)
  then have t: "collect_all (row_to_session ?C) (take lmt ?rows) = Ok (take lmt xs)" by (simp add: collect_all_Ok)
  have "runs False ?d (sqlite_list_live_sessions E u now lmt) (\<lambda>l d t. tables_ok ?C d \<and> l = take lmt xs \<and> families ?C d = families ?C ?d) ?d (tx s)"
    unfolding sqlite_list_live_sessions_def limit_below [OF assms(3)]
    by (rule runs_bindq, rule runs_select(1) [OF refl], rule runs_outcome) (simp_all add: t ok)
  from sqlite_law [OF assms(4,2) this] show ?thesis using xs(2-4) by (auto simp: sqlite_families_def)
qed

section \<open>The contract\<close>

lemma drop_nothing: "drop_live (\<lambda>x. a x \<and> False) (drop_retired (\<lambda>x. b x \<and> False) (drop_single (\<lambda>x. c x \<and> False) st)) = st"
  by (intro fam_store.equality) (simp_all add: fun_eq_iff split: bind_split)

theorem sqlite_refines_sessions:
  assumes "sqlite_env_ok E"
  shows "session_repository (sqlite_session_port E) (sqlite_inv E) (sqlite_families E) (sqlite_reuse_retention_secs E)"
proof (unfold_locales, unfold sqlite_session_port_def session_port.simps, goal_cases)
  case (1 s x ru s')
  then show ?case by (intro sqlite_store_law [OF assms])
next
  case 2 then show ?case by (rule sqlite_get_law)
next
  case 3 then show ?case by (rule sqlite_resolve_law)
next
  case (4 s new h now rb s')
  then show ?case using sqlite_rotate_law [OF assms 4(1,2,4,5)] by (auto simp: rotate_outcome_def)
next
  case 5 then show ?case by (intro sqlite_revoke_session_law)
next
  case 6 then show ?case by (rule sqlite_revoke_family_law)
next
  case 7 then show ?case by (rule sqlite_revoke_all_law)
next
  case (8 s u lmt now rl s')
  then show ?case by (intro sqlite_list_law [OF assms])
next
  case 9 then show ?case by (rule sqlite_count_law [OF assms])
next
  case (10 s now rn s')
  have less: "t \<le> now \<and> t < now \<longleftrightarrow> t < now" for t by auto
  from sqlite_cleanup_law [OF assms 10] consider (clean) "sqlite_inv E s'" "failed_clean (sqlite_families E) rn s s'"
    | (swept) "sqlite_inv E s'" "\<exists>n. rn = Ok n" "sqlite_families E s'
      = drop_live (\<lambda>x. s_expires_at x < now) (drop_retired (\<lambda>x. r_expires_at x < now) (drop_single (\<lambda>t. t < now) (sqlite_families E s)))"
    by blast
  then show ?case
  proof cases
    case clean
    then show ?thesis
      by (intro conjI exI [where x = "\<lambda>_. False"]) (auto simp: failed_clean_def drop_nothing [simplified])
  next
    case swept
    show ?thesis
      by (intro conjI exI [where x = "\<lambda>x. s_expires_at x < now"] exI [where x = "\<lambda>x. r_expires_at x < now"] exI [where x = "\<lambda>t. t < now"])
        (use swept in \<open>simp_all add: less\<close>)
  qed
next
  case (11 s k now t rb s')
  then show ?case using sqlite_put_law [OF assms 11] by (auto simp: put_outcome_def)
next
  case (12 s k now rb s')
  then show ?case using sqlite_take_law [OF assms 12] by (auto simp: take_outcome_def)
qed

end
