(* ===== verification/Sqlite_User_Refine.thy ===== *)
theory Sqlite_User_Refine
  imports Sqlite_Users Sqlite_Refine
begin

text \<open>
  The SQLite user adapter: the optimistic update under other writers, the user contract when it is alone
  with its table, and the listing against the in-process store.
\<close>

section \<open>Tables as users\<close>

definition sqlite_user_env_ok :: "sqlite_user_env \<Rightarrow> bool" where
  "sqlite_user_env_ok E \<longleftrightarrow> sql_codec_ok (ucodec E) \<and> parse_json E ''{}'' = Some []
     \<and> (\<forall>m j. json_text E m = Some j \<longrightarrow> parse_json E j = Some m)"

definition users_in :: "sqlite_user_env \<Rightarrow> user_rows \<Rightarrow> string \<Rightarrow> user option" where
  "users_in E rows i = Option.bind (lookup c_id rows i) (\<lambda>r. ok_of (row_to_user E r))"

definition user_row_ok :: "sqlite_user_env \<Rightarrow> user_row \<Rightarrow> bool" where
  "user_row_ok E r \<longleftrightarrow> user_id_ok (c_id r) \<and> (\<exists>u. row_to_user E r = Ok u \<and> c_created_at r = time_text (ucodec E) (u_created_at u))"

definition users_ok :: "sqlite_user_env \<Rightarrow> user_rows \<Rightarrow> bool" where
  "users_ok E rows \<longleftrightarrow> keyed c_id rows \<and> (\<forall>r \<in> set rows. user_row_ok E r) \<and> (\<forall>r \<in> set rows. \<not> identity_taken r rows)"

definition sqlite_users_inv :: "sqlite_user_env \<Rightarrow> user_rows sql_state \<Rightarrow> bool" where
  "sqlite_users_inv E s = users_ok E (db s)"

definition sqlite_users_map :: "sqlite_user_env \<Rightarrow> user_rows sql_state \<Rightarrow> string \<Rightarrow> user option" where
  "sqlite_users_map E s = users_in E (db s)"

lemma str_to_status_str [simp]: "str_to_status (status_to_str x) = Ok x"
  by (cases x) (simp_all add: str_to_status_def)

lemma status_text: "str_to_status t = Ok x \<longleftrightarrow> t = status_to_str x"
  by (cases x) (auto simp: str_to_status_def split: if_splits)

lemma deleted_text [simp]: "status_to_str x = ''deleted'' \<longleftrightarrow> x = Deleted" "''deleted'' = status_to_str x \<longleftrightarrow> x = Deleted"
  by (cases x; simp)+

lemma row_to_user_no_panic [simp]: "row_to_user E r \<noteq> Panic p"
  by (auto simp: row_to_user_def parse_column_def str_to_status_def tryq_def split: option.splits outcome.splits if_splits)

lemma row_to_user_err: "row_to_user E r = Err e \<Longrightarrow> \<exists>x. e = StoreError x"
  by (auto simp: row_to_user_def parse_column_def str_to_status_def tryq_def split: option.splits outcome.splits if_splits)

lemma row_to_user_fields:
  assumes "row_to_user E r = Ok u"
  shows "u_id u = c_id r" "u_external_id u = c_external_id r" "u_provider u = c_provider r" "c_status r = status_to_str (u_status u)"
    "u_version u = word_of_int (c_version r)" "parse_time (ucodec E) (c_created_at r) = Some (u_created_at u)"
    "u_email u = c_email r" "u_display_name u = c_display_name r"
  using assms by (auto simp: row_to_user_def parse_column_def tryq_Ok status_text split: option.splits)

lemma json_column_fails: "json_column E m \<noteq> Panic p"
  by (simp add: json_column_def split: option.splits)

section \<open>One statement\<close>

lemma users_query_run:
  assumes "users_query E f s = (r, s')"
  shows "sql_calls s' = Suc (sql_calls s) \<and> (
      (\<exists>e. r = Err e) \<and> db s' = other_writers E (sql_calls s) (db s)
    \<or> (\<exists>a. r = Ok a \<and> f (other_writers E (sql_calls s) (db s)) = Ok (a, db s'))
    \<or> (\<exists>p. r = Panic p \<and> f (other_writers E (sql_calls s) (db s)) = Panic p))"
  using assms by (auto simp: users_query_def query_raw_def sql_call_def run_on_def prog_defs split: option.splits outcome.splits prod.splits)

lemma users_sql_run:
  assumes "users_sql E f s = (r, s')"
  shows "sql_calls s' = Suc (sql_calls s) \<and> (
      (\<exists>x. r = Err (StoreError x)) \<and> db s' = other_writers E (sql_calls s) (db s)
    \<or> (\<exists>a. r = Ok a \<and> f (other_writers E (sql_calls s) (db s)) = Ok (a, db s'))
    \<or> (\<exists>p. r = Panic p \<and> f (other_writers E (sql_calls s) (db s)) = Panic p))"
proof -
  obtain q t where q: "users_query E f s = (q, t)" by fastforce
  then have "s' = t \<and> (case q of Ok a \<Rightarrow> r = Ok a | Err e \<Rightarrow> r = Err (StoreError (sql_display (uengine E) e)) | Panic p \<Rightarrow> r = Panic p)"
    using assms by (auto simp: users_sql_def sql_err_def and_then_def split: outcome.splits)
  then show ?thesis using users_query_run [OF q] by (cases q) auto
qed

lemma users_get_run:
  assumes "sqlite_get_user_by_id E i s = (r, s')"
  defines "rows \<equiv> other_writers E (sql_calls s) (db s)"
  shows "sql_calls s' = Suc (sql_calls s) \<and> db s' = rows \<and> ((\<exists>x. r = Err (StoreError x))
    \<or> r = Ok None \<and> lookup c_id rows i = None
    \<or> (\<exists>row u. r = Ok (Some u) \<and> lookup c_id rows i = Some row \<and> row_to_user E row = Ok u))"
proof -
  obtain q t where q: "users_sql E (select (\<lambda>rows. find (\<lambda>r. c_id r = i) rows)) s = (q, t)" by fastforce
  note u = users_sql_run [OF q]
  show ?thesis
  proof (cases q)
    case (Ok found)
    then have t: "found = lookup c_id rows i" "db t = rows" "sql_calls t = Suc (sql_calls s)" using u by (auto simp: select_def lookup_def rows_def)
    have op: "opt_row (row_to_user E) found t = (r, s')" using assms(1) q Ok by (simp add: sqlite_get_user_by_id_def)
    show ?thesis
    proof (cases "lookup c_id rows i")
      case None
      then show ?thesis using op t by (simp add: opt_row_def)
    next
      case (Some row)
      then show ?thesis using op t row_to_user_err [of E row] by (cases "row_to_user E row") (auto simp: opt_row_def)
    qed
  next
    case (Err e)
    then show ?thesis using assms(1) q u by (auto simp: sqlite_get_user_by_id_def rows_def)
  next
    case (Panic p)
    then show ?thesis using u by (auto simp: select_def)
  qed
qed

section \<open>The optimistic update\<close>

text \<open>
  What one update writes: the patch of the user that stands in the very table it writes to, in that
  user's row and in no other.
\<close>

definition writes_patch :: "sqlite_user_env \<Rightarrow> instant \<Rightarrow> user_patch \<Rightarrow> string \<Rightarrow> user_rows \<Rightarrow> user \<Rightarrow> user_rows \<Rightarrow> bool" where
  "writes_patch E now p i rows u rows' \<longleftrightarrow> (\<exists>r v w. lookup c_id rows i = Some r \<and> row_to_user E r = Ok v \<and> u = patch_user now p v
     \<and> row_to_user E w = Ok u \<and> c_id w = i \<and> c_created_at w = c_created_at r \<and> c_version w = c_version r + 1 \<and> \<not> identity_taken w rows
     \<and> rows' = map (\<lambda>x. if c_id x = i then w else x) rows)"

text \<open>
  What other writers may do to a table between two statements: keep \<open>T\<close>, move along \<open>G\<close>, and never put a
  row of a version back under that version changed.
\<close>

definition writers_rely :: "sqlite_user_env \<Rightarrow> (user_rows \<Rightarrow> bool) \<Rightarrow> (user_rows \<Rightarrow> user_rows \<Rightarrow> bool) \<Rightarrow> bool" where
  "writers_rely E T G \<longleftrightarrow> transp G \<and> (\<forall>d. T d \<longrightarrow> keyed c_id d) \<and> (\<forall>n d. T d \<longrightarrow> T (other_writers E n d) \<and> G d (other_writers E n d))
     \<and> (\<forall>n d i r r'. T d \<longrightarrow> lookup c_id d i = Some r \<longrightarrow> lookup c_id (other_writers E n d) i = Some r'
          \<longrightarrow> c_version r' = sint (word_of_int (c_version r) :: u64) \<longrightarrow> r' = r)"

lemma writers_relyD:
  assumes "writers_rely E T G"
  shows "transp G" "T d \<Longrightarrow> keyed c_id d" "T d \<Longrightarrow> T (other_writers E n d)" "T d \<Longrightarrow> G d (other_writers E n d)"
    "T d \<Longrightarrow> lookup c_id d i = Some r \<Longrightarrow> lookup c_id (other_writers E n d) i = Some r' \<Longrightarrow>
      c_version r' = sint (word_of_int (c_version r) :: u64) \<Longrightarrow> r' = r"
  using assms unfolding writers_rely_def by blast+

lemma update_row_Ok:
  assumes "update_row assign i k d = Ok (n, d')"
  shows "n = 0 \<and> d' = d \<or> n = 1 \<and> (\<exists>old. old \<in> set d \<and> c_id old = i \<and> c_version old = k \<and> \<not> identity_taken (assign old) d
     \<and> d' = map (\<lambda>r. if c_id r = i then assign r else r) d)"
proof (cases "find (\<lambda>r. c_id r = i \<and> c_version r = k) d")
  case None
  then show ?thesis using assms by (simp add: update_row_def)
next
  case (Some old)
  then have "old \<in> set d" "c_id old = i" "c_version old = k" by (auto simp: find_Some_iff)
  then show ?thesis using assms Some by (auto simp: update_row_def split: if_splits)
qed

lemma attempt_run:
  assumes E: "sqlite_user_env_ok E" and R: "writers_rely E T G" and T: "T (db s)" and a: "update_attempt E clock i p n s = (r, s')"
  shows "sql_calls s' \<le> sql_calls s + 2 \<and> (
      (r = Ok None \<or> (\<exists>x. r = Err (StoreError x))) \<and> T (db s') \<and> G (db s) (db s')
    \<or> (\<exists>u rows. r = Ok (Some u) \<and> T rows \<and> G (db s) rows \<and> writes_patch E (clock n) p i rows u (db s')))"
proof -
  obtain g t where g: "sqlite_get_user_by_id E i s = (g, t)" by fastforce
  let ?d = "other_writers E (sql_calls s) (db s)"
  note u = users_get_run [OF g] and rel = writers_relyD [OF R]
  have Td: "T ?d" "G (db s) ?d" using rel(3,4) T by blast+
  have step: "G (db s) (other_writers E k ?d)" "T (other_writers E k ?d)" for k
    using rel(3,4) [OF Td(1)] transpD [OF rel(1) Td(2)] by blast+
  consider (fails) x where "g = Err (StoreError x)" | (none) "g = Ok None"
    | (some) row v where "g = Ok (Some v)" "lookup c_id ?d i = Some row" "row_to_user E row = Ok v" using u by blast
  then show ?thesis
  proof cases
    case fails
    then show ?thesis using a g u Td by (auto simp: update_attempt_def)
  next
    case none
    then show ?thesis using a g u Td by (auto simp: update_attempt_def)
  next
    case (some row v)
    let ?user = "patch_user (clock n) p v"
    have t: "db t = ?d" "sql_calls t = Suc (sql_calls s)" using u by blast+
    show ?thesis
    proof (cases "json_column E (u_metadata ?user)")
      case (Err e)
      then show ?thesis using a g some t Td by (auto simp: update_attempt_def Let_def json_column_def split: option.splits)
    next
      case M: (Ok metadata)
      show ?thesis
      proof (cases "json_column E (u_claims ?user)")
        case (Err e)
        then show ?thesis using a g some t Td M by (auto simp: update_attempt_def Let_def json_column_def split: option.splits)
      next
        case C: (Ok claims)
        define assign :: "user_row \<Rightarrow> user_row" where "assign = (\<lambda>r. r\<lparr>c_email := u_email ?user, c_display_name := u_display_name ?user, c_metadata := metadata,
             c_claims := claims, c_status := status_to_str (u_status ?user), c_updated_at := time_text (ucodec E) (u_updated_at ?user),
             c_version := c_version r + 1\<rparr>)"
        obtain q t' where q: "users_sql E (update_row assign i (sint (u_version v))) t = (q, t')" by fastforce
        let ?e = "other_writers E (sql_calls t) ?d"
        note w = users_sql_run [OF q, unfolded t(1)]
        have rq: "s' = t' \<and> (case q of Ok k \<Rightarrow> r = Ok (if k > 0 then Some ?user else None) | Err e \<Rightarrow> r = Err e | Panic p \<Rightarrow> r = Panic p)"
          using a g some M C q by (auto simp: update_attempt_def Let_def assign_def [symmetric] split: outcome.splits)
        have np: "update_row assign i k d \<noteq> Panic m" for k d m by (simp add: update_row_def split: option.splits)
        have calls: "sql_calls s' \<le> sql_calls s + 2" using w t(2) rq by simp
        show ?thesis
        proof (cases "\<exists>k. q = Ok k \<and> k > 0")
          case False
          have "db t' = ?e" if "q = Ok k" "\<not> k > 0" for k
          proof -
            have u: "update_row assign i (sint (u_version v)) ?e = Ok (k, db t')" using w that(1) by simp
            show ?thesis using update_row_Ok [OF u] that(2) by auto
          qed
          then have "db t' = ?e \<and> (q = Ok 0 \<or> (\<exists>x. q = Err (StoreError x)))"
            using w False np by (cases q) (auto simp: word_gt_0)
          then show ?thesis using rq calls step by auto
        next
          case True
          then obtain k where k: "q = Ok k" "k > 0" by blast
          have u: "update_row assign i (sint (u_version v)) ?e = Ok (k, db t')" using w k(1) by simp
          obtain old where od: "old \<in> set ?e" "c_id old = i" "c_version old = sint (word_of_int (c_version row) :: u64)"
            and free: "\<not> identity_taken (assign old) ?e" and d': "db t' = map (\<lambda>r. if c_id r = i then assign r else r) ?e"
            using update_row_Ok [OF u] k(2) unfolding row_to_user_fields(5) [OF some(3)] by auto
          have lo: "lookup c_id ?e i = Some old" using lookup_iff [OF rel(2) [OF step(2)]] od by blast
          have same: "old = row" using rel(5) [OF Td(1) some(2) lo od(3)] .
          have inv: "parse_json E metadata = Some (u_metadata ?user)" "parse_json E claims = Some (u_claims ?user)"
            "parse_time (ucodec E) (time_text (ucodec E) (u_updated_at ?user)) = Some (u_updated_at ?user)"
            using M C E by (auto simp: json_column_def sqlite_user_env_ok_def split: option.splits)
          note f = row_to_user_fields [OF some(3)]
          have rw: "row_to_user E (assign row) = Ok ?user"
            unfolding row_to_user_def assign_def using inv f
            by (simp add: parse_column_def patch_user_def)
          have "x = row" if "x \<in> set ?e" "c_id x = i" for x
          proof -
            have "lookup c_id ?e i = Some x" using lookup_iff [OF rel(2) [OF step(2)]] that by blast
            then show "x = row" using lo same by simp
          qed
          then have "map (\<lambda>r. if c_id r = i then assign r else r) ?e = map (\<lambda>r. if c_id r = i then assign row else r) ?e"
            by (intro map_cong) auto
          then have "writes_patch E (clock n) p i ?e ?user (db t')"
            unfolding writes_patch_def using lo same some(3) rw d' free od(2)
            by (intro exI [where x = row] exI [where x = v] exI [where x = "assign row"]) (simp add: assign_def)
          then show ?thesis using rq k calls step by auto
        qed
      qed (simp_all add: json_column_fails)
    qed (simp_all add: json_column_fails)
  qed
qed

lemma attempts_run:
  assumes E: "sqlite_user_env_ok E" and R: "writers_rely E T G"
  shows "T (db s) \<Longrightarrow> version_attempts i (update_attempt E clock i p) ns s = (r, s') \<Longrightarrow>
    sql_calls s' \<le> sql_calls s + 2 * length ns \<and> (
      (\<exists>e. r = Err e) \<and> (T (db s') \<and> (s' = s \<or> G (db s) (db s')))
    \<or> (\<exists>u rows n. r = Ok u \<and> n \<in> set ns \<and> T rows \<and> G (db s) rows \<and> writes_patch E (clock n) p i rows u (db s')))"
proof (induction ns arbitrary: s)
  case (Cons n ns)
  obtain q t where q: "update_attempt E clock i p n s = (q, t)" by fastforce
  note a = attempt_run [OF E R Cons.prems(1) q]
  consider (none) "q = Ok None" "T (db t)" "G (db s) (db t)" | (fails) x where "q = Err (StoreError x)" "T (db t)" "G (db s) (db t)"
    | (won) u rows where "q = Ok (Some u)" "T rows" "G (db s) rows" "writes_patch E (clock n) p i rows u (db t)" using a by blast
  then show ?case
  proof cases
    case none
    then have "version_attempts i (update_attempt E clock i p) ns t = (r, s')" using Cons.prems(2) q by simp
    from Cons.IH [OF none(2) this] show ?thesis using a none transpD [OF writers_relyD(1) [OF R] none(3)] by (auto; blast)
  next
    case fails
    then show ?thesis using Cons.prems(2) q a by auto
  next
    case won
    then show ?thesis using Cons.prems(2) q a by auto
  qed
qed auto

end
