(* ===== verification/Sqlite_User_Contract.thy ===== *)
theory Sqlite_User_Contract
  imports Sqlite_User_Refine Paging
begin

text \<open>
  What the SQLite user adapter promises: an optimistic update among other writers, the user contract,
  and a listing that answers what the in-process store answers.
\<close>

section \<open>Among other writers\<close>

definition user_table :: "user_rows \<Rightarrow> bool" where
  "user_table rows \<longleftrightarrow> keyed c_id rows \<and> (\<forall>r \<in> set rows. 0 \<le> c_version r \<and> c_version r < 2 ^ 63)"

definition versions_grow :: "user_rows \<Rightarrow> user_rows \<Rightarrow> bool" where
  "versions_grow d d' \<longleftrightarrow> (\<forall>i r. lookup c_id d i = Some r \<longrightarrow> (\<exists>r'. lookup c_id d' i = Some r' \<and> (r' = r \<or> c_version r < c_version r')))"

definition writers_ok :: "sqlite_user_env \<Rightarrow> bool" where
  "writers_ok E \<longleftrightarrow> (\<forall>n d. user_table d \<longrightarrow> user_table (other_writers E n d) \<and> versions_grow d (other_writers E n d))"

lemma versions_grow_trans: "transp versions_grow"
proof (rule transpI)
  fix x y z assume g: "versions_grow x y" "versions_grow y z"
  show "versions_grow x z" unfolding versions_grow_def
  proof (intro allI impI)
    fix i r assume "lookup c_id x i = Some r"
    then obtain r' where r': "lookup c_id y i = Some r'" "r' = r \<or> c_version r < c_version r'" using g(1) unfolding versions_grow_def by blast
    then obtain r'' where "lookup c_id z i = Some r''" "r'' = r' \<or> c_version r' < c_version r''" using g(2) unfolding versions_grow_def by blast
    then show "\<exists>r'. lookup c_id z i = Some r' \<and> (r' = r \<or> c_version r < c_version r')" using r'(2) by auto
  qed
qed

lemma versions_grow_refl [simp]: "versions_grow d d"
  by (simp add: versions_grow_def)

lemma writers_ok_rely:
  assumes "writers_ok E"
  shows "writers_rely E user_table versions_grow"
proof -
  have "r' = r" if t: "user_table d" "lookup c_id d i = Some r" "lookup c_id (other_writers E n d) i = Some r'"
      "c_version r' = sint (word_of_int (c_version r) :: u64)" for n d i r r'
  proof -
    have "0 \<le> c_version r \<and> c_version r < 2 ^ 63" using t(1) lookup_Some [OF t(2)] by (auto simp: user_table_def)
    then have "c_version r' = c_version r" using t(4) by (simp add: signed_of_int signed_take_bit_int_eq_self)
    then show ?thesis using assms t(1-3) unfolding writers_ok_def versions_grow_def by (metis less_irrefl option.inject)
  qed
  then show ?thesis using assms versions_grow_trans unfolding writers_rely_def writers_ok_def user_table_def by blast
qed

text \<open>An update is itself such a writer.\<close>

lemma writes_patch_grows: "keyed c_id rows \<Longrightarrow> writes_patch E now p i rows u rows' \<Longrightarrow> keyed c_id rows' \<and> versions_grow rows rows'"
proof -
  assume k: "keyed c_id rows" and "writes_patch E now p i rows u rows'"
  then obtain r w where w: "lookup c_id rows i = Some r" "c_id w = i" "c_version w = c_version r + 1" "rows' = map (\<lambda>x. if c_id x = i then w else x) rows"
    by (auto simp: writes_patch_def)
  have key: "\<And>x. c_id (if c_id x = i then w else x) = c_id x" using w(2) by auto
  have "\<exists>r'. lookup c_id rows' j = Some r' \<and> (r' = q \<or> c_version q < c_version r')" if q: "lookup c_id rows j = Some q" for j q
    using w q lookup_Some [OF q] by (cases "j = i") (auto simp: lookup_map [of c_id, OF key])
  then show ?thesis using w(4) k by (auto simp: keyed_map [of c_id, OF key] versions_grow_def)
qed

section \<open>Alone with the table\<close>

definition alone :: "sqlite_user_env \<Rightarrow> bool" where
  "alone E \<longleftrightarrow> other_writers E = (\<lambda>_ d. d)"

lemma users_okD:
  assumes "users_ok E rows"
  shows "keyed c_id rows" "r \<in> set rows \<Longrightarrow> user_id_ok (c_id r)" "r \<in> set rows \<Longrightarrow> \<not> identity_taken r rows"
    "r \<in> set rows \<Longrightarrow> \<exists>u. row_to_user E r = Ok u \<and> c_created_at r = time_text (ucodec E) (u_created_at u)"
  using assms by (auto simp: users_ok_def user_row_ok_def)

lemma users_in_iff:
  assumes "users_ok E rows"
  shows "users_in E rows i = Some u \<longleftrightarrow> (\<exists>r. lookup c_id rows i = Some r \<and> row_to_user E r = Ok u)"
  by (auto simp: users_in_def bind_eq_Some_conv)

lemma users_in_None: "users_ok E rows \<Longrightarrow> users_in E rows i = None \<longleftrightarrow> lookup c_id rows i = None"
  using users_okD(4) lookup_Some by (cases "lookup c_id rows i") (fastforce simp: users_in_def)+

lemma users_in_row: "users_ok E rows \<Longrightarrow> r \<in> set rows \<Longrightarrow> row_to_user E r = Ok u \<Longrightarrow> users_in E rows (u_id u) = Some u"
  using users_okD(1) row_to_user_fields(1) by (auto simp: users_in_iff lookup_iff)

lemma alone_rely: "alone E \<Longrightarrow> writers_rely E (users_ok E) (=)"
  by (simp add: writers_rely_def alone_def users_okD(1) transp_def)

text \<open>What a patch written to a table does to its users.\<close>

lemma writes_patch_users:
  assumes "writes_patch E now p i rows u rows'"
  shows "\<exists>old. users_in E rows i = Some old \<and> u = patch_user now p old \<and> users_in E rows' = (users_in E rows)(i \<mapsto> u)"
proof -
  obtain r v w where w: "lookup c_id rows i = Some r" "row_to_user E r = Ok v" "u = patch_user now p v" "row_to_user E w = Ok u"
    "c_id w = i" "rows' = map (\<lambda>x. if c_id x = i then w else x) rows"
    using assms unfolding writes_patch_def by blast
  have key: "\<And>x. c_id (if c_id x = i then w else x) = c_id x" using w(5) by auto
  have "users_in E rows' j = ((users_in E rows)(i \<mapsto> u)) j" for j
    using lookup_Some [of c_id rows j] w(1,4)
    by (cases "lookup c_id rows j") (auto simp: users_in_def w(6) lookup_map [of c_id, OF key])
  then show ?thesis using w(1-3) by (auto simp: users_in_def)
qed

lemma patched_users:
  assumes ok: "users_ok E rows" and patch: "writes_patch E now p i rows u rows'"
  shows "users_ok E rows' \<and> users_in E rows' = (users_in E rows)(i \<mapsto> u) \<and> (\<exists>v. users_in E rows i = Some v \<and> u = patch_user now p v)"
proof -
  obtain r v w where w: "lookup c_id rows i = Some r" "row_to_user E r = Ok v" "u = patch_user now p v" "row_to_user E w = Ok u"
    "c_id w = i" "c_created_at w = c_created_at r" "\<not> identity_taken w rows" "rows' = map (\<lambda>x. if c_id x = i then w else x) rows"
    using patch unfolding writes_patch_def by blast
  have key: "\<And>x. c_id (if c_id x = i then w else x) = c_id x" using w(5) by auto
  have r: "r \<in> set rows" "c_id r = i" using lookup_Some [OF w(1)] by auto
  have w_ok: "user_row_ok E w" using users_okD(2,4) [OF ok r(1)] r(2) w(2-6) by (auto simp: user_row_ok_def patch_user_def)
  have free: "\<not> identity_taken x rows'" if "x \<in> set rows'" for x
  proof
    assume t: "identity_taken x rows'"
    then obtain y where y: "y \<in> set rows'" "c_id y \<noteq> c_id x" "c_external_id y = c_external_id x" "c_provider y = c_provider x"
      "c_status y \<noteq> ''deleted''" "c_status x \<noteq> ''deleted''" by (auto simp: identity_taken_def list_ex_iff)
    have in_rows: "z = w \<or> z \<in> set rows \<and> c_id z \<noteq> i" if "z \<in> set rows'" for z using that w(8) by (auto split: if_splits)
    show False using in_rows [OF y(1)] in_rows [OF that] y(2-6) w(5,7) users_okD(3) [OF ok, of x]
      by (auto simp: identity_taken_def list_ex_iff)
  qed
  have "users_ok E rows'" unfolding users_ok_def
    using users_okD(1) [OF ok] free w_ok ok w(8) by (auto simp: keyed_map [of c_id, OF key] users_ok_def)
  then show ?thesis using writes_patch_users [OF patch] by blast
qed

lemma sqlite_update_law:
  assumes E: "sqlite_user_env_ok E" "alone E" and i: "sqlite_users_inv E s" and r: "sqlite_update_user E (\<lambda>_. now) i p s = (r, s')"
  shows "sqlite_users_inv E s' \<and> (user_failed (sqlite_users_map E) r s s'
    \<or> (\<exists>u. sqlite_users_map E s i = Some u \<and> r = Ok (patch_user now p u) \<and> sqlite_users_map E s' = (sqlite_users_map E s)(i \<mapsto> patch_user now p u)))"
proof -
  have ok: "users_ok E (db s)" using i by (simp add: sqlite_users_inv_def)
  note a = attempts_run [OF E(1) alone_rely [OF E(2)] ok r [unfolded sqlite_update_user_def retry_on_version_conflict_def]]
  consider (fails) e where "r = Err e" "users_ok E (db s')" "s' = s \<or> db s = db s'"
    | (wins) u rows where "r = Ok u" "db s = rows" "writes_patch E now p i rows u (db s')" using a by blast
  then show ?thesis
  proof cases
    case fails
    then show ?thesis by (auto simp: sqlite_users_inv_def user_failed_def sqlite_users_map_def)
  next
    case wins
    then have "writes_patch E now p i (db s) u (db s')" by simp
    from patched_users [OF ok this] show ?thesis using wins(1) unfolding sqlite_users_inv_def sqlite_users_map_def by blast
  qed
qed

lemma sqlite_get_user_law:
  assumes E: "alone E" and i: "sqlite_users_inv E s" and r: "sqlite_get_user_by_id E i s = (r, s')"
  shows "sqlite_users_inv E s' \<and> (user_failed (sqlite_users_map E) r s s' \<or> r = Ok (sqlite_users_map E s i) \<and> sqlite_users_map E s' = sqlite_users_map E s)"
  using users_get_run [OF r] E i by (auto simp: alone_def sqlite_users_inv_def user_failed_def sqlite_users_map_def users_in_def)

lemma sqlite_ext_law:
  assumes E: "alone E" and i: "sqlite_users_inv E s" and r: "sqlite_get_user_by_external_id E x p s = (r, s')"
  shows "sqlite_users_inv E s' \<and> sqlite_users_map E s' = sqlite_users_map E s \<and> ((\<exists>e. r = Err e)
     \<or> r = Ok None \<and> (\<forall>i u. sqlite_users_map E s i = Some u \<longrightarrow> \<not> (u_external_id u = x \<and> u_provider u = p \<and> u_status u \<noteq> Deleted))
     \<or> (\<exists>u. r = Ok (Some u) \<and> sqlite_users_map E s (u_id u) = Some u \<and> u_external_id u = x \<and> u_provider u = p \<and> u_status u \<noteq> Deleted))"
proof -
  let ?P = "\<lambda>r. c_external_id r = x \<and> c_provider r = p \<and> c_status r \<noteq> ''deleted''"
  have ok: "users_ok E (db s)" using i by (simp add: sqlite_users_inv_def)
  obtain q t where q: "users_sql E (select (find ?P)) s = (q, t)" by fastforce
  have u: "(\<exists>e. q = Err e) \<and> db t = db s \<or> q = Ok (find ?P (db s)) \<and> db t = db s"
    using users_sql_run [OF q] E by (auto simp: select_def alone_def)
  consider (fails) e where "q = Err e" "db t = db s" | (none) "q = Ok None" "find ?P (db s) = None" "db t = db s"
    | (some) row where "q = Ok (Some row)" "find ?P (db s) = Some row" "db t = db s" using u by (cases "find ?P (db s)") auto
  then show ?thesis
  proof cases
    case fails
    then show ?thesis using r q ok by (auto simp: sqlite_get_user_by_external_id_def sqlite_users_inv_def sqlite_users_map_def)
  next
    case none
    have "\<not> (u_external_id v = x \<and> u_provider v = p \<and> u_status v \<noteq> Deleted)" if v: "users_in E (db s) j = Some v" for j v
    proof -
      obtain row where "row \<in> set (db s)" "row_to_user E row = Ok v" using v lookup_Some by (fastforce simp: users_in_iff [OF ok])
      then show ?thesis using none(2) row_to_user_fields(2-4) [of E row v] by (auto simp: find_None_iff)
    qed
    then show ?thesis using r q ok none by (simp add: sqlite_get_user_by_external_id_def opt_row_def sqlite_users_inv_def sqlite_users_map_def)
  next
    case (some row)
    then have row: "row \<in> set (db s)" "?P row" by (auto simp: find_Some_iff)
    obtain v where v: "row_to_user E row = Ok v" using users_okD(4) [OF ok row(1)] by blast
    show ?thesis using r q ok some v row(2) users_in_row [OF ok row(1) v] row_to_user_fields(2-4) [OF v]
      by (auto simp: sqlite_get_user_by_external_id_def opt_row_def sqlite_users_inv_def sqlite_users_map_def)
  qed
qed

lemma sqlite_create_law:
  assumes E: "sqlite_user_env_ok E" "alone E" and i: "sqlite_users_inv E s" and u: "ulid_ok ulid" and r: "sqlite_create_user E now ulid nu s = (r, s')"
  shows "sqlite_users_inv E s' \<and> (user_failed (sqlite_users_map E) r s s' \<or> (\<exists>u. r = Ok u \<and> sqlite_users_map E s' = (sqlite_users_map E s)(u_id u \<mapsto> u)
     \<and> u_external_id u = nu_external_id nu \<and> u_provider u = nu_provider nu \<and> u_status u = Active
     \<and> (\<forall>i v. sqlite_users_map E s i = Some v \<longrightarrow> \<not> (u_external_id v = nu_external_id nu \<and> u_provider v = nu_provider nu \<and> u_status v \<noteq> Deleted))))"
proof -
  let ?i = "''usr_'' @ to_lowercase (ulib E) ulid" and ?t = "time_text (ucodec E) now"
  define row where "row = \<lparr>c_id = ?i, c_external_id = nu_external_id nu, c_provider = nu_provider nu,
          c_email = nu_email nu, c_display_name = nu_display_name nu, c_metadata = ''{}'', c_claims = ''{}'', c_status = ''active'',
          c_version = 1, c_created_at = ?t, c_updated_at = ?t\<rparr>"
  define user where "user = \<lparr>u_id = ?i, u_external_id = nu_external_id nu, u_provider = nu_provider nu, u_email = nu_email nu,
           u_display_name = nu_display_name nu, u_metadata = [], u_claims = [], u_status = Active,
           u_version = INITIAL_USER_VERSION, u_created_at = now, u_updated_at = now\<rparr>"
  have run: "and_then (users_query E (insert_user row)) (\<lambda>_. ret user) (\<lambda>e. throw (if is_unique_violation e
           then Conflict (''user already exists for external_id='' @ nu_external_id nu @ '' provider='' @ nu_provider nu)
           else StoreError (sql_display (uengine E) e))) s = (r, s')"
    using r unfolding sqlite_create_user_def Let_def row_def user_def .
  have ok: "users_ok E (db s)" using i by (simp add: sqlite_users_inv_def)
  obtain q t where q: "users_query E (insert_user row) s = (q, t)" by fastforce
  have np: "insert_user row d \<noteq> Panic m" for d m by (simp add: insert_user_def)
  from users_query_run [OF q] E(2) np consider (fails) e where "q = Err e" "db t = db s"
    | (inserted) "q = Ok ()" "insert_user row (db s) = Ok ((), db t)" by (auto simp: alone_def)
  then show ?thesis
  proof cases
    case fails
    then have "s' = t \<and> (\<exists>e. r = Err e)" using run q by auto
    then show ?thesis using fails ok by (auto simp: sqlite_users_inv_def user_failed_def sqlite_users_map_def)
  next
    case inserted
    then have new: "lookup c_id (db s) ?i = None" and free: "\<not> identity_taken row (db s)" and d: "db t = db s @ [row]"
      by (auto simp: insert_user_def list_ex_lookup row_def split: if_splits)
    have r': "r = Ok user" "s' = t" using run q inserted by simp_all
    have ri: "c_id row = ?i" "c_external_id row = nu_external_id nu" "c_provider row = nu_provider nu" "c_status row = ''active''"
      by (simp_all add: row_def)
    have user: "row_to_user E row = Ok user"
      using E(1) by (simp add: row_to_user_def row_def user_def parse_column_def str_to_status_def sqlite_user_env_ok_def INITIAL_USER_VERSION_def)
    have "user_id_ok ?i" using ulid_lowercase(1) [OF u, where L = "ulib E"] ulid_lowercase(2) [OF u] by (auto simp: user_id_ok_def)
    then have "user_row_ok E row" using user by (simp add: user_row_ok_def) (simp add: row_def user_def)
    moreover have "\<not> identity_taken x (db s @ [row])" if "x \<in> set (db s @ [row])" for x
    proof (cases "x = row")
      case True
      then show ?thesis using free by (auto simp: identity_taken_def)
    next
      case False
      then have x: "x \<in> set (db s)" "c_id x \<noteq> ?i" using that new by (auto simp: lookup_None image_iff)
      then show ?thesis using free users_okD(3) [OF ok x(1)] ri by (auto simp: identity_taken_def list_ex_iff)
    qed
    ultimately have ok': "users_ok E (db s @ [row])" using ok new ri by (auto simp: users_ok_def keyed_snoc)
    have m: "users_in E (db s @ [row]) = (users_in E (db s))(?i \<mapsto> user)"
      using new user ri by (auto simp: fun_eq_iff users_in_def lookup_append split: option.splits)
    have none: "\<not> (u_external_id v = nu_external_id nu \<and> u_provider v = nu_provider nu \<and> u_status v \<noteq> Deleted)"
      if v: "users_in E (db s) j = Some v" for j v
    proof -
      obtain x where x: "lookup c_id (db s) j = Some x" "row_to_user E x = Ok v" using v by (auto simp: users_in_iff [OF ok])
      have "x \<in> set (db s)" "c_id x \<noteq> ?i" using lookup_Some [OF x(1)] new by (auto simp: lookup_None image_iff)
      then show ?thesis using free row_to_user_fields(2-4) [OF x(2)] ri by (auto simp: identity_taken_def list_ex_iff)
    qed
    have "u_id user = ?i" "u_external_id user = nu_external_id nu" "u_provider user = nu_provider nu" "u_status user = Active"
      by (simp_all add: user_def)
    then show ?thesis using r' d ok' m none by (simp add: sqlite_users_inv_def sqlite_users_map_def)
  qed
qed

theorem sqlite_refines_users:
  assumes "sqlite_user_env_ok E" "alone E"
  shows "user_repository (sqlite_user_port E) (sqlite_users_inv E) (sqlite_users_map E)"
proof (unfold_locales, unfold sqlite_user_port_def user_port.simps, goal_cases)
  case (1 s i u)
  then obtain r where "r \<in> set (db s)" "c_id r = i" "row_to_user E r = Ok u"
    using lookup_Some by (fastforce simp: sqlite_users_map_def sqlite_users_inv_def users_in_iff)
  then show ?case using 1 users_okD(2) row_to_user_fields(1) by (auto simp: sqlite_users_inv_def)
next
  case 2 then show ?case by (rule sqlite_get_user_law [OF assms(2)])
next
  case 3 then show ?case by (rule sqlite_ext_law [OF assms(2)])
next
  case 4 then show ?case by (intro sqlite_create_law [OF assms])
next
  case 5 then show ?case by (intro sqlite_update_law [OF assms])
qed

section \<open>The listing\<close>

text \<open>The table as the in-process store would hold it.\<close>

definition as_mock :: "sqlite_user_env \<Rightarrow> user_rows \<Rightarrow> mock_users" where
  "as_mock E rows = \<lparr>mu_users = map (\<lambda>r. (c_id r, ok_val (row_to_user E r))) rows\<rparr>"

lemma descending_unique:
  assumes "descending xs" "descending ys" "set xs = set ys"
  shows "xs = ys"
proof -
  have s: "sorted_wrt (\<lambda>a b. b < a) (map page_key xs)" "sorted_wrt (\<lambda>a b. b < a) (map page_key ys)"
    using assms by (simp_all add: sorted_wrt_map)
  then have "sorted_wrt (<) (rev (map page_key xs))" "sorted_wrt (<) (rev (map page_key ys))" by (simp_all add: sorted_wrt_rev)
  moreover have "set (rev (map page_key xs)) = set (rev (map page_key ys))" using assms(3) by simp
  ultimately have m: "map page_key xs = map page_key ys" by (metis strict_sorted_equal rev_is_rev_conv)
  have "inj_on page_key (set xs)"
  proof (rule inj_onI)
    fix a b assume "a \<in> set xs" "b \<in> set xs" and k: "page_key a = page_key b"
    then obtain i j where "i < length xs" "j < length xs" "a = xs ! i" "b = xs ! j" by (auto simp: in_set_conv_nth)
    then show "a = b" using assms(1) k by (metis less_irrefl nat_neq_iff sorted_wrt_iff_nth_less)
  qed
  then show ?thesis using m assms(3) by (metis inj_on_map_eq_map sup.idem)
qed

lemma listed_users:
  assumes E: "sqlite_user_env_ok E" and ok: "users_ok E rows"
  shows "map (\<lambda>r. ok_val (row_to_user E r)) (order_by_desc row_position (filter P rows))
     = filter (\<lambda>u. \<exists>r \<in> set rows. row_to_user E r = Ok u \<and> P r) (user_listing (as_mock E rows))"
    and "mock_users_ok (as_mock E rows)"
proof -
  define f where "f r = ok_val (row_to_user E r)" for r
  have f: "row_to_user E r = Ok (f r)" "c_created_at r = time_text (ucodec E) (u_created_at (f r))" "u_id (f r) = c_id r" if "r \<in> set rows" for r
    using users_okD(4) [OF ok that] row_to_user_fields(1) [of E r] by (auto simp: f_def)
  have c: "sql_codec_ok (ucodec E)" using E by (simp add: sqlite_user_env_ok_def)
  have key: "row_position a < row_position b \<longleftrightarrow> page_key (f a) < page_key (f b)" if "a \<in> set rows" "b \<in> set rows" for a b
    using f [OF that(1)] f [OF that(2)] c by (simp add: row_position_def page_key_def)
  have dist: "distinct (map c_id rows)" using users_okD(1) [OF ok] by (simp add: keyed_def)
  have keys: "hm_keys (mu_users (as_mock E rows)) = map c_id rows" by (simp add: as_mock_def hm_keys_def comp_def)
  have get: "hm_get (mu_users (as_mock E rows)) i = Some u \<longleftrightarrow> (\<exists>r \<in> set rows. c_id r = i \<and> u = f r)" for i u
  proof -
    have "hm_get (mu_users (as_mock E rows)) i = Some u \<longleftrightarrow> (i, u) \<in> set (mu_users (as_mock E rows))"
      unfolding hm_get_def by (rule map_of_eq_Some_iff) (use dist keys in \<open>simp add: hm_keys_def\<close>)
    then show ?thesis by (auto simp: as_mock_def f_def)
  qed
  show mok: "mock_users_ok (as_mock E rows)" unfolding mock_users_ok_def using dist keys get f(3) users_okD(2) [OF ok] by auto
  let ?o = "order_by_desc row_position (filter P rows)" and ?l = "filter (\<lambda>u. \<exists>r \<in> set rows. row_to_user E r = Ok u \<and> P r) (user_listing (as_mock E rows))"
  have "sorted_wrt (\<lambda>a b. row_position b \<le> row_position a) ?o" by (rule order_by_desc_sorted)
  moreover have "distinct (map row_position ?o)"
  proof -
    have "distinct (map c_id ?o)" using dist by (simp add: distinct_map distinct_map_filter) (auto intro: inj_on_subset)
    then show ?thesis by (auto simp: distinct_conv_nth row_position_def)
  qed
  ultimately have "sorted_wrt (\<lambda>a b. row_position b < row_position a) ?o"
    by (auto simp: sorted_wrt_iff_nth_less distinct_conv_nth order.order_iff_strict)
  then have "sorted_wrt (\<lambda>a b. page_key (f b) < page_key (f a)) ?o"
    by (rule sorted_wrt_mono_rel [rotated]) (use key in auto)
  then have "descending (map f ?o)" by (simp add: sorted_wrt_map)
  moreover have "descending ?l" by (rule sorted_wrt_filter [OF descending_listing(1) [OF mok]])
  moreover have "set (map f ?o) = set ?l"
    using f(1,3) by (auto simp: descending_listing(2) [OF mok] get)
  ultimately show "map (\<lambda>r. ok_val (row_to_user E r)) ?o = ?l" unfolding f_def [symmetric] by (rule descending_unique)
qed

definition list_position :: "sqlite_user_env \<Rightarrow> keyset_cursor option \<Rightarrow> user_row \<Rightarrow> bool" where
  "list_position E after r = (case after of None \<Rightarrow> True
     | Some p \<Rightarrow> c_created_at r < time_text (ucodec E) (kc_created_at p) \<or> c_created_at r = time_text (ucodec E) (kc_created_at p) \<and> c_id r < kc_id p)"

text \<open>What the statement fetched, given back as a page.\<close>

definition page_of_rows :: "sqlite_user_env \<Rightarrow> u32 \<Rightarrow> user_rows \<Rightarrow> (user_rows, user_page) sql" where
  "page_of_rows E limit rows = seqq (assert_that (int (length rows) \<le> uint limit + 1) ''SQLite returned more rows than the pushed LIMIT'')
      (let has_more = length rows > unat limit;
           page_rows = (if has_more then take (unat limit) rows else rows) in
       bindq (from_outcome (collect_all (row_to_user E) page_rows)) (\<lambda>users.
       if has_more then
         (if users = [] then panic ''a continued page is non-empty''
          else bindq (from_outcome (cursor_encode (ulib E) (ucursor E) \<lparr>kc_created_at = u_created_at (last users), kc_id = u_id (last users)\<rparr>))
            (\<lambda>c. ret \<lparr>page_users = users, next_cursor = Some c\<rparr>))
       else ret \<lparr>page_users = users, next_cursor = None\<rparr>))"

lemma fetch_limit: "uint (limit :: u32) + 1 = int (Suc (unat limit))"
  by simp

lemma sql_limit_int: "sql_limit (int k) = take k"
  by (rule ext) (simp add: sql_limit_def)

lemma sqlite_list_split:
  "1 \<le> limit \<Longrightarrow> limit \<le> MAX_ADMIN_PAGE_SIZE \<Longrightarrow> sqlite_list_users E cursor limit =
     bindq (from_outcome (case cursor of None \<Rightarrow> Ok None | Some raw \<Rightarrow> map_outcome Some (cursor_decode (ulib E) (ucursor E) raw))) (\<lambda>after.
     bindq (users_sql E (select (\<lambda>rows. take (Suc (unat limit)) (order_by_desc row_position (filter (list_position E after) rows))))) (page_of_rows E limit))"
proof -
  assume l: "1 \<le> limit" "limit \<le> MAX_ADMIN_PAGE_SIZE"
  have n: "sql_limit (uint limit + 1) = take (Suc (unat limit))" unfolding fetch_limit by (rule sql_limit_int)
  have q: "(case after of Some position \<Rightarrow> users_sql E (select (\<lambda>rows. take (Suc (unat limit)) (order_by_desc row_position
              (filter (\<lambda>r. c_created_at r < time_text (ucodec E) (kc_created_at position)
                 \<or> c_created_at r = time_text (ucodec E) (kc_created_at position) \<and> c_id r < kc_id position) rows))))
        | None \<Rightarrow> users_sql E (select (\<lambda>rows. take (Suc (unat limit)) (order_by_desc row_position rows))))
      = users_sql E (select (\<lambda>rows. take (Suc (unat limit)) (order_by_desc row_position (filter (list_position E after) rows))))" for "after"
    by (cases "after") (simp_all add: list_position_def [abs_def])
  show ?thesis unfolding sqlite_list_users_def Let_def n q page_of_rows_def [abs_def]
    using l by (simp only: simp_thms seqq_assert_True)
qed

lemma page_of_rows_run:
  assumes f: "\<forall>r \<in> set rows. row_to_user E r = Ok (f r)" and rows: "rows = take (Suc (unat limit)) all" and l: "1 \<le> limit"
  shows "page_of_rows E limit rows s = (
     if length all > unat limit then
       map_outcome (\<lambda>c. \<lparr>page_users = map f (take (unat limit) all), next_cursor = Some c\<rparr>)
         (cursor_encode (ulib E) (ucursor E) \<lparr>kc_created_at = u_created_at (last (map f (take (unat limit) all))), kc_id = u_id (last (map f (take (unat limit) all)))\<rparr>)
     else Ok \<lparr>page_users = map f all, next_cursor = None\<rparr>, s)"
proof -
  have n: "0 < unat limit" using l by (simp add: word_le_nat_alt)
  have a: "int (length rows) \<le> uint limit + 1" unfolding fetch_limit of_nat_le_iff using rows by simp
  have c: "collect_all (row_to_user E) xs = Ok (map f xs)" if "set xs \<subseteq> set rows" for xs
    using that f by (induction xs) auto
  have sub: "set (take (unat limit) rows) \<subseteq> set rows" by (rule set_take_subset)
  show ?thesis
  proof (cases "length all > unat limit")
    case True
    then have m: "length rows > unat limit" "take (unat limit) rows = take (unat limit) all" "take (unat limit) all \<noteq> []" using rows n by auto
    show ?thesis using True m c [OF sub] a
      by (cases "cursor_encode (ulib E) (ucursor E) \<lparr>kc_created_at = u_created_at (last (map f (take (unat limit) all))), kc_id = u_id (last (map f (take (unat limit) all)))\<rparr>")
        (simp_all add: page_of_rows_def Let_def)
  next
    case False
    then have m: "rows = all" using rows by simp
    show ?thesis using False m c [of rows] a by (simp add: page_of_rows_def Let_def)
  qed
qed

lemma mock_tail:
  "0 < n \<Longrightarrow> (if n < length us then
       (if take n us = [] then x else if length (take n us) \<noteq> n then y
        else case encode (take n us) of Ok c \<Rightarrow> (Ok \<lparr>page_users = take n us, next_cursor = Some c\<rparr>, m) | Err e \<Rightarrow> (Err e, m) | Panic q \<Rightarrow> (Panic q, m))
     else (Ok \<lparr>page_users = take n us, next_cursor = None\<rparr>, m))
   = (if n < length us then (map_outcome (\<lambda>c. \<lparr>page_users = take n us, next_cursor = Some c\<rparr>) (encode (take n us)), m)
     else (Ok \<lparr>page_users = us, next_cursor = None\<rparr>, m))"
  by (cases "encode (take n us)") auto

lemma sqlite_list_matches:
  assumes E: "sqlite_user_env_ok E" "alone E" and ok: "users_ok E (db s)" and l: "1 \<le> limit" "limit \<le> MAX_ADMIN_PAGE_SIZE"
    and r: "sqlite_list_users E cursor limit s = (r, s')"
  shows "db s' = db s \<and> ((\<exists>x. r = Err (StoreError x)) \<or> r = fst (mock_list_users (ulib E) (ucursor E) cursor limit (as_mock E (db s))))"
proof -
  define after where "after = (case cursor of None \<Rightarrow> Ok None | Some raw \<Rightarrow> map_outcome Some (cursor_decode (ulib E) (ucursor E) raw))"
  have n: "0 < unat limit" using l by (simp add: word_le_nat_alt)
  note run = r [unfolded sqlite_list_split [OF l] after_def [symmetric]]
  have mock: "mock_list_users (ulib E) (ucursor E) cursor limit m = (case after of Err e \<Rightarrow> (Err e, m) | Panic p \<Rightarrow> (Panic p, m)
      | Ok a \<Rightarrow> let remaining = (case a of None \<Rightarrow> user_listing m | Some pos \<Rightarrow> filter (\<lambda>u. page_key u < (kc_created_at pos, kc_id pos)) (user_listing m)) in
          if length remaining > unat limit then (map_outcome (\<lambda>c. \<lparr>page_users = take (unat limit) remaining, next_cursor = Some c\<rparr>)
             (cursor_encode (ulib E) (ucursor E) \<lparr>kc_created_at = u_created_at (last (take (unat limit) remaining)), kc_id = u_id (last (take (unat limit) remaining))\<rparr>), m)
          else (Ok \<lparr>page_users = remaining, next_cursor = None\<rparr>, m))" for m
    unfolding mock_list_users_def Let_def user_listing_def [symmetric] after_def [symmetric]
    by (cases "after") (simp_all only: outcome.case l simp_thms if_False
        mock_tail [OF n, where encode = "\<lambda>p. cursor_encode (ulib E) (ucursor E) \<lparr>kc_created_at = u_created_at (last p), kc_id = u_id (last p)\<rparr>"])
  show ?thesis
  proof (cases "after")
    case (Ok a)
    define all where "all = order_by_desc row_position (filter (list_position E a) (db s))"
    define f where "f r = ok_val (row_to_user E r)" for r
    have f: "row_to_user E r = Ok (f r)" if "r \<in> set (db s)" for r using users_okD(4) [OF ok that] by (auto simp: f_def)
    have sub: "set (take (Suc (unat limit)) all) \<subseteq> set (db s)" using set_take_subset [of "Suc (unat limit)" all] by (auto simp: all_def)
    have "\<forall>r \<in> set (take (Suc (unat limit)) all). row_to_user E r = Ok (f r)" using f sub by blast
    note run' = page_of_rows_run [OF this refl l(1)]
    have c: "sql_codec_ok (ucodec E)" using E by (simp add: sqlite_user_env_ok_def)
    have pos: "list_position E a q \<longleftrightarrow> (case a of None \<Rightarrow> True | Some pos \<Rightarrow> page_key (f q) < (kc_created_at pos, kc_id pos))" if "q \<in> set (db s)" for q
      using users_okD(4) [OF ok that] row_to_user_fields(1) [of E q] c
      by (auto simp: list_position_def page_key_def f_def time_text_eq split: option.splits)
    have "map f all = filter (\<lambda>u. \<exists>q \<in> set (db s). row_to_user E q = Ok u \<and> list_position E a q) (user_listing (as_mock E (db s)))"
      unfolding all_def f_def [abs_def] by (rule listed_users(1) [OF E(1) ok])
    also have "\<dots> = filter (\<lambda>u. case a of None \<Rightarrow> True | Some pos \<Rightarrow> page_key u < (kc_created_at pos, kc_id pos)) (user_listing (as_mock E (db s)))"
    proof (rule filter_cong [OF refl])
      fix u assume "u \<in> set (user_listing (as_mock E (db s)))"
      then obtain q where q: "q \<in> set (db s)" "u = f q" by (auto simp: user_listing_def as_mock_def f_def)
      have same: "q' = q" if q': "q' \<in> set (db s)" "row_to_user E q' = Ok u" for q'
      proof -
        have "c_id q' = c_id q" using row_to_user_fields(1) [OF q'(2)] row_to_user_fields(1) [OF f [OF q(1)]] q(2) by simp
        then have "lookup c_id (db s) (c_id q) = Some q'" "lookup c_id (db s) (c_id q) = Some q"
          using lookup_iff [OF users_okD(1) [OF ok]] q'(1) q(1) by simp_all
        then show ?thesis by simp
      qed
      have "(\<exists>q' \<in> set (db s). row_to_user E q' = Ok u \<and> list_position E a q') \<longleftrightarrow> list_position E a q"
        using same q f [OF q(1)] by blast
      then show "(\<exists>q \<in> set (db s). row_to_user E q = Ok u \<and> list_position E a q) = (case a of None \<Rightarrow> True | Some pos \<Rightarrow> page_key u < (kc_created_at pos, kc_id pos))"
        using pos [OF q(1)] unfolding q(2) by simp
    qed
    finally have listing: "map f all = (case a of None \<Rightarrow> user_listing (as_mock E (db s))
        | Some pos \<Rightarrow> filter (\<lambda>u. page_key u < (kc_created_at pos, kc_id pos)) (user_listing (as_mock E (db s))))"
      by (simp split: option.splits)
    obtain q t where q: "users_sql E (select (\<lambda>rows. take (Suc (unat limit)) (order_by_desc row_position (filter (list_position E a) rows)))) s = (q, t)" by fastforce
    have qt: "db t = db s \<and> ((\<exists>x. q = Err (StoreError x)) \<or> q = Ok (take (Suc (unat limit)) all))"
      using users_sql_run [OF q] E(2) by (auto simp: alone_def select_def all_def)
    have m: "fst (mock_list_users (ulib E) (ucursor E) cursor limit (as_mock E (db s))) = fst (page_of_rows E limit (take (Suc (unat limit)) all) t)"
      unfolding mock Ok outcome.case Let_def listing [symmetric] run' length_map take_map by simp
    have b: "bindq (users_sql E (select (\<lambda>rows. take (Suc (unat limit)) (order_by_desc row_position (filter (list_position E a) rows))))) (page_of_rows E limit) s = (r, s')"
      using run by (simp add: Ok)
    show ?thesis
    proof (cases "\<exists>x. q = Err (StoreError x)")
      case True
      then show ?thesis using b q qt by auto
    next
      case False
      then have "page_of_rows E limit (take (Suc (unat limit)) all) t = (r, s')" using b q qt by auto
      then show ?thesis using m run' [of t] qt by auto
    qed
  qed (use run mock in auto)
qed

lemma as_mock_users: "users_ok E rows \<Longrightarrow> hm_get (mu_users (as_mock E rows)) = users_in E rows"
proof (rule ext)
  fix i assume ok: "users_ok E rows"
  have "map_of (map (\<lambda>r. (c_id r, ok_val (row_to_user E r))) rows) i = map_option (\<lambda>r. ok_val (row_to_user E r)) (lookup c_id rows i)"
    by (induction rows) auto
  moreover have "\<exists>u. row_to_user E r = Ok u" if "lookup c_id rows i = Some r" for r using users_okD(4) [OF ok] lookup_Some [OF that] by blast
  ultimately show "hm_get (mu_users (as_mock E rows)) i = users_in E rows i"
    by (cases "lookup c_id rows i") (auto simp: as_mock_def hm_get_def users_in_def)
qed

end
