(* ===== verification/Sqlite_Properties.thy ===== *)
theory Sqlite_Properties
  imports Sqlite_User_Contract Example_Env
begin

text \<open>
  The SQLite adapter over a concrete engine: both contracts interpreted on it, and the properties of the
  adapter: it meets the contracts, its user update survives other writers, its listing is the listing of
  the in-process store.
\<close>

section \<open>A concrete engine\<close>

text \<open>Instants as text in the order of the instants: a shape that sorts like RFC 3339 does.\<close>

definition unary_time :: "instant \<Rightarrow> string" where
  "unary_time t = (if 0 \<le> t then CHR ''C'' # replicate (nat t) (CHR ''a'') else replicate (nat (- t)) (CHR ''A'') @ ''B'')"

definition read_unary :: "string \<Rightarrow> instant option" where
  "read_unary s = (case s of [] \<Rightarrow> None
     | c # cs \<Rightarrow> if c = CHR ''C'' then Some (int (length cs)) else Some (- int (length cs)))"

lemma replicate_less: "replicate n c < replicate m c \<longleftrightarrow> n < m" for c :: char
proof (induction n arbitrary: m)
  case 0 then show ?case by (cases m) auto
next
  case (Suc n) then show ?case by (cases m) auto
qed

lemma replicate_end_less: "a < b \<Longrightarrow> replicate n a @ [b] < replicate m a @ [b] \<longleftrightarrow> m < n" for a b :: char
proof (induction n arbitrary: m)
  case 0 then show ?case by (cases m) auto
next
  case (Suc n) then show ?case by (cases m) auto
qed

lemma unary_order: "unary_time t < unary_time u \<longleftrightarrow> t < u"
proof -
  have neg: "replicate (nat (- t)) (CHR ''A'') @ ''B'' < CHR ''C'' # s" if "t < 0" for t s
    using that by (cases "nat (- t)") (auto simp: less_char_def)
  have pos: "\<not> CHR ''C'' # s < replicate (nat (- t)) (CHR ''A'') @ ''B''" if "t < 0" for t s
    using neg [OF that, of s] by (metis not_less_iff_gr_or_eq)
  have ab: "CHR ''A'' < CHR ''B''" by (simp add: less_char_def)
  consider "0 \<le> t" "0 \<le> u" | "0 \<le> t" "u < 0" | "t < 0" "0 \<le> u" | "t < 0" "u < 0" by linarith
  then show ?thesis
    by cases (auto simp: unary_time_def replicate_less replicate_end_less [OF ab] neg pos)
qed

lemma unary_back: "read_unary (unary_time t) = Some t"
  by (cases "nat (- t)") (auto simp: unary_time_def read_unary_def)

definition ex_sql_codec :: sql_codec where
  "ex_sql_codec = \<lparr>time_text = unary_time, parse_time = read_unary,
       location_json = (\<lambda>l. Some (of_loc_field l)), parse_location = (\<lambda>s. Some (loc_field s))\<rparr>"

lemma ex_sql_codec_ok: "sql_codec_ok ex_sql_codec"
  by (simp add: sql_codec_ok_def ex_sql_codec_def unary_back unary_order)

text \<open>An engine that answers every seventh call with an error.\<close>

definition ex_engine :: sql_engine where
  "ex_engine = \<lparr>sql_fault = (\<lambda>n. if n mod 7 = 6 then Some \<lparr>se_code = None, se_text = ''database is locked''\<rparr> else None), sql_display = se_text\<rparr>"

definition ex_sql :: sqlite_env where
  "ex_sql = \<lparr>engine = ex_engine, scodec = ex_sql_codec, slib = ex_lib, sqlite_reuse_retention_secs = 86400\<rparr>"

text \<open>Of JSON objects this serializer only writes the empty one.\<close>

definition ex_sql_users :: "(nat \<Rightarrow> user_rows \<Rightarrow> user_rows) \<Rightarrow> sqlite_user_env" where
  "ex_sql_users others = \<lparr>uengine = ex_engine, other_writers = others, ucodec = ex_sql_codec,
     json_text = (\<lambda>m. case m of [] \<Rightarrow> Some ''{}'' | _ \<Rightarrow> None), parse_json = (\<lambda>s. if s = ''{}'' then Some [] else None),
     ulib = ex_lib, ucursor = ex_cursor\<rparr>"

lemma ex_sql_ok: "sqlite_env_ok ex_sql" "sqlite_user_env_ok (ex_sql_users others)" "alone (ex_sql_users (\<lambda>_ d. d))"
  using ex_sql_codec_ok ex_chrono_ok
  by (auto simp: sqlite_env_ok_def ex_sql_def sqlite_user_env_ok_def ex_sql_users_def alone_def split: list.splits)

interpretation sqlite: service_stores "sqlite_session_port ex_sql" "sqlite_inv ex_sql" "sqlite_families ex_sql" "sqlite_reuse_retention_secs ex_sql"
  "sqlite_user_port (ex_sql_users (\<lambda>_ d. d))" "sqlite_users_inv (ex_sql_users (\<lambda>_ d. d))" "sqlite_users_map (ex_sql_users (\<lambda>_ d. d))"
  unfolding service_stores_def
  by (intro conjI sqlite_refines_sessions sqlite_refines_users ex_sql_ok)

section \<open>The contracts\<close>

text \<open>C7. The SQLite adapter implements both stores the service runs on: its session half satisfies the
  twelve laws of the session contract (an operation keeps what the tables must satisfy and either reports
  a store error and leaves the families as they were, or has exactly the abstract effect) and its user half
  the user contract, whichever engine calls fail. Instants are text columns compared as text, so the text
  must sort as the instants do and be read back, as RFC 3339 is over the years it can write.\<close>

theorem sqlite_meets_contracts:
  assumes "sqlite_env_ok E" "sqlite_user_env_ok F" "alone F"
  shows "service_stores (sqlite_session_port E) (sqlite_inv E) (sqlite_families E) (sqlite_reuse_retention_secs E)
    (sqlite_user_port F) (sqlite_users_inv F) (sqlite_users_map F)"
  unfolding service_stores_def
  by (intro conjI sqlite_refines_sessions [OF assms(1)] sqlite_refines_users [OF assms(2,3)])

theorem sqlite_meets_contracts_witness:
  "service_stores (sqlite_session_port ex_sql) (sqlite_inv ex_sql) (sqlite_families ex_sql) (sqlite_reuse_retention_secs ex_sql)
    (sqlite_user_port (ex_sql_users (\<lambda>_ d. d))) (sqlite_users_inv (ex_sql_users (\<lambda>_ d. d))) (sqlite_users_map (ex_sql_users (\<lambda>_ d. d)))"
  by (rule sqlite_meets_contracts [OF ex_sql_ok])

section \<open>The optimistic update\<close>

text \<open>C8. An update of a user loses no concurrent write. Other writers may change the table before every
  statement, as long as a row that changes counts its version up (which an update itself does): if the
  update answers a user, then the table it wrote to is one the others had left, the answer is the patch of
  the user as it stood in that very table, and nothing else in that table changed; if it answers an error
  it wrote nothing; it never panics; and it makes at most ten calls of the engine, five attempts of a read
  and a conditional write.\<close>

theorem sqlite_update_loses_nothing:
  assumes "sqlite_user_env_ok E" "writers_ok E" "user_table (db s)" "sqlite_update_user E clock i p s = (r, s')"
  shows "sql_calls s' \<le> sql_calls s + 10
    \<and> (case r of
         Ok u \<Rightarrow> \<exists>rows n old. versions_grow (db s) rows \<and> n \<in> {1..5} \<and> users_in E rows i = Some old
           \<and> u = patch_user (clock n) p old \<and> users_in E (db s') = (users_in E rows)(i \<mapsto> u) \<and> versions_grow rows (db s')
       | Err e \<Rightarrow> versions_grow (db s) (db s')
       | Panic m \<Rightarrow> False)"
proof -
  note a = attempts_run [OF assms(1) writers_ok_rely [OF assms(2)] assms(3) assms(4) [unfolded sqlite_update_user_def retry_on_version_conflict_def]]
  have calls: "sql_calls s' \<le> sql_calls s + 10" using a by (simp add: UPDATE_MAX_ATTEMPTS_def)
  from a consider (fails) e where "r = Err e" "s' = s \<or> versions_grow (db s) (db s')"
    | (wins) u rows n where "r = Ok u" "n \<in> set [1..<Suc UPDATE_MAX_ATTEMPTS]" "user_table rows" "versions_grow (db s) rows"
      "writes_patch E (clock n) p i rows u (db s')" by blast
  then show ?thesis
  proof cases
    case fails
    then show ?thesis using calls by auto
  next
    case wins
    have n: "n \<in> {1..5}" using wins(2) by (auto simp: UPDATE_MAX_ATTEMPTS_def)
    have "keyed c_id rows" using wins(3) by (simp add: user_table_def)
    then have "versions_grow rows (db s')" using writes_patch_grows wins(5) by blast
    then show ?thesis using writes_patch_users [OF wins(5)] n wins(1,4) calls unfolding wins(1) outcome.case by blast
  qed
qed

definition ex_row :: user_row where
  "ex_row = \<lparr>c_id = ''usr_a'', c_external_id = ''x1'', c_provider = ''google'', c_email = None, c_display_name = None, c_metadata = ''{}'',
     c_claims = ''{}'', c_status = ''active'', c_version = 1, c_created_at = ''Caa'', c_updated_at = ''Caa''\<rparr>"

definition ex_table :: "user_rows sql_state" where
  "ex_table = \<lparr>db = [ex_row, ex_row\<lparr>c_id := ''usr_b'', c_external_id := ''x2'', c_created_at := ''Caaa''\<rparr>], tx = [], sql_calls = 0\<rparr>"

text \<open>Another writer renames every user between the read and the first write.\<close>

definition ex_rename :: "nat \<Rightarrow> user_rows \<Rightarrow> user_rows" where
  "ex_rename n rows = (if n = 1 then map (\<lambda>r. if c_version r < 1000 then r\<lparr>c_display_name := Some ''B'', c_version := c_version r + 1\<rparr> else r) rows else rows)"

lemma ex_rename_ok: "writers_ok (ex_sql_users ex_rename)"
proof -
  let ?f = "\<lambda>r. if c_version r < 1000 then r\<lparr>c_display_name := Some ''B'', c_version := c_version r + 1\<rparr> else r"
  have key: "\<And>r. c_id (?f r) = c_id r" by simp
  have "user_table (map ?f d) \<and> versions_grow d (map ?f d)" if "user_table d" for d
    using that unfolding user_table_def versions_grow_def keyed_map [of c_id, OF key] lookup_map [of c_id, OF key] by auto
  then show ?thesis by (simp add: writers_ok_def ex_sql_users_def ex_rename_def)
qed

abbreviation ex_mail_patch :: user_patch where
  "ex_mail_patch \<equiv> \<lparr>p_email = Some ''a@b'', p_display_name = None, p_metadata = None, p_claims = None, p_status = None\<rparr>"

theorem sqlite_update_loses_nothing_witness:
  "\<exists>u s'. sqlite_update_user (ex_sql_users ex_rename) (\<lambda>n. 5 + int n) ''usr_a'' ex_mail_patch ex_table = (Ok u, s')
    \<and> u_email u = Some ''a@b'' \<and> u_display_name u = Some ''B'' \<and> u_updated_at u = 7
    \<and> users_in (ex_sql_users ex_rename) (db s') ''usr_a'' = Some u \<and> versions_grow (db ex_table) (db s')"
proof -
  let ?run = "sqlite_update_user (ex_sql_users ex_rename) (\<lambda>n. 5 + int n) ''usr_a'' ex_mail_patch ex_table"
  have v: "case fst ?run of Ok u \<Rightarrow> u_email u = Some ''a@b'' \<and> u_display_name u = Some ''B'' \<and> u_updated_at u = 7 | _ \<Rightarrow> False"
    by code_simp
  then obtain u s' where r: "?run = (Ok u, s')" "u_email u = Some ''a@b''" "u_display_name u = Some ''B''" "u_updated_at u = 7"
    by (cases ?run) (auto split: outcome.splits)
  have t: "user_table (db ex_table)" by (simp add: user_table_def keyed_def ex_table_def ex_row_def)
  from sqlite_update_loses_nothing [OF ex_sql_ok(2) ex_rename_ok t r(1)]
  have "users_in (ex_sql_users ex_rename) (db s') ''usr_a'' = Some u" "versions_grow (db ex_table) (db s')"
    using versions_grow_trans by (auto dest: transpD)
  then show ?thesis using r by blast
qed

section \<open>The listing\<close>

text \<open>C38. The SQL listing is the listing of the reference store: the keyset query, its pushed limit and
  the extra row it fetches answer, for every cursor and page size the service lets through, exactly what
  the in-process store holding the same users answers (the same users, the same next cursor, the same
  refusals), or a store error; and it writes nothing.\<close>

theorem sqlite_listing_matches:
  assumes "sqlite_user_env_ok E" "alone E" "users_ok E (db s)" "1 \<le> limit" "limit \<le> MAX_ADMIN_PAGE_SIZE"
    and "sqlite_list_users E cursor limit s = (r, s')"
  shows "db s' = db s \<and> hm_get (mu_users (as_mock E (db s))) = users_in E (db s)
    \<and> ((\<exists>x. r = Err (StoreError x)) \<or> r = fst (mock_list_users (ulib E) (ucursor E) cursor limit (as_mock E (db s))))"
  using sqlite_list_matches [OF assms] as_mock_users [OF assms(3)] by blast

theorem sqlite_listing_matches_witness:
  "\<exists>p s'. sqlite_list_users (ex_sql_users (\<lambda>_ d. d)) None 1 ex_table = (Ok p, s')
    \<and> fst (mock_list_users ex_lib ex_cursor None 1 (as_mock (ex_sql_users (\<lambda>_ d. d)) (db ex_table))) = Ok p
    \<and> map u_id (page_users p) = [''usr_b''] \<and> next_cursor p \<noteq> None"
proof -
  let ?E = "ex_sql_users (\<lambda>_ d. d)"
  let ?run = "sqlite_list_users ?E None 1 ex_table"
  have v: "case fst ?run of Ok p \<Rightarrow> map u_id (page_users p) = [''usr_b''] \<and> next_cursor p \<noteq> None | _ \<Rightarrow> False" by code_simp
  then obtain p s' where r: "?run = (Ok p, s')" "map u_id (page_users p) = [''usr_b'']" "next_cursor p \<noteq> None"
    by (cases ?run) (auto split: outcome.splits)
  have "list_all (\<lambda>r. user_id_ok (c_id r) \<and> \<not> identity_taken r (db ex_table) \<and> (case row_to_user ?E r of
      Ok u \<Rightarrow> c_created_at r = unary_time (u_created_at u) | _ \<Rightarrow> False)) (db ex_table) \<and> distinct (map c_id (db ex_table))" by code_simp
  then have c: "distinct (map c_id (db ex_table))" "\<And>r. r \<in> set (db ex_table) \<Longrightarrow> user_id_ok (c_id r) \<and> \<not> identity_taken r (db ex_table)
      \<and> (case row_to_user ?E r of Ok u \<Rightarrow> c_created_at r = unary_time (u_created_at u) | _ \<Rightarrow> False)"
    by (simp_all add: list_all_iff)
  have tt: "time_text (ucodec ?E) = unary_time" by (simp add: ex_sql_users_def ex_sql_codec_def)
  have "user_row_ok ?E r" if "r \<in> set (db ex_table)" for r
    using c(2) [OF that] tt by (cases "row_to_user ?E r") (simp_all add: user_row_ok_def)
  then have ok: "users_ok ?E (db ex_table)" using c by (simp add: users_ok_def keyed_def)
  have l: "1 \<le> (1 :: u32)" "(1 :: u32) \<le> MAX_ADMIN_PAGE_SIZE" by (simp_all add: MAX_ADMIN_PAGE_SIZE_def)
  have e: "ulib ?E = ex_lib" "ucursor ?E = ex_cursor" by (simp_all add: ex_sql_users_def)
  from sqlite_listing_matches [OF ex_sql_ok(2,3) ok l r(1)]
  have "Ok p = fst (mock_list_users ex_lib ex_cursor None 1 (as_mock ?E (db ex_table)))" unfolding e by blast
  then show ?thesis using r by metis
qed

end
