(* ===== verification/Sqlite_Schema.thy ===== *)
theory Sqlite_Schema
  imports Sql
begin

text \<open>
  Opening the SQLite pool (\<open>create_pool\<close> of \<open>crates/adapters/src/sqlite/mod.rs\<close>): the migration batch, run
  statement by statement, and the columns added to tables older than they are. The lemmas say that a
  pool that opens has every column the adapter binds, keeps the columns there were, and that opening
  again changes nothing.
\<close>

section \<open>Schema\<close>

record schema =
  columns_of :: "string \<rightharpoonup> string list"
  index_of :: "string \<rightharpoonup> string"

datatype ddl = Create_Table string "string list" | Drop_Index string | Create_Index string string | Add_Column string string

text \<open>With \<open>IF NOT EXISTS\<close> and \<open>IF EXISTS\<close>; \<open>ADD COLUMN\<close> has no such form.\<close>

fun run_ddl :: "ddl \<Rightarrow> (schema, unit) statement" where
  "run_ddl (Create_Table t cs) d = Ok ((), if columns_of d t = None then d\<lparr>columns_of := (columns_of d)(t \<mapsto> cs)\<rparr> else d)"
| "run_ddl (Drop_Index n) d = Ok ((), d\<lparr>index_of := (index_of d)(n := None)\<rparr>)"
| "run_ddl (Create_Index n on_rows) d = Ok ((), if index_of d n = None then d\<lparr>index_of := (index_of d)(n \<mapsto> on_rows)\<rparr> else d)"
| "run_ddl (Add_Column t c) d = (case columns_of d t of
     None \<Rightarrow> Err \<lparr>se_code = Some ''1'', se_text = ''no such table: '' @ t\<rparr>
   | Some cs \<Rightarrow> if c \<in> set cs then Err \<lparr>se_code = Some ''1'', se_text = ''duplicate column name: '' @ c\<rparr>
       else Ok ((), d\<lparr>columns_of := (columns_of d)(t \<mapsto> cs @ [c])\<rparr>))"

definition user_columns :: "string list" where
  "user_columns = [''id'', ''external_id'', ''provider'', ''email'', ''display_name'', ''metadata'', ''claims'', ''status'', ''version'',
     ''created_at'', ''updated_at'']"

definition session_table_columns :: "string list" where
  "session_table_columns = [''refresh_token_hash'', ''user_id'', ''family_id'', ''generation'', ''provider'', ''expires_at'', ''rotated_at'',
     ''device_id'', ''user_agent'', ''ip_address'', ''location'', ''created_at'']"

definition live_identity_index :: string where
  "live_identity_index = ''users(external_id, provider) WHERE status != '' @ [CHR 0x27] @ ''deleted'' @ [CHR 0x27]"

definition MIGRATIONS :: "ddl list" where
  "MIGRATIONS = [Create_Table ''users'' user_columns,
     Drop_Index ''idx_users_external_id_provider'',
     Create_Index ''idx_users_external_id_provider'' live_identity_index,
     Create_Table ''sessions'' session_table_columns,
     Create_Index ''idx_sessions_user_id'' ''sessions(user_id)'',
     Create_Table ''retired_refresh_tokens'' [''refresh_token_hash'', ''family_id'', ''user_id'', ''successor_hash'', ''retired_at'', ''expires_at''],
     Create_Index ''idx_retired_family'' ''retired_refresh_tokens (family_id)'',
     Create_Index ''idx_retired_expires_at'' ''retired_refresh_tokens (expires_at)'',
     Create_Table ''single_use'' [''key'', ''expires_at''],
     Create_Index ''idx_single_use_expires_at'' ''single_use(expires_at)'']"

definition SESSION_FAMILY_COLUMNS :: "string list" where
  "SESSION_FAMILY_COLUMNS = [''family_id'', ''generation'', ''rotated_at'', ''location'']"

primrec run_all :: "sql_engine \<Rightarrow> ddl list \<Rightarrow> (schema, unit) sql" where
  "run_all G [] = ret ()"
| "run_all G (x # xs) = seqq (query G On_Pool (run_ddl x)) (run_all G xs)"

definition has_column :: "string \<Rightarrow> string \<Rightarrow> schema \<Rightarrow> bool" where
  "has_column t c d = (case columns_of d t of None \<Rightarrow> False | Some cs \<Rightarrow> c \<in> set cs)"

definition ensure_column :: "sql_engine \<Rightarrow> string \<Rightarrow> string \<Rightarrow> (schema, unit) sql" where
  "ensure_column G t c = bindq (query G On_Pool (select (has_column t c))) (\<lambda>present.
     if present then ret () else query G On_Pool (run_ddl (Add_Column t c)))"

definition ensure_version_column :: "sql_engine \<Rightarrow> (schema, unit) sql" where
  "ensure_version_column G = ensure_column G ''users'' ''version''"

primrec ensure_columns :: "sql_engine \<Rightarrow> string \<Rightarrow> string list \<Rightarrow> (schema, unit) sql" where
  "ensure_columns G t [] = ret ()"
| "ensure_columns G t (c # cs) = seqq (ensure_column G t c) (ensure_columns G t cs)"

definition ensure_session_family_columns :: "sql_engine \<Rightarrow> (schema, unit) sql" where
  "ensure_session_family_columns G = ensure_columns G ''sessions'' SESSION_FAMILY_COLUMNS"

definition sqlite_create_pool :: "sql_engine \<Rightarrow> (schema, unit) sql" where
  "sqlite_create_pool G = seqq (run_all G MIGRATIONS) (seqq (ensure_version_column G) (ensure_session_family_columns G))"

section \<open>What opening leaves\<close>

text \<open>Successful runs, as a function of the schema.\<close>

definition leaves :: "(schema, unit) sql \<Rightarrow> (schema \<Rightarrow> schema) \<Rightarrow> bool" where
  "leaves m f \<longleftrightarrow> (\<forall>s s'. m s = (Ok (), s') \<longrightarrow> db s' = f (db s))"

lemma leavesD: "leaves m f \<Longrightarrow> m s = (Ok (), s') \<Longrightarrow> db s' = f (db s)"
  by (simp add: leaves_def)

definition after_ddl :: "ddl \<Rightarrow> schema \<Rightarrow> schema" where
  "after_ddl x d = (case run_ddl x d of Ok (_, d') \<Rightarrow> d' | _ \<Rightarrow> d)"

definition with_column :: "string \<Rightarrow> string \<Rightarrow> schema \<Rightarrow> schema" where
  "with_column t c d = (if has_column t c d then d else after_ddl (Add_Column t c) d)"

lemma query_ok:
  assumes "query G On_Pool f s = (Ok x, s')"
  shows "\<exists>d. f (db s) = Ok (x, d) \<and> db s' = d"
  using assms by (auto simp: query_def query_raw_def sql_err_def sql_call_def run_on_def prog_defs split: option.splits outcome.splits prod.splits)

lemma leaves_ddl: "leaves (query G On_Pool (run_ddl x)) (after_ddl x)"
  by (auto simp: leaves_def after_ddl_def dest: query_ok)

lemma leaves_seqq: "leaves m f \<Longrightarrow> leaves k g \<Longrightarrow> leaves (seqq m k) (g \<circ> f)"
  unfolding leaves_def seqq_def by (fastforce elim!: bindq_cases)

lemma leaves_run_all: "leaves (run_all G xs) (fold after_ddl xs)"
proof (induction xs)
  case (Cons x xs)
  then show ?case using leaves_seqq [OF leaves_ddl Cons] by (simp add: comp_def)
qed (simp add: leaves_def)

lemma leaves_ensure: "leaves (ensure_column G t c) (with_column t c)"
proof -
  have "db s' = with_column t c (db s)" if r: "ensure_column G t c s = (Ok (), s')" for s s'
  proof -
    obtain q u where q: "query G On_Pool (select (has_column t c)) s = (q, u)" by fastforce
    with r obtain b where b: "q = Ok b" by (cases q) (auto simp: ensure_column_def)
    then have u: "b = has_column t c (db s)" "db u = db s" using query_ok q by (fastforce simp: select_def)+
    show ?thesis using r q b u leavesD [OF leaves_ddl, of G "Add_Column t c" u s']
      by (cases b) (auto simp: ensure_column_def with_column_def)
  qed
  then show ?thesis by (simp add: leaves_def)
qed

lemma leaves_ensure_columns: "leaves (ensure_columns G t cs) (fold (with_column t) cs)"
proof (induction cs)
  case (Cons c cs)
  then show ?case using leaves_seqq [OF leaves_ensure Cons] by (simp add: comp_def)
qed (simp add: leaves_def)

definition opened :: "schema \<Rightarrow> schema" where
  "opened d = fold (with_column ''sessions'') SESSION_FAMILY_COLUMNS (with_column ''users'' ''version'' (fold after_ddl MIGRATIONS d))"

lemma create_pool_leaves: "sqlite_create_pool G s = (Ok (), s') \<Longrightarrow> db s' = opened (db s)"
  using leavesD [OF leaves_seqq [OF leaves_run_all leaves_seqq [OF leaves_ensure leaves_ensure_columns]]]
  by (simp add: sqlite_create_pool_def ensure_version_column_def ensure_session_family_columns_def opened_def)

text \<open>
  Whatever stood before: the tables there were keep their columns in place and gain only columns of the
  list, a table the adapter needs exists, and the identity index is the one over live users.
\<close>

definition columns_grow :: "schema \<Rightarrow> schema \<Rightarrow> bool" where
  "columns_grow d d' \<longleftrightarrow> (\<forall>t cs. columns_of d t = Some cs \<longrightarrow> (\<exists>more. columns_of d' t = Some (cs @ more)))"

lemma columns_grow_trans: "columns_grow a b \<Longrightarrow> columns_grow b c \<Longrightarrow> columns_grow a c"
  unfolding columns_grow_def by fastforce

lemma columns_grow_ddl: "columns_grow d (after_ddl x d)"
  by (cases x) (auto simp: columns_grow_def after_ddl_def split: option.splits)

lemma columns_grow_with: "columns_grow d (with_column t c d)"
  using columns_grow_ddl [of d "Add_Column t c"] by (auto simp: with_column_def columns_grow_def)

lemma columns_grow_fold: "(\<And>x d. columns_grow d (f x d)) \<Longrightarrow> columns_grow d (fold f xs d)"
proof (induction xs arbitrary: d)
  case (Cons x xs)
  show ?case using columns_grow_trans [OF Cons.prems [of d x] Cons.IH [OF Cons.prems]] by simp
qed (simp add: columns_grow_def)

lemma opened_grows: "columns_grow d (opened d)"
  unfolding opened_def
  by (rule columns_grow_trans [OF columns_grow_fold [OF columns_grow_ddl] columns_grow_trans [OF columns_grow_with columns_grow_fold [OF columns_grow_with]]])

lemma has_column_grow: "columns_grow d d' \<Longrightarrow> has_column t c d \<Longrightarrow> has_column t c d'"
  by (fastforce simp: columns_grow_def has_column_def split: option.splits)

lemma with_column_has: "columns_of d t \<noteq> None \<Longrightarrow> has_column t c (with_column t c d)"
  by (auto simp: with_column_def has_column_def after_ddl_def split: option.splits)

lemma fold_with_has: "columns_of d t \<noteq> None \<Longrightarrow> c \<in> set cs \<Longrightarrow> has_column t c (fold (with_column t) cs d)"
proof (induction cs arbitrary: d)
  case (Cons a cs)
  have g: "columns_of (with_column t a d) t \<noteq> None" using columns_grow_with [of d t a] Cons.prems(1) by (force simp: columns_grow_def)
  show ?case
  proof (cases "c \<in> set cs")
    case True
    then show ?thesis using Cons.IH [OF g] by simp
  next
    case False
    then have "has_column t c (with_column t a d)" using with_column_has [OF Cons.prems(1)] Cons.prems(2) by simp
    then show ?thesis using has_column_grow [OF columns_grow_fold [OF columns_grow_with]] by simp
  qed
qed simp

text \<open>What the batch creates.\<close>

lemma ddl_creates_table:
  "Create_Table t cs \<in> set xs \<Longrightarrow> columns_of (fold after_ddl xs d) t \<noteq> None"
proof (induction xs arbitrary: d)
  case (Cons x xs)
  show ?case
  proof (cases "x = Create_Table t cs")
    case True
    then have "columns_of (after_ddl x d) t \<noteq> None" by (auto simp: after_ddl_def)
    then show ?thesis using columns_grow_fold [of after_ddl "after_ddl x d" xs] columns_grow_ddl by (force simp: columns_grow_def)
  next
    case False
    then show ?thesis using Cons by simp
  qed
qed simp

lemma ddl_keeps_index: "Drop_Index n \<notin> set xs \<Longrightarrow> index_of d n = Some p \<Longrightarrow> index_of (fold after_ddl xs d) n = Some p"
proof (induction xs arbitrary: d)
  case (Cons x xs)
  have "index_of (after_ddl x d) n = Some p" using Cons.prems by (cases x) (auto simp: after_ddl_def split: option.splits)
  then show ?case using Cons by simp
qed simp

lemma ddl_creates_index:
  "Create_Index n p \<in> set xs \<Longrightarrow> Drop_Index n \<notin> set xs \<Longrightarrow> index_of (fold after_ddl xs d) n \<noteq> None"
proof (induction xs arbitrary: d)
  case (Cons x xs)
  show ?case
  proof (cases "x = Create_Index n p")
    case True
    then obtain q where "index_of (after_ddl x d) n = Some q" by (cases "index_of d n") (auto simp: after_ddl_def)
    then show ?thesis using ddl_keeps_index [of n xs "after_ddl x d" q] Cons.prems(2) by simp
  next
    case False
    then show ?thesis using Cons by simp
  qed
qed simp

lemma migrations_split: "MIGRATIONS = [Create_Table ''users'' user_columns] @ [Drop_Index ''idx_users_external_id_provider'',
    Create_Index ''idx_users_external_id_provider'' live_identity_index] @ drop 3 MIGRATIONS"
  by (simp add: MIGRATIONS_def)

lemma migrated:
  "columns_of (fold after_ddl MIGRATIONS d) ''users'' \<noteq> None"
  "columns_of (fold after_ddl MIGRATIONS d) ''sessions'' \<noteq> None"
  "columns_of (fold after_ddl MIGRATIONS d) ''retired_refresh_tokens'' \<noteq> None"
  "columns_of (fold after_ddl MIGRATIONS d) ''single_use'' \<noteq> None"
  "index_of (fold after_ddl MIGRATIONS d) ''idx_sessions_user_id'' \<noteq> None"
  "index_of (fold after_ddl MIGRATIONS d) ''idx_retired_family'' \<noteq> None"
  "index_of (fold after_ddl MIGRATIONS d) ''idx_retired_expires_at'' \<noteq> None"
  "index_of (fold after_ddl MIGRATIONS d) ''idx_single_use_expires_at'' \<noteq> None"
  "index_of (fold after_ddl MIGRATIONS d) ''idx_users_external_id_provider'' = Some live_identity_index"
proof -
  show "columns_of (fold after_ddl MIGRATIONS d) ''users'' \<noteq> None"
    by (rule ddl_creates_table [where cs = "user_columns"]) (simp add: MIGRATIONS_def)
  show "columns_of (fold after_ddl MIGRATIONS d) ''sessions'' \<noteq> None"
    by (rule ddl_creates_table [where cs = "session_table_columns"]) (simp add: MIGRATIONS_def)
  show "columns_of (fold after_ddl MIGRATIONS d) ''retired_refresh_tokens'' \<noteq> None"
    by (rule ddl_creates_table [where cs = "[''refresh_token_hash'', ''family_id'', ''user_id'', ''successor_hash'', ''retired_at'', ''expires_at'']"]) (simp add: MIGRATIONS_def)
  show "columns_of (fold after_ddl MIGRATIONS d) ''single_use'' \<noteq> None"
    by (rule ddl_creates_table [where cs = "[''key'', ''expires_at'']"]) (simp add: MIGRATIONS_def)
  show "index_of (fold after_ddl MIGRATIONS d) ''idx_sessions_user_id'' \<noteq> None"
    by (rule ddl_creates_index [where p = "''sessions(user_id)''"]) (simp_all add: MIGRATIONS_def)
  show "index_of (fold after_ddl MIGRATIONS d) ''idx_retired_family'' \<noteq> None"
    by (rule ddl_creates_index [where p = "''retired_refresh_tokens (family_id)''"]) (simp_all add: MIGRATIONS_def)
  show "index_of (fold after_ddl MIGRATIONS d) ''idx_retired_expires_at'' \<noteq> None"
    by (rule ddl_creates_index [where p = "''retired_refresh_tokens (expires_at)''"]) (simp_all add: MIGRATIONS_def)
  show "index_of (fold after_ddl MIGRATIONS d) ''idx_single_use_expires_at'' \<noteq> None"
    by (rule ddl_creates_index [where p = "''single_use(expires_at)''"]) (simp_all add: MIGRATIONS_def)
  have pair: "index_of (fold after_ddl [Drop_Index ''idx_users_external_id_provider'', Create_Index ''idx_users_external_id_provider'' live_identity_index] e)
      ''idx_users_external_id_provider'' = Some live_identity_index" for e
    by (simp add: after_ddl_def)
  show "index_of (fold after_ddl MIGRATIONS d) ''idx_users_external_id_provider'' = Some live_identity_index"
    by (subst migrations_split, unfold fold_append comp_apply, rule ddl_keeps_index [OF _ pair]) (simp add: MIGRATIONS_def)
qed

lemma index_of_with [simp]: "index_of (with_column t c d) = index_of d"
  by (auto simp: with_column_def after_ddl_def split: option.splits)

lemma index_of_fold_with [simp]: "index_of (fold (with_column t) cs d) = index_of d"
  by (induction cs arbitrary: d) simp_all

theorem opened_schema:
  "has_column ''users'' ''version'' (opened d)" "c \<in> set SESSION_FAMILY_COLUMNS \<Longrightarrow> has_column ''sessions'' c (opened d)"
  "index_of (opened d) ''idx_users_external_id_provider'' = Some live_identity_index"
proof -
  let ?m = "fold after_ddl MIGRATIONS d" and ?v = "with_column ''users'' ''version'' (fold after_ddl MIGRATIONS d)"
  show "has_column ''users'' ''version'' (opened d)" unfolding opened_def
    by (rule has_column_grow [OF columns_grow_fold [OF columns_grow_with] with_column_has [OF migrated(1)]])
  have "columns_of ?v ''sessions'' \<noteq> None" using columns_grow_with [of ?m "''users''" "''version''"] migrated(2) [of d] by (force simp: columns_grow_def)
  then show "c \<in> set SESSION_FAMILY_COLUMNS \<Longrightarrow> has_column ''sessions'' c (opened d)" unfolding opened_def by (rule fold_with_has)
  show "index_of (opened d) ''idx_users_external_id_provider'' = Some live_identity_index" unfolding opened_def by (simp add: migrated)
qed

text \<open>Opening again changes nothing.\<close>

lemma with_column_same: "has_column t c d \<Longrightarrow> with_column t c d = d"
  by (simp add: with_column_def)

lemma fold_with_same: "(\<And>c. c \<in> set cs \<Longrightarrow> has_column t c d) \<Longrightarrow> fold (with_column t) cs d = d"
  by (induction cs) (simp_all add: with_column_same)

definition migrated_schema :: "schema \<Rightarrow> bool" where
  "migrated_schema d \<longleftrightarrow> list_all (\<lambda>t. columns_of d t \<noteq> None) [''users'', ''sessions'', ''retired_refresh_tokens'', ''single_use'']
     \<and> list_all (\<lambda>n. index_of d n \<noteq> None) [''idx_sessions_user_id'', ''idx_retired_family'', ''idx_retired_expires_at'', ''idx_single_use_expires_at'']
     \<and> index_of d ''idx_users_external_id_provider'' = Some live_identity_index"

definition done_already :: "schema \<Rightarrow> ddl \<Rightarrow> bool" where
  "done_already d x = (case x of Create_Table t _ \<Rightarrow> columns_of d t \<noteq> None | Create_Index n _ \<Rightarrow> index_of d n \<noteq> None | _ \<Rightarrow> False)"

lemma ddl_done: "\<forall>x \<in> set xs. done_already d x \<Longrightarrow> fold after_ddl xs d = d"
proof (induction xs)
  case (Cons x xs)
  have "after_ddl x d = d" using Cons.prems by (cases x) (auto simp: done_already_def after_ddl_def)
  then show ?case using Cons by simp
qed simp

lemma migrated_again:
  assumes "migrated_schema d"
  shows "fold after_ddl MIGRATIONS d = d"
proof -
  have first: "fold after_ddl [Create_Table ''users'' user_columns] d = d"
    by (rule ddl_done) (use assms in \<open>simp add: migrated_schema_def done_already_def\<close>)
  have pair: "fold after_ddl [Drop_Index ''idx_users_external_id_provider'', Create_Index ''idx_users_external_id_provider'' live_identity_index] d = d"
    using assms by (simp add: migrated_schema_def after_ddl_def fun_upd_idem)
  have rest: "fold after_ddl (drop 3 MIGRATIONS) d = d"
    by (rule ddl_done) (use assms in \<open>simp add: migrated_schema_def done_already_def MIGRATIONS_def\<close>)
  show ?thesis by (subst migrations_split) (simp only: fold_append comp_apply first pair rest)
qed

lemma migrated_ddl: "migrated_schema (fold after_ddl MIGRATIONS d)"
  using migrated [of d] unfolding migrated_schema_def by (simp del: fold_simps)

lemma opened_migrated: "migrated_schema (opened d)"
proof -
  have "columns_grow (fold after_ddl MIGRATIONS d) (opened d)" unfolding opened_def
    by (rule columns_grow_trans [OF columns_grow_with columns_grow_fold [OF columns_grow_with]])
  then have "columns_of (fold after_ddl MIGRATIONS d) t \<noteq> None \<Longrightarrow> columns_of (opened d) t \<noteq> None" for t by (force simp: columns_grow_def)
  moreover have "index_of (opened d) = index_of (fold after_ddl MIGRATIONS d)" by (simp add: opened_def)
  ultimately show ?thesis using migrated_ddl [of d] by (simp add: migrated_schema_def)
qed

theorem opening_idempotent: "opened (opened d) = opened d"
  unfolding opened_def [of "opened d"] migrated_again [OF opened_migrated]
  using opened_schema by (simp add: with_column_same fold_with_same)

end
