(* ===== verification/Spec2Isabelle.thy ===== *)
theory Spec2Isabelle
  imports Service_Properties Admin_Properties Limit_Properties Domain_Properties Config_Properties
    Loading_Properties Plane_Properties Throttle_Properties Sqlite_Properties Sqlite_Schema
begin

text \<open>
  A verification development of the OIDC token-exchange service: a Rust workspace that exchanges a
  credential of an identity provider for its own access and refresh tokens, rotates the refresh
  tokens, revokes them, and administers users and sessions over a second plane.

  \<^bold>\<open>The program and its parts.\<close> The core crate (\<open>crates/core\<close>) holds the domain types, the ports and
  the application service. The adapters crate (\<open>crates/adapters\<close>) implements the ports: stores, keys,
  audit sinks, limiters. The server crate (\<open>crates/server\<close>) loads the configuration, wires the service
  and serves two HTTP planes. A request runs through the layers of its plane, a handler, one operation
  of the service, and the ports. The theories follow that order from the bottom up.

  \<^item> Foundations. \<open>Prelude\<close>: outcomes (\<open>Ok\<close>, \<open>Err\<close>, \<open>Panic\<close>), programs as state transformers, the
    named collections of lemmas every later proof simplifies with. \<open>Results\<close>: fallible pure code.
    \<open>Rust_Strings\<close>: strings as their bytes. \<open>Third_Party\<close>: the crates the code calls, as a record of
    functions (\<open>lib\<close>), and JSON.
  \<^item> Domain (\<open>core/src/domain\<close>, \<open>error.rs\<close>). \<open>Domain_Error\<close>, \<open>Domain_Session\<close>, \<open>Domain_User\<close>,
    \<open>Domain_Audit\<close>, \<open>Claims\<close>, \<open>Durations\<close>.
  \<^item> Ports (\<open>core/src/ports/repository.rs\<close>). \<open>Session_Port\<close> and \<open>User_Port\<close> have each trait as a
    record of operations and its contract as a locale: \<open>session_repository\<close> over the abstract store of
    token families, \<open>user_repository\<close> over the map of users. \<open>Service_Wp\<close> joins them into
    \<open>service_stores\<close> and gives the calculus the service's proofs use.
  \<^item> Service (\<open>core/src/service\<close>). \<open>Service\<close> (\<open>mod.rs\<close>: the ports, audit emission, durability),
    \<open>Access_Token\<close>, \<open>Assertion\<close>, \<open>Exchange\<close> with \<open>Exchange_Runs\<close>, \<open>Refresh\<close>, \<open>Revoke\<close>, \<open>User_Admin\<close>,
    \<open>Paging\<close>.
  \<^item> LMDB sessions (\<open>adapters/src/lmdb/mod.rs\<close>). \<open>Lmdb_Store\<close> has the twelve operations over a model
    of the \<open>heed\<close> transactions with faults; \<open>Lmdb_View\<close>, \<open>Lmdb_Runs\<close>, \<open>Lmdb_Refine\<close>, \<open>Lmdb_Loops\<close>,
    \<open>Lmdb_Sweep\<close> and \<open>Lmdb_Live\<close> prove that they meet the port's contract.
  \<^item> SQLite (\<open>adapters/src/sqlite/mod.rs\<close>). \<open>Sql\<close> is the engine as \<open>sqlx\<close> offers it: tables as lists of rows,
    statements that may fail, transactions on a working copy. \<open>Sqlite_Sessions\<close> and \<open>Sqlite_Users\<close> have the
    rows and the operations of the two ports, \<open>Sqlite_Refine\<close>, \<open>Sqlite_User_Refine\<close> and
    \<open>Sqlite_User_Contract\<close> prove the contracts, \<open>Sqlite_Schema\<close> has the migrations at opening.
  \<^item> Limiters (\<open>server/src/middleware/throttle.rs\<close>, \<open>adapters/src/rate_limit/mod.rs\<close>). \<open>Rate_Limit\<close>.
  \<^item> Configuration (\<open>core/src/config.rs\<close>, the loading half of \<open>server/src/bootstrap.rs\<close>).
    \<open>Config_Values\<close> (closed domains), \<open>Config_Raw\<close> (the serde shape), \<open>Config\<close> (resolution),
    \<open>Config_Sound\<close>; \<open>Placeholders\<close> and \<open>Placeholder_Proofs\<close> (variables of the environment, the merge onto
    the defaults).
  \<^item> HTTP (\<open>server/src\<close>). \<open>Operator_Auth\<close> (the mechanisms and the gate), \<open>Http\<close> (error mapping,
    layers, client addresses), \<open>Routes\<close> (handlers), \<open>Admin_Plane\<close> with \<open>Gate_Proofs\<close> (the
    authentication layer and the internal routes), \<open>Wiring\<close> (which adapters a configuration gives a
    role), \<open>Planes\<close> (route tables, routers, the public layers).
  \<^item> \<open>Example_Env\<close> is a concrete environment, an executable stand-in for every parameter; the witnesses
    run in it.

  \<^bold>\<open>How the code is modelled.\<close> A struct is a record, an enum a datatype, an integer a word of its width,
  a string its list of bytes, a hash map an association list. An operation of the service is a program
  over \<open>world\<close>: the stores, the limiter, the log of attempted and delivered audit events, the
  synchronisation calls, and a tick that indexes the clock, the random source and the faults of every
  call that leaves the process. An \<open>assert!\<close>, an \<open>expect\<close> or an \<open>unreachable!\<close> is the outcome \<open>Panic\<close>;
  \<open>catch_panic\<close> is the only definition that turns one into an answer.

  \<^bold>\<open>What the lemmas show.\<close>
  \<^item> Refresh (\<open>Refresh\<close>, applied in \<open>Example_Env\<close>): a family keeps at most one live generation, rotation
    replaces the presented one, and a generation presented again after its grace revokes the family.
  \<^item> Storage (\<open>Properties\<close>): the LMDB adapter refines the abstract store under any faults of \<open>heed\<close>, makes
    progress without them, and its batched sweep removes nothing that is live. \<open>Sqlite_Properties\<close>: the
    SQLite adapter refines both stores, its optimistic user update loses no write of another writer, and
    its keyset listing is that of the in-process store. \<open>Sqlite_Schema\<close>: a pool that opened has every
    column the adapter needs, and opening twice is opening once.
  \<^item> Tokens, assertions, audit (\<open>Properties\<close>): what a validated token establishes, that a minted one
    validates, that an accepted assertion is spent, when a lost audit record fails the operation.
  \<^item> Exchange and revocation (\<open>Service_Properties\<close>): the gates before a session, the invariants kept, the one
    terminal event, what a revocation reaches.
  \<^item> Administration (\<open>Admin_Properties\<close>) and listings (\<open>Domain_Properties\<close>): each mutation's effect
    on users and sessions; the pages of a listing together are the listing.
  \<^item> Limits (\<open>Limit_Properties\<close>): the fixed window's budget, the two phases of the lockout.
  \<^item> Configuration (\<open>Config_Properties\<close>, \<open>Loading_Properties\<close>): what a resolved configuration guarantees,
    that resolution answers every file, that placeholders fail closed, that a file overrides leaf by
    leaf.
  \<^item> The HTTP surface (\<open>Gate_Properties\<close>, \<open>Plane_Properties\<close>, \<open>Throttle_Properties\<close>): who reaches an
    internal handler and how often a peer may guess, the separation of the planes, the closed forms of
    the token endpoint, the address a client is counted under, the redaction of error answers, the
    throttle and the bound on requests in flight. Some theorems here state defects, such as the
    forwarding header that is cut from the wrong end (\<open>padded_header_forges\<close>).

  \<^bold>\<open>Parameters and hypotheses.\<close> Code outside the repository is an argument: \<open>lib\<close> (hashing, base64,
  serde, chrono, constant-time comparison), \<open>heed\<close>, the key manager, the identity providers, the
  synchronisation endpoint, the audit sink, the JSON parser and the address parsers (\<open>net_lib\<close>). The
  hypotheses on them are documented behaviour: \<open>chrono_ok\<close> (adding seconds to an instant is
  exact or panics), \<open>b64_ok\<close> (decoding inverts encoding), \<open>ct_ok\<close> (the
  comparison is equality), \<open>heed_ok\<close> and the codec round trips of the LMDB and SQLite
  records; \<open>sql_codec_ok\<close> also has rendered instants sort as the instants do, which RFC
  3339 text in UTC does for the years 0 to 9999. The session contract leaves open what happens at the
  very instant an entry expires: LMDB counts it as expired there, SQLite neither sweeps it nor counts it
  as live. The example environment satisfies each.

  \<^bold>\<open>Bounds.\<close> Every loop of the source is structural recursion or has a termination proof; only the client
  that follows page after page (\<open>Paging\<close>) is given fuel, and \<open>admin_listing_complete\<close> shows that one
  page more than the users is enough. Words keep their width, so wrap-around and saturation
  are those of the code; sums the code guards by \<open>checked_add\<close> or by a validated bound are proved not
  to wrap where a theorem needs it.

  \<^bold>\<open>Not modelled, and why.\<close> The DynamoDB, PostgreSQL and Valkey adapters, whose logic is
  conditional writes, queries and scripts those engines execute; KMS and local keys (cryptography of other crates); the identity
  providers with discovery, JWKS and HTTP transport; the sinks for audit and synchronisation; process
  entry points, telemetry, shutdown, access log; the foreign-function bindings. Of the modelled parts:
  two service operations run one after the other, never interleaved between their port calls (the
  requests in flight are interleaved in \<open>shed_step\<close>, the statements of a SQLite user update with those of
  other writers in \<open>other_writers\<close>); the request timeout, which drops a future
  at an await, is left out; serde's error texts are abbreviated; log lines and start-up warnings have
  no counterpart; an arithmetic overflow is modelled where the code guards it or wraps on purpose.
\<close>

end
